(* ===== verification/Prelude.thy ===== *)
theory Prelude
  imports Main "HOL-Library.Word"
begin

unbundle bit_operations_syntax

text \<open>
  Shared material of the development: the machine types of the C code, the collections of rewrite
  rules the components add to, bit-level extensionality for words of the widths the code uses, and
  the lemmas on byte lists, on cutting a message into blocks and on nested updates that several
  components need.
\<close>

section \<open>Machine types\<close>

text \<open>
  \<open>unsigned char\<close>, \<open>sph_u32\<close> and \<open>sph_u64\<close> (also \<open>uint32_t\<close> and \<open>uint64_t\<close> of the miner). The type
  \<open>unsigned\<close> of the C code is 32 bits wide on every platform the build supports.
\<close>

type_synonym u8 = "8 word"
type_synonym u32 = "32 word"
type_synonym u64 = "64 word"
type_synonym bytes = "u8 list"

section \<open>Collections\<close>

named_theorems bits_simps \<open>rules that decide a word equation bit by bit\<close>

section \<open>Words, bit by bit\<close>

lemma all_less_numeral [bits_simps]:
  "(\<forall>n < numeral k. P n) \<longleftrightarrow> P (pred_numeral k) \<and> (\<forall>n < pred_numeral k. P n)"
  by (simp add: numeral_eq_Suc All_less_Suc)

lemma bit_beyond_length [bits_simps]:
  "LENGTH('a) \<le> n \<Longrightarrow> \<not> bit (w :: 'a::len word) n"
  using bit_imp_le_length leD by blast

declare bit_simps [bits_simps]

lemma word8_eqI: "(\<forall>n<8. bit x n = bit y n) \<Longrightarrow> x = (y :: u8)"
  by (rule bit_word_eqI) simp

lemma word32_eqI: "(\<forall>n<32. bit x n = bit y n) \<Longrightarrow> x = (y :: u32)"
  by (rule bit_word_eqI) simp

lemma word64_eqI: "(\<forall>n<64. bit x n = bit y n) \<Longrightarrow> x = (y :: u64)"
  by (rule bit_word_eqI) simp

text \<open>A rotation written with two shifts, as every C macro for it is.\<close>

lemma shift_pair_rotl:
  assumes "0 < n" and "n < LENGTH('a)"
  shows "push_bit n x OR drop_bit (LENGTH('a) - n) x = word_rotl n (x :: 'a::len word)"
proof (rule bit_word_eqI)
  fix i assume i: "i < LENGTH('a)"
  show "bit (push_bit n x OR drop_bit (LENGTH('a) - n) x) i = bit (word_rotl n x) i"
  proof (cases "i < n")
    case True
    then have "(i + (LENGTH('a) - n)) mod LENGTH('a) = LENGTH('a) - n + i"
      using assms by (simp add: add.commute)
    with True i assms show ?thesis by (simp add: bit_simps)
  next
    case False
    then have eq: "i + (LENGTH('a) - n) = LENGTH('a) + (i - n)" using assms by simp
    have "(i + (LENGTH('a) - n)) mod LENGTH('a) = i - n"
      unfolding eq mod_add_self1 using i by (intro mod_less) simp
    moreover have "\<not> bit x (LENGTH('a) - n + i)"
      using False assms by (intro bit_beyond_length) simp
    ultimately show ?thesis using False i assms by (simp add: bit_simps)
  qed
qed

section \<open>Memory\<close>

text \<open>
  Writing \<open>src\<close> over the bytes of \<open>buf\<close> from \<open>off\<close> on: \<open>memcpy(buf + off, src, n)\<close> with \<open>src\<close> the
  \<open>n\<close> bytes copied, and \<open>memset(buf + off, 0, n)\<close> with \<open>src\<close> a run of \<open>n\<close> zero bytes.
\<close>

definition mem_write :: "'a list \<Rightarrow> nat \<Rightarrow> 'a list \<Rightarrow> 'a list" where
  "mem_write buf off src = take off buf @ src @ drop (off + length src) buf"

lemma length_mem_write [simp]:
  "off + length src \<le> length buf \<Longrightarrow> length (mem_write buf off src) = length buf"
  by (simp add: mem_write_def)

lemma take_mem_write [simp]:
  "off \<le> length buf \<Longrightarrow> take (off + length src) (mem_write buf off src) = take off buf @ src"
  by (simp add: mem_write_def)

lemma take_mem_write_before [simp]:
  "k \<le> off \<Longrightarrow> off \<le> length buf \<Longrightarrow> take k (mem_write buf off src) = take k buf"
  by (simp add: mem_write_def min_def)

lemma mem_write_Nil [simp]: "mem_write buf off [] = buf"
  by (simp add: mem_write_def)

lemma mem_write_full: "length src = length buf \<Longrightarrow> mem_write buf 0 src = src"
  by (simp add: mem_write_def)

lemma mem_write_to_end:
  "off + length src = length buf \<Longrightarrow> mem_write buf off src = take off buf @ src"
  by (simp add: mem_write_def)

section \<open>Cutting a message into blocks\<close>

text \<open>The complete blocks of \<open>n\<close> elements at the start of a list; what is left after them.\<close>

function blocks :: "nat \<Rightarrow> 'a list \<Rightarrow> 'a list list" where
  "blocks n xs = (if n = 0 \<or> length xs < n then [] else take n xs # blocks n (drop n xs))"
  by pat_completeness auto
termination
  by (relation "measure (\<lambda>(n, xs). length xs)") auto

declare blocks.simps [simp del]

definition partial_block :: "nat \<Rightarrow> 'a list \<Rightarrow> 'a list" where
  "partial_block n xs = drop (length xs div n * n) xs"

lemma blocks_short [simp]: "length xs < n \<Longrightarrow> blocks n xs = []"
  by (simp add: blocks.simps)

lemma blocks_one: "0 < n \<Longrightarrow> length xs = n \<Longrightarrow> blocks n xs = [xs]"
  by (simp add: blocks.simps)

lemma blocks_Cons: "0 < n \<Longrightarrow> length x = n \<Longrightarrow> blocks n (x @ ys) = x # blocks n ys"
  by (subst blocks.simps) simp

lemma blocks_append:
  assumes "0 < n" and "n dvd length xs"
  shows "blocks n (xs @ ys) = blocks n xs @ blocks n ys"
  using assms
proof (induction n xs rule: blocks.induct)
  case (1 n xs)
  show ?case
  proof (cases "length xs < n")
    case True
    with "1.prems" have "xs = []" by (auto dest: dvd_imp_le)
    with "1.prems" show ?thesis by simp
  next
    case False
    with "1.prems" have "n dvd length (drop n xs)" by simp
    with False "1.prems" "1.IH" show ?thesis
      by (subst (1 2) blocks.simps) (simp add: not_less)
  qed
qed

lemma length_blocks: "0 < n \<Longrightarrow> length (blocks n xs) = length xs div n"
proof (induction n xs rule: blocks.induct)
  case (1 n xs)
  then show ?case
    by (cases "length xs < n") (auto simp: blocks.simps [of n xs] not_less le_div_geq)
qed

lemma in_blocks_length: "b \<in> set (blocks n xs) \<Longrightarrow> length b = n"
proof (induction n xs rule: blocks.induct)
  case (1 n xs)
  then show ?case by (cases "n = 0 \<or> length xs < n") (auto simp: blocks.simps [of n xs])
qed

lemma length_partial_block [simp]: "length (partial_block n xs) = length xs mod n"
  by (simp add: partial_block_def minus_div_mult_eq_mod)

lemma partial_block_less: "length xs < n \<Longrightarrow> partial_block n xs = xs"
  by (simp add: partial_block_def)

lemma partial_block_full: "0 < n \<Longrightarrow> length xs = n \<Longrightarrow> partial_block n xs = []"
  by (simp add: partial_block_def)

lemma blocks_partial: "0 < n \<Longrightarrow> concat (blocks n xs) @ partial_block n xs = xs"
proof (induction n xs rule: blocks.induct)
  case (1 n xs)
  show ?case
  proof (cases "length xs < n")
    case True
    then show ?thesis by (simp add: partial_block_def)
  next
    case False
    then have "partial_block n xs = partial_block n (drop n xs)"
      using "1.prems" by (simp add: partial_block_def not_less le_div_geq add.commute)
    with False "1" show ?thesis by (simp add: blocks.simps [of n xs])
  qed
qed

text \<open>Appending data to a message whose last block is not complete.\<close>

lemma split_at_block:
  assumes "0 < n"
  obtains h where "xs = h @ partial_block n xs" and "n dvd length h" and "blocks n h = blocks n xs"
    and "\<And>ys. blocks n (xs @ ys) = blocks n xs @ blocks n (partial_block n xs @ ys)"
    and "\<And>ys. partial_block n (xs @ ys) = partial_block n (partial_block n xs @ ys)"
proof
  let ?h = "take (length xs div n * n) xs"
  show eq: "xs = ?h @ partial_block n xs" by (simp add: partial_block_def)
  have len: "length ?h = length xs div n * n"
    by (simp only: length_take min.absorb2 div_times_less_eq_dividend)
  then show dvd: "n dvd length ?h" by simp
  have "blocks n (?h @ partial_block n xs) = blocks n ?h @ blocks n (partial_block n xs)"
    using assms dvd by (rule blocks_append)
  then show b: "blocks n ?h = blocks n xs" using assms eq by simp
  show "blocks n (xs @ ys) = blocks n xs @ blocks n (partial_block n xs @ ys)" for ys
    using blocks_append [OF assms dvd, of "partial_block n xs @ ys"] eq b by (metis append_assoc)
  show "partial_block n (xs @ ys) = partial_block n (partial_block n xs @ ys)" for ys
  proof -
    have "xs @ ys = ?h @ (partial_block n xs @ ys)" using eq by simp
    moreover have "partial_block n (?h @ zs) = partial_block n zs" for zs
      using assms len by (simp add: partial_block_def add.commute [of _ "length zs"] algebra_simps)
    ultimately show ?thesis by metis
  qed
qed

section \<open>Folds\<close>

text \<open>Two folds agree when their steps agree on the states that an invariant describes.\<close>

lemma foldl_invariant_cong:
  assumes "\<And>x b. P x \<Longrightarrow> b \<in> set bs \<Longrightarrow> f x b = g x b \<and> P (g x b)" and "P x"
  shows "foldl f x bs = foldl g x bs \<and> P (foldl g x bs)"
  using assms by (induction bs arbitrary: x) auto

text \<open>A loop unrolled \<open>k\<close> times.\<close>

lemma foldl_unrolled:
  assumes "\<And>x i. g x i = foldl f x [i..<i + k]"
  shows "foldl g x (map (\<lambda>j. k * j) [0..<n]) = foldl f x [0..<k * n]"
proof (induction n)
  case (Suc n)
  have "[0..<k * Suc n] = [0..<k * n] @ [k * n..<k * n + k]"
    using upt_add_eq_append [of 0 "k * n" k] by (simp add: add.commute)
  then show ?case using Suc assms by (simp del: upt_Suc add: upt_Suc_append)
qed simp

lemma upt_8: "[i..<i + 8] = [i, i + 1, i + 2, i + 3, i + 4, i + 5, i + 6, i + 7]"
  by (simp add: upt_conv_Cons)

section \<open>A window of 16 words\<close>

type_synonym 'w st16 =
  "'w \<times> 'w \<times> 'w \<times> 'w \<times> 'w \<times> 'w \<times> 'w \<times> 'w \<times> 'w \<times> 'w \<times> 'w \<times> 'w \<times> 'w \<times> 'w \<times> 'w \<times> 'w"

text \<open>Sixteen consecutive values of a sequence, as the hash functions keep them in 16 variables.\<close>

definition window :: "(nat \<Rightarrow> 'w) \<Rightarrow> nat \<Rightarrow> 'w st16" where
  "window S t = (S t, S (t + 1), S (t + 2), S (t + 3), S (t + 4), S (t + 5), S (t + 6), S (t + 7),
     S (t + 8), S (t + 9), S (t + 10), S (t + 11), S (t + 12), S (t + 13), S (t + 14), S (t + 15))"

lemma window_Suc:
  "window S (Suc t) = (S (t + 1), S (t + 2), S (t + 3), S (t + 4), S (t + 5), S (t + 6), S (t + 7), S (t + 8),
     S (t + 9), S (t + 10), S (t + 11), S (t + 12), S (t + 13), S (t + 14), S (t + 15), S (t + 16))"
  by (simp add: window_def eval_nat_numeral)

lemma st16_cases:
  obtains w0 w1 w2 w3 w4 w5 w6 w7 w8 w9 w10 w11 w12 w13 w14 w15
  where "w = (w0, w1, w2, w3, w4, w5, w6, w7, w8, w9, w10, w11, w12, w13, w14, w15)"
  by (metis surj_pair)

lemma upt_16: "[i..<i + 16] = [i, i + 1, i + 2, i + 3, i + 4, i + 5, i + 6, i + 7, i + 8, i + 9, i + 10, i + 11,
    i + 12, i + 13, i + 14, i + 15]"
  by (simp add: upt_conv_Cons)

text \<open>Moving a pair and a let out of the functions applied to them.\<close>

lemma Pair_case_prod: "(W, case p of (x, y) \<Rightarrow> g x y) = (case p of (x, y) \<Rightarrow> (W, g x y))"
  by (cases p) simp

lemma map_prod_let: "map_prod f g (let w = e in h w) = (let w = e in map_prod f g (h w))"
  by simp

lemma map_prod_case: "map_prod f g (case p of (x, y) \<Rightarrow> h x y) = (case p of (x, y) \<Rightarrow> map_prod f g (h x y))"
  by (cases p) simp

end
