(* ===== verification/Sph_Types.thy ===== *)
theory Sph_Types
  imports Prelude
begin

text \<open>
  \<open>sph_types.h\<close>: truncation and rotation macros, the detection of the target architecture, byte
  swapping, and the functions that write a 16-, 32- or 64-bit value into memory, or read it back, in
  a given byte order. Every branch that the preprocessor can select is modelled, except the inline
  assembly ones (bswap, lda, ldxa), whose C alternatives are the ones translated here. The theorems
  show that all the branches of a function agree with the byte order its name promises, and that
  reading inverts writing.
\<close>

section \<open>Truncation and rotation (lines 932-942)\<close>

definition SPH_T32 :: "u32 \<Rightarrow> u32" where
  "SPH_T32 x = x AND 0xFFFFFFFF"

definition SPH_ROTL32 :: "u32 \<Rightarrow> nat \<Rightarrow> u32" where
  "SPH_ROTL32 x n = SPH_T32 (push_bit n x OR drop_bit (32 - n) x)"

definition SPH_ROTR32 :: "u32 \<Rightarrow> nat \<Rightarrow> u32" where
  "SPH_ROTR32 x n = SPH_ROTL32 x (32 - n)"

definition SPH_T64 :: "u64 \<Rightarrow> u64" where
  "SPH_T64 x = x AND 0xFFFFFFFFFFFFFFFF"

definition SPH_ROTL64 :: "u64 \<Rightarrow> nat \<Rightarrow> u64" where
  "SPH_ROTL64 x n = SPH_T64 (push_bit n x OR drop_bit (64 - n) x)"

definition SPH_ROTR64 :: "u64 \<Rightarrow> nat \<Rightarrow> u64" where
  "SPH_ROTR64 x n = SPH_ROTL64 x (64 - n)"

section \<open>Architecture detection (lines 1000-1178)\<close>

text \<open>
  The macros the rest of the code looks at. \<open>SPH_UPTR\<close> is a type when it is defined; only whether it
  is defined matters here.
\<close>

record arch =
  SPH_UPTR :: bool
  SPH_UNALIGNED :: bool
  SPH_LITTLE_ENDIAN :: bool
  SPH_BIG_ENDIAN :: bool
  SPH_LITTLE_FAST :: bool
  SPH_BIG_FAST :: bool

text \<open>
  The predefined compiler macros that the \<open>#if\<close> chain tests, one constructor per branch, with the
  flags a branch looks at as arguments (gcc, sparc v9, the declared byte order, LP64 cannot be seen
  in the result). \<open>Other\<close> is a platform for which no branch applies.
\<close>

datatype platform =
    I386
  | AMD64
  | Sparc_arch64 (gnuc: bool)
  | Sparc32 (gnuc_v9: bool)
  | Arm_el
  | Mips_el
  | Mips_eb
  | PowerPC (ppc_be: bool) (ppc_le: bool)
  | Itanium (ia64_be: bool)
  | Other

definition no_arch :: arch where
  "no_arch = \<lparr>SPH_UPTR = False, SPH_UNALIGNED = False, SPH_LITTLE_ENDIAN = False,
     SPH_BIG_ENDIAN = False, SPH_LITTLE_FAST = False, SPH_BIG_FAST = False\<rparr>"

fun detect :: "platform \<Rightarrow> arch" where
  "detect I386 = no_arch\<lparr>SPH_UNALIGNED := True, SPH_LITTLE_ENDIAN := True, SPH_UPTR := True\<rparr>"
| "detect AMD64 = no_arch\<lparr>SPH_UNALIGNED := True, SPH_LITTLE_ENDIAN := True, SPH_UPTR := True\<rparr>"
| "detect (Sparc_arch64 g) = no_arch\<lparr>SPH_BIG_ENDIAN := True, SPH_UPTR := True, SPH_LITTLE_FAST := g\<rparr>"
| "detect (Sparc32 g) = no_arch\<lparr>SPH_BIG_ENDIAN := True, SPH_UPTR := True, SPH_LITTLE_FAST := g\<rparr>"
| "detect Arm_el = no_arch\<lparr>SPH_LITTLE_ENDIAN := True\<rparr>"
| "detect Mips_el = no_arch\<lparr>SPH_LITTLE_ENDIAN := True\<rparr>"
| "detect Mips_eb = no_arch\<lparr>SPH_BIG_ENDIAN := True\<rparr>"
| "detect (PowerPC be le) =
     (if be then no_arch\<lparr>SPH_BIG_ENDIAN := True\<rparr>
      else if le then no_arch\<lparr>SPH_LITTLE_ENDIAN := True\<rparr>
      else no_arch)"
| "detect (Itanium be) =
     (if be then no_arch\<lparr>SPH_BIG_ENDIAN := True, SPH_UPTR := True\<rparr>
      else no_arch\<lparr>SPH_LITTLE_ENDIAN := True, SPH_UPTR := True\<rparr>)"
| "detect Other = no_arch"

text \<open>Lines 1169-1174: a native byte order is a fast one.\<close>

definition set_fast :: "arch \<Rightarrow> arch" where
  "set_fast a =
     (let a = (if SPH_LITTLE_ENDIAN a then a\<lparr>SPH_LITTLE_FAST := True\<rparr> else a)
      in if SPH_BIG_ENDIAN a then a\<lparr>SPH_BIG_FAST := True\<rparr> else a)"

definition arch_of :: "platform \<Rightarrow> arch" where
  "arch_of p = set_fast (detect p)"

text \<open>The \<open>#error\<close> of lines 1176-1178.\<close>

definition arch_error :: "arch \<Rightarrow> bool" where
  "arch_error a \<longleftrightarrow> SPH_UPTR a \<and> \<not> (SPH_LITTLE_ENDIAN a \<or> SPH_BIG_ENDIAN a)"

text \<open>What the rest of the header needs of an architecture: no \<open>#error\<close>, and one byte order at most.\<close>

definition arch_ok :: "arch \<Rightarrow> bool" where
  "arch_ok a \<longleftrightarrow> \<not> arch_error a \<and> \<not> (SPH_LITTLE_ENDIAN a \<and> SPH_BIG_ENDIAN a)"

section \<open>Byte swapping (lines 1265-1293)\<close>

definition sph_bswap32 :: "u32 \<Rightarrow> u32" where
  "sph_bswap32 x =
     (let x = SPH_T32 (push_bit 16 x OR drop_bit 16 x);
          x = drop_bit 8 (x AND 0xFF00FF00) OR push_bit 8 (x AND 0x00FF00FF)
      in x)"

definition sph_bswap64 :: "u64 \<Rightarrow> u64" where
  "sph_bswap64 x =
     (let x = SPH_T64 (push_bit 32 x OR drop_bit 32 x);
          x = drop_bit 16 (x AND 0xFFFF0000FFFF0000) OR push_bit 16 (x AND 0x0000FFFF0000FFFF);
          x = drop_bit 8 (x AND 0xFF00FF00FF00FF00) OR push_bit 8 (x AND 0x00FF00FF00FF00FF)
      in x)"

text \<open>The version of lines 1196-1201, which swaps the halves with the 32-bit function.\<close>

definition sph_bswap64_halves :: "u64 \<Rightarrow> u64" where
  "sph_bswap64_halves x =
     push_bit 32 (ucast (sph_bswap32 (ucast x)) :: u64) OR ucast (sph_bswap32 (ucast (drop_bit 32 x)))"

section \<open>Direct memory access\<close>

text \<open>
  \<open>*(sph_u32 *)dst = val\<close> and \<open>*(const sph_u32 *)src\<close>: the bytes of a word in the byte order of
  the machine, lowest address first. The code takes this access only where one of the two byte
  orders is known to be the native one.
\<close>

definition store32 :: "arch \<Rightarrow> u32 \<Rightarrow> bytes" where
  "store32 a v =
     (let le = [ucast v, ucast (drop_bit 8 v), ucast (drop_bit 16 v), ucast (drop_bit 24 v)]
      in if SPH_LITTLE_ENDIAN a then le else rev le)"

definition load32 :: "arch \<Rightarrow> bytes \<Rightarrow> u32" where
  "load32 a b =
     (let le = (\<lambda>b. ucast (b ! 0) OR push_bit 8 (ucast (b ! 1)) OR push_bit 16 (ucast (b ! 2))
                  OR push_bit 24 (ucast (b ! 3)))
      in if SPH_LITTLE_ENDIAN a then le b else le (rev (take 4 b)))"

definition store64 :: "arch \<Rightarrow> u64 \<Rightarrow> bytes" where
  "store64 a v =
     (let le = [ucast v, ucast (drop_bit 8 v), ucast (drop_bit 16 v), ucast (drop_bit 24 v),
                ucast (drop_bit 32 v), ucast (drop_bit 40 v), ucast (drop_bit 48 v), ucast (drop_bit 56 v)]
      in if SPH_LITTLE_ENDIAN a then le else rev le)"

definition load64 :: "arch \<Rightarrow> bytes \<Rightarrow> u64" where
  "load64 a b =
     (let le = (\<lambda>b. ucast (b ! 0) OR push_bit 8 (ucast (b ! 1)) OR push_bit 16 (ucast (b ! 2))
                  OR push_bit 24 (ucast (b ! 3)) OR push_bit 32 (ucast (b ! 4)) OR push_bit 40 (ucast (b ! 5))
                  OR push_bit 48 (ucast (b ! 6)) OR push_bit 56 (ucast (b ! 7)))
      in if SPH_LITTLE_ENDIAN a then le b else le (rev (take 8 b)))"

section \<open>16-bit access (lines 1332-1358)\<close>

definition sph_enc16be :: "u32 \<Rightarrow> bytes" where
  "sph_enc16be val = [ucast (drop_bit 8 val), ucast val]"

definition sph_dec16be :: "bytes \<Rightarrow> u32" where
  "sph_dec16be src = push_bit 8 (ucast (src ! 0)) OR ucast (src ! 1)"

definition sph_enc16le :: "u32 \<Rightarrow> bytes" where
  "sph_enc16le val = [ucast val, ucast (drop_bit 8 val)]"

definition sph_dec16le :: "bytes \<Rightarrow> u32" where
  "sph_dec16le src = ucast (src ! 0) OR push_bit 8 (ucast (src ! 1))"

section \<open>32-bit and 64-bit access (lines 1366-1970)\<close>

text \<open>
  An encoder returns the bytes it writes from \<open>dst\<close> on; the address itself matters only for the test
  of its low bits. A decoder reads from the bytes found at \<open>src\<close>, whose address is \<open>addr\<close>.
\<close>

definition sph_enc32be :: "arch \<Rightarrow> u64 \<Rightarrow> u32 \<Rightarrow> bytes" where
  "sph_enc32be a dst val =
     (if SPH_UPTR a then
        if SPH_UNALIGNED a then
          let val = (if SPH_LITTLE_ENDIAN a then sph_bswap32 val else val) in store32 a val
        else if dst AND 3 = 0 then
          let val = (if SPH_LITTLE_ENDIAN a then sph_bswap32 val else val) in store32 a val
        else
          [ucast (drop_bit 24 val), ucast (drop_bit 16 val), ucast (drop_bit 8 val), ucast val]
      else
        [ucast (drop_bit 24 val), ucast (drop_bit 16 val), ucast (drop_bit 8 val), ucast val])"

definition sph_enc32be_aligned :: "arch \<Rightarrow> u32 \<Rightarrow> bytes" where
  "sph_enc32be_aligned a val =
     (if SPH_LITTLE_ENDIAN a then store32 a (sph_bswap32 val)
      else if SPH_BIG_ENDIAN a then store32 a val
      else [ucast (drop_bit 24 val), ucast (drop_bit 16 val), ucast (drop_bit 8 val), ucast val])"

definition sph_dec32be :: "arch \<Rightarrow> u64 \<Rightarrow> bytes \<Rightarrow> u32" where
  "sph_dec32be a addr src =
     (if SPH_UPTR a then
        if SPH_UNALIGNED a then
          if SPH_LITTLE_ENDIAN a then sph_bswap32 (load32 a src) else load32 a src
        else if addr AND 3 = 0 then
          if SPH_LITTLE_ENDIAN a then sph_bswap32 (load32 a src) else load32 a src
        else
          push_bit 24 (ucast (src ! 0)) OR push_bit 16 (ucast (src ! 1)) OR push_bit 8 (ucast (src ! 2)) OR ucast (src ! 3)
      else
        push_bit 24 (ucast (src ! 0)) OR push_bit 16 (ucast (src ! 1)) OR push_bit 8 (ucast (src ! 2)) OR ucast (src ! 3))"

definition sph_dec32be_aligned :: "arch \<Rightarrow> bytes \<Rightarrow> u32" where
  "sph_dec32be_aligned a src =
     (if SPH_LITTLE_ENDIAN a then sph_bswap32 (load32 a src)
      else if SPH_BIG_ENDIAN a then load32 a src
      else push_bit 24 (ucast (src ! 0)) OR push_bit 16 (ucast (src ! 1)) OR push_bit 8 (ucast (src ! 2)) OR ucast (src ! 3))"

definition sph_enc32le :: "arch \<Rightarrow> u64 \<Rightarrow> u32 \<Rightarrow> bytes" where
  "sph_enc32le a dst val =
     (if SPH_UPTR a then
        if SPH_UNALIGNED a then
          let val = (if SPH_BIG_ENDIAN a then sph_bswap32 val else val) in store32 a val
        else if dst AND 3 = 0 then
          let val = (if SPH_BIG_ENDIAN a then sph_bswap32 val else val) in store32 a val
        else
          [ucast val, ucast (drop_bit 8 val), ucast (drop_bit 16 val), ucast (drop_bit 24 val)]
      else
        [ucast val, ucast (drop_bit 8 val), ucast (drop_bit 16 val), ucast (drop_bit 24 val)])"

definition sph_enc32le_aligned :: "arch \<Rightarrow> u32 \<Rightarrow> bytes" where
  "sph_enc32le_aligned a val =
     (if SPH_LITTLE_ENDIAN a then store32 a val
      else if SPH_BIG_ENDIAN a then store32 a (sph_bswap32 val)
      else [ucast val, ucast (drop_bit 8 val), ucast (drop_bit 16 val), ucast (drop_bit 24 val)])"

definition sph_dec32le :: "arch \<Rightarrow> u64 \<Rightarrow> bytes \<Rightarrow> u32" where
  "sph_dec32le a addr src =
     (if SPH_UPTR a then
        if SPH_UNALIGNED a then
          if SPH_BIG_ENDIAN a then sph_bswap32 (load32 a src) else load32 a src
        else if addr AND 3 = 0 then
          if SPH_BIG_ENDIAN a then sph_bswap32 (load32 a src) else load32 a src
        else
          ucast (src ! 0) OR push_bit 8 (ucast (src ! 1)) OR push_bit 16 (ucast (src ! 2)) OR push_bit 24 (ucast (src ! 3))
      else
        ucast (src ! 0) OR push_bit 8 (ucast (src ! 1)) OR push_bit 16 (ucast (src ! 2)) OR push_bit 24 (ucast (src ! 3)))"

definition sph_dec32le_aligned :: "arch \<Rightarrow> bytes \<Rightarrow> u32" where
  "sph_dec32le_aligned a src =
     (if SPH_LITTLE_ENDIAN a then load32 a src
      else if SPH_BIG_ENDIAN a then sph_bswap32 (load32 a src)
      else ucast (src ! 0) OR push_bit 8 (ucast (src ! 1)) OR push_bit 16 (ucast (src ! 2)) OR push_bit 24 (ucast (src ! 3)))"

definition sph_enc64be :: "arch \<Rightarrow> u64 \<Rightarrow> u64 \<Rightarrow> bytes" where
  "sph_enc64be a dst val =
     (if SPH_UPTR a then
        if SPH_UNALIGNED a then
          let val = (if SPH_LITTLE_ENDIAN a then sph_bswap64 val else val) in store64 a val
        else if dst AND 7 = 0 then
          let val = (if SPH_LITTLE_ENDIAN a then sph_bswap64 val else val) in store64 a val
        else
          [ucast (drop_bit 56 val), ucast (drop_bit 48 val), ucast (drop_bit 40 val), ucast (drop_bit 32 val), ucast (drop_bit 24 val), ucast (drop_bit 16 val), ucast (drop_bit 8 val), ucast val]
      else
        [ucast (drop_bit 56 val), ucast (drop_bit 48 val), ucast (drop_bit 40 val), ucast (drop_bit 32 val), ucast (drop_bit 24 val), ucast (drop_bit 16 val), ucast (drop_bit 8 val), ucast val])"

definition sph_enc64be_aligned :: "arch \<Rightarrow> u64 \<Rightarrow> bytes" where
  "sph_enc64be_aligned a val =
     (if SPH_LITTLE_ENDIAN a then store64 a (sph_bswap64 val)
      else if SPH_BIG_ENDIAN a then store64 a val
      else [ucast (drop_bit 56 val), ucast (drop_bit 48 val), ucast (drop_bit 40 val), ucast (drop_bit 32 val), ucast (drop_bit 24 val), ucast (drop_bit 16 val), ucast (drop_bit 8 val), ucast val])"

definition sph_dec64be :: "arch \<Rightarrow> u64 \<Rightarrow> bytes \<Rightarrow> u64" where
  "sph_dec64be a addr src =
     (if SPH_UPTR a then
        if SPH_UNALIGNED a then
          if SPH_LITTLE_ENDIAN a then sph_bswap64 (load64 a src) else load64 a src
        else if addr AND 7 = 0 then
          if SPH_LITTLE_ENDIAN a then sph_bswap64 (load64 a src) else load64 a src
        else
          push_bit 56 (ucast (src ! 0)) OR push_bit 48 (ucast (src ! 1)) OR push_bit 40 (ucast (src ! 2)) OR push_bit 32 (ucast (src ! 3))
          OR push_bit 24 (ucast (src ! 4)) OR push_bit 16 (ucast (src ! 5)) OR push_bit 8 (ucast (src ! 6)) OR ucast (src ! 7)
      else
        push_bit 56 (ucast (src ! 0)) OR push_bit 48 (ucast (src ! 1)) OR push_bit 40 (ucast (src ! 2)) OR push_bit 32 (ucast (src ! 3))
          OR push_bit 24 (ucast (src ! 4)) OR push_bit 16 (ucast (src ! 5)) OR push_bit 8 (ucast (src ! 6)) OR ucast (src ! 7))"

definition sph_dec64be_aligned :: "arch \<Rightarrow> bytes \<Rightarrow> u64" where
  "sph_dec64be_aligned a src =
     (if SPH_LITTLE_ENDIAN a then sph_bswap64 (load64 a src)
      else if SPH_BIG_ENDIAN a then load64 a src
      else push_bit 56 (ucast (src ! 0)) OR push_bit 48 (ucast (src ! 1)) OR push_bit 40 (ucast (src ! 2)) OR push_bit 32 (ucast (src ! 3))
          OR push_bit 24 (ucast (src ! 4)) OR push_bit 16 (ucast (src ! 5)) OR push_bit 8 (ucast (src ! 6)) OR ucast (src ! 7))"

definition sph_enc64le :: "arch \<Rightarrow> u64 \<Rightarrow> u64 \<Rightarrow> bytes" where
  "sph_enc64le a dst val =
     (if SPH_UPTR a then
        if SPH_UNALIGNED a then
          let val = (if SPH_BIG_ENDIAN a then sph_bswap64 val else val) in store64 a val
        else if dst AND 7 = 0 then
          let val = (if SPH_BIG_ENDIAN a then sph_bswap64 val else val) in store64 a val
        else
          [ucast val, ucast (drop_bit 8 val), ucast (drop_bit 16 val), ucast (drop_bit 24 val), ucast (drop_bit 32 val), ucast (drop_bit 40 val), ucast (drop_bit 48 val), ucast (drop_bit 56 val)]
      else
        [ucast val, ucast (drop_bit 8 val), ucast (drop_bit 16 val), ucast (drop_bit 24 val), ucast (drop_bit 32 val), ucast (drop_bit 40 val), ucast (drop_bit 48 val), ucast (drop_bit 56 val)])"

definition sph_enc64le_aligned :: "arch \<Rightarrow> u64 \<Rightarrow> bytes" where
  "sph_enc64le_aligned a val =
     (if SPH_LITTLE_ENDIAN a then store64 a val
      else if SPH_BIG_ENDIAN a then store64 a (sph_bswap64 val)
      else [ucast val, ucast (drop_bit 8 val), ucast (drop_bit 16 val), ucast (drop_bit 24 val), ucast (drop_bit 32 val), ucast (drop_bit 40 val), ucast (drop_bit 48 val), ucast (drop_bit 56 val)])"

definition sph_dec64le :: "arch \<Rightarrow> u64 \<Rightarrow> bytes \<Rightarrow> u64" where
  "sph_dec64le a addr src =
     (if SPH_UPTR a then
        if SPH_UNALIGNED a then
          if SPH_BIG_ENDIAN a then sph_bswap64 (load64 a src) else load64 a src
        else if addr AND 7 = 0 then
          if SPH_BIG_ENDIAN a then sph_bswap64 (load64 a src) else load64 a src
        else
          ucast (src ! 0) OR push_bit 8 (ucast (src ! 1)) OR push_bit 16 (ucast (src ! 2)) OR push_bit 24 (ucast (src ! 3))
          OR push_bit 32 (ucast (src ! 4)) OR push_bit 40 (ucast (src ! 5)) OR push_bit 48 (ucast (src ! 6)) OR push_bit 56 (ucast (src ! 7))
      else
        ucast (src ! 0) OR push_bit 8 (ucast (src ! 1)) OR push_bit 16 (ucast (src ! 2)) OR push_bit 24 (ucast (src ! 3))
          OR push_bit 32 (ucast (src ! 4)) OR push_bit 40 (ucast (src ! 5)) OR push_bit 48 (ucast (src ! 6)) OR push_bit 56 (ucast (src ! 7)))"

definition sph_dec64le_aligned :: "arch \<Rightarrow> bytes \<Rightarrow> u64" where
  "sph_dec64le_aligned a src =
     (if SPH_LITTLE_ENDIAN a then load64 a src
      else if SPH_BIG_ENDIAN a then sph_bswap64 (load64 a src)
      else ucast (src ! 0) OR push_bit 8 (ucast (src ! 1)) OR push_bit 16 (ucast (src ! 2)) OR push_bit 24 (ucast (src ! 3))
          OR push_bit 32 (ucast (src ! 4)) OR push_bit 40 (ucast (src ! 5)) OR push_bit 48 (ucast (src ! 6)) OR push_bit 56 (ucast (src ! 7)))"

section \<open>The byte orders\<close>

text \<open>What the names promise: most significant byte first, or last.\<close>

definition be32 :: "u32 \<Rightarrow> bytes" where
  "be32 v = [ucast (drop_bit 24 v), ucast (drop_bit 16 v), ucast (drop_bit 8 v), ucast v]"

definition le32 :: "u32 \<Rightarrow> bytes" where
  "le32 v = rev (be32 v)"

definition be64 :: "u64 \<Rightarrow> bytes" where
  "be64 v = be32 (ucast (drop_bit 32 v)) @ be32 (ucast v)"

definition le64 :: "u64 \<Rightarrow> bytes" where
  "le64 v = rev (be64 v)"

text \<open>Reading: the bytes of a number, most significant first.\<close>

definition of_be :: "bytes \<Rightarrow> 'a::len word" where
  "of_be b = foldl (\<lambda>v x. push_bit 8 v OR ucast x) 0 b"

definition of_le :: "bytes \<Rightarrow> 'a::len word" where
  "of_le b = of_be (rev b)"

section \<open>Lemmas on the macros\<close>

lemma SPH_T32_id [simp, code]: "SPH_T32 x = x"
proof -
  have "(0xFFFFFFFF :: u32) = - 1" by simp
  then show ?thesis by (simp only: SPH_T32_def and.right_neutral)
qed

lemma SPH_T64_id [simp, code]: "SPH_T64 x = x"
proof -
  have "(0xFFFFFFFFFFFFFFFF :: u64) = - 1" by simp
  then show ?thesis by (simp only: SPH_T64_def and.right_neutral)
qed

lemma SPH_ROTL32_rotl: "0 < n \<Longrightarrow> n < 32 \<Longrightarrow> SPH_ROTL32 x n = word_rotl n x"
  using shift_pair_rotl [of n x] by (simp add: SPH_ROTL32_def)

lemma SPH_ROTL64_rotl: "0 < n \<Longrightarrow> n < 64 \<Longrightarrow> SPH_ROTL64 x n = word_rotl n x"
  using shift_pair_rotl [of n x] by (simp add: SPH_ROTL64_def)

lemma SPH_ROTR32_rotr: "0 < n \<Longrightarrow> n < 32 \<Longrightarrow> SPH_ROTR32 x n = word_rotr n x"
  by (rule bit_word_eqI) (simp add: SPH_ROTR32_def SPH_ROTL32_rotl bit_simps add.commute)

lemma SPH_ROTR64_rotr: "0 < n \<Longrightarrow> n < 64 \<Longrightarrow> SPH_ROTR64 x n = word_rotr n x"
  by (rule bit_word_eqI) (simp add: SPH_ROTR64_def SPH_ROTL64_rotl bit_simps add.commute)

lemmas sph_rotations =
  SPH_ROTL32_rotl SPH_ROTL64_rotl SPH_ROTR32_rotr SPH_ROTR64_rotr

section \<open>Byte swapping and the native byte order\<close>

lemma length_be_le [simp]:
  "length (be32 v) = 4" "length (le32 v) = 4" "length (be64 w) = 8" "length (le64 w) = 8"
  by (simp_all add: be32_def le32_def be64_def le64_def)

lemma bytes4E:
  assumes "length b = 4"
  obtains b0 b1 b2 b3 where "b = [b0, b1, b2, b3]"
  using assms by (auto simp: numeral_eq_Suc length_Suc_conv)

lemma bytes8E:
  assumes "length b = 8"
  obtains b0 b1 b2 b3 b4 b5 b6 b7 where "b = [b0, b1, b2, b3, b4, b5, b6, b7]"
  using assms by (auto simp: numeral_eq_Suc length_Suc_conv)

lemma bswap32_bytes:
  "ucast (drop_bit 24 (sph_bswap32 v)) = (ucast v :: u8)"
  "ucast (drop_bit 16 (sph_bswap32 v)) = (ucast (drop_bit 8 v) :: u8)"
  "ucast (drop_bit 8 (sph_bswap32 v)) = (ucast (drop_bit 16 v) :: u8)"
  "ucast (sph_bswap32 v) = (ucast (drop_bit 24 v) :: u8)"
  by (rule word8_eqI, simp add: sph_bswap32_def Let_def bits_simps)+

lemma bswap64_bytes:
  "ucast (drop_bit 56 (sph_bswap64 v)) = (ucast v :: u8)"
  "ucast (drop_bit 48 (sph_bswap64 v)) = (ucast (drop_bit 8 v) :: u8)"
  "ucast (drop_bit 40 (sph_bswap64 v)) = (ucast (drop_bit 16 v) :: u8)"
  "ucast (drop_bit 32 (sph_bswap64 v)) = (ucast (drop_bit 24 v) :: u8)"
  "ucast (drop_bit 24 (sph_bswap64 v)) = (ucast (drop_bit 32 v) :: u8)"
  "ucast (drop_bit 16 (sph_bswap64 v)) = (ucast (drop_bit 40 v) :: u8)"
  "ucast (drop_bit 8 (sph_bswap64 v)) = (ucast (drop_bit 48 v) :: u8)"
  "ucast (sph_bswap64 v) = (ucast (drop_bit 56 v) :: u8)"
  by (rule word8_eqI, simp add: sph_bswap64_def Let_def bits_simps)+

lemma be64_bytes:
  "be64 v = [ucast (drop_bit 56 v), ucast (drop_bit 48 v), ucast (drop_bit 40 v), ucast (drop_bit 32 v),
     ucast (drop_bit 24 v), ucast (drop_bit 16 v), ucast (drop_bit 8 v), ucast v]"
  by (simp add: be64_def be32_def) (intro conjI word8_eqI; simp add: bits_simps)

lemma be32_eq_iff [simp]: "be32 v = be32 w \<longleftrightarrow> v = w"
proof
  assume "be32 v = be32 w"
  then have "\<forall>n<8. bit (ucast (drop_bit 24 v) :: u8) n = bit (ucast (drop_bit 24 w) :: u8) n"
    "\<forall>n<8. bit (ucast (drop_bit 16 v) :: u8) n = bit (ucast (drop_bit 16 w) :: u8) n"
    "\<forall>n<8. bit (ucast (drop_bit 8 v) :: u8) n = bit (ucast (drop_bit 8 w) :: u8) n"
    "\<forall>n<8. bit (ucast v :: u8) n = bit (ucast w :: u8) n"
    by (simp_all add: be32_def)
  then show "v = w" by (intro word32_eqI) (simp add: bits_simps)
qed simp

lemma be64_eq_iff [simp]: "be64 v = be64 w \<longleftrightarrow> v = w"
proof
  assume "be64 v = be64 w"
  then have hi: "ucast (drop_bit 32 v) = (ucast (drop_bit 32 w) :: u32)" and lo: "ucast v = (ucast w :: u32)"
    by (simp_all add: be64_def)
  have "\<forall>n<32. bit (ucast (drop_bit 32 v) :: u32) n = bit (ucast (drop_bit 32 w) :: u32) n"
    "\<forall>n<32. bit (ucast v :: u32) n = bit (ucast w :: u32) n"
    by (simp_all only: hi lo simp_thms)
  then show "v = w" by (intro word64_eqI) (simp add: bits_simps)
qed simp

lemma of_be_be32 [simp]: "of_be (be32 v) = v"
  by (rule word32_eqI) (simp add: of_be_def be32_def bits_simps)

lemma of_be_be64 [simp]: "of_be (be64 v) = v"
  by (rule word64_eqI) (simp add: of_be_def be64_bytes bits_simps)

lemma of_le_le [simp]: "of_le (le32 v) = v" "of_le (le64 w) = w"
  by (simp_all add: of_le_def le32_def le64_def)

lemma be32_of_be: "length b = 4 \<Longrightarrow> be32 (of_be b) = b"
  by (erule bytes4E) (simp add: be32_def of_be_def, intro conjI word8_eqI; simp add: bits_simps)

lemma be64_of_be: "length b = 8 \<Longrightarrow> be64 (of_be b) = b"
  by (erule bytes8E) (simp add: be64_bytes of_be_def, intro conjI word8_eqI; simp add: bits_simps)

lemma store_le:
  "SPH_LITTLE_ENDIAN a \<Longrightarrow> store32 a v = le32 v" "SPH_LITTLE_ENDIAN a \<Longrightarrow> store64 a w = le64 w"
  "\<not> SPH_LITTLE_ENDIAN a \<Longrightarrow> store32 a v = be32 v" "\<not> SPH_LITTLE_ENDIAN a \<Longrightarrow> store64 a w = be64 w"
  by (simp_all add: store32_def store64_def le32_def le64_def be32_def be64_bytes)

lemma bswap_bytes:
  "be32 (sph_bswap32 v) = le32 v" "le32 (sph_bswap32 v) = be32 v"
  "be64 (sph_bswap64 w) = le64 w" "le64 (sph_bswap64 w) = be64 w"
  by (simp_all add: le32_def le64_def be32_def be64_bytes bswap32_bytes bswap64_bytes)

lemma or_bytes4:
  "ucast b0 OR push_bit 8 (ucast b1) OR push_bit 16 (ucast b2) OR push_bit 24 (ucast b3)
     = (of_be [b3, b2, b1, b0] :: u32)"
  "push_bit 24 (ucast b3) OR push_bit 16 (ucast b2) OR push_bit 8 (ucast b1) OR ucast b0
     = (of_be [b3, b2, b1, b0] :: u32)"
  by (rule word32_eqI, simp add: of_be_def bits_simps)+

lemma or_bytes8:
  "ucast b0 OR push_bit 8 (ucast b1) OR push_bit 16 (ucast b2) OR push_bit 24 (ucast b3)
     OR push_bit 32 (ucast b4) OR push_bit 40 (ucast b5) OR push_bit 48 (ucast b6) OR push_bit 56 (ucast b7)
     = (of_be [b7, b6, b5, b4, b3, b2, b1, b0] :: u64)"
  "push_bit 56 (ucast b7) OR push_bit 48 (ucast b6) OR push_bit 40 (ucast b5) OR push_bit 32 (ucast b4)
     OR push_bit 24 (ucast b3) OR push_bit 16 (ucast b2) OR push_bit 8 (ucast b1) OR ucast b0
     = (of_be [b7, b6, b5, b4, b3, b2, b1, b0] :: u64)"
  by (rule word64_eqI, simp add: of_be_def bits_simps)+

lemma load32_bytes:
  assumes "4 \<le> length b"
  shows "load32 a b = (if SPH_LITTLE_ENDIAN a then of_le (take 4 b) else of_be (take 4 b))"
proof -
  obtain b0 b1 b2 b3 where "take 4 b = [b0, b1, b2, b3]"
    using assms by (auto intro: bytes4E [of "take 4 b"])
  then have "b = [b0, b1, b2, b3] @ drop 4 b" by (metis append_take_drop_id)
  then obtain r where "b = [b0, b1, b2, b3] @ r" by blast
  then show ?thesis by (simp only: load32_def Let_def of_le_def, simp add: or_bytes4)
qed

lemma load64_bytes:
  assumes "8 \<le> length b"
  shows "load64 a b = (if SPH_LITTLE_ENDIAN a then of_le (take 8 b) else of_be (take 8 b))"
proof -
  obtain b0 b1 b2 b3 b4 b5 b6 b7 where "take 8 b = [b0, b1, b2, b3, b4, b5, b6, b7]"
    using assms by (auto intro: bytes8E [of "take 8 b"])
  then have "b = [b0, b1, b2, b3, b4, b5, b6, b7] @ drop 8 b" by (metis append_take_drop_id)
  then obtain r where "b = [b0, b1, b2, b3, b4, b5, b6, b7] @ r" by blast
  then show ?thesis by (simp only: load64_def Let_def of_le_def, simp add: or_bytes8)
qed

lemma bswap64_halves: "sph_bswap64_halves y = sph_bswap64 y"
  by (rule word64_eqI) (simp add: sph_bswap64_halves_def sph_bswap64_def sph_bswap32_def Let_def bits_simps)

section \<open>Every branch of an encoder writes the promised bytes\<close>

lemma bswap32_of:
  "length b = 4 \<Longrightarrow> sph_bswap32 (of_le b) = of_be b" "length b = 4 \<Longrightarrow> sph_bswap32 (of_be b) = of_le b"
proof -
  show "sph_bswap32 (of_le b) = of_be b" if "length b = 4"
    using that be32_of_be [of "rev b"] be32_of_be [of b]
    by (simp add: of_le_def bswap_bytes le32_def flip: be32_eq_iff)
  then show "sph_bswap32 (of_be b) = of_le b" if "length b = 4"
    using that be32_of_be [of "rev b"] be32_of_be [of b]
    by (simp add: of_le_def bswap_bytes le32_def flip: be32_eq_iff)
qed

lemma bswap64_of:
  "length b = 8 \<Longrightarrow> sph_bswap64 (of_le b) = of_be b" "length b = 8 \<Longrightarrow> sph_bswap64 (of_be b) = of_le b"
proof -
  show "sph_bswap64 (of_le b) = of_be b" if "length b = 8"
    using that be64_of_be [of "rev b"] be64_of_be [of b]
    by (simp add: of_le_def bswap_bytes le64_def flip: be64_eq_iff)
  then show "sph_bswap64 (of_be b) = of_le b" if "length b = 8"
    using that be64_of_be [of "rev b"] be64_of_be [of b]
    by (simp add: of_le_def bswap_bytes le64_def flip: be64_eq_iff)
qed

lemmas enc_defs =
  sph_enc32be_def sph_enc32be_aligned_def sph_enc32le_def sph_enc32le_aligned_def
  sph_enc64be_def sph_enc64be_aligned_def sph_enc64le_def sph_enc64le_aligned_def

lemmas dec_defs =
  sph_dec32be_def sph_dec32be_aligned_def sph_dec32le_def sph_dec32le_aligned_def
  sph_dec64be_def sph_dec64be_aligned_def sph_dec64le_def sph_dec64le_aligned_def

lemma enc_portable:
  "[ucast (drop_bit 24 v), ucast (drop_bit 16 v), ucast (drop_bit 8 v), ucast v] = be32 v"
  "[ucast v, ucast (drop_bit 8 v), ucast (drop_bit 16 v), ucast (drop_bit 24 v)] = le32 v"
  "[ucast (drop_bit 56 w), ucast (drop_bit 48 w), ucast (drop_bit 40 w), ucast (drop_bit 32 w),
    ucast (drop_bit 24 w), ucast (drop_bit 16 w), ucast (drop_bit 8 w), ucast w] = be64 w"
  "[ucast w, ucast (drop_bit 8 w), ucast (drop_bit 16 w), ucast (drop_bit 24 w),
    ucast (drop_bit 32 w), ucast (drop_bit 40 w), ucast (drop_bit 48 w), ucast (drop_bit 56 w)] = le64 w"
  by (simp_all add: le32_def le64_def be32_def be64_bytes)

lemma sph_enc_bytes [simp]:
  assumes "arch_ok a"
  shows "sph_enc32be a p v = be32 v" "sph_enc32be_aligned a v = be32 v"
    "sph_enc32le a p v = le32 v" "sph_enc32le_aligned a v = le32 v"
    "sph_enc64be a p w = be64 w" "sph_enc64be_aligned a w = be64 w"
    "sph_enc64le a p w = le64 w" "sph_enc64le_aligned a w = le64 w"
  using assms
  by (auto simp: enc_defs enc_portable store_le bswap_bytes Let_def arch_ok_def arch_error_def)

lemma nths_or4:
  assumes "4 \<le> length b"
  shows "push_bit 24 (ucast (b ! 0)) OR push_bit 16 (ucast (b ! 1)) OR push_bit 8 (ucast (b ! 2)) OR ucast (b ! 3)
           = (of_be (take 4 b) :: u32)"
    and "ucast (b ! 0) OR push_bit 8 (ucast (b ! 1)) OR push_bit 16 (ucast (b ! 2)) OR push_bit 24 (ucast (b ! 3))
           = (of_le (take 4 b) :: u32)"
proof -
  have "take 4 b = [b ! 0, b ! 1, b ! 2, b ! 3]"
    using assms by (simp add: list_eq_iff_nth_eq all_less_numeral)
  then show "push_bit 24 (ucast (b ! 0)) OR push_bit 16 (ucast (b ! 1)) OR push_bit 8 (ucast (b ! 2)) OR ucast (b ! 3)
           = (of_be (take 4 b) :: u32)"
    and "ucast (b ! 0) OR push_bit 8 (ucast (b ! 1)) OR push_bit 16 (ucast (b ! 2)) OR push_bit 24 (ucast (b ! 3))
           = (of_le (take 4 b) :: u32)"
    by (simp_all add: or_bytes4 of_le_def)
qed

lemma nths_or8:
  assumes "8 \<le> length b"
  shows "push_bit 56 (ucast (b ! 0)) OR push_bit 48 (ucast (b ! 1)) OR push_bit 40 (ucast (b ! 2))
           OR push_bit 32 (ucast (b ! 3)) OR push_bit 24 (ucast (b ! 4)) OR push_bit 16 (ucast (b ! 5))
           OR push_bit 8 (ucast (b ! 6)) OR ucast (b ! 7) = (of_be (take 8 b) :: u64)" (is ?be)
    and "ucast (b ! 0) OR push_bit 8 (ucast (b ! 1)) OR push_bit 16 (ucast (b ! 2)) OR push_bit 24 (ucast (b ! 3))
           OR push_bit 32 (ucast (b ! 4)) OR push_bit 40 (ucast (b ! 5)) OR push_bit 48 (ucast (b ! 6))
           OR push_bit 56 (ucast (b ! 7)) = (of_le (take 8 b) :: u64)" (is ?le)
proof -
  have "take 8 b = [b ! 0, b ! 1, b ! 2, b ! 3, b ! 4, b ! 5, b ! 6, b ! 7]"
    using assms by (simp add: list_eq_iff_nth_eq all_less_numeral)
  then show ?be ?le by (simp_all add: or_bytes8 of_le_def)
qed

lemma sph_dec32_bytes [simp]:
  assumes "arch_ok a" and "4 \<le> length b"
  shows "sph_dec32be a p b = of_be (take 4 b)" "sph_dec32be_aligned a b = of_be (take 4 b)"
    "sph_dec32le a p b = of_le (take 4 b)" "sph_dec32le_aligned a b = of_le (take 4 b)"
  using assms bswap32_of [of "take 4 b"]
  by (auto simp: dec_defs nths_or4 [unfolded One_nat_def] load32_bytes arch_ok_def arch_error_def)

lemma sph_dec64_bytes [simp]:
  assumes "arch_ok a" and "8 \<le> length b"
  shows "sph_dec64be a p b = of_be (take 8 b)" "sph_dec64be_aligned a b = of_be (take 8 b)"
    "sph_dec64le a p b = of_le (take 8 b)" "sph_dec64le_aligned a b = of_le (take 8 b)"
  using assms bswap64_of [of "take 8 b"]
  by (auto simp: dec_defs nths_or8 [unfolded One_nat_def] load64_bytes arch_ok_def arch_error_def)

lemma arch_ok_arch_of [simp]: "arch_ok (arch_of p)"
  by (cases p) (auto simp: arch_of_def arch_ok_def arch_error_def set_fast_def no_arch_def)

section \<open>Properties\<close>

text \<open>
  On every platform the header detects, its own consistency check passes (no \<open>#error\<close>), at most
  one byte order is declared native, and the native one is declared fast.
\<close>

theorem detection_consistent:
  "\<not> arch_error (arch_of p) \<and> \<not> (SPH_LITTLE_ENDIAN (arch_of p) \<and> SPH_BIG_ENDIAN (arch_of p))
   \<and> SPH_LITTLE_FAST (arch_of p) \<ge> SPH_LITTLE_ENDIAN (arch_of p)
   \<and> SPH_BIG_FAST (arch_of p) = SPH_BIG_ENDIAN (arch_of p)"
  by (cases p) (auto simp: arch_of_def arch_error_def set_fast_def no_arch_def)

text \<open>
  All the branches of every encoder (direct store, swapped store, aligned or not, byte by byte)
  write the bytes of the value in the byte order of the name, at every address and on every
  consistent architecture.
\<close>

theorem encoders_correct:
  assumes "arch_ok a"
  shows "sph_enc32be a p v = be32 v \<and> sph_enc32be_aligned a v = be32 v
    \<and> sph_enc32le a p v = le32 v \<and> sph_enc32le_aligned a v = le32 v
    \<and> sph_enc64be a p w = be64 w \<and> sph_enc64be_aligned a w = be64 w
    \<and> sph_enc64le a p w = le64 w \<and> sph_enc64le_aligned a w = le64 w"
  using assms by simp

theorem encoders_correct_witness:
  "sph_enc32be (arch_of (Sparc32 True)) 1 0x01020304 = [1, 2, 3, 4]"
  using encoders_correct [of "arch_of (Sparc32 True)" 1 "0x01020304" 0] by (simp add: be32_def)

text \<open>
  Reading inverts writing: whatever the branch taken on either side, a decoder returns the value
  that the encoder of the same order wrote, and ignores the bytes that follow.
\<close>

theorem decode_encode:
  assumes "arch_ok a" and "arch_ok b"
  shows "sph_dec32be a p (sph_enc32be b q v @ r) = v \<and> sph_dec32le a p (sph_enc32le b q v @ r) = v
    \<and> sph_dec64be a p (sph_enc64be b q w @ r) = w \<and> sph_dec64le a p (sph_enc64le b q w @ r) = w
    \<and> sph_dec32be_aligned a (sph_enc32be_aligned b v @ r) = v
    \<and> sph_dec32le_aligned a (sph_enc32le_aligned b v @ r) = v
    \<and> sph_dec64be_aligned a (sph_enc64be_aligned b w @ r) = w
    \<and> sph_dec64le_aligned a (sph_enc64le_aligned b w @ r) = w"
  using assms by simp

theorem decode_encode_witness:
  "sph_dec64le (arch_of Mips_eb) 3 (sph_enc64le (arch_of AMD64) 5 0xDEADBEEF01020304 @ [7]) = 0xDEADBEEF01020304"
  using decode_encode [of "arch_of Mips_eb" "arch_of AMD64" 3 5 0 "[7]" "0xDEADBEEF01020304"] by simp

text \<open>
  The rotation macros, written with two shifts, are rotations for every amount the code may pass
  (1 to the width less 1), and the two versions of the 64-bit byte swap agree.
\<close>

theorem rotations_and_swaps:
  assumes "0 < n" and "n < 32" and "0 < m" and "m < 64"
  shows "SPH_ROTL32 x n = word_rotl n x \<and> SPH_ROTR32 x n = word_rotr n x
    \<and> SPH_ROTL64 y m = word_rotl m y \<and> SPH_ROTR64 y m = word_rotr m y
    \<and> sph_bswap64_halves y = sph_bswap64 y"
  using assms by (simp add: sph_rotations bswap64_halves)

theorem rotations_and_swaps_witness:
  "SPH_ROTL32 0x80000001 1 = word_rotl 1 0x80000001 \<and> SPH_ROTR64 1 63 = word_rotr 63 1"
  using rotations_and_swaps [of 1 63 "0x80000001" 1] rotations_and_swaps [of 1 63] by simp

end
