(* ===== verification/Hash_Interface.thy ===== *)
theory Hash_Interface
  imports Prelude "HOL-Library.Monad_Syntax"
begin

text \<open>
  The interface that every hash function of the library offers to its users (\<open>sph_X_init\<close>, \<open>sph_X\<close>,
  \<open>sph_X_close\<close>), as a locale: what a client may rely on, and what follows for any client from the
  laws alone. The miner, which hashes a nonce and a seed with two calls, is such a client.
\<close>

text \<open>Giving a message in pieces: each with the address it is read from.\<close>

fun feed :: "('p \<Rightarrow> 'd \<Rightarrow> 'c \<Rightarrow> 'c option) \<Rightarrow> ('p \<times> 'd) list \<Rightarrow> 'c \<Rightarrow> 'c option" where
  "feed upd [] c = Some c"
| "feed upd ((p, d) # ps) c = do { c \<leftarrow> upd p d c; feed upd ps c }"

definition pieces :: "('p \<times> bytes) list \<Rightarrow> bytes" where
  "pieces ps = concat (map snd ps)"

lemma pieces_simps [simp]: "pieces [] = []" "pieces (x # ps) = snd x @ pieces ps"
  by (simp_all add: pieces_def)

text \<open>
  \<open>represents m c\<close> says that \<open>c\<close> has received the message \<open>m\<close>; \<open>fits\<close> bounds the lengths for which
  the digest is the specified one. Closing also reinitialises the context.
\<close>

locale incremental_hash =
  fixes usable :: "'c \<Rightarrow> bool"
    and init :: "'c \<Rightarrow> 'c"
    and update :: "u64 \<Rightarrow> bytes \<Rightarrow> 'c \<Rightarrow> 'c option"
    and finish :: "u64 \<Rightarrow> 'c \<Rightarrow> bytes \<times> 'c"
    and represents :: "bytes \<Rightarrow> 'c \<Rightarrow> bool"
    and digest :: "bytes \<Rightarrow> bytes"
    and fits :: "nat \<Rightarrow> bool"
  assumes init_represents: "usable c \<Longrightarrow> represents [] (init c)"
    and update_represents: "represents m c \<Longrightarrow> \<exists>c'. update p d c = Some c' \<and> represents (m @ d) c'"
    and finish_digest: "represents m c \<Longrightarrow> fits (length m) \<Longrightarrow> fst (finish dst c) = digest m"
    and finish_reinit: "represents m c \<Longrightarrow> fits (length m) \<Longrightarrow> represents [] (snd (finish dst c))"
begin

lemma feed_represents:
  "represents m c \<Longrightarrow> \<exists>c'. feed update ps c = Some c' \<and> represents (m @ pieces ps) c'"
proof (induction ps arbitrary: m c)
  case Nil
  then show ?case by simp
next
  case (Cons x ps)
  obtain p d where x: "x = (p, d)" by (cases x)
  obtain c1 where "update p d c = Some c1" and r: "represents (m @ d) c1"
    using update_represents [OF Cons.prems] by blast
  with Cons.IH [OF r] x show ?case by auto
qed

text \<open>The digest depends on the concatenation of the pieces only.\<close>

lemma digest_of_pieces:
  assumes "usable c" and "fits (length (pieces ps))"
  shows "\<exists>c'. feed update ps (init c) = Some c' \<and> fst (finish dst c') = digest (pieces ps)"
  using feed_represents [OF init_represents [OF assms(1)], of ps] finish_digest assms(2)
  by fastforce

text \<open>A context that has been closed computes the next digest as a fresh one does.\<close>

lemma digest_after_close:
  assumes "usable c" and "fits (length (pieces ps))" and "fits (length (pieces qs))"
  shows "\<exists>c1 c2. feed update ps (init c) = Some c1 \<and> feed update qs (snd (finish dst c1)) = Some c2
     \<and> fst (finish dst' c2) = digest (pieces qs)"
proof -
  obtain c1 where c1: "feed update ps (init c) = Some c1" and r: "represents (pieces ps) c1"
    using feed_represents [OF init_represents [OF assms(1)], of ps] by auto
  obtain c2 where "feed update qs (snd (finish dst c1)) = Some c2" and "represents (pieces qs) c2"
    using feed_represents [OF finish_reinit [OF r assms(2)], of qs] by auto
  with c1 finish_digest assms(3) show ?thesis by blast
qed

end

end
