(* ===== verification/Md_Helper.thy ===== *)
theory Md_Helper
  imports Sph_Types Hash_Interface
begin

text \<open>
  \<open>md_helper.c\<close>: data handling, padding and output of the Merkle-Damgard hash functions. The file is
  a template: a hash function sets macros (\<open>RFUN\<close>, the word type, \<open>BLEN\<close>, \<open>PLW1\<close>, \<open>PLW4\<close>, \<open>PW01\<close>) and
  includes it. Here the macros are the fields of a record and the template is a group of functions
  of that record. The theory then states what the template promises: an update appends its data to
  the message that the context represents, whatever the sizes of the pieces, and closing returns the
  digest of the padded message.
\<close>

section \<open>The macros\<close>

datatype md_word = BE32 | LE32 | BE64 | LE64

datatype md_plw = PLW_default | PLW1 | PLW4

text \<open>
  \<open>RFUN\<close> takes the block (the bytes it is given a pointer to) and the state. The last field is the
  output loop of the template, which depends on the word type, or what the includer does when the
  template has no output.
\<close>

record 'v md_macros =
  WORD :: md_word
  BLEN :: "nat option"
  PLW :: md_plw
  PW01 :: bool
  RFUN :: "bytes \<Rightarrow> 'v \<Rightarrow> 'v"
  OUTPUT :: "u64 \<Rightarrow> 'v \<Rightarrow> nat \<Rightarrow> bytes"

definition SPH_WLEN :: "'v md_macros \<Rightarrow> nat" where
  "SPH_WLEN c = (if WORD c = BE64 \<or> WORD c = LE64 then 8 else 4)"

definition SPH_BLEN :: "'v md_macros \<Rightarrow> nat" where
  "SPH_BLEN c = (case BLEN c of Some b \<Rightarrow> b | None \<Rightarrow> if WORD c = BE64 \<or> WORD c = LE64 then 128 else 64)"

definition SPH_MAXPAD :: "'v md_macros \<Rightarrow> nat" where
  "SPH_MAXPAD c = (case PLW c of
       PLW1 \<Rightarrow> SPH_BLEN c - SPH_WLEN c
     | PLW4 \<Rightarrow> SPH_BLEN c - SPH_WLEN c * 4
     | PLW_default \<Rightarrow> SPH_BLEN c - SPH_WLEN c * 2)"

text \<open>The context structure, \<open>sph_HASH_context\<close>; \<open>'v\<close> is the type of its \<open>val\<close> field.\<close>

record 'v md_context =
  buf :: bytes
  val :: 'v
  count :: u64

section \<open>Updating (lines 120-227)\<close>

text \<open>\<open>current = (unsigned)sc->count & (SPH_BLEN - 1U)\<close>\<close>

definition md_current :: "'v md_macros \<Rightarrow> 'v md_context \<Rightarrow> nat" where
  "md_current c sc = unat ((ucast (count sc) :: u32) AND (of_nat (SPH_BLEN c) - 1))"

text \<open>
  The loop of \<open>HASH_short\<close> (or of \<open>sph_HASH\<close> where \<open>SPH_UPTR\<close> is not defined). \<open>None\<close> is a loop that
  does not end, as it would if \<open>current\<close> could reach the block length.
\<close>

partial_function (option) md_short_loop ::
    "'v md_macros \<Rightarrow> nat \<Rightarrow> bytes \<Rightarrow> 'v md_context \<Rightarrow> 'v md_context option" where
  [code]: "md_short_loop c current data sc =
     (if length data = 0 then Some sc
      else
        let clen = SPH_BLEN c - current;
            clen = (if clen > length data then length data else clen);
            sc = sc\<lparr>buf := mem_write (buf sc) current (take clen data)\<rparr>;
            data = drop clen data;
            current = current + clen;
            (current, sc) =
              (if current = SPH_BLEN c then (0, sc\<lparr>val := RFUN c (buf sc) (val sc)\<rparr>)
               else (current, sc));
            sc = sc\<lparr>count := count sc + of_nat clen\<rparr>
        in md_short_loop c current data sc)"

definition md_short :: "'v md_macros \<Rightarrow> bytes \<Rightarrow> 'v md_context \<Rightarrow> 'v md_context option" where
  "md_short c data sc = md_short_loop c (md_current c sc) data sc"

text \<open>The loop over the complete blocks, which the round function reads in place.\<close>

partial_function (option) md_block_loop ::
    "'v md_macros \<Rightarrow> bytes \<Rightarrow> 'v \<Rightarrow> (bytes \<times> 'v) option" where
  [code]: "md_block_loop c data v =
     (if SPH_BLEN c \<le> length data
      then md_block_loop c (drop (SPH_BLEN c) data) (RFUN c (take (SPH_BLEN c) data) v)
      else Some (data, v))"

text \<open>
  \<open>sph_HASH(cc, data, len)\<close>: \<open>addr\<close> is the address of \<open>data\<close>, which only the alignment test looks at.
\<close>

definition md_update ::
    "arch \<Rightarrow> 'v md_macros \<Rightarrow> u64 \<Rightarrow> bytes \<Rightarrow> 'v md_context \<Rightarrow> 'v md_context option" where
  "md_update a c addr data sc =
     (if \<not> SPH_UPTR a then md_short c data sc
      else if length data < 2 * SPH_BLEN c then md_short c data sc
      else do {
        (addr, data, sc) \<leftarrow>
          (let current = md_current c sc
           in if current > 0 then
                let t = SPH_BLEN c - current
                in do { sc \<leftarrow> md_short c (take t data) sc; Some (addr + of_nat t, drop t data, sc) }
              else Some (addr, data, sc));
        if \<not> SPH_UNALIGNED a \<and> addr AND (of_nat (SPH_WLEN c) - 1) \<noteq> 0 then md_short c data sc
        else do {
          let orig_len = length data;
          (data, v) \<leftarrow> md_block_loop c data (val sc);
          let sc = sc\<lparr>val := v\<rparr>;
          let sc = (if length data > 0 then sc\<lparr>buf := mem_write (buf sc) 0 data\<rparr> else sc);
          Some (sc\<lparr>count := count sc + of_nat orig_len\<rparr>)
        }
      })"

section \<open>Closing (lines 229-346)\<close>

text \<open>The byte with the extra bits and the padding bit.\<close>

definition md_last_byte :: "'v md_macros \<Rightarrow> u32 \<Rightarrow> nat \<Rightarrow> u8" where
  "md_last_byte c ub n =
     (if PW01 c then ucast (drop_bit (8 - n) (0x100 OR (ub AND 0xFF)))
      else let z = drop_bit n 0x80 in ucast (((ub AND - z) OR z) AND 0xFF))"

text \<open>
  The encoding of the length, with the tests in the order of the source: where \<open>LE64\<close> is set, the
  second test repeats \<open>PLW1\<close>, so that \<open>PLW4\<close> falls through to the last case.
\<close>

definition md_write_length :: "arch \<Rightarrow> 'v md_macros \<Rightarrow> nat \<Rightarrow> 'v md_context \<Rightarrow> bytes" where
  "md_write_length a c n sc =
     (let maxpad = SPH_MAXPAD c; wlen = SPH_WLEN c;
          low = SPH_T64 (push_bit 3 (count sc)) + of_nat n;
          high = drop_bit 61 (count sc)
      in case WORD c of
          BE64 \<Rightarrow>
            (if PLW c = PLW1 then mem_write (buf sc) maxpad (sph_enc64be_aligned a low)
             else if PLW c = PLW4 then
               let b = mem_write (buf sc) maxpad (replicate (2 * wlen) 0);
                   b = mem_write b (maxpad + 2 * wlen) (sph_enc64be_aligned a high)
               in mem_write b (maxpad + 3 * wlen) (sph_enc64be_aligned a low)
             else
               let b = mem_write (buf sc) maxpad (sph_enc64be_aligned a high)
               in mem_write b (maxpad + wlen) (sph_enc64be_aligned a low))
        | LE64 \<Rightarrow>
            (if PLW c = PLW1 then mem_write (buf sc) maxpad (sph_enc64le_aligned a low)
             else if PLW c = PLW1 then
               let b = mem_write (buf sc) maxpad (sph_enc64le_aligned a low);
                   b = mem_write b (maxpad + wlen) (sph_enc64le_aligned a high)
               in mem_write b (maxpad + 2 * wlen) (replicate (2 * wlen) 0)
             else
               let b = mem_write (buf sc) maxpad (sph_enc64le_aligned a low)
               in mem_write b (maxpad + wlen) (sph_enc64le_aligned a high))
        | BE32 \<Rightarrow> mem_write (buf sc) maxpad (sph_enc64be_aligned a low)
        | LE32 \<Rightarrow> mem_write (buf sc) maxpad (sph_enc64le_aligned a low))"

text \<open>
  \<open>HASH_addbits_and_close(cc, ub, n, dst, rnum)\<close>: the bytes written from \<open>dst\<close> on, and the context
  as it is left.
\<close>

definition md_addbits_and_close ::
    "arch \<Rightarrow> 'v md_macros \<Rightarrow> u32 \<Rightarrow> nat \<Rightarrow> u64 \<Rightarrow> nat \<Rightarrow> 'v md_context \<Rightarrow> bytes \<times> 'v md_context" where
  "md_addbits_and_close a c ub n dst rnum sc =
     (let current = md_current c sc;
          sc = sc\<lparr>buf := (buf sc)[current := md_last_byte c ub n]\<rparr>;
          current = current + 1;
          sc =
            (if current > SPH_MAXPAD c then
               let sc = sc\<lparr>buf := mem_write (buf sc) current (replicate (SPH_BLEN c - current) 0)\<rparr>;
                   sc = sc\<lparr>val := RFUN c (buf sc) (val sc)\<rparr>
               in sc\<lparr>buf := mem_write (buf sc) 0 (replicate (SPH_MAXPAD c) 0)\<rparr>
             else sc\<lparr>buf := mem_write (buf sc) current (replicate (SPH_MAXPAD c - current) 0)\<rparr>);
          sc = sc\<lparr>buf := md_write_length a c n sc\<rparr>;
          sc = sc\<lparr>val := RFUN c (buf sc) (val sc)\<rparr>
      in (OUTPUT c dst (val sc) rnum, sc))"

definition md_close ::
    "arch \<Rightarrow> 'v md_macros \<Rightarrow> u64 \<Rightarrow> nat \<Rightarrow> 'v md_context \<Rightarrow> bytes \<times> 'v md_context" where
  "md_close a c dst rnum sc = md_addbits_and_close a c 0 0 dst rnum sc"

text \<open>The output loop for the four word types (lines 325-336).\<close>

definition md_output_be32 :: "arch \<Rightarrow> u64 \<Rightarrow> u32 list \<Rightarrow> nat \<Rightarrow> bytes" where
  "md_output_be32 a dst v rnum = concat (map (\<lambda>u. sph_enc32be a (dst + of_nat (4 * u)) (v ! u)) [0..<rnum])"

definition md_output_le32 :: "arch \<Rightarrow> u64 \<Rightarrow> u32 list \<Rightarrow> nat \<Rightarrow> bytes" where
  "md_output_le32 a dst v rnum = concat (map (\<lambda>u. sph_enc32le a (dst + of_nat (4 * u)) (v ! u)) [0..<rnum])"

definition md_output_be64 :: "arch \<Rightarrow> u64 \<Rightarrow> u64 list \<Rightarrow> nat \<Rightarrow> bytes" where
  "md_output_be64 a dst v rnum = concat (map (\<lambda>u. sph_enc64be a (dst + of_nat (8 * u)) (v ! u)) [0..<rnum])"

definition md_output_le64 :: "arch \<Rightarrow> u64 \<Rightarrow> u64 list \<Rightarrow> nat \<Rightarrow> bytes" where
  "md_output_le64 a dst v rnum = concat (map (\<lambda>u. sph_enc64le a (dst + of_nat (8 * u)) (v ! u)) [0..<rnum])"

section \<open>What the template promises\<close>

text \<open>A number as a given count of bytes, most significant first, or last.\<close>

definition nat_be :: "nat \<Rightarrow> nat \<Rightarrow> bytes" where
  "nat_be k x = map (\<lambda>i. of_nat (x div 256 ^ (k - 1 - i))) [0..<k]"

definition nat_le :: "nat \<Rightarrow> nat \<Rightarrow> bytes" where
  "nat_le k x = rev (nat_be k x)"

definition md_length_field :: "'v md_macros \<Rightarrow> nat \<Rightarrow> bytes" where
  "md_length_field c bits =
     (if WORD c = BE32 \<or> WORD c = BE64 then nat_be else nat_le) (SPH_BLEN c - SPH_MAXPAD c) bits"

text \<open>
  The padded message: the message, the byte with the extra bits and the padding bit, as few zero
  bytes as make room for the length field at the end of a block, and the length in bits.
\<close>

definition md_zeros :: "'v md_macros \<Rightarrow> nat \<Rightarrow> nat" where
  "md_zeros c len =
     (SPH_BLEN c - (len + 1 + (SPH_BLEN c - SPH_MAXPAD c)) mod SPH_BLEN c) mod SPH_BLEN c"

definition md_pad :: "'v md_macros \<Rightarrow> bytes \<Rightarrow> u32 \<Rightarrow> nat \<Rightarrow> bytes" where
  "md_pad c m ub n =
     m @ [md_last_byte c ub n] @ replicate (md_zeros c (length m)) 0
       @ md_length_field c (8 * length m + n)"

definition md_fold :: "'v md_macros \<Rightarrow> 'v \<Rightarrow> bytes \<Rightarrow> 'v" where
  "md_fold c iv m = foldl (\<lambda>v b. RFUN c b v) iv (blocks (SPH_BLEN c) m)"

definition md_digest :: "'v md_macros \<Rightarrow> 'v \<Rightarrow> u64 \<Rightarrow> nat \<Rightarrow> u32 \<Rightarrow> nat \<Rightarrow> bytes \<Rightarrow> bytes" where
  "md_digest c iv dst rnum ub n m = OUTPUT c dst (md_fold c iv (md_pad c m ub n)) rnum"

text \<open>
  The lengths the template encodes: all of them where the field has 8 bytes (it holds the length
  modulo 2 to the 64), and those below 2 to the 64 bytes where it is longer.
\<close>

definition md_length_ok :: "'v md_macros \<Rightarrow> nat \<Rightarrow> bool" where
  "md_length_ok c l \<longleftrightarrow> l < 2 ^ 64 \<or> SPH_BLEN c - SPH_MAXPAD c = 8"

text \<open>A context represents the message that has been given to it since its initialisation.\<close>

definition md_rep :: "'v md_macros \<Rightarrow> 'v \<Rightarrow> bytes \<Rightarrow> 'v md_context \<Rightarrow> bool" where
  "md_rep c iv m sc \<longleftrightarrow>
     length (buf sc) = SPH_BLEN c \<and> count sc = of_nat (length m) \<and> val sc = md_fold c iv m
     \<and> take (length m mod SPH_BLEN c) (buf sc) = partial_block (SPH_BLEN c) m"

section \<open>The padding of the standards\<close>

text \<open>
  MD4, MD5, RIPEMD and the SHA family pad in the same way, but for the block length \<open>B\<close>, the size \<open>L\<close>
  of the length field and its byte order: a bit 1 follows the message, then as few zero bits as let
  the length field end a block. The message is \<open>m\<close> and then the \<open>n\<close> highest bits of the byte \<open>ub\<close>.
\<close>

definition std_last_byte :: "u32 \<Rightarrow> nat \<Rightarrow> u8" where
  "std_last_byte ub n = push_bit (8 - n) (drop_bit (8 - n) (ucast ub)) OR push_bit (7 - n) 1"

definition std_pad :: "(nat \<Rightarrow> nat \<Rightarrow> bytes) \<Rightarrow> nat \<Rightarrow> nat \<Rightarrow> bytes \<Rightarrow> u32 \<Rightarrow> nat \<Rightarrow> bytes" where
  "std_pad enc B L m ub n =
     m @ [std_last_byte ub n] @ replicate ((B - (length m + 1 + L) mod B) mod B) 0 @ enc L (8 * length m + n)"

text \<open>The hash of a padded message: blocks, compression from the initial value, output.\<close>

definition std_hash :: "nat \<Rightarrow> (bytes \<Rightarrow> 'v \<Rightarrow> 'v) \<Rightarrow> 'v \<Rightarrow> ('v \<Rightarrow> bytes) \<Rightarrow> bytes \<Rightarrow> bytes" where
  "std_hash B compress iv out padded = out (foldl (\<lambda>v b. compress b v) iv (blocks B padded))"

lemma std_last_byte_bits:
  "n < 8 \<Longrightarrow> i < 8 \<Longrightarrow> bit (std_last_byte ub n) i = (if 8 - n \<le> i then bit ub i else i = 7 - n)"
  by (auto simp: std_last_byte_def bit_simps)

lemma md_last_byte_std:
  assumes "\<not> PW01 c" and "n < 8"
  shows "md_last_byte c ub n = std_last_byte ub n"
proof -
  have "\<forall>n<8. \<forall>i<8. bit (md_last_byte c ub n) i = (if 8 - n \<le> i then bit ub i else i = 7 - n)"
    using assms(1) by (simp add: md_last_byte_def Let_def bits_simps)
  with assms(2) show ?thesis by (intro word8_eqI) (simp add: std_last_byte_bits)
qed

lemma md_pad_std:
  assumes "\<not> PW01 c" and "n < 8"
  shows "md_pad c m ub n = std_pad (if WORD c = BE32 \<or> WORD c = BE64 then nat_be else nat_le)
     (SPH_BLEN c) (SPH_BLEN c - SPH_MAXPAD c) m ub n"
  by (simp add: md_pad_def std_pad_def md_last_byte_std [OF assms] md_zeros_def md_length_field_def)

section \<open>The length field\<close>

lemma length_nat_be [simp]: "length (nat_be k x) = k" "length (nat_le k x) = k"
  by (simp_all add: nat_be_def nat_le_def)

lemma ucast_drop_of_nat:
  "m \<le> 56 \<Longrightarrow> ucast (drop_bit m (of_nat x :: u64)) = (of_nat (x div 2 ^ m) :: u8)"
  by (rule bit_word_eqI) (auto simp: bit_simps simp flip: drop_bit_eq_div)

lemma nat_be_8: "nat_be 8 x = be64 (of_nat x)"
proof -
  have "be64 (of_nat x) ! i = of_nat (x div 256 ^ (7 - i))" if "i < 8" for i
  proof -
    have "\<forall>i<8. be64 w ! i = ucast (drop_bit (8 * (7 - i)) w)" for w
      by (simp add: be64_bytes all_less_numeral)
    with that have "be64 (of_nat x) ! i = ucast (drop_bit (8 * (7 - i)) (of_nat x :: u64))" by blast
    also have "\<dots> = of_nat (x div 2 ^ (8 * (7 - i)))"
      using that by (intro ucast_drop_of_nat) simp
    finally show ?thesis by (simp add: power_mult)
  qed
  then show ?thesis by (intro nth_equalityI) (simp_all add: nat_be_def)
qed

lemma nat_be_append: "nat_be (j + k) x = nat_be j (x div 256 ^ k) @ nat_be k x"
proof (rule nth_equalityI)
  fix i assume "i < length (nat_be (j + k) x)"
  then have i: "i < j + k" by simp
  show "nat_be (j + k) x ! i = (nat_be j (x div 256 ^ k) @ nat_be k x) ! i"
  proof (cases "i < j")
    case True
    then have "j + k - Suc i = k + (j - Suc i)" by simp
    then have "x div 256 ^ (j + k - Suc i) = x div 256 ^ k div 256 ^ (j - Suc i)"
      by (simp add: power_add div_mult2_eq)
    with True show ?thesis by (simp add: nat_be_def nth_append)
  next
    case False
    with i obtain i' where "i = j + i'" and "i' < k" by (metis add_less_cancel_left le_add_diff_inverse not_less)
    then show ?thesis by (simp add: nat_be_def nth_append)
  qed
qed simp

lemma nat_be_0: "nat_be k 0 = replicate k 0"
  by (simp add: nat_be_def map_replicate_const)

lemma nat_be_16: "nat_be 16 x = be64 (of_nat (x div 2 ^ 64)) @ be64 (of_nat x)"
  using nat_be_append [of 8 8 x] by (simp add: nat_be_8)

lemma nat_be_32: "x < 2 ^ 128 \<Longrightarrow> nat_be 32 x = replicate 16 0 @ be64 (of_nat (x div 2 ^ 64)) @ be64 (of_nat x)"
  using nat_be_append [of 16 16 x] by (simp add: nat_be_16 nat_be_0)

lemma bit_count_low: "push_bit 3 (of_nat l) + of_nat n = (of_nat (8 * l + n) :: u64)"
  by (simp add: push_bit_eq_mult)

lemma bit_count_high:
  assumes "l < 2 ^ 64" and "n < 8"
  shows "drop_bit 61 (of_nat l :: u64) = of_nat ((8 * l + n) div 2 ^ 64)"
proof -
  have "(8 * l + n) div 2 ^ 64 = l div 2 ^ 61"
    using assms(2) by (simp add: div_mult2_eq [of _ 8, symmetric])
  moreover have "drop_bit 61 (of_nat l :: u64) = of_nat (drop_bit 61 l)"
  proof (rule bit_word_eqI)
    have "\<not> bit l (61 + i)" if "3 \<le> i" for i
      using assms(1) that bit_take_bit_iff [of 64 l "61 + i"] by (simp add: take_bit_nat_eq_self)
    then show "bit (drop_bit 61 (of_nat l :: u64)) i = bit (of_nat (drop_bit 61 l) :: u64) i" for i
      by (cases "3 \<le> i") (auto simp: bit_simps)
  qed
  ultimately show ?thesis by (simp add: drop_bit_eq_div)
qed

section \<open>The contract, proved once for every instance of the template\<close>

locale md_template =
  fixes a :: arch and c :: "'v md_macros" and k :: nat
  assumes ok: "arch_ok a"
    and blen: "SPH_BLEN c = 2 ^ k" and k_less: "k < 32"
    and maxpad: "0 < SPH_MAXPAD c"
    and plw_32: "WORD c = BE32 \<or> WORD c = LE32 \<Longrightarrow> PLW c = PLW_default"
    and plw_le64: "WORD c = LE64 \<Longrightarrow> PLW c \<noteq> PLW4"
begin

lemma blen_pos [simp]: "0 < SPH_BLEN c"
  by (simp add: blen)

lemma maxpad_less: "SPH_MAXPAD c < SPH_BLEN c"
  using maxpad by (auto simp: SPH_MAXPAD_def SPH_WLEN_def split: md_plw.splits)

lemma md_current_mod:
  assumes "count sc = of_nat l"
  shows "md_current c sc = l mod SPH_BLEN c"
proof -
  have mask: "(of_nat (SPH_BLEN c) - 1 :: u32) = mask k"
    by (simp add: blen mask_eq_exp_minus_1)
  have "md_current c sc = unat (take_bit k (ucast (count sc) :: u32))"
    by (simp add: md_current_def mask take_bit_eq_mask)
  also have "\<dots> = take_bit k (unat (ucast (count sc) :: u32))"
    by (simp add: unsigned_take_bit_eq)
  also have "unat (ucast (count sc) :: u32) = take_bit 32 (take_bit 64 l)"
    by (simp add: assms unsigned_ucast_eq unsigned_of_nat)
  also have "take_bit k (take_bit 32 (take_bit 64 l)) = l mod SPH_BLEN c"
    using k_less by (simp only: take_bit_take_bit) (simp add: blen take_bit_eq_mod)
  finally show ?thesis .
qed

lemma md_rep_current: "md_rep c iv m sc \<Longrightarrow> md_current c sc = length m mod SPH_BLEN c"
  by (simp add: md_rep_def md_current_mod)

text \<open>One piece of data that stays within the current block, or completes it.\<close>

lemma md_rep_absorb:
  assumes rep: "md_rep c iv m sc" and fits: "length m mod SPH_BLEN c + length d < SPH_BLEN c"
  shows "md_rep c iv (m @ d) (sc\<lparr>buf := mem_write (buf sc) (length m mod SPH_BLEN c) d,
           count := count sc + of_nat (length d)\<rparr>)"
    and "length (m @ d) mod SPH_BLEN c = length m mod SPH_BLEN c + length d"
proof -
  let ?B = "SPH_BLEN c" and ?p = "partial_block (SPH_BLEN c) m"
  obtain h where split: "\<And>ys. blocks ?B (m @ ys) = blocks ?B m @ blocks ?B (?p @ ys)"
    "\<And>ys. partial_block ?B (m @ ys) = partial_block ?B (?p @ ys)"
    using split_at_block [OF blen_pos, of m] by metis
  show len: "length (m @ d) mod ?B = length m mod ?B + length d"
    using fits by (simp add: mod_add_left_eq [symmetric, of "length m"])
  have "partial_block ?B (?p @ d) = ?p @ d"
    using fits by (simp add: partial_block_less)
  with rep fits len split show "md_rep c iv (m @ d) (sc\<lparr>buf := mem_write (buf sc) (length m mod ?B) d,
           count := count sc + of_nat (length d)\<rparr>)"
    by (simp add: md_rep_def md_fold_def less_imp_le)
qed

lemma md_rep_complete:
  assumes rep: "md_rep c iv m sc" and fits: "length m mod SPH_BLEN c + length d = SPH_BLEN c"
  shows "md_rep c iv (m @ d)
     (sc\<lparr>buf := mem_write (buf sc) (length m mod SPH_BLEN c) d,
         val := RFUN c (mem_write (buf sc) (length m mod SPH_BLEN c) d) (val sc),
         count := count sc + of_nat (length d)\<rparr>)"
    and "length (m @ d) mod SPH_BLEN c = 0"
proof -
  let ?B = "SPH_BLEN c" and ?p = "partial_block (SPH_BLEN c) m"
  obtain h where split: "\<And>ys. blocks ?B (m @ ys) = blocks ?B m @ blocks ?B (?p @ ys)"
    "\<And>ys. partial_block ?B (m @ ys) = partial_block ?B (?p @ ys)"
    using split_at_block [OF blen_pos, of m] by metis
  show len: "length (m @ d) mod ?B = 0"
    using fits by (metis length_append mod_add_left_eq mod_self)
  have w: "mem_write (buf sc) (length m mod ?B) d = ?p @ d"
    using rep fits by (simp add: md_rep_def mem_write_to_end)
  have "blocks ?B (?p @ d) = [?p @ d]" "partial_block ?B (?p @ d) = []"
    using fits by (simp_all add: blocks_one partial_block_full)
  with rep fits len split w show "md_rep c iv (m @ d)
     (sc\<lparr>buf := mem_write (buf sc) (length m mod ?B) d,
         val := RFUN c (mem_write (buf sc) (length m mod ?B) d) (val sc),
         count := count sc + of_nat (length d)\<rparr>)"
    by (simp add: md_rep_def md_fold_def)
qed

text \<open>The loop of \<open>HASH_short\<close> ends and appends all its data to the message.\<close>

lemma md_short_loop_rep:
  assumes "md_rep c iv m sc"
  shows "\<exists>sc'. md_short_loop c (length m mod SPH_BLEN c) data sc = Some sc' \<and> md_rep c iv (m @ data) sc'"
  using assms
proof (induction "length data" arbitrary: data m sc rule: less_induct)
  case less
  let ?B = "SPH_BLEN c" and ?cur = "length m mod SPH_BLEN c"
  show ?case
  proof (cases "data = []")
    case True
    with less.prems show ?thesis by (simp add: md_short_loop.simps)
  next
    case False
    define clen where "clen = (if ?B - ?cur > length data then length data else ?B - ?cur)"
    define d where "d = take clen data"
    have cur: "?cur < ?B" by simp
    then have pos: "0 < clen" and le: "clen \<le> length data" "?cur + clen \<le> ?B"
      using False by (auto simp: clen_def)
    then have d: "length d = clen" "d @ drop clen data = data" by (auto simp: d_def)
    have shorter: "length (drop clen data) < length data" using pos False by simp
    have step: "md_short_loop c ?cur data sc =
        (if ?cur + clen = ?B
         then md_short_loop c 0 (drop clen data)
           (sc\<lparr>buf := mem_write (buf sc) ?cur d,
               val := RFUN c (mem_write (buf sc) ?cur d) (val sc), count := count sc + of_nat (length d)\<rparr>)
         else md_short_loop c (?cur + clen) (drop clen data)
           (sc\<lparr>buf := mem_write (buf sc) ?cur d, count := count sc + of_nat (length d)\<rparr>))"
      using False d by (subst md_short_loop.simps) (simp add: Let_def clen_def [symmetric] d_def)
    show ?thesis
    proof (cases "?cur + clen = ?B")
      case True
      with d have "?cur + length d = ?B" by simp
      from md_rep_complete [OF less.prems this] less.hyps [OF shorter] step True d
      show ?thesis by (metis append_assoc)
    next
      case False
      with d le have "?cur + length d < ?B" by simp
      from md_rep_absorb [OF less.prems this] less.hyps [OF shorter] step False d
      show ?thesis by (metis append_assoc)
    qed
  qed
qed

lemma md_short_rep:
  "md_rep c iv m sc \<Longrightarrow> \<exists>sc'. md_short c data sc = Some sc' \<and> md_rep c iv (m @ data) sc'"
  by (simp add: md_short_def md_rep_current md_short_loop_rep)

lemma md_block_loop_blocks:
  "md_block_loop c data v = Some (partial_block (SPH_BLEN c) data, foldl (\<lambda>v b. RFUN c b v) v (blocks (SPH_BLEN c) data))"
proof (induction "length data" arbitrary: data v rule: less_induct)
  case less
  let ?B = "SPH_BLEN c"
  show ?case
  proof (cases "?B \<le> length data")
    case True
    then have "length (drop ?B data) < length data"
      using blen_pos by (metis diff_less length_drop less_le_trans)
    from less.hyps [OF this] True
    have "md_block_loop c data v = Some (partial_block ?B (drop ?B data),
        foldl (\<lambda>v b. RFUN c b v) (RFUN c (take ?B data) v) (blocks ?B (drop ?B data)))"
      by (subst md_block_loop.simps) simp
    moreover have "blocks ?B data = take ?B data # blocks ?B (drop ?B data)"
      using True by (subst blocks.simps) simp
    moreover have "partial_block ?B data = partial_block ?B (drop ?B data)"
      using True by (simp add: partial_block_def le_div_geq add.commute)
    ultimately show ?thesis by simp
  next
    case False
    then show ?thesis by (subst md_block_loop.simps) (simp add: partial_block_less)
  qed
qed

text \<open>Whole blocks at a block boundary, read in place.\<close>

lemma md_rep_blocks:
  assumes rep: "md_rep c iv m sc" and aligned: "length m mod SPH_BLEN c = 0"
  shows "md_rep c iv (m @ d)
     (sc\<lparr>val := foldl (\<lambda>v b. RFUN c b v) (val sc) (blocks (SPH_BLEN c) d),
         buf := mem_write (buf sc) 0 (partial_block (SPH_BLEN c) d),
         count := count sc + of_nat (length d)\<rparr>)"
proof -
  let ?B = "SPH_BLEN c"
  have p: "partial_block ?B m = []" using aligned by (metis length_0_conv length_partial_block)
  obtain h where split: "\<And>ys. blocks ?B (m @ ys) = blocks ?B m @ blocks ?B (partial_block ?B m @ ys)"
    "\<And>ys. partial_block ?B (m @ ys) = partial_block ?B (partial_block ?B m @ ys)"
    using split_at_block [OF blen_pos, of m] by metis
  have len: "length (m @ d) mod ?B = length (partial_block ?B d)"
    using aligned by (metis add_0 length_append length_partial_block mod_add_left_eq)
  have "take (0 + length (partial_block ?B d)) (mem_write (buf sc) 0 (partial_block ?B d)) = partial_block ?B d"
    by (subst take_mem_write) simp_all
  with rep p split len show ?thesis
    by (simp add: md_rep_def md_fold_def less_imp_le)
qed

lemma md_update_blocks:
  assumes "md_rep c iv m sc" and "length m mod SPH_BLEN c = 0"
  shows "\<exists>sc'. (if \<not> SPH_UNALIGNED a \<and> addr AND (of_nat (SPH_WLEN c) - 1) \<noteq> (0 :: u64) then md_short c data sc
        else do {
          let orig_len = length data;
          (data, v) \<leftarrow> md_block_loop c data (val sc);
          let sc = sc\<lparr>val := v\<rparr>;
          let sc = (if length data > 0 then sc\<lparr>buf := mem_write (buf sc) 0 data\<rparr> else sc);
          Some (sc\<lparr>count := count sc + of_nat orig_len\<rparr>)
        }) = Some sc' \<and> md_rep c iv (m @ data) sc'"
  using md_short_rep [OF assms(1), of data] md_rep_blocks [OF assms, of data]
  by (auto simp: md_block_loop_blocks Let_def)

theorem md_update_rep:
  assumes rep: "md_rep c iv m sc"
  shows "\<exists>sc'. md_update a c addr data sc = Some sc' \<and> md_rep c iv (m @ data) sc'"
proof (cases "\<not> SPH_UPTR a \<or> length data < 2 * SPH_BLEN c")
  case True
  with md_short_rep [OF rep] show ?thesis by (auto simp: md_update_def)
next
  case False
  let ?B = "SPH_BLEN c" and ?cur = "length m mod SPH_BLEN c"
  show ?thesis
  proof (cases "?cur = 0")
    case True
    with False md_update_blocks [OF rep, of addr data] md_rep_current [OF rep] show ?thesis
      by (simp add: md_update_def)
  next
    case cur: False
    define t where "t = ?B - ?cur"
    have t: "?cur + length (take t data) = ?B" using False by (auto simp: t_def)
    obtain sc1 where sc1: "md_short c (take t data) sc = Some sc1" "md_rep c iv (m @ take t data) sc1"
      using md_short_rep [OF rep] by blast
    from md_update_blocks [OF sc1(2) md_rep_complete(2) [OF rep t], of "addr + of_nat t" "drop t data"]
    show ?thesis using False cur sc1(1) md_rep_current [OF rep]
      by (simp add: md_update_def t_def [symmetric])
  qed
qed

text \<open>Closing writes the length field of the padded message at the end of the buffer.\<close>

lemma field_length:
  "SPH_BLEN c - SPH_MAXPAD c = (case PLW c of PLW1 \<Rightarrow> SPH_WLEN c | PLW4 \<Rightarrow> SPH_WLEN c * 4 | PLW_default \<Rightarrow> SPH_WLEN c * 2)"
  using maxpad by (auto simp: SPH_MAXPAD_def split: md_plw.splits)

lemma md_write_length_field:
  assumes buf: "length (buf sc) = SPH_BLEN c" and cnt: "count sc = of_nat l" and n: "n < 8" and l: "md_length_ok c l"
  shows "md_write_length a c n sc = take (SPH_MAXPAD c) (buf sc) @ md_length_field c (8 * l + n)"
proof -
  have low: "push_bit 3 (count sc) + of_nat n = of_nat (8 * l + n)"
    by (simp only: cnt bit_count_low)
  have high: "drop_bit 61 (count sc) = of_nat ((8 * l + n) div 2 ^ 64)" if "l < 2 ^ 64"
    using bit_count_high [OF that n] by (simp only: cnt)
  have b: "SPH_BLEN c = SPH_MAXPAD c + (SPH_BLEN c - SPH_MAXPAD c)" using maxpad_less by simp
  have small: "8 * l + n < 2 ^ 128" if "l < 2 ^ 64" using that n by simp
  show ?thesis
    using l b buf plw_32 plw_le64 nat_be_8 nat_be_16 nat_be_32 [OF small]
    unfolding md_write_length_def md_length_field_def Let_def SPH_T64_id low md_length_ok_def field_length
    by (cases "WORD c"; cases "PLW c")
       (simp_all add: ok high SPH_WLEN_def mem_write_def nat_le_def le64_def)
qed

lemma md_zeros_cases:
  "md_zeros c l =
     (if l mod SPH_BLEN c < SPH_MAXPAD c then SPH_MAXPAD c - 1 - l mod SPH_BLEN c
      else SPH_BLEN c + SPH_MAXPAD c - 1 - l mod SPH_BLEN c)"
proof -
  let ?B = "SPH_BLEN c" and ?M = "SPH_MAXPAD c" and ?r = "l mod SPH_BLEN c"
  have r: "?r < ?B" by simp
  have M: "?M < ?B" "0 < ?M" using maxpad_less maxpad by auto
  have "(l + 1 + (?B - ?M)) mod ?B = (?r + 1 + (?B - ?M)) mod ?B"
    by (simp only: add.assoc mod_add_left_eq)
  also have "\<dots> = (if ?r < ?M then (?r + 1 + (?B - ?M)) mod ?B else ?r + 1 - ?M)"
  proof (cases "?r < ?M")
    case False
    then have "?r + 1 + (?B - ?M) = (?r + 1 - ?M) + ?B" using M by simp
    moreover have "?r + 1 - ?M < ?B" using r M by linarith
    ultimately show ?thesis using False by (simp only: if_False mod_add_self2 mod_less)
  qed simp
  finally have eq: "(l + 1 + (?B - ?M)) mod ?B =
      (if ?r < ?M then (?r + 1 + (?B - ?M)) mod ?B else ?r + 1 - ?M)" .
  show ?thesis
  proof (cases "?r < ?M")
    case True
    then have "?r + 1 + (?B - ?M) \<le> ?B" using M by simp
    then show ?thesis
      using True M eq by (cases "?r + 1 + (?B - ?M) = ?B") (auto simp: md_zeros_def)
  next
    case False
    then have "?B - (?r + 1 - ?M) < ?B" and "?B - (?r + 1 - ?M) = ?B + ?M - 1 - ?r"
      using M r by linarith+
    with False eq show ?thesis by (simp only: md_zeros_def if_False mod_less)
  qed
qed

lemma length_md_pad: "SPH_BLEN c dvd length (md_pad c m ub n)"
proof -
  let ?B = "SPH_BLEN c" and ?M = "SPH_MAXPAD c" and ?r = "length m mod SPH_BLEN c"
  have M: "?M < ?B" "0 < ?M" "?r < ?B" using maxpad_less maxpad by auto
  have "length (md_pad c m ub n) = length m + 1 + md_zeros c (length m) + (?B - ?M)"
    by (simp add: md_pad_def md_length_field_def)
  also have "\<dots> = length m div ?B * ?B + (?r + 1 + md_zeros c (length m) + (?B - ?M))"
    using div_mult_mod_eq [of "length m" ?B] by linarith
  also have "?r + 1 + md_zeros c (length m) + (?B - ?M) = (if ?r < ?M then ?B else 2 * ?B)"
    using M unfolding md_zeros_cases by (simp only: split: if_split) linarith
  finally show ?thesis by simp
qed

text \<open>The two ways to pad: the length field fits in the current block, or needs another one.\<close>

lemma md_fold_append: "SPH_BLEN c dvd length x \<Longrightarrow> md_fold c iv (x @ y) = foldl (\<lambda>v b. RFUN c b v) (md_fold c iv x) (blocks (SPH_BLEN c) y)"
  by (simp add: md_fold_def blocks_append)

lemma md_fold_partial:
  assumes "length (partial_block (SPH_BLEN c) m @ y) = SPH_BLEN c"
  shows "md_fold c iv (m @ y) = RFUN c (partial_block (SPH_BLEN c) m @ y) (md_fold c iv m)"
proof -
  obtain h where "\<And>ys. blocks (SPH_BLEN c) (m @ ys) = blocks (SPH_BLEN c) m @ blocks (SPH_BLEN c) (partial_block (SPH_BLEN c) m @ ys)"
    using split_at_block [OF blen_pos, of m] by metis
  with assms show ?thesis by (simp add: md_fold_def blocks_one)
qed

lemma md_fold_pad_one:
  assumes "length m mod SPH_BLEN c < SPH_MAXPAD c"
  shows "md_fold c iv (md_pad c m ub n) =
     RFUN c (partial_block (SPH_BLEN c) m @ md_last_byte c ub n
        # replicate (SPH_MAXPAD c - Suc (length m mod SPH_BLEN c)) 0 @ md_length_field c (8 * length m + n))
       (md_fold c iv m)"
  using assms maxpad_less unfolding md_pad_def
  by (subst md_fold_partial) (simp_all add: md_zeros_cases md_length_field_def)

lemma md_fold_pad_two:
  assumes "SPH_MAXPAD c \<le> length m mod SPH_BLEN c"
  shows "md_fold c iv (md_pad c m ub n) =
     RFUN c (replicate (SPH_MAXPAD c) 0 @ md_length_field c (8 * length m + n))
       (RFUN c (partial_block (SPH_BLEN c) m @ md_last_byte c ub n
          # replicate (SPH_BLEN c - Suc (length m mod SPH_BLEN c)) 0) (md_fold c iv m))"
proof -
  let ?B = "SPH_BLEN c" and ?r = "length m mod SPH_BLEN c"
  let ?fst = "md_last_byte c ub n # replicate (?B - Suc ?r) 0"
  let ?snd = "replicate (SPH_MAXPAD c) 0 @ md_length_field c (8 * length m + n)"
  have r: "?r < ?B" by simp
  have "md_zeros c (length m) = (?B - Suc ?r) + SPH_MAXPAD c"
    using assms r by (simp only: md_zeros_cases not_less [symmetric] if_False)
  then have pad: "md_pad c m ub n = (m @ ?fst) @ ?snd"
    by (simp add: md_pad_def replicate_add)
  have rest: "Suc (?r + (?B - Suc ?r)) = ?B" using r by linarith
  then have full: "length (partial_block ?B m @ ?fst) = ?B" by simp
  have "length (m @ ?fst) = length m div ?B * ?B + ?B"
    using rest div_mult_mod_eq [of "length m" ?B]
    by (simp only: length_append length_Cons length_replicate)
  then have dvd: "?B dvd length (m @ ?fst)" by simp
  have "blocks ?B ?snd = [?snd]"
    using maxpad_less by (intro blocks_one) (simp_all add: md_length_field_def)
  then show ?thesis
    unfolding pad md_fold_append [OF dvd] md_fold_partial [OF full] by simp
qed

theorem md_addbits_and_close_digest:
  assumes rep: "md_rep c iv m sc" and n: "n < 8" and l: "md_length_ok c (length m)"
  shows "fst (md_addbits_and_close a c ub n dst rnum sc) = md_digest c iv dst rnum ub n m"
    and "length (buf (snd (md_addbits_and_close a c ub n dst rnum sc))) = SPH_BLEN c"
proof -
  let ?B = "SPH_BLEN c" and ?M = "SPH_MAXPAD c" and ?r = "length m mod SPH_BLEN c"
  let ?p = "partial_block ?B m" and ?b = "md_last_byte c ub n"
  have r: "?r < ?B" by simp
  then have rest: "Suc (?r + (?B - Suc ?r)) = ?B" by linarith
  note rd = rep [unfolded md_rep_def]
  have upd: "take (Suc ?r) ((buf sc)[?r := ?b]) = ?p @ [?b]"
    using rd r by (simp add: take_Suc_conv_app_nth)
  have one: "take ?M (mem_write ((buf sc)[?r := ?b]) (Suc ?r) (replicate (?M - Suc ?r) 0))
      = ?p @ ?b # replicate (?M - Suc ?r) 0" if "?r < ?M"
    using that upd rd maxpad_less
      take_mem_write [of "Suc ?r" "(buf sc)[?r := ?b]" "replicate (?M - Suc ?r) 0"] by simp
  have two: "mem_write ((buf sc)[?r := ?b]) (Suc ?r) (replicate (?B - Suc ?r) 0)
      = ?p @ ?b # replicate (?B - Suc ?r) 0"
    using upd rd rest by (subst mem_write_to_end) simp_all
  have zeros: "take ?M (mem_write b 0 (replicate ?M 0)) = replicate ?M (0 :: u8)" for b
    by (simp add: mem_write_def)
  have field: "md_write_length a c n s = take ?M (buf s) @ md_length_field c (8 * length m + n)"
    if "length (buf s) = ?B" "count s = of_nat (length m)" for s :: "'v md_context"
    using md_write_length_field [OF that n l] .
  have len: "length (md_length_field c x) = ?B - ?M" for x by (simp add: md_length_field_def)
  show "fst (md_addbits_and_close a c ub n dst rnum sc) = md_digest c iv dst rnum ub n m"
    using rd r maxpad_less
    by (cases "?r < ?M")
       (simp_all add: md_addbits_and_close_def md_digest_def md_rep_current [OF rep] Let_def field one two
          md_fold_pad_one md_fold_pad_two not_less zeros rest)
  show "length (buf (snd (md_addbits_and_close a c ub n dst rnum sc))) = ?B"
    using rd r maxpad_less
    by (cases "?r < ?M")
       (simp_all add: md_addbits_and_close_def md_rep_current [OF rep] Let_def field len not_less two rest)
qed

end

section \<open>Every instance of the template is an incremental hash function\<close>

text \<open>
  An includer adds an initial value and the number of words it outputs. \<open>init\<close> and the wrapper of
  \<open>close\<close> are written out in each of them; they all have the form below.
\<close>

definition md_init :: "'v \<Rightarrow> 'v md_context \<Rightarrow> 'v md_context" where
  "md_init iv sc = sc\<lparr>val := iv, count := 0\<rparr>"

definition md_hash_of :: "'v md_macros \<Rightarrow> 'v \<Rightarrow> ('v \<Rightarrow> bytes) \<Rightarrow> u32 \<Rightarrow> nat \<Rightarrow> bytes \<Rightarrow> bytes" where
  "md_hash_of c iv out ub n m = out (md_fold c iv (md_pad c m ub n))"

definition md_close_init ::
    "arch \<Rightarrow> 'v md_macros \<Rightarrow> 'v \<Rightarrow> nat \<Rightarrow> u32 \<Rightarrow> nat \<Rightarrow> u64 \<Rightarrow> 'v md_context \<Rightarrow> bytes \<times> 'v md_context" where
  "md_close_init a c iv rnum ub n dst sc =
     (let (out, sc) = md_addbits_and_close a c ub n dst rnum sc in (out, md_init iv sc))"

lemma md_hash_of_std:
  assumes "\<not> PW01 c" and "n < 8" and "P iv"
    and step: "\<And>v b. P v \<Longrightarrow> length b = SPH_BLEN c \<Longrightarrow> RFUN c b v = compress b v \<and> P (compress b v)"
    and out: "\<And>v. P v \<Longrightarrow> out v = out' v"
  shows "md_hash_of c iv out ub n m = std_hash (SPH_BLEN c) compress iv out'
     (std_pad (if WORD c = BE32 \<or> WORD c = BE64 then nat_be else nat_le)
       (SPH_BLEN c) (SPH_BLEN c - SPH_MAXPAD c) m ub n)"
proof -
  have "foldl (\<lambda>v b. RFUN c b v) iv (blocks (SPH_BLEN c) x) = foldl (\<lambda>v b. compress b v) iv (blocks (SPH_BLEN c) x)
      \<and> P (foldl (\<lambda>v b. compress b v) iv (blocks (SPH_BLEN c) x))" for x
    using assms(3) step by (intro foldl_invariant_cong) (auto dest: in_blocks_length)
  then show ?thesis
    using out by (simp add: md_hash_of_def std_hash_def md_fold_def md_pad_std [OF assms(1,2)])
qed

text \<open>The output loops, on every consistent architecture.\<close>

lemma md_outputs:
  assumes "arch_ok a"
  shows "md_output_be32 a dst v r = concat (map (\<lambda>u. be32 (v ! u)) [0..<r])"
    "md_output_le32 a dst v r = concat (map (\<lambda>u. le32 (v ! u)) [0..<r])"
    "md_output_be64 a dst w r = concat (map (\<lambda>u. be64 (w ! u)) [0..<r])"
    "md_output_le64 a dst w r = concat (map (\<lambda>u. le64 (w ! u)) [0..<r])"
  using assms
  by (simp_all add: md_output_be32_def md_output_le32_def md_output_be64_def md_output_le64_def)

lemma concat_map_take:
  "r \<le> length v \<Longrightarrow> concat (map (\<lambda>u. f (v ! u)) [0..<r]) = concat (map f (take r v))"
  by (rule arg_cong [where f = concat], rule nth_equalityI) simp_all

locale md_hash = md_template a c k
  for a :: arch and c :: "'v md_macros" and k :: nat +
  fixes iv :: 'v and rnum :: nat and out :: "'v \<Rightarrow> bytes"
  assumes output_out: "OUTPUT c dst v rnum = out v"
begin

lemma init_rep: "length (buf sc) = SPH_BLEN c \<Longrightarrow> md_rep c iv [] (md_init iv sc)"
  by (simp add: md_rep_def md_init_def md_fold_def partial_block_def)

lemma close_digest:
  assumes "md_rep c iv m sc" and "n < 8" and "md_length_ok c (length m)"
  shows "fst (md_close_init a c iv rnum ub n dst sc) = md_hash_of c iv out ub n m"
    and "md_rep c iv [] (snd (md_close_init a c iv rnum ub n dst sc))"
  using md_addbits_and_close_digest [OF assms, of ub dst rnum] init_rep
  by (auto simp: md_close_init_def md_hash_of_def md_digest_def output_out split: prod.splits)

end

sublocale md_hash \<subseteq> inc: incremental_hash
  "\<lambda>sc. length (buf sc) = SPH_BLEN c" "md_init iv" "md_update a c"
  "md_close_init a c iv rnum 0 0" "md_rep c iv" "md_hash_of c iv out 0 0" "md_length_ok c"
  by unfold_locales (auto simp: init_rep md_update_rep close_digest)

end
