(* ===== verification/Sha2_Spec.thy ===== *)
theory Sha2_Spec
  imports Prelude
begin

text \<open>
  The SHA-2 functions as FIPS 180-4 defines them, for either word size: the message schedule, the
  step of the compression function on the eight working variables, and the compression function.
  The two implementations of the library (32-bit in \<open>sha2.c\<close>, 64-bit in \<open>sha2big.c\<close>) are compared
  with it.
\<close>

section \<open>Functions of the standard\<close>

definition Ch :: "'a::len word \<Rightarrow> 'a word \<Rightarrow> 'a word \<Rightarrow> 'a word" where
  "Ch x y z = (x AND y) XOR (NOT x AND z)"

definition Maj :: "'a::len word \<Rightarrow> 'a word \<Rightarrow> 'a word \<Rightarrow> 'a word" where
  "Maj x y z = (x AND y) XOR (x AND z) XOR (y AND z)"

definition rotr3 :: "nat \<Rightarrow> nat \<Rightarrow> nat \<Rightarrow> 'a::len word \<Rightarrow> 'a word" where
  "rotr3 i j k x = word_rotr i x XOR word_rotr j x XOR word_rotr k x"

definition rotr2_shr :: "nat \<Rightarrow> nat \<Rightarrow> nat \<Rightarrow> 'a::len word \<Rightarrow> 'a word" where
  "rotr2_shr i j k x = word_rotr i x XOR word_rotr j x XOR drop_bit k x"

text \<open>The functions that differ between the two word sizes, and the constants.\<close>

record 'w sha2_fns =
  Sigma0 :: "'w \<Rightarrow> 'w"
  Sigma1 :: "'w \<Rightarrow> 'w"
  sigma0 :: "'w \<Rightarrow> 'w"
  sigma1 :: "'w \<Rightarrow> 'w"
  Kt :: "'w list"

type_synonym 'w st8 = "'w \<times> 'w \<times> 'w \<times> 'w \<times> 'w \<times> 'w \<times> 'w \<times> 'w"

fun schedule :: "'a::len word sha2_fns \<Rightarrow> (nat \<Rightarrow> 'a word) \<Rightarrow> nat \<Rightarrow> 'a word" where
  "schedule f M t =
     (if t < 16 then M t
      else sigma1 f (schedule f M (t - 2)) + schedule f M (t - 7)
         + sigma0 f (schedule f M (t - 15)) + schedule f M (t - 16))"

declare schedule.simps [simp del]

fun sha2_step :: "'a::len word sha2_fns \<Rightarrow> (nat \<Rightarrow> 'a word) \<Rightarrow> 'a word st8 \<Rightarrow> nat \<Rightarrow> 'a word st8" where
  "sha2_step f W (a, b, c, d, e, f', g, h) t =
     (let T1 = h + Sigma1 f e + Ch e f' g + Kt f ! t + W t;
          T2 = Sigma0 f a + Maj a b c
      in (T1 + T2, a, b, c, d + T1, e, f', g))"

fun st8_list :: "'w st8 \<Rightarrow> 'w list" where
  "st8_list (a, b, c, d, e, f, g, h) = [a, b, c, d, e, f, g, h]"

definition st8_of :: "'w list \<Rightarrow> 'w st8" where
  "st8_of r = (r ! 0, r ! 1, r ! 2, r ! 3, r ! 4, r ! 5, r ! 6, r ! 7)"

text \<open>One step per round constant.\<close>

definition sha2_compress :: "'a::len word sha2_fns \<Rightarrow> (nat \<Rightarrow> 'a word) \<Rightarrow> 'a word list \<Rightarrow> 'a word list" where
  "sha2_compress f M r =
     map2 (+) r (st8_list (foldl (sha2_step f (schedule f M)) (st8_of r) [0..<length (Kt f)]))"

definition sha512_fns :: "u64 list \<Rightarrow> u64 sha2_fns" where
  "sha512_fns K = \<lparr>Sigma0 = rotr3 28 34 39, Sigma1 = rotr3 14 18 41,
     sigma0 = rotr2_shr 1 8 7, sigma1 = rotr2_shr 19 61 6, Kt = K\<rparr>"

definition sha256_fns :: "u32 list \<Rightarrow> u32 sha2_fns" where
  "sha256_fns K = \<lparr>Sigma0 = rotr3 2 13 22, Sigma1 = rotr3 6 11 25,
     sigma0 = rotr2_shr 7 18 3, sigma1 = rotr2_shr 17 19 10, Kt = K\<rparr>"

section \<open>Lemmas\<close>

lemma Ch_xor_form: "((y XOR z) AND x) XOR z = Ch x y z"
  by (rule bit_word_eqI) (auto simp: Ch_def bit_simps)

lemma Maj_or_forms:
  "(x AND y) OR ((x OR y) AND z) = Maj x y z" "(y AND z) OR ((y OR z) AND x) = Maj x y z"
  by (rule bit_word_eqI, auto simp: Maj_def bit_simps)+

lemma sha2_step_case_prod:
  "sha2_step f W (case p of (x, y) \<Rightarrow> g x y) t = (case p of (x, y) \<Rightarrow> sha2_step f W (g x y) t)"
  by (cases p) simp

lemma st8_cases:
  obtains a b c d e f g h where "st = (a, b, c, d, e, f, g, h)"
  by (metis surj_pair)

lemma list8E:
  assumes "length r = 8"
  obtains a b c d e f g h where "r = [a, b, c, d, e, f, g, h]"
  using assms by (auto simp: numeral_eq_Suc length_Suc_conv)

lemma sha2_step_cong:
  "W t = W' t \<Longrightarrow> sha2_step f W st t = sha2_step f W' st t"
  by (cases st rule: st8_cases) simp

lemma foldl_sha2_step_cong:
  "(\<And>t. t \<in> set ts \<Longrightarrow> W t = W' t) \<Longrightarrow> foldl (sha2_step f W) st ts = foldl (sha2_step f W') st ts"
  by (rule foldl_cong) (auto intro: sha2_step_cong)

lemma schedule_cong:
  assumes "\<And>t. t < 16 \<Longrightarrow> M t = M' t"
  shows "schedule f M t = schedule f M' t"
proof (induction t rule: less_induct)
  case (less t)
  then show ?case
    by (simp add: schedule.simps [of f M t] schedule.simps [of f M' t] assms)
qed

lemma sha2_compress_cong:
  "(\<And>t. t < 16 \<Longrightarrow> M t = M' t) \<Longrightarrow> sha2_compress f M r = sha2_compress f M' r"
  using schedule_cong [of M M' f] by (simp add: sha2_compress_def ext [of "schedule f M" "schedule f M'"])

lemma length_st8_list [simp]: "length (st8_list st) = 8"
  by (cases st rule: st8_cases) simp

lemma length_sha2_compress [simp]: "length r = 8 \<Longrightarrow> length (sha2_compress f M r) = 8"
  by (simp add: sha2_compress_def)

text \<open>A schedule kept as a growing list.\<close>

lemma schedule_list:
  assumes "16 \<le> n"
  shows "foldl (\<lambda>W i. W @ [sigma1 f (W ! (i - 2)) + W ! (i - 7) + sigma0 f (W ! (i - 15)) + W ! (i - 16)])
           (map M [0..<16]) [16..<n] = map (schedule f M) [0..<n]"
  using assms
proof (induction n rule: nat_induct_at_least)
  case base
  show ?case by (rule nth_equalityI) (simp_all add: schedule.simps)
next
  case (Suc n)
  then show ?case by (simp add: schedule.simps [of f M n])
qed

section \<open>A step as the code writes it\<close>

text \<open>
  The implementations do not move the working variables: a step changes the fourth and the eighth
  one, and the next step names them in another order.
\<close>

definition step_dh ::
    "'a::len word sha2_fns \<Rightarrow> 'a word \<Rightarrow> 'a word \<Rightarrow> 'a word \<Rightarrow> 'a word \<Rightarrow> 'a word \<Rightarrow> 'a word \<Rightarrow> 'a word
      \<Rightarrow> 'a word \<Rightarrow> 'a word \<Rightarrow> 'a word \<Rightarrow> 'a word \<times> 'a word" where
  "step_dh F a b c d e f g h k w =
     (let T1 = h + Sigma1 F e + Ch e f g + k + w; T2 = Sigma0 F a + Maj a b c in (d + T1, T1 + T2))"

lemma sha2_step_dh:
  "sha2_step F W (a, b, c, d, e, f, g, h) t =
     (case step_dh F a b c d e f g h (Kt F ! t) (W t) of (d', h') \<Rightarrow> (h', a, b, c, d', e, f, g))"
  by (simp add: step_dh_def Let_def)

text \<open>A step written out as assignments, followed by the rest of the code.\<close>

lemma step_dh_block:
  "(let T1 = h + Sigma1 F e + Ch e f g + k + w; T2 = Sigma0 F a + Maj a b c; D = d + T1; H = T1 + T2 in rest D H)
     = (case step_dh F a b c d e f g h k w of (D, H) \<Rightarrow> rest D H)"
  by (simp add: step_dh_def Let_def)

section \<open>The schedule in an array of 16 words\<close>

text \<open>The small-footprint implementation puts each word in the place of the word that is 16 older.\<close>

definition circ_expand :: "'a::len word sha2_fns \<Rightarrow> nat \<Rightarrow> 'a word list \<Rightarrow> 'a word list" where
  "circ_expand f k W =
     W[k mod 16 := sigma1 f (W ! ((k + 14) mod 16)) + W ! ((k + 9) mod 16) + sigma0 f (W ! ((k + 1) mod 16)) + W ! (k mod 16)]"

definition circ_step ::
    "'a::len word sha2_fns \<Rightarrow> (nat \<Rightarrow> 'a word list \<Rightarrow> 'a word list) \<Rightarrow> nat \<Rightarrow> 'a word list \<times> 'a word st8 \<Rightarrow> nat
      \<Rightarrow> 'a word list \<times> 'a word st8" where
  "circ_step f mexp pc s k =
     (case s of (W, st) \<Rightarrow> let W = mexp k W in (W, sha2_step f (\<lambda>_. W ! (k mod 16)) st (pc + k)))"

abbreviation "circ_step_at f \<equiv> circ_step f (circ_expand f)"

definition circ_inv :: "'a::len word sha2_fns \<Rightarrow> (nat \<Rightarrow> 'a word) \<Rightarrow> nat \<Rightarrow> 'a word list \<Rightarrow> bool" where
  "circ_inv f M t W \<longleftrightarrow> length W = 16 \<and> (\<forall>i<t. t \<le> i + 16 \<longrightarrow> W ! (i mod 16) = schedule f M i)"

lemma circ_step_at_correct:
  assumes "16 dvd pc" and "16 \<le> pc + k" and inv: "circ_inv f M (pc + k) W"
  shows "\<exists>W'. circ_step_at f pc (W, st) k = (W', sha2_step f (schedule f M) st (pc + k))
     \<and> circ_inv f M (Suc (pc + k)) W'"
proof -
  let ?t = "pc + k"
  have prev: "W ! ((k + j) mod 16) = schedule f M (?t - (16 - j))" if "j < 16" for j
  proof -
    have "(?t - (16 - j)) mod 16 = (k + j) mod 16"
    proof -
      have "?t - (16 - j) + 16 = pc + (k + j)" using assms(2) that by simp
      then have "(?t - (16 - j)) mod 16 = (pc + (k + j)) mod 16" by (metis mod_add_self2)
      then show ?thesis using assms(1) by (simp add: mod_add_left_eq [of pc, symmetric])
    qed
    moreover have "W ! ((?t - (16 - j)) mod 16) = schedule f M (?t - (16 - j))"
      using inv assms(2) that by (simp add: circ_inv_def)
    ultimately show ?thesis by simp
  qed
  let ?w = "sigma1 f (W ! ((k + 14) mod 16)) + W ! ((k + 9) mod 16) + sigma0 f (W ! ((k + 1) mod 16)) + W ! (k mod 16)"
  have w: "?w = schedule f M ?t"
    using assms(2) prev [of 14] prev [of 9] prev [of 1] prev [of 0] by (subst schedule.simps) simp
  have km: "?t mod 16 = k mod 16" using assms(1) by (simp add: mod_add_left_eq [of pc, symmetric])
  have "circ_inv f M (Suc ?t) (W[k mod 16 := ?w])"
    unfolding circ_inv_def
  proof (intro conjI allI impI)
    show "length (W[k mod 16 := ?w]) = 16" using inv by (simp add: circ_inv_def)
    fix i assume i: "i < Suc ?t" "Suc ?t \<le> i + 16"
    show "W[k mod 16 := ?w] ! (i mod 16) = schedule f M i"
    proof (cases "i = ?t")
      case True
      then show ?thesis using inv w km by (simp add: circ_inv_def)
    next
      case False
      have "i mod 16 \<noteq> ?t mod 16"
      proof
        assume "i mod 16 = ?t mod 16"
        then have "16 dvd ?t - i" using i mod_eq_dvd_iff_nat [of i ?t 16] by simp
        with False i show False by (auto dest: dvd_imp_le)
      qed
      then show ?thesis using inv i False km by (simp add: circ_inv_def)
    qed
  qed
  moreover have "W[k mod 16 := ?w] ! (k mod 16) = schedule f M ?t" using inv w by (simp add: circ_inv_def)
  then have "sha2_step f (\<lambda>_. W[k mod 16 := ?w] ! (k mod 16)) st ?t = sha2_step f (schedule f M) st ?t"
    by (rule sha2_step_cong)
  ultimately show ?thesis by (simp add: circ_step_def circ_expand_def)
qed

lemma foldl_circ_step_at:
  assumes "16 dvd pc" and "16 \<le> pc" and "circ_inv f M pc W" and "n \<le> 16"
  shows "\<exists>W'. foldl (circ_step_at f pc) (W, st) [0..<n] =
       (W', foldl (sha2_step f (schedule f M)) st [pc..<pc + n]) \<and> circ_inv f M (pc + n) W'"
  using assms(4)
proof (induction n)
  case 0
  then show ?case using assms by simp
next
  case (Suc n)
  then obtain W' where IH: "foldl (circ_step_at f pc) (W, st) [0..<n] =
       (W', foldl (sha2_step f (schedule f M)) st [pc..<pc + n])" and inv: "circ_inv f M (pc + n) W'"
    by auto
  from circ_step_at_correct [OF assms(1) _ inv] assms(2) IH show ?case by simp
qed

text \<open>The first 16 steps, which load the schedule, then three turns: the 64 steps of the 32-bit function.\<close>

lemma circ_inv_load: "circ_inv f M 16 (map M [0..<16])"
  by (simp add: circ_inv_def schedule.simps del: upt_Suc)

lemma foldl_circ_turns:
  assumes "circ_inv f M 16 W"
  shows "snd (foldl (\<lambda>s pc. foldl (circ_step_at f pc) s [0..<16]) (W, st) [16, 32, 48]) =
    foldl (sha2_step f (schedule f M)) st [16..<64]"
proof -
  let ?g = "\<lambda>st. foldl (sha2_step f (schedule f M)) st"
  obtain W1 where W1: "foldl (circ_step_at f 16) (W, st) [0..<16] = (W1, ?g st [16..<32])" "circ_inv f M 32 W1"
    using foldl_circ_step_at [of 16 f M W 16 st] assms by auto
  obtain W2 where W2: "foldl (circ_step_at f 32) (W1, ?g st [16..<32]) [0..<16] = (W2, ?g (?g st [16..<32]) [32..<48])"
      "circ_inv f M 48 W2"
    using foldl_circ_step_at [of 32 f M W1 16 "?g st [16..<32]"] W1 by auto
  obtain W3 where "foldl (circ_step_at f 48) (W2, ?g (?g st [16..<32]) [32..<48]) [0..<16]
      = (W3, ?g (?g (?g st [16..<32]) [32..<48]) [48..<64])"
    using foldl_circ_step_at [of 48 f M W2 16 "?g (?g st [16..<32]) [32..<48]"] W2 by auto
  moreover have "[16..<64] = [16..<32] @ [32..<48] @ [48..<64 :: nat]"
    using upt_add_eq_append [of 16 32 16] upt_add_eq_append [of 16 48 16] by simp
  ultimately show ?thesis using W1(1) W2(1) by (simp del: upt_Suc)
qed

lemma sha2_compress_turns:
  assumes "length (Kt f) = 64"
  shows "sha2_compress f M r = map2 (+) r (st8_list (snd (foldl (\<lambda>s pc. foldl (circ_step_at f pc) s [0..<16])
     (map M [0..<16], foldl (sha2_step f M) (st8_of r) [0..<16]) [16, 32, 48])))"
proof -
  have "foldl (sha2_step f M) (st8_of r) [0..<16] = foldl (sha2_step f (schedule f M)) (st8_of r) [0..<16]"
    by (rule foldl_sha2_step_cong) (simp add: schedule.simps)
  moreover have "[0..<64] = [0..<16] @ [16..<64 :: nat]" using upt_add_eq_append [of 0 16 48] by simp
  ultimately show ?thesis
    by (simp add: sha2_compress_def assms foldl_circ_turns [OF circ_inv_load] del: upt_Suc foldl_Cons)
qed

lemma circ_step_case:
  "circ_step f mexp pc (case p of (x, y) \<Rightarrow> g x y) k = (case p of (x, y) \<Rightarrow> circ_step f mexp pc (g x y) k)"
  by (cases p) simp

section \<open>The schedule through a window of 16 words\<close>

text \<open>The step for word \<open>t + 16\<close>: the oldest word leaves the window and the new one enters it.\<close>

fun sha2_win :: "'a::len word sha2_fns \<Rightarrow> 'a word st16 \<times> 'a word st8 \<Rightarrow> nat \<Rightarrow> 'a word st16 \<times> 'a word st8" where
  "sha2_win f ((w0, w1, w2, w3, w4, w5, w6, w7, w8, w9, w10, w11, w12, w13, w14, w15), st) t =
     (let w = sigma1 f w14 + w9 + sigma0 f w1 + w0
      in ((w1, w2, w3, w4, w5, w6, w7, w8, w9, w10, w11, w12, w13, w14, w15, w), sha2_step f (\<lambda>_. w) st (t + 16)))"

lemma sha2_win_let: "sha2_win f (let w = e in g w) t = (let w = e in sha2_win f (g w) t)"
  by simp

lemma sha2_win_case:
  "sha2_win f (case p of (x, y) \<Rightarrow> g x y) t = (case p of (x, y) \<Rightarrow> sha2_win f (g x y) t)"
  by (cases p) simp

lemma foldl_sha2_win:
  "foldl (sha2_win f) (window (schedule f M) 0, st) [0..<n] =
     (window (schedule f M) n, foldl (sha2_step f (schedule f M)) st [16..<n + 16])"
proof (induction n)
  case (Suc n)
  let ?S = "schedule f M"
  have "sigma1 f (?S (n + 14)) + ?S (n + 9) + sigma0 f (?S (n + 1)) + ?S n = ?S (n + 16)"
    by (subst (5) schedule.simps) (simp add: add.commute)
  then have "sha2_win f (window ?S n, st') n = (window ?S (Suc n), sha2_step f ?S st' (n + 16))" for st'
    by (simp only: window_Suc) (simp only: window_def sha2_win.simps Let_def, auto intro!: sha2_step_cong)
  moreover have upt: "[16..<Suc n + 16] = [16..<n + 16] @ [n + 16]"
    using upt_Suc_append [of 16 "n + 16"] by simp
  ultimately show ?case unfolding upt using Suc by simp
qed simp

lemma sha2_compress_win:
  assumes "length (Kt f) = 64"
  shows "sha2_compress f M r = map2 (+) r (st8_list (snd (foldl (sha2_win f)
     (window M 0, foldl (sha2_step f M) (st8_of r) [0..<16]) [0..<48])))"
proof -
  have "window M 0 = window (schedule f M) 0"
    by (simp add: window_def schedule.simps)
  moreover have "foldl (sha2_step f M) (st8_of r) [0..<16] = foldl (sha2_step f (schedule f M)) (st8_of r) [0..<16]"
    by (rule foldl_sha2_step_cong) (simp add: schedule.simps)
  moreover have "[0..<64] = [0..<16] @ [16..<48 + 16 :: nat]" using upt_add_eq_append [of 0 16 48] by simp
  ultimately show ?thesis by (simp add: sha2_compress_def assms foldl_sha2_win del: upt_Suc)
qed

lemma map2_st8:
  assumes "length r = 8"
  shows "(case s of (W, A, B, C, D, E, F, G, H) \<Rightarrow>
     [r ! 0 + A, r ! 1 + B, r ! 2 + C, r ! 3 + D, r ! 4 + E, r ! 5 + F, r ! 6 + G, r ! 7 + H])
    = map2 (+) r (st8_list (snd s))"
  using assms by (rule list8E) (simp split: prod.split)

end
