(* ===== verification/Prime_Roots.thy ===== *)
theory Prime_Roots
  imports Prelude
begin

text \<open>
  What the constants of the SHA family are by definition: leading bits of the fractional parts of the
  square and cube roots of primes. The first 80 primes are computed here.
\<close>

section \<open>The constants\<close>

text \<open>
  The first \<open>w\<close> bits after the point of the square root, or the cube root, of \<open>p\<close>, dropping \<open>s\<close> bits
  first: with \<open>r\<close> the integer part of the root times a power of two, the number looked for is \<open>r\<close>
  modulo \<open>2 ^ w\<close>. The integer part is the unique number whose power brackets the scaled \<open>p\<close>.
\<close>

definition is_sqrt_frac :: "nat \<Rightarrow> nat \<Rightarrow> nat \<Rightarrow> bool" where
  "is_sqrt_frac w p x \<longleftrightarrow> x < 2 ^ w \<and> (\<exists>q<p. (q * 2 ^ w + x)\<^sup>2 \<le> p * (2 ^ w)\<^sup>2 \<and> p * (2 ^ w)\<^sup>2 < (q * 2 ^ w + x + 1)\<^sup>2)"

definition is_cbrt_frac :: "nat \<Rightarrow> nat \<Rightarrow> nat \<Rightarrow> bool" where
  "is_cbrt_frac w p x \<longleftrightarrow> x < 2 ^ w \<and> (\<exists>q<p. (q * 2 ^ w + x) ^ 3 \<le> p * (2 ^ w) ^ 3 \<and> p * (2 ^ w) ^ 3 < (q * 2 ^ w + x + 1) ^ 3)"

text \<open>The integer parts of the roots of the first 80 primes, so that the definitions can be evaluated.\<close>

definition isqrt8 :: "nat \<Rightarrow> nat" where
  "isqrt8 p = (if p < 4 then 1 else if p < 9 then 2 else if p < 16 then 3 else if p < 25 then 4
     else if p < 36 then 5 else if p < 49 then 6 else 7)"

definition icbrt8 :: "nat \<Rightarrow> nat" where
  "icbrt8 p = (if p < 8 then 1 else if p < 27 then 2 else if p < 64 then 3 else if p < 125 then 4
     else if p < 216 then 5 else if p < 343 then 6 else 7)"

lemma is_sqrt_fracI:
  "x < 2 ^ w \<Longrightarrow> isqrt8 p < p \<Longrightarrow> (isqrt8 p * 2 ^ w + x)\<^sup>2 \<le> p * (2 ^ w)\<^sup>2 \<Longrightarrow>
   p * (2 ^ w)\<^sup>2 < (isqrt8 p * 2 ^ w + x + 1)\<^sup>2 \<Longrightarrow> is_sqrt_frac w p x"
  by (auto simp: is_sqrt_frac_def)

lemma is_cbrt_fracI:
  "x < 2 ^ w \<Longrightarrow> icbrt8 p < p \<Longrightarrow> (icbrt8 p * 2 ^ w + x) ^ 3 \<le> p * (2 ^ w) ^ 3 \<Longrightarrow>
   p * (2 ^ w) ^ 3 < (icbrt8 p * 2 ^ w + x + 1) ^ 3 \<Longrightarrow> is_cbrt_frac w p x"
  by (auto simp: is_cbrt_frac_def)

definition primes_below :: "nat \<Rightarrow> nat list" where
  "primes_below n = filter (\<lambda>k. \<forall>d\<in>{2..<k}. \<not> d dvd k) [2..<n]"

text \<open>Below \<open>21 * 21\<close>, a composite number has a prime divisor below 21.\<close>

lemma composite_small_divisor:
  fixes d k :: nat
  assumes "d dvd k" and "2 \<le> d" and "d < k" and "k < 441"
  shows "\<exists>q\<in>{2, 3, 5, 7, 11, 13, 17, 19}. q dvd k \<and> q < k"
proof -
  obtain e where k: "k = d * e" using assms(1) by blast
  have e: "2 \<le> e" using assms k by (cases "e = 0 \<or> e = 1") auto
  define m where "m = min d e"
  have m: "m dvd k" "2 \<le> m" using k e assms(2) by (auto simp: m_def min_def)
  have "m * m \<le> d * e" by (auto simp: m_def intro: mult_le_mono)
  then have "m * m < 441" using k assms(4) by simp
  then have "m < 21" using mult_le_mono [of 21 m 21 m] by (cases "21 \<le> m") auto
  moreover have "m < k" using k e assms(2,3) by (auto simp: m_def min_def)
  moreover have "\<forall>m<21. 2 \<le> m \<longrightarrow> (\<exists>q\<in>{2, 3, 5, 7, 11, 13, 17, 19}. q dvd m \<and> q \<le> (m :: nat))"
    by (simp add: all_less_numeral)
  ultimately show ?thesis using m dvd_trans le_less_trans by meson
qed

lemma prime_test:
  "(k :: nat) < 441 \<Longrightarrow> (\<forall>d\<in>{2..<k}. \<not> d dvd k) \<longleftrightarrow> (\<forall>q\<in>{2, 3, 5, 7, 11, 13, 17, 19}. q dvd k \<longrightarrow> k \<le> q)"
proof
  assume none: "\<forall>d\<in>{2..<k}. \<not> d dvd k"
  have "\<forall>q\<in>{2, 3, 5, 7, 11, 13, 17, 19 :: nat}. 2 \<le> q" by simp
  with none show "\<forall>q\<in>{2, 3, 5, 7, 11, 13, 17, 19}. q dvd k \<longrightarrow> k \<le> q"
    by (metis atLeastLessThan_iff not_le_imp_less)
next
  assume "k < 441" and "\<forall>q\<in>{2, 3, 5, 7, 11, 13, 17, 19}. q dvd k \<longrightarrow> k \<le> q"
  then show "\<forall>d\<in>{2..<k}. \<not> d dvd k"
    using composite_small_divisor [of _ k] by (metis atLeastLessThan_iff leD)
qed

lemma primes_below_410:
  "primes_below 410 = [
  2, 3, 5, 7, 11, 13, 17, 19, 23, 29, 31, 37, 41, 43, 47, 53, 59, 61, 67, 71,
  73, 79, 83, 89, 97, 101, 103, 107, 109, 113, 127, 131, 137, 139, 149, 151, 157, 163, 167, 173,
  179, 181, 191, 193, 197, 199, 211, 223, 227, 229, 233, 239, 241, 251, 257, 263, 269, 271, 277, 281,
  283, 293, 307, 311, 313, 317, 331, 337, 347, 349, 353, 359, 367, 373, 379, 383, 389, 397, 401, 409]"
proof -
  have "primes_below 410 = filter (\<lambda>k. \<forall>q\<in>{2, 3, 5, 7, 11, 13, 17, 19}. q dvd k \<longrightarrow> k \<le> q) [2..<410]"
    unfolding primes_below_def
    by (rule filter_cong [OF refl], rule prime_test) (simp only: set_upt atLeastLessThan_iff, linarith)
  also have "\<dots> = [
  2, 3, 5, 7, 11, 13, 17, 19, 23, 29, 31, 37, 41, 43, 47, 53, 59, 61, 67, 71,
  73, 79, 83, 89, 97, 101, 103, 107, 109, 113, 127, 131, 137, 139, 149, 151, 157, 163, 167, 173,
  179, 181, 191, 193, 197, 199, 211, 223, 227, 229, 233, 239, 241, 251, 257, 263, 269, 271, 277, 281,
  283, 293, 307, 311, 313, 317, 331, 337, 347, 349, 353, 359, 367, 373, 379, 383, 389, 397, 401, 409]"
    by (simp add: upt_conv_Cons)
  finally show ?thesis .
qed

end
