(* ===== verification/Sha2_Small.thy ===== *)
theory Sha2_Small
  imports Md_Helper Sha2_Spec Prime_Roots
begin

text \<open>
  \<open>sha2.c\<close>: SHA-224 and SHA-256. The file has two compression functions, selected by
  \<open>SPH_SMALL_FOOTPRINT_SHA2\<close>: a loop over a 16-word circular schedule, and the 64 steps written out
  on 16 named words. Both are modelled, shown to be the compression function of FIPS 180-4 and so
  equal to each other, and the digests of either build are those of the standard.
\<close>

section \<open>Macros and tables (lines 42-109)\<close>

definition CH_32 :: "u32 \<Rightarrow> u32 \<Rightarrow> u32 \<Rightarrow> u32" where
  "CH_32 X Y Z = ((Y XOR Z) AND X) XOR Z"

definition MAJ_32 :: "u32 \<Rightarrow> u32 \<Rightarrow> u32 \<Rightarrow> u32" where
  "MAJ_32 X Y Z = (Y AND Z) OR ((Y OR Z) AND X)"

definition BSG2_0 :: "u32 \<Rightarrow> u32" where
  "BSG2_0 x = SPH_ROTR32 x 2 XOR SPH_ROTR32 x 13 XOR SPH_ROTR32 x 22"

definition BSG2_1 :: "u32 \<Rightarrow> u32" where
  "BSG2_1 x = SPH_ROTR32 x 6 XOR SPH_ROTR32 x 11 XOR SPH_ROTR32 x 25"

definition SSG2_0 :: "u32 \<Rightarrow> u32" where
  "SSG2_0 x = SPH_ROTR32 x 7 XOR SPH_ROTR32 x 18 XOR SPH_T32 (drop_bit 3 x)"

definition SSG2_1 :: "u32 \<Rightarrow> u32" where
  "SSG2_1 x = SPH_ROTR32 x 17 XOR SPH_ROTR32 x 19 XOR SPH_T32 (drop_bit 10 x)"

definition H224 :: "u32 list" where
  "H224 =
  [0xC1059ED8, 0x367CD507, 0x3070DD17, 0xF70E5939,
   0xFFC00B31, 0x68581511, 0x64F98FA7, 0xBEFA4FA4]"

definition H256 :: "u32 list" where
  "H256 =
  [0x6A09E667, 0xBB67AE85, 0x3C6EF372, 0xA54FF53A,
   0x510E527F, 0x9B05688C, 0x1F83D9AB, 0x5BE0CD19]"

definition K256 :: "u32 list" where
  "K256 =
  [0x428A2F98, 0x71374491, 0xB5C0FBCF, 0xE9B5DBA5,
   0x3956C25B, 0x59F111F1, 0x923F82A4, 0xAB1C5ED5,
   0xD807AA98, 0x12835B01, 0x243185BE, 0x550C7DC3,
   0x72BE5D74, 0x80DEB1FE, 0x9BDC06A7, 0xC19BF174,
   0xE49B69C1, 0xEFBE4786, 0x0FC19DC6, 0x240CA1CC,
   0x2DE92C6F, 0x4A7484AA, 0x5CB0A9DC, 0x76F988DA,
   0x983E5152, 0xA831C66D, 0xB00327C8, 0xBF597FC7,
   0xC6E00BF3, 0xD5A79147, 0x06CA6351, 0x14292967,
   0x27B70A85, 0x2E1B2138, 0x4D2C6DFC, 0x53380D13,
   0x650A7354, 0x766A0ABB, 0x81C2C92E, 0x92722C85,
   0xA2BFE8A1, 0xA81A664B, 0xC24B8B70, 0xC76C51A3,
   0xD192E819, 0xD6990624, 0xF40E3585, 0x106AA070,
   0x19A4C116, 0x1E376C08, 0x2748774C, 0x34B0BCB5,
   0x391C0CB3, 0x4ED8AA4A, 0x5B9CCA4F, 0x682E6FF3,
   0x748F82EE, 0x78A5636F, 0x84C87814, 0x8CC70208,
   0x90BEFFFA, 0xA4506CEB, 0xBEF9A3F7, 0xC67178F2]"

section \<open>The compression function, small footprint (lines 111-192)\<close>

text \<open>An index \<open>i & 0x0F\<close>, where \<open>i\<close> may be negative.\<close>

definition idx16 :: "int \<Rightarrow> nat" where
  "idx16 i = nat (i AND 0x0F)"

definition SHA2_MEXP1 :: "(nat \<Rightarrow> u32) \<Rightarrow> nat \<Rightarrow> u32 list \<Rightarrow> u32 list" where
  "SHA2_MEXP1 inp pc W = W[pc := inp pc]"

definition SHA2_MEXP2 :: "nat \<Rightarrow> u32 list \<Rightarrow> u32 list" where
  "SHA2_MEXP2 pc W =
     W[idx16 (int pc) := SPH_T32 (SSG2_1 (W ! idx16 (int pc - 2)) + W ! idx16 (int pc - 7)
        + SSG2_0 (W ! idx16 (int pc - 15)) + W ! idx16 (int pc))]"

text \<open>\<open>SHA2_STEPn\<close>, with the \<open>SHA2_MEXP\<close> macro as its argument: the new schedule, \<open>d\<close> and \<open>h\<close>.\<close>

definition SHA2_STEPn ::
    "(nat \<Rightarrow> u32 list \<Rightarrow> u32 list) \<Rightarrow> nat \<Rightarrow> u32 list \<Rightarrow> u32 \<Rightarrow> u32 \<Rightarrow> u32 \<Rightarrow> u32 \<Rightarrow> u32 \<Rightarrow> u32 \<Rightarrow> u32 \<Rightarrow> u32
      \<Rightarrow> nat \<Rightarrow> u32 list \<times> u32 \<times> u32" where
  "SHA2_STEPn mexp pcount W a b c d e f g h pc =
     (let W = mexp pc W;
          t1 = SPH_T32 (h + BSG2_1 e + CH_32 e f g + K256 ! (pcount + pc) + W ! idx16 (int pc));
          t2 = SPH_T32 (BSG2_0 a + MAJ_32 a b c);
          d = SPH_T32 (d + t1);
          h = SPH_T32 (t1 + t2)
      in (W, d, h))"

text \<open>The sixteen steps of a turn.\<close>

fun SHA2_SIXTEEN ::
    "(nat \<Rightarrow> u32 list \<Rightarrow> u32 list) \<Rightarrow> nat \<Rightarrow> u32 list \<times> u32 st8 \<Rightarrow> u32 list \<times> u32 st8" where
  "SHA2_SIXTEEN mexp pcount (W, A, B, C, D, E, F, G, H) =
     (let (W, D, H) = SHA2_STEPn mexp pcount W A B C D E F G H 0;
          (W, C, G) = SHA2_STEPn mexp pcount W H A B C D E F G 1;
          (W, B, F) = SHA2_STEPn mexp pcount W G H A B C D E F 2;
          (W, A, E) = SHA2_STEPn mexp pcount W F G H A B C D E 3;
          (W, H, D) = SHA2_STEPn mexp pcount W E F G H A B C D 4;
          (W, G, C) = SHA2_STEPn mexp pcount W D E F G H A B C 5;
          (W, F, B) = SHA2_STEPn mexp pcount W C D E F G H A B 6;
          (W, E, A) = SHA2_STEPn mexp pcount W B C D E F G H A 7;
          (W, D, H) = SHA2_STEPn mexp pcount W A B C D E F G H 8;
          (W, C, G) = SHA2_STEPn mexp pcount W H A B C D E F G 9;
          (W, B, F) = SHA2_STEPn mexp pcount W G H A B C D E F 10;
          (W, A, E) = SHA2_STEPn mexp pcount W F G H A B C D E 11;
          (W, H, D) = SHA2_STEPn mexp pcount W E F G H A B C D 12;
          (W, G, C) = SHA2_STEPn mexp pcount W D E F G H A B C 13;
          (W, F, B) = SHA2_STEPn mexp pcount W C D E F G H A B 14;
          (W, E, A) = SHA2_STEPn mexp pcount W B C D E F G H A 15
      in (W, A, B, C, D, E, F, G, H))"

text \<open>\<open>Wu\<close> is what the uninitialised array \<open>W\<close> holds at first.\<close>

definition SHA2_ROUND_BODY_SMALL :: "u32 list \<Rightarrow> (nat \<Rightarrow> u32) \<Rightarrow> u32 list \<Rightarrow> u32 list" where
  "SHA2_ROUND_BODY_SMALL Wu inp r =
     (let s = SHA2_SIXTEEN (SHA2_MEXP1 inp) 0 (Wu, r ! 0, r ! 1, r ! 2, r ! 3, r ! 4, r ! 5, r ! 6, r ! 7);
          (W, A, B, C, D, E, F, G, H) =
            foldl (\<lambda>s pcount. SHA2_SIXTEEN SHA2_MEXP2 pcount s) s (map (\<lambda>j. 16 * j) [1..<4])
      in [SPH_T32 (r ! 0 + A), SPH_T32 (r ! 1 + B), SPH_T32 (r ! 2 + C), SPH_T32 (r ! 3 + D),
          SPH_T32 (r ! 4 + E), SPH_T32 (r ! 5 + F), SPH_T32 (r ! 6 + G), SPH_T32 (r ! 7 + H)])"

section \<open>The compression function, unrolled (lines 196-602)\<close>

text \<open>The 64 steps, in the four groups between which the schedule wraps around.\<close>

definition SHA2_UNROLLED_1 :: "(nat \<Rightarrow> u32) \<Rightarrow> u32 st8 \<Rightarrow> u32 st16 \<times> u32 st8" where
  "SHA2_UNROLLED_1 inp st =
     (case st of (A, B, C, D, E, F, G, H) \<Rightarrow>
  let W00 = inp 0;
   T1 = SPH_T32 (H + BSG2_1 E + CH_32 E F G + 0x428A2F98 + W00);
   T2 = SPH_T32 (BSG2_0 A + MAJ_32 A B C);
   D = SPH_T32 (D + T1);
   H = SPH_T32 (T1 + T2);
   W01 = inp 1;
   T1 = SPH_T32 (G + BSG2_1 D + CH_32 D E F + 0x71374491 + W01);
   T2 = SPH_T32 (BSG2_0 H + MAJ_32 H A B);
   C = SPH_T32 (C + T1);
   G = SPH_T32 (T1 + T2);
   W02 = inp 2;
   T1 = SPH_T32 (F + BSG2_1 C + CH_32 C D E + 0xB5C0FBCF + W02);
   T2 = SPH_T32 (BSG2_0 G + MAJ_32 G H A);
   B = SPH_T32 (B + T1);
   F = SPH_T32 (T1 + T2);
   W03 = inp 3;
   T1 = SPH_T32 (E + BSG2_1 B + CH_32 B C D + 0xE9B5DBA5 + W03);
   T2 = SPH_T32 (BSG2_0 F + MAJ_32 F G H);
   A = SPH_T32 (A + T1);
   E = SPH_T32 (T1 + T2);
   W04 = inp 4;
   T1 = SPH_T32 (D + BSG2_1 A + CH_32 A B C + 0x3956C25B + W04);
   T2 = SPH_T32 (BSG2_0 E + MAJ_32 E F G);
   H = SPH_T32 (H + T1);
   D = SPH_T32 (T1 + T2);
   W05 = inp 5;
   T1 = SPH_T32 (C + BSG2_1 H + CH_32 H A B + 0x59F111F1 + W05);
   T2 = SPH_T32 (BSG2_0 D + MAJ_32 D E F);
   G = SPH_T32 (G + T1);
   C = SPH_T32 (T1 + T2);
   W06 = inp 6;
   T1 = SPH_T32 (B + BSG2_1 G + CH_32 G H A + 0x923F82A4 + W06);
   T2 = SPH_T32 (BSG2_0 C + MAJ_32 C D E);
   F = SPH_T32 (F + T1);
   B = SPH_T32 (T1 + T2);
   W07 = inp 7;
   T1 = SPH_T32 (A + BSG2_1 F + CH_32 F G H + 0xAB1C5ED5 + W07);
   T2 = SPH_T32 (BSG2_0 B + MAJ_32 B C D);
   E = SPH_T32 (E + T1);
   A = SPH_T32 (T1 + T2);
   W08 = inp 8;
   T1 = SPH_T32 (H + BSG2_1 E + CH_32 E F G + 0xD807AA98 + W08);
   T2 = SPH_T32 (BSG2_0 A + MAJ_32 A B C);
   D = SPH_T32 (D + T1);
   H = SPH_T32 (T1 + T2);
   W09 = inp 9;
   T1 = SPH_T32 (G + BSG2_1 D + CH_32 D E F + 0x12835B01 + W09);
   T2 = SPH_T32 (BSG2_0 H + MAJ_32 H A B);
   C = SPH_T32 (C + T1);
   G = SPH_T32 (T1 + T2);
   W10 = inp 10;
   T1 = SPH_T32 (F + BSG2_1 C + CH_32 C D E + 0x243185BE + W10);
   T2 = SPH_T32 (BSG2_0 G + MAJ_32 G H A);
   B = SPH_T32 (B + T1);
   F = SPH_T32 (T1 + T2);
   W11 = inp 11;
   T1 = SPH_T32 (E + BSG2_1 B + CH_32 B C D + 0x550C7DC3 + W11);
   T2 = SPH_T32 (BSG2_0 F + MAJ_32 F G H);
   A = SPH_T32 (A + T1);
   E = SPH_T32 (T1 + T2);
   W12 = inp 12;
   T1 = SPH_T32 (D + BSG2_1 A + CH_32 A B C + 0x72BE5D74 + W12);
   T2 = SPH_T32 (BSG2_0 E + MAJ_32 E F G);
   H = SPH_T32 (H + T1);
   D = SPH_T32 (T1 + T2);
   W13 = inp 13;
   T1 = SPH_T32 (C + BSG2_1 H + CH_32 H A B + 0x80DEB1FE + W13);
   T2 = SPH_T32 (BSG2_0 D + MAJ_32 D E F);
   G = SPH_T32 (G + T1);
   C = SPH_T32 (T1 + T2);
   W14 = inp 14;
   T1 = SPH_T32 (B + BSG2_1 G + CH_32 G H A + 0x9BDC06A7 + W14);
   T2 = SPH_T32 (BSG2_0 C + MAJ_32 C D E);
   F = SPH_T32 (F + T1);
   B = SPH_T32 (T1 + T2);
   W15 = inp 15;
   T1 = SPH_T32 (A + BSG2_1 F + CH_32 F G H + 0xC19BF174 + W15);
   T2 = SPH_T32 (BSG2_0 B + MAJ_32 B C D);
   E = SPH_T32 (E + T1);
   A = SPH_T32 (T1 + T2)
  in ((W00, W01, W02, W03, W04, W05, W06, W07, W08, W09, W10, W11, W12, W13, W14, W15),
      (A, B, C, D, E, F, G, H)))"

definition SHA2_UNROLLED_2 :: "u32 st16 \<times> u32 st8 \<Rightarrow> u32 st16 \<times> u32 st8" where
  "SHA2_UNROLLED_2 s =
     (case s of ((W00, W01, W02, W03, W04, W05, W06, W07, W08, W09, W10, W11, W12, W13, W14, W15),
        (A, B, C, D, E, F, G, H)) \<Rightarrow>
  let W00 = SPH_T32 (SSG2_1 W14 + W09 + SSG2_0 W01 + W00);
   T1 = SPH_T32 (H + BSG2_1 E + CH_32 E F G + 0xE49B69C1 + W00);
   T2 = SPH_T32 (BSG2_0 A + MAJ_32 A B C);
   D = SPH_T32 (D + T1);
   H = SPH_T32 (T1 + T2);
   W01 = SPH_T32 (SSG2_1 W15 + W10 + SSG2_0 W02 + W01);
   T1 = SPH_T32 (G + BSG2_1 D + CH_32 D E F + 0xEFBE4786 + W01);
   T2 = SPH_T32 (BSG2_0 H + MAJ_32 H A B);
   C = SPH_T32 (C + T1);
   G = SPH_T32 (T1 + T2);
   W02 = SPH_T32 (SSG2_1 W00 + W11 + SSG2_0 W03 + W02);
   T1 = SPH_T32 (F + BSG2_1 C + CH_32 C D E + 0x0FC19DC6 + W02);
   T2 = SPH_T32 (BSG2_0 G + MAJ_32 G H A);
   B = SPH_T32 (B + T1);
   F = SPH_T32 (T1 + T2);
   W03 = SPH_T32 (SSG2_1 W01 + W12 + SSG2_0 W04 + W03);
   T1 = SPH_T32 (E + BSG2_1 B + CH_32 B C D + 0x240CA1CC + W03);
   T2 = SPH_T32 (BSG2_0 F + MAJ_32 F G H);
   A = SPH_T32 (A + T1);
   E = SPH_T32 (T1 + T2);
   W04 = SPH_T32 (SSG2_1 W02 + W13 + SSG2_0 W05 + W04);
   T1 = SPH_T32 (D + BSG2_1 A + CH_32 A B C + 0x2DE92C6F + W04);
   T2 = SPH_T32 (BSG2_0 E + MAJ_32 E F G);
   H = SPH_T32 (H + T1);
   D = SPH_T32 (T1 + T2);
   W05 = SPH_T32 (SSG2_1 W03 + W14 + SSG2_0 W06 + W05);
   T1 = SPH_T32 (C + BSG2_1 H + CH_32 H A B + 0x4A7484AA + W05);
   T2 = SPH_T32 (BSG2_0 D + MAJ_32 D E F);
   G = SPH_T32 (G + T1);
   C = SPH_T32 (T1 + T2);
   W06 = SPH_T32 (SSG2_1 W04 + W15 + SSG2_0 W07 + W06);
   T1 = SPH_T32 (B + BSG2_1 G + CH_32 G H A + 0x5CB0A9DC + W06);
   T2 = SPH_T32 (BSG2_0 C + MAJ_32 C D E);
   F = SPH_T32 (F + T1);
   B = SPH_T32 (T1 + T2);
   W07 = SPH_T32 (SSG2_1 W05 + W00 + SSG2_0 W08 + W07);
   T1 = SPH_T32 (A + BSG2_1 F + CH_32 F G H + 0x76F988DA + W07);
   T2 = SPH_T32 (BSG2_0 B + MAJ_32 B C D);
   E = SPH_T32 (E + T1);
   A = SPH_T32 (T1 + T2);
   W08 = SPH_T32 (SSG2_1 W06 + W01 + SSG2_0 W09 + W08);
   T1 = SPH_T32 (H + BSG2_1 E + CH_32 E F G + 0x983E5152 + W08);
   T2 = SPH_T32 (BSG2_0 A + MAJ_32 A B C);
   D = SPH_T32 (D + T1);
   H = SPH_T32 (T1 + T2);
   W09 = SPH_T32 (SSG2_1 W07 + W02 + SSG2_0 W10 + W09);
   T1 = SPH_T32 (G + BSG2_1 D + CH_32 D E F + 0xA831C66D + W09);
   T2 = SPH_T32 (BSG2_0 H + MAJ_32 H A B);
   C = SPH_T32 (C + T1);
   G = SPH_T32 (T1 + T2);
   W10 = SPH_T32 (SSG2_1 W08 + W03 + SSG2_0 W11 + W10);
   T1 = SPH_T32 (F + BSG2_1 C + CH_32 C D E + 0xB00327C8 + W10);
   T2 = SPH_T32 (BSG2_0 G + MAJ_32 G H A);
   B = SPH_T32 (B + T1);
   F = SPH_T32 (T1 + T2);
   W11 = SPH_T32 (SSG2_1 W09 + W04 + SSG2_0 W12 + W11);
   T1 = SPH_T32 (E + BSG2_1 B + CH_32 B C D + 0xBF597FC7 + W11);
   T2 = SPH_T32 (BSG2_0 F + MAJ_32 F G H);
   A = SPH_T32 (A + T1);
   E = SPH_T32 (T1 + T2);
   W12 = SPH_T32 (SSG2_1 W10 + W05 + SSG2_0 W13 + W12);
   T1 = SPH_T32 (D + BSG2_1 A + CH_32 A B C + 0xC6E00BF3 + W12);
   T2 = SPH_T32 (BSG2_0 E + MAJ_32 E F G);
   H = SPH_T32 (H + T1);
   D = SPH_T32 (T1 + T2);
   W13 = SPH_T32 (SSG2_1 W11 + W06 + SSG2_0 W14 + W13);
   T1 = SPH_T32 (C + BSG2_1 H + CH_32 H A B + 0xD5A79147 + W13);
   T2 = SPH_T32 (BSG2_0 D + MAJ_32 D E F);
   G = SPH_T32 (G + T1);
   C = SPH_T32 (T1 + T2);
   W14 = SPH_T32 (SSG2_1 W12 + W07 + SSG2_0 W15 + W14);
   T1 = SPH_T32 (B + BSG2_1 G + CH_32 G H A + 0x06CA6351 + W14);
   T2 = SPH_T32 (BSG2_0 C + MAJ_32 C D E);
   F = SPH_T32 (F + T1);
   B = SPH_T32 (T1 + T2);
   W15 = SPH_T32 (SSG2_1 W13 + W08 + SSG2_0 W00 + W15);
   T1 = SPH_T32 (A + BSG2_1 F + CH_32 F G H + 0x14292967 + W15);
   T2 = SPH_T32 (BSG2_0 B + MAJ_32 B C D);
   E = SPH_T32 (E + T1);
   A = SPH_T32 (T1 + T2)
  in ((W00, W01, W02, W03, W04, W05, W06, W07, W08, W09, W10, W11, W12, W13, W14, W15),
      (A, B, C, D, E, F, G, H)))"

definition SHA2_UNROLLED_3 :: "u32 st16 \<times> u32 st8 \<Rightarrow> u32 st16 \<times> u32 st8" where
  "SHA2_UNROLLED_3 s =
     (case s of ((W00, W01, W02, W03, W04, W05, W06, W07, W08, W09, W10, W11, W12, W13, W14, W15),
        (A, B, C, D, E, F, G, H)) \<Rightarrow>
  let W00 = SPH_T32 (SSG2_1 W14 + W09 + SSG2_0 W01 + W00);
   T1 = SPH_T32 (H + BSG2_1 E + CH_32 E F G + 0x27B70A85 + W00);
   T2 = SPH_T32 (BSG2_0 A + MAJ_32 A B C);
   D = SPH_T32 (D + T1);
   H = SPH_T32 (T1 + T2);
   W01 = SPH_T32 (SSG2_1 W15 + W10 + SSG2_0 W02 + W01);
   T1 = SPH_T32 (G + BSG2_1 D + CH_32 D E F + 0x2E1B2138 + W01);
   T2 = SPH_T32 (BSG2_0 H + MAJ_32 H A B);
   C = SPH_T32 (C + T1);
   G = SPH_T32 (T1 + T2);
   W02 = SPH_T32 (SSG2_1 W00 + W11 + SSG2_0 W03 + W02);
   T1 = SPH_T32 (F + BSG2_1 C + CH_32 C D E + 0x4D2C6DFC + W02);
   T2 = SPH_T32 (BSG2_0 G + MAJ_32 G H A);
   B = SPH_T32 (B + T1);
   F = SPH_T32 (T1 + T2);
   W03 = SPH_T32 (SSG2_1 W01 + W12 + SSG2_0 W04 + W03);
   T1 = SPH_T32 (E + BSG2_1 B + CH_32 B C D + 0x53380D13 + W03);
   T2 = SPH_T32 (BSG2_0 F + MAJ_32 F G H);
   A = SPH_T32 (A + T1);
   E = SPH_T32 (T1 + T2);
   W04 = SPH_T32 (SSG2_1 W02 + W13 + SSG2_0 W05 + W04);
   T1 = SPH_T32 (D + BSG2_1 A + CH_32 A B C + 0x650A7354 + W04);
   T2 = SPH_T32 (BSG2_0 E + MAJ_32 E F G);
   H = SPH_T32 (H + T1);
   D = SPH_T32 (T1 + T2);
   W05 = SPH_T32 (SSG2_1 W03 + W14 + SSG2_0 W06 + W05);
   T1 = SPH_T32 (C + BSG2_1 H + CH_32 H A B + 0x766A0ABB + W05);
   T2 = SPH_T32 (BSG2_0 D + MAJ_32 D E F);
   G = SPH_T32 (G + T1);
   C = SPH_T32 (T1 + T2);
   W06 = SPH_T32 (SSG2_1 W04 + W15 + SSG2_0 W07 + W06);
   T1 = SPH_T32 (B + BSG2_1 G + CH_32 G H A + 0x81C2C92E + W06);
   T2 = SPH_T32 (BSG2_0 C + MAJ_32 C D E);
   F = SPH_T32 (F + T1);
   B = SPH_T32 (T1 + T2);
   W07 = SPH_T32 (SSG2_1 W05 + W00 + SSG2_0 W08 + W07);
   T1 = SPH_T32 (A + BSG2_1 F + CH_32 F G H + 0x92722C85 + W07);
   T2 = SPH_T32 (BSG2_0 B + MAJ_32 B C D);
   E = SPH_T32 (E + T1);
   A = SPH_T32 (T1 + T2);
   W08 = SPH_T32 (SSG2_1 W06 + W01 + SSG2_0 W09 + W08);
   T1 = SPH_T32 (H + BSG2_1 E + CH_32 E F G + 0xA2BFE8A1 + W08);
   T2 = SPH_T32 (BSG2_0 A + MAJ_32 A B C);
   D = SPH_T32 (D + T1);
   H = SPH_T32 (T1 + T2);
   W09 = SPH_T32 (SSG2_1 W07 + W02 + SSG2_0 W10 + W09);
   T1 = SPH_T32 (G + BSG2_1 D + CH_32 D E F + 0xA81A664B + W09);
   T2 = SPH_T32 (BSG2_0 H + MAJ_32 H A B);
   C = SPH_T32 (C + T1);
   G = SPH_T32 (T1 + T2);
   W10 = SPH_T32 (SSG2_1 W08 + W03 + SSG2_0 W11 + W10);
   T1 = SPH_T32 (F + BSG2_1 C + CH_32 C D E + 0xC24B8B70 + W10);
   T2 = SPH_T32 (BSG2_0 G + MAJ_32 G H A);
   B = SPH_T32 (B + T1);
   F = SPH_T32 (T1 + T2);
   W11 = SPH_T32 (SSG2_1 W09 + W04 + SSG2_0 W12 + W11);
   T1 = SPH_T32 (E + BSG2_1 B + CH_32 B C D + 0xC76C51A3 + W11);
   T2 = SPH_T32 (BSG2_0 F + MAJ_32 F G H);
   A = SPH_T32 (A + T1);
   E = SPH_T32 (T1 + T2);
   W12 = SPH_T32 (SSG2_1 W10 + W05 + SSG2_0 W13 + W12);
   T1 = SPH_T32 (D + BSG2_1 A + CH_32 A B C + 0xD192E819 + W12);
   T2 = SPH_T32 (BSG2_0 E + MAJ_32 E F G);
   H = SPH_T32 (H + T1);
   D = SPH_T32 (T1 + T2);
   W13 = SPH_T32 (SSG2_1 W11 + W06 + SSG2_0 W14 + W13);
   T1 = SPH_T32 (C + BSG2_1 H + CH_32 H A B + 0xD6990624 + W13);
   T2 = SPH_T32 (BSG2_0 D + MAJ_32 D E F);
   G = SPH_T32 (G + T1);
   C = SPH_T32 (T1 + T2);
   W14 = SPH_T32 (SSG2_1 W12 + W07 + SSG2_0 W15 + W14);
   T1 = SPH_T32 (B + BSG2_1 G + CH_32 G H A + 0xF40E3585 + W14);
   T2 = SPH_T32 (BSG2_0 C + MAJ_32 C D E);
   F = SPH_T32 (F + T1);
   B = SPH_T32 (T1 + T2);
   W15 = SPH_T32 (SSG2_1 W13 + W08 + SSG2_0 W00 + W15);
   T1 = SPH_T32 (A + BSG2_1 F + CH_32 F G H + 0x106AA070 + W15);
   T2 = SPH_T32 (BSG2_0 B + MAJ_32 B C D);
   E = SPH_T32 (E + T1);
   A = SPH_T32 (T1 + T2)
  in ((W00, W01, W02, W03, W04, W05, W06, W07, W08, W09, W10, W11, W12, W13, W14, W15),
      (A, B, C, D, E, F, G, H)))"

definition SHA2_UNROLLED_4 :: "u32 st16 \<times> u32 st8 \<Rightarrow> u32 st16 \<times> u32 st8" where
  "SHA2_UNROLLED_4 s =
     (case s of ((W00, W01, W02, W03, W04, W05, W06, W07, W08, W09, W10, W11, W12, W13, W14, W15),
        (A, B, C, D, E, F, G, H)) \<Rightarrow>
  let W00 = SPH_T32 (SSG2_1 W14 + W09 + SSG2_0 W01 + W00);
   T1 = SPH_T32 (H + BSG2_1 E + CH_32 E F G + 0x19A4C116 + W00);
   T2 = SPH_T32 (BSG2_0 A + MAJ_32 A B C);
   D = SPH_T32 (D + T1);
   H = SPH_T32 (T1 + T2);
   W01 = SPH_T32 (SSG2_1 W15 + W10 + SSG2_0 W02 + W01);
   T1 = SPH_T32 (G + BSG2_1 D + CH_32 D E F + 0x1E376C08 + W01);
   T2 = SPH_T32 (BSG2_0 H + MAJ_32 H A B);
   C = SPH_T32 (C + T1);
   G = SPH_T32 (T1 + T2);
   W02 = SPH_T32 (SSG2_1 W00 + W11 + SSG2_0 W03 + W02);
   T1 = SPH_T32 (F + BSG2_1 C + CH_32 C D E + 0x2748774C + W02);
   T2 = SPH_T32 (BSG2_0 G + MAJ_32 G H A);
   B = SPH_T32 (B + T1);
   F = SPH_T32 (T1 + T2);
   W03 = SPH_T32 (SSG2_1 W01 + W12 + SSG2_0 W04 + W03);
   T1 = SPH_T32 (E + BSG2_1 B + CH_32 B C D + 0x34B0BCB5 + W03);
   T2 = SPH_T32 (BSG2_0 F + MAJ_32 F G H);
   A = SPH_T32 (A + T1);
   E = SPH_T32 (T1 + T2);
   W04 = SPH_T32 (SSG2_1 W02 + W13 + SSG2_0 W05 + W04);
   T1 = SPH_T32 (D + BSG2_1 A + CH_32 A B C + 0x391C0CB3 + W04);
   T2 = SPH_T32 (BSG2_0 E + MAJ_32 E F G);
   H = SPH_T32 (H + T1);
   D = SPH_T32 (T1 + T2);
   W05 = SPH_T32 (SSG2_1 W03 + W14 + SSG2_0 W06 + W05);
   T1 = SPH_T32 (C + BSG2_1 H + CH_32 H A B + 0x4ED8AA4A + W05);
   T2 = SPH_T32 (BSG2_0 D + MAJ_32 D E F);
   G = SPH_T32 (G + T1);
   C = SPH_T32 (T1 + T2);
   W06 = SPH_T32 (SSG2_1 W04 + W15 + SSG2_0 W07 + W06);
   T1 = SPH_T32 (B + BSG2_1 G + CH_32 G H A + 0x5B9CCA4F + W06);
   T2 = SPH_T32 (BSG2_0 C + MAJ_32 C D E);
   F = SPH_T32 (F + T1);
   B = SPH_T32 (T1 + T2);
   W07 = SPH_T32 (SSG2_1 W05 + W00 + SSG2_0 W08 + W07);
   T1 = SPH_T32 (A + BSG2_1 F + CH_32 F G H + 0x682E6FF3 + W07);
   T2 = SPH_T32 (BSG2_0 B + MAJ_32 B C D);
   E = SPH_T32 (E + T1);
   A = SPH_T32 (T1 + T2);
   W08 = SPH_T32 (SSG2_1 W06 + W01 + SSG2_0 W09 + W08);
   T1 = SPH_T32 (H + BSG2_1 E + CH_32 E F G + 0x748F82EE + W08);
   T2 = SPH_T32 (BSG2_0 A + MAJ_32 A B C);
   D = SPH_T32 (D + T1);
   H = SPH_T32 (T1 + T2);
   W09 = SPH_T32 (SSG2_1 W07 + W02 + SSG2_0 W10 + W09);
   T1 = SPH_T32 (G + BSG2_1 D + CH_32 D E F + 0x78A5636F + W09);
   T2 = SPH_T32 (BSG2_0 H + MAJ_32 H A B);
   C = SPH_T32 (C + T1);
   G = SPH_T32 (T1 + T2);
   W10 = SPH_T32 (SSG2_1 W08 + W03 + SSG2_0 W11 + W10);
   T1 = SPH_T32 (F + BSG2_1 C + CH_32 C D E + 0x84C87814 + W10);
   T2 = SPH_T32 (BSG2_0 G + MAJ_32 G H A);
   B = SPH_T32 (B + T1);
   F = SPH_T32 (T1 + T2);
   W11 = SPH_T32 (SSG2_1 W09 + W04 + SSG2_0 W12 + W11);
   T1 = SPH_T32 (E + BSG2_1 B + CH_32 B C D + 0x8CC70208 + W11);
   T2 = SPH_T32 (BSG2_0 F + MAJ_32 F G H);
   A = SPH_T32 (A + T1);
   E = SPH_T32 (T1 + T2);
   W12 = SPH_T32 (SSG2_1 W10 + W05 + SSG2_0 W13 + W12);
   T1 = SPH_T32 (D + BSG2_1 A + CH_32 A B C + 0x90BEFFFA + W12);
   T2 = SPH_T32 (BSG2_0 E + MAJ_32 E F G);
   H = SPH_T32 (H + T1);
   D = SPH_T32 (T1 + T2);
   W13 = SPH_T32 (SSG2_1 W11 + W06 + SSG2_0 W14 + W13);
   T1 = SPH_T32 (C + BSG2_1 H + CH_32 H A B + 0xA4506CEB + W13);
   T2 = SPH_T32 (BSG2_0 D + MAJ_32 D E F);
   G = SPH_T32 (G + T1);
   C = SPH_T32 (T1 + T2);
   W14 = SPH_T32 (SSG2_1 W12 + W07 + SSG2_0 W15 + W14);
   T1 = SPH_T32 (B + BSG2_1 G + CH_32 G H A + 0xBEF9A3F7 + W14);
   T2 = SPH_T32 (BSG2_0 C + MAJ_32 C D E);
   F = SPH_T32 (F + T1);
   B = SPH_T32 (T1 + T2);
   W15 = SPH_T32 (SSG2_1 W13 + W08 + SSG2_0 W00 + W15);
   T1 = SPH_T32 (A + BSG2_1 F + CH_32 F G H + 0xC67178F2 + W15);
   T2 = SPH_T32 (BSG2_0 B + MAJ_32 B C D);
   E = SPH_T32 (E + T1);
   A = SPH_T32 (T1 + T2)
  in ((W00, W01, W02, W03, W04, W05, W06, W07, W08, W09, W10, W11, W12, W13, W14, W15),
      (A, B, C, D, E, F, G, H)))"

definition SHA2_ROUND_BODY :: "(nat \<Rightarrow> u32) \<Rightarrow> u32 list \<Rightarrow> u32 list" where
  "SHA2_ROUND_BODY inp r =
     (let s = SHA2_UNROLLED_1 inp (r ! 0, r ! 1, r ! 2, r ! 3, r ! 4, r ! 5, r ! 6, r ! 7);
          s = SHA2_UNROLLED_2 s;
          s = SHA2_UNROLLED_3 s;
          (_, A, B, C, D, E, F, G, H) = SHA2_UNROLLED_4 s
      in [SPH_T32 (r ! 0 + A), SPH_T32 (r ! 1 + B), SPH_T32 (r ! 2 + C), SPH_T32 (r ! 3 + D),
          SPH_T32 (r ! 4 + E), SPH_T32 (r ! 5 + F), SPH_T32 (r ! 6 + G), SPH_T32 (r ! 7 + H)])"

section \<open>The interface (lines 606-690)\<close>

text \<open>
  The build chooses one of the two bodies. \<open>sf\<close> stands for that choice: \<open>None\<close> for the unrolled
  body, \<open>Some Wu\<close> for the small-footprint one, whose local array holds \<open>Wu\<close> on entry.
\<close>

definition SHA2_BODY :: "u32 list option \<Rightarrow> (nat \<Rightarrow> u32) \<Rightarrow> u32 list \<Rightarrow> u32 list" where
  "SHA2_BODY sf inp r = (case sf of None \<Rightarrow> SHA2_ROUND_BODY inp r | Some Wu \<Rightarrow> SHA2_ROUND_BODY_SMALL Wu inp r)"

definition sf_ok :: "u32 list option \<Rightarrow> bool" where
  "sf_ok sf = (case sf of None \<Rightarrow> True | Some Wu \<Rightarrow> length Wu = 16)"

definition sha2_round :: "u32 list option \<Rightarrow> arch \<Rightarrow> bytes \<Rightarrow> u32 list \<Rightarrow> u32 list" where
  "sha2_round sf a data r = SHA2_BODY sf (\<lambda>x. sph_dec32be_aligned a (drop (4 * x) data)) r"

definition sph_sha224_comp :: "u32 list option \<Rightarrow> u32 list \<Rightarrow> u32 list \<Rightarrow> u32 list" where
  "sph_sha224_comp sf msg v = SHA2_BODY sf (\<lambda>x. msg ! x) v"

type_synonym sha224_context = "u32 list md_context"

definition sph_sha224_init :: "sha224_context \<Rightarrow> sha224_context" where
  "sph_sha224_init sc = sc\<lparr>val := H224, count := 0\<rparr>"

definition sph_sha256_init :: "sha224_context \<Rightarrow> sha224_context" where
  "sph_sha256_init sc = sc\<lparr>val := H256, count := 0\<rparr>"

text \<open>The macros with which \<open>md_helper.c\<close> is included (lines 646-649).\<close>

definition sha224_macros :: "u32 list option \<Rightarrow> arch \<Rightarrow> u32 list md_macros" where
  "sha224_macros sf a = \<lparr>WORD = BE32, BLEN = None, PLW = PLW_default, PW01 = False,
     RFUN = sha2_round sf a, OUTPUT = md_output_be32 a\<rparr>"

text \<open>\<open>sph_sha256\<close> is a macro for \<open>sph_sha224\<close> (\<open>sph_sha2.h\<close>).\<close>

definition sph_sha224 ::
    "u32 list option \<Rightarrow> arch \<Rightarrow> u64 \<Rightarrow> bytes \<Rightarrow> sha224_context \<Rightarrow> sha224_context option" where
  "sph_sha224 sf a addr data sc = md_update a (sha224_macros sf a) addr data sc"

abbreviation "sph_sha256 \<equiv> sph_sha224"

definition sph_sha224_close ::
    "u32 list option \<Rightarrow> arch \<Rightarrow> u64 \<Rightarrow> sha224_context \<Rightarrow> bytes \<times> sha224_context" where
  "sph_sha224_close sf a dst sc =
     (let (out, sc) = md_close a (sha224_macros sf a) dst 7 sc in (out, sph_sha224_init sc))"

definition sph_sha224_addbits_and_close ::
    "u32 list option \<Rightarrow> arch \<Rightarrow> u32 \<Rightarrow> nat \<Rightarrow> u64 \<Rightarrow> sha224_context \<Rightarrow> bytes \<times> sha224_context" where
  "sph_sha224_addbits_and_close sf a ub n dst sc =
     (let (out, sc) = md_addbits_and_close a (sha224_macros sf a) ub n dst 7 sc in (out, sph_sha224_init sc))"

definition sph_sha256_close ::
    "u32 list option \<Rightarrow> arch \<Rightarrow> u64 \<Rightarrow> sha224_context \<Rightarrow> bytes \<times> sha224_context" where
  "sph_sha256_close sf a dst sc =
     (let (out, sc) = md_close a (sha224_macros sf a) dst 8 sc in (out, sph_sha256_init sc))"

definition sph_sha256_addbits_and_close ::
    "u32 list option \<Rightarrow> arch \<Rightarrow> u32 \<Rightarrow> nat \<Rightarrow> u64 \<Rightarrow> sha224_context \<Rightarrow> bytes \<times> sha224_context" where
  "sph_sha256_addbits_and_close sf a ub n dst sc =
     (let (out, sc) = md_addbits_and_close a (sha224_macros sf a) ub n dst 8 sc in (out, sph_sha256_init sc))"

section \<open>Both are the compression function of the standard\<close>

definition fips_fns :: "u32 sha2_fns" where
  "fips_fns = sha256_fns K256"

lemma sha256_functions:
  "BSG2_0 = Sigma0 fips_fns" "BSG2_1 = Sigma1 fips_fns"
  "SSG2_0 = sigma0 fips_fns" "SSG2_1 = sigma1 fips_fns"
  "CH_32 = Ch" "MAJ_32 = Maj"
  by (simp_all add: fun_eq_iff fips_fns_def BSG2_0_def BSG2_1_def SSG2_0_def SSG2_1_def sha256_fns_def rotr3_def
      rotr2_shr_def sph_rotations CH_32_def MAJ_32_def Ch_xor_form Maj_or_forms(2))

lemma Kt_sha256: "Kt fips_fns = K256" and length_K256: "length K256 = 64"
  by (simp_all add: fips_fns_def sha256_fns_def K256_def)

text \<open>The round constants, one by one: the unrolled steps have them written in.\<close>

lemma K256_at:
  "K256 ! 0 = 0x428A2F98" "K256 ! 1 = 0x71374491" "K256 ! 2 = 0xB5C0FBCF" "K256 ! 3 = 0xE9B5DBA5"
  "K256 ! 4 = 0x3956C25B" "K256 ! 5 = 0x59F111F1" "K256 ! 6 = 0x923F82A4" "K256 ! 7 = 0xAB1C5ED5"
  "K256 ! 8 = 0xD807AA98" "K256 ! 9 = 0x12835B01" "K256 ! 10 = 0x243185BE" "K256 ! 11 = 0x550C7DC3"
  "K256 ! 12 = 0x72BE5D74" "K256 ! 13 = 0x80DEB1FE" "K256 ! 14 = 0x9BDC06A7" "K256 ! 15 = 0xC19BF174"
  "K256 ! 16 = 0xE49B69C1" "K256 ! 17 = 0xEFBE4786" "K256 ! 18 = 0x0FC19DC6" "K256 ! 19 = 0x240CA1CC"
  "K256 ! 20 = 0x2DE92C6F" "K256 ! 21 = 0x4A7484AA" "K256 ! 22 = 0x5CB0A9DC" "K256 ! 23 = 0x76F988DA"
  "K256 ! 24 = 0x983E5152" "K256 ! 25 = 0xA831C66D" "K256 ! 26 = 0xB00327C8" "K256 ! 27 = 0xBF597FC7"
  "K256 ! 28 = 0xC6E00BF3" "K256 ! 29 = 0xD5A79147" "K256 ! 30 = 0x06CA6351" "K256 ! 31 = 0x14292967"
  "K256 ! 32 = 0x27B70A85" "K256 ! 33 = 0x2E1B2138" "K256 ! 34 = 0x4D2C6DFC" "K256 ! 35 = 0x53380D13"
  "K256 ! 36 = 0x650A7354" "K256 ! 37 = 0x766A0ABB" "K256 ! 38 = 0x81C2C92E" "K256 ! 39 = 0x92722C85"
  "K256 ! 40 = 0xA2BFE8A1" "K256 ! 41 = 0xA81A664B" "K256 ! 42 = 0xC24B8B70" "K256 ! 43 = 0xC76C51A3"
  "K256 ! 44 = 0xD192E819" "K256 ! 45 = 0xD6990624" "K256 ! 46 = 0xF40E3585" "K256 ! 47 = 0x106AA070"
  "K256 ! 48 = 0x19A4C116" "K256 ! 49 = 0x1E376C08" "K256 ! 50 = 0x2748774C" "K256 ! 51 = 0x34B0BCB5"
  "K256 ! 52 = 0x391C0CB3" "K256 ! 53 = 0x4ED8AA4A" "K256 ! 54 = 0x5B9CCA4F" "K256 ! 55 = 0x682E6FF3"
  "K256 ! 56 = 0x748F82EE" "K256 ! 57 = 0x78A5636F" "K256 ! 58 = 0x84C87814" "K256 ! 59 = 0x8CC70208"
  "K256 ! 60 = 0x90BEFFFA" "K256 ! 61 = 0xA4506CEB" "K256 ! 62 = 0xBEF9A3F7" "K256 ! 63 = 0xC67178F2"
  by (simp_all add: K256_def)

lemma upt_turns:
  "[0..<16] = [0, 1, 2, 3, 4, 5, 6, 7, 8, 9, 10, 11, 12, 13, 14, 15 :: nat]"
  "[16..<32] = [16, 17, 18, 19, 20, 21, 22, 23, 24, 25, 26, 27, 28, 29, 30, 31 :: nat]"
  "[32..<48] = [32, 33, 34, 35, 36, 37, 38, 39, 40, 41, 42, 43, 44, 45, 46, 47 :: nat]"
  by (simp_all add: upt_conv_Cons)

lemmas unrolled_simps = prod.case SPH_T32_id sha256_functions step_dh_block foldl.simps upt_turns
  sha2_win.simps sha2_win_let sha2_win_case sha2_step_dh sha2_step_case_prod Pair_case_prod Kt_sha256 K256_at
  arith_simps add_numeral_special add_0

lemma SHA2_UNROLLED_steps:
  "SHA2_UNROLLED_2 (w, st) = foldl (sha2_win fips_fns) (w, st) [0..<16]"
  "SHA2_UNROLLED_3 (w, st) = foldl (sha2_win fips_fns) (w, st) [16..<32]"
  "SHA2_UNROLLED_4 (w, st) = foldl (sha2_win fips_fns) (w, st) [32..<48]"
  by (cases w rule: st16_cases; cases st rule: st8_cases;
      simp only: SHA2_UNROLLED_2_def SHA2_UNROLLED_3_def SHA2_UNROLLED_4_def unrolled_simps
        cong del: prod.case_cong_weak let_weak_cong)+

lemma SHA2_UNROLLED_1_steps:
  "SHA2_UNROLLED_1 inp st = (window inp 0, foldl (sha2_step fips_fns inp) st [0..<16])"
  by (cases st rule: st8_cases, simp only: SHA2_UNROLLED_1_def unrolled_simps window_def
        cong del: prod.case_cong_weak let_weak_cong, simp only: Let_def)

text \<open>The small-footprint turns.\<close>

lemma idx16_mod: "idx16 (int k) = k mod 16" "j \<le> 16 \<Longrightarrow> idx16 (int k - int j) = (k + (16 - j)) mod 16"
proof -
  have m: "i AND 15 = i mod 16" for i :: int
    using take_bit_eq_mask [of 4 i] by (simp add: take_bit_eq_mod mask_eq_exp_minus_1)
  show "idx16 (int k) = k mod 16" by (simp add: idx16_def m nat_mod_distrib)
  assume "j \<le> 16"
  then have "int k - int j = int (k + (16 - j)) - 16" by simp
  then have "(int k - int j) mod 16 = int (k + (16 - j)) mod 16"
    by (simp only: minus_mod_self2)
  then show "idx16 (int k - int j) = (k + (16 - j)) mod 16"
    by (simp add: idx16_def m nat_mod_distrib nat_int_add)
qed

lemma circ_step_SHA2_STEPn:
  "circ_step fips_fns mexp pc (W, a, b, c, d, e, f, g, h) k =
     (case SHA2_STEPn mexp pc W a b c d e f g h k of (W, d', h') \<Rightarrow> (W, h', a, b, c, d', e, f, g))"
  by (simp add: circ_step_def SHA2_STEPn_def Let_def idx16_mod(1) sha256_functions Kt_sha256)

lemma SHA2_SIXTEEN_steps:
  "SHA2_SIXTEEN mexp pcount (W, st) = foldl (circ_step fips_fns mexp pcount) (W, st) [0..<16]"
  by (cases st rule: st8_cases)
     (simp only: SHA2_SIXTEEN.simps Let_def foldl.simps upt_turns circ_step_SHA2_STEPn circ_step_case
        prod.case cong del: prod.case_cong_weak)

lemma SHA2_MEXP2_expand: "SHA2_MEXP2 = circ_expand fips_fns"
  using idx16_mod(2) [of 2] idx16_mod(2) [of 7] idx16_mod(2) [of 15]
  by (simp add: fun_eq_iff SHA2_MEXP2_def circ_expand_def idx16_mod(1) sha256_functions)

lemma SHA2_MEXP1_load:
  "n \<le> 16 \<Longrightarrow> length W = 16 \<Longrightarrow> foldl (circ_step fips_fns (SHA2_MEXP1 inp) 0) (W, st) [0..<n] =
     (map inp [0..<n] @ drop n W, foldl (sha2_step fips_fns inp) st [0..<n])"
proof (induction n)
  case (Suc n)
  then have "(map inp [0..<n] @ drop n W)[n := inp n] = map inp [0..<n] @ inp n # drop (Suc n) W"
    by (simp add: list_update_append Cons_nth_drop_Suc [symmetric])
  with Suc show ?case
    by (auto simp: circ_step_def SHA2_MEXP1_def nth_append Let_def intro!: sha2_step_cong)
qed simp

lemma SHA2_ROUND_BODY_SMALL_compress:
  assumes "length Wu = 16" and "length r = 8"
  shows "SHA2_ROUND_BODY_SMALL Wu inp r = sha2_compress (sha256_fns K256) inp r"
proof -
  have turns: "map (\<lambda>j. 16 * j) [1..<4] = [16, 32, 48 :: nat]" by (simp add: upt_conv_Cons)
  have "SHA2_SIXTEEN SHA2_MEXP2 = (\<lambda>pc s. foldl (circ_step_at fips_fns pc) s [0..<16])"
    by (simp add: fun_eq_iff SHA2_SIXTEEN_steps SHA2_MEXP2_expand)
  then show ?thesis
    unfolding SHA2_ROUND_BODY_SMALL_def Let_def turns SPH_T32_id map2_st8 [OF assms(2)]
    using assms(1)
    by (simp add: SHA2_SIXTEEN_steps SHA2_MEXP1_load sha2_compress_turns [of fips_fns, unfolded Kt_sha256 length_K256]
        st8_of_def fips_fns_def [symmetric] del: upt_Suc foldl_Cons)
qed

lemma SHA2_ROUND_BODY_compress:
  assumes "length r = 8"
  shows "SHA2_ROUND_BODY inp r = sha2_compress (sha256_fns K256) inp r"
proof -
  have "SHA2_UNROLLED_4 (SHA2_UNROLLED_3 (SHA2_UNROLLED_2 s)) = foldl (sha2_win fips_fns) s [0..<48]" for s
  proof -
    have "SHA2_UNROLLED_4 (SHA2_UNROLLED_3 (SHA2_UNROLLED_2 s)) =
        foldl (sha2_win fips_fns) s ([0..<16] @ [16..<32] @ [32..<48])"
      by (metis SHA2_UNROLLED_steps foldl_append surj_pair)
    moreover have "[0..<16] @ [16..<32] @ [32..<48] = [0..<48 :: nat]"
      using upt_add_eq_append [of 0 16 32] upt_add_eq_append [of 16 32 16] by simp
    ultimately show ?thesis by (simp only:)
  qed
  then show ?thesis
    unfolding SHA2_ROUND_BODY_def Let_def st8_of_def [symmetric] SPH_T32_id map2_st8 [OF assms]
    by (simp add: SHA2_UNROLLED_1_steps sha2_compress_win [of fips_fns, unfolded Kt_sha256 length_K256]
        fips_fns_def [symmetric] del: upt_Suc)
qed

lemma SHA2_BODY_compress:
  "sf_ok sf \<Longrightarrow> length r = 8 \<Longrightarrow> SHA2_BODY sf inp r = sha2_compress (sha256_fns K256) inp r"
  by (auto simp: SHA2_BODY_def sf_ok_def SHA2_ROUND_BODY_compress SHA2_ROUND_BODY_SMALL_compress split: option.splits)

lemma sha2_round_compress:
  assumes "arch_ok a" and "sf_ok sf" and "length r = 8" and "length b = 64"
  shows "sha2_round sf a b r = sha2_compress (sha256_fns K256) (\<lambda>t. of_be (take 4 (drop (4 * t) b))) r"
proof -
  have "sph_dec32be_aligned a (drop (4 * t) b) = of_be (take 4 (drop (4 * t) b))" if "t < 16" for t
    using assms(1,4) that by simp
  then show ?thesis
    by (simp add: sha2_round_def SHA2_BODY_compress [OF assms(2,3)] cong: sha2_compress_cong)
qed

section \<open>The digests are those of the standard\<close>

text \<open>SHA-224 and SHA-256 of FIPS 180-4: 64-byte blocks, an 8-byte length field.\<close>

definition fips_sha256 :: "u32 list \<Rightarrow> nat \<Rightarrow> u32 \<Rightarrow> nat \<Rightarrow> bytes \<Rightarrow> bytes" where
  "fips_sha256 iv rnum ub n m =
     std_hash 64 (\<lambda>b. sha2_compress (sha256_fns K256) (\<lambda>t. of_be (take 4 (drop (4 * t) b)))) iv
       (\<lambda>v. concat (map be32 (take rnum v))) (std_pad nat_be 64 8 m ub n)"

lemma sha224_macros_simps [simp]:
  "SPH_BLEN (sha224_macros sf a) = 64" "SPH_MAXPAD (sha224_macros sf a) = 56"
  "WORD (sha224_macros sf a) = BE32" "PLW (sha224_macros sf a) = PLW_default" "\<not> PW01 (sha224_macros sf a)"
  "RFUN (sha224_macros sf a) = sha2_round sf a" "OUTPUT (sha224_macros sf a) = md_output_be32 a"
  by (simp_all add: sha224_macros_def SPH_BLEN_def SPH_MAXPAD_def SPH_WLEN_def)

interpretation sha224: md_hash "arch_of p" "sha224_macros sf (arch_of p)" 6 H224 7
    "\<lambda>v. concat (map (\<lambda>u. be32 (v ! u)) [0..<7])" for sf p
  by unfold_locales (simp_all add: md_outputs)

interpretation sha256: md_hash "arch_of p" "sha224_macros sf (arch_of p)" 6 H256 8
    "\<lambda>v. concat (map (\<lambda>u. be32 (v ! u)) [0..<8])" for sf p
  by unfold_locales (simp_all add: md_outputs)

lemma length_H256: "length H224 = 8" "length H256 = 8"
  by (simp_all add: H224_def H256_def)

lemma sha256_hash_of:
  assumes "n < 8" and "length iv = 8" and "rnum \<le> 8" and "sf_ok sf"
  shows "md_hash_of (sha224_macros sf (arch_of p)) iv (\<lambda>v. concat (map (\<lambda>u. be32 (v ! u)) [0..<rnum])) ub n m
    = fips_sha256 iv rnum ub n m"
  unfolding fips_sha256_def using assms
  by (subst md_hash_of_std [where P = "\<lambda>v. length v = 8"])
     (auto simp: sha2_round_compress concat_map_take)

lemma sha256_interface:
  "sph_sha224_init = md_init H224" "sph_sha256_init = md_init H256"
  "sph_sha224 sf a = md_update a (sha224_macros sf a)"
  "sph_sha224_addbits_and_close sf a ub n = md_close_init a (sha224_macros sf a) H224 7 ub n"
  "sph_sha256_addbits_and_close sf a ub n = md_close_init a (sha224_macros sf a) H256 8 ub n"
  "sph_sha224_close sf a = sph_sha224_addbits_and_close sf a 0 0"
  "sph_sha256_close sf a = sph_sha256_addbits_and_close sf a 0 0"
  by (simp_all add: fun_eq_iff sph_sha224_init_def sph_sha256_init_def md_init_def sph_sha224_def
      sph_sha224_addbits_and_close_def sph_sha256_addbits_and_close_def md_close_init_def
      sph_sha224_close_def sph_sha256_close_def md_close_def)

lemma sha256_length_ok [simp]: "md_length_ok (sha224_macros sf a) l"
  by (simp add: md_length_ok_def)

text \<open>The 64-bit roots whose low halves are the initial value of SHA-224.\<close>

lemma H224_roots:
  "list_all2 (\<lambda>p x. \<exists>v. is_sqrt_frac 64 p v \<and> x = v mod 2 ^ 32) [23, 29, 31, 37, 41, 43, 47, 53] (map unat H224)"
proof -
  let ?v = "[0xCBBB9D5DC1059ED8, 0x629A292A367CD507, 0x9159015A3070DD17, 0x152FECD8F70E5939,
   0x67332667FFC00B31, 0x8EB44A8768581511, 0xDB0C2E0D64F98FA7, 0x47B5481DBEFA4FA4 :: nat]"
  have "list_all2 (is_sqrt_frac 64) [23, 29, 31, 37, 41, 43, 47, 53] ?v"
    by (simp, intro conjI is_sqrt_fracI; simp add: isqrt8_def)
  then have "list_all2 (\<lambda>p x. \<exists>v. is_sqrt_frac 64 p v \<and> x = v mod 2 ^ 32) [23, 29, 31, 37, 41, 43, 47, 53]
      (map (\<lambda>v. v mod 2 ^ 32) ?v)"
    unfolding list_all2_map2 by (rule list_all2_mono) auto
  moreover have "map unat H224 = map (\<lambda>v. v mod 2 ^ 32) ?v" by (simp add: H224_def)
  ultimately show ?thesis by simp
qed

section \<open>Properties\<close>

text \<open>
  C37. SHA-256 of the library is SHA-256 of FIPS 180-4, for both builds of the compression function,
  however the message is cut into calls and wherever the pieces lie: from an initialised context the
  updates all return and closing writes the digest of the concatenated pieces. A second message fed
  into the context after closing gives its own digest. (Of a message of \<open>2\<^sup>6\<^sup>4\<close> bits or more, for which the
  standard defines no digest, both sides encode the length modulo \<open>2\<^sup>6\<^sup>4\<close>.)
\<close>

theorem sph_sha256_correct:
  assumes "length (buf sc) = 64" and "sf_ok sf"
  shows "\<exists>sc1 sc2. feed (sph_sha256 sf (arch_of p)) ps (sph_sha256_init sc) = Some sc1
     \<and> fst (sph_sha256_close sf (arch_of p) dst sc1) = fips_sha256 H256 8 0 0 (pieces ps)
     \<and> feed (sph_sha256 sf (arch_of p)) qs (snd (sph_sha256_close sf (arch_of p) dst sc1)) = Some sc2
     \<and> fst (sph_sha256_close sf (arch_of p) dst' sc2) = fips_sha256 H256 8 0 0 (pieces qs)"
  using sha256.inc.digest_of_pieces [of sc sf p ps dst] sha256.inc.digest_after_close [of sc sf p ps qs dst dst'] assms
  by (auto simp: sha256_interface sha256_hash_of length_H256)

theorem sph_sha256_correct_witness:
  "\<exists>sc1. feed (sph_sha256 (Some (replicate 16 5)) (arch_of I386)) [(1, [0x61]), (2, [0x62, 0x63])]
       (sph_sha256_init \<lparr>buf = replicate 64 7, val = [], count = 5\<rparr>) = Some sc1
     \<and> fst (sph_sha256_close (Some (replicate 16 5)) (arch_of I386) 0 sc1) = fips_sha256 H256 8 0 0 [0x61, 0x62, 0x63]"
  using sph_sha256_correct [of "\<lparr>buf = replicate 64 7, val = [], count = 5\<rparr>" "Some (replicate 16 5)"
      I386 "[(1, [0x61]), (2, [0x62, 0x63])]" 0 "[]"] by (auto simp: sf_ok_def)

text \<open>
  The same for SHA-224 and SHA-256 with up to seven extra bits at the end.
\<close>

theorem sph_sha224_addbits_correct:
  assumes "length (buf sc) = 64" and "sf_ok sf" and "n < 8"
  shows "\<exists>sc1 sc2. feed (sph_sha224 sf (arch_of p)) ps (sph_sha224_init sc) = Some sc1
     \<and> fst (sph_sha224_addbits_and_close sf (arch_of p) ub n dst sc1) = fips_sha256 H224 7 ub n (pieces ps)
     \<and> feed (sph_sha256 sf (arch_of p)) ps (sph_sha256_init sc) = Some sc2
     \<and> fst (sph_sha256_addbits_and_close sf (arch_of p) ub n dst sc2) = fips_sha256 H256 8 ub n (pieces ps)"
proof -
  obtain sc1 where "feed (sph_sha224 sf (arch_of p)) ps (sph_sha224_init sc) = Some sc1"
    and r1: "md_rep (sha224_macros sf (arch_of p)) H224 (pieces ps) sc1"
    using sha224.inc.feed_represents [OF sha224.inc.init_represents, of sc sf p ps] assms
    by (auto simp: sha256_interface)
  moreover obtain sc2 where "feed (sph_sha224 sf (arch_of p)) ps (sph_sha256_init sc) = Some sc2"
    and r2: "md_rep (sha224_macros sf (arch_of p)) H256 (pieces ps) sc2"
    using sha256.inc.feed_represents [OF sha256.inc.init_represents, of sc sf p ps] assms
    by (auto simp: sha256_interface)
  ultimately show ?thesis
    using sha224.close_digest [OF r1 assms(3), of ub dst] sha256.close_digest [OF r2 assms(3), of ub dst] assms
    by (simp add: sha256_interface sha256_hash_of length_H256)
qed

theorem sph_sha224_addbits_correct_witness:
  "\<exists>sc1. feed (sph_sha224 None (arch_of Mips_eb)) [(0, [1, 2])]
       (sph_sha224_init \<lparr>buf = replicate 64 0, val = [], count = 0\<rparr>) = Some sc1
     \<and> fst (sph_sha224_addbits_and_close None (arch_of Mips_eb) 0xA0 3 0 sc1) = fips_sha256 H224 7 0xA0 3 [1, 2]"
  using sph_sha224_addbits_correct [of "\<lparr>buf = replicate 64 0, val = [], count = 0\<rparr>" None 3 Mips_eb
      "[(0, [1, 2])]" "0xA0" 0] by (auto simp: sf_ok_def)

text \<open>
  The two compression functions of the file, the 64 steps written out and the loop over the
  circular schedule, are the same function, whatever the uninitialised array holds: that of the
  standard.
\<close>

theorem sha256_compression_correct:
  assumes "length r = 8" and "length Wu = 16"
  shows "SHA2_ROUND_BODY inp r = SHA2_ROUND_BODY_SMALL Wu inp r
    \<and> SHA2_ROUND_BODY inp r = sha2_compress (sha256_fns K256) inp r"
  using assms by (simp add: SHA2_ROUND_BODY_compress SHA2_ROUND_BODY_SMALL_compress)

theorem sha256_compression_correct_witness:
  "SHA2_ROUND_BODY (\<lambda>x. of_nat x) H256 = SHA2_ROUND_BODY_SMALL (replicate 16 1) (\<lambda>x. of_nat x) H256"
  using sha256_compression_correct [of H256 "replicate 16 1"] by (simp add: length_H256)

text \<open>
  The constants are those of the standard: the round constants are the first 32 bits of the
  fractional parts of the cube roots of the first 64 primes, the initial value of SHA-256 those of the
  square roots of the first eight primes, and the initial value of SHA-224 bits 33 to 64 of the
  fractional parts of the square roots of the ninth to the sixteenth prime.
\<close>

theorem sha256_constants_correct:
  "list_all2 (is_cbrt_frac 32) (take 64 (primes_below 410)) (map unat K256)
   \<and> list_all2 (is_sqrt_frac 32) (take 8 (primes_below 410)) (map unat H256)
   \<and> list_all2 (\<lambda>p x. \<exists>v. is_sqrt_frac 64 p v \<and> x = v mod 2 ^ 32) (take 8 (drop 8 (primes_below 410))) (map unat H224)"
proof (intro conjI)
  show "list_all2 (\<lambda>p x. \<exists>v. is_sqrt_frac 64 p v \<and> x = v mod 2 ^ 32) (take 8 (drop 8 (primes_below 410))) (map unat H224)"
    using H224_roots by (simp add: primes_below_410)
qed (simp_all add: primes_below_410 K256_def H256_def, (intro conjI is_cbrt_fracI is_sqrt_fracI; simp add: isqrt8_def icbrt8_def)+)

end
