(* ===== verification/Sha2_Big.thy ===== *)
theory Sha2_Big
  imports Md_Helper Sha2_Spec Prime_Roots
begin

text \<open>
  \<open>sha2big.c\<close>: SHA-384 and SHA-512. The compression function expands the whole schedule first and
  then runs the 80 steps eight at a time, renaming the eight working variables instead of moving
  them. The theorems show that it is the compression function of FIPS 180-4, that the digests are
  those of the padded message whatever the pieces the data comes in, and that the constants are the
  roots the standard says they are.
\<close>

section \<open>Macros and tables (lines 40-105)\<close>

definition CH_64 :: "u64 \<Rightarrow> u64 \<Rightarrow> u64 \<Rightarrow> u64" where
  "CH_64 X Y Z = ((Y XOR Z) AND X) XOR Z"

definition MAJ_64 :: "u64 \<Rightarrow> u64 \<Rightarrow> u64 \<Rightarrow> u64" where
  "MAJ_64 X Y Z = (X AND Y) OR ((X OR Y) AND Z)"

definition BSG5_0 :: "u64 \<Rightarrow> u64" where
  "BSG5_0 x = SPH_ROTR64 x 28 XOR SPH_ROTR64 x 34 XOR SPH_ROTR64 x 39"

definition BSG5_1 :: "u64 \<Rightarrow> u64" where
  "BSG5_1 x = SPH_ROTR64 x 14 XOR SPH_ROTR64 x 18 XOR SPH_ROTR64 x 41"

definition SSG5_0 :: "u64 \<Rightarrow> u64" where
  "SSG5_0 x = SPH_ROTR64 x 1 XOR SPH_ROTR64 x 8 XOR SPH_T64 (drop_bit 7 x)"

definition SSG5_1 :: "u64 \<Rightarrow> u64" where
  "SSG5_1 x = SPH_ROTR64 x 19 XOR SPH_ROTR64 x 61 XOR SPH_T64 (drop_bit 6 x)"

definition K512 :: "u64 list" where
  "K512 =
  [0x428A2F98D728AE22, 0x7137449123EF65CD, 0xB5C0FBCFEC4D3B2F, 0xE9B5DBA58189DBBC,
   0x3956C25BF348B538, 0x59F111F1B605D019, 0x923F82A4AF194F9B, 0xAB1C5ED5DA6D8118,
   0xD807AA98A3030242, 0x12835B0145706FBE, 0x243185BE4EE4B28C, 0x550C7DC3D5FFB4E2,
   0x72BE5D74F27B896F, 0x80DEB1FE3B1696B1, 0x9BDC06A725C71235, 0xC19BF174CF692694,
   0xE49B69C19EF14AD2, 0xEFBE4786384F25E3, 0x0FC19DC68B8CD5B5, 0x240CA1CC77AC9C65,
   0x2DE92C6F592B0275, 0x4A7484AA6EA6E483, 0x5CB0A9DCBD41FBD4, 0x76F988DA831153B5,
   0x983E5152EE66DFAB, 0xA831C66D2DB43210, 0xB00327C898FB213F, 0xBF597FC7BEEF0EE4,
   0xC6E00BF33DA88FC2, 0xD5A79147930AA725, 0x06CA6351E003826F, 0x142929670A0E6E70,
   0x27B70A8546D22FFC, 0x2E1B21385C26C926, 0x4D2C6DFC5AC42AED, 0x53380D139D95B3DF,
   0x650A73548BAF63DE, 0x766A0ABB3C77B2A8, 0x81C2C92E47EDAEE6, 0x92722C851482353B,
   0xA2BFE8A14CF10364, 0xA81A664BBC423001, 0xC24B8B70D0F89791, 0xC76C51A30654BE30,
   0xD192E819D6EF5218, 0xD69906245565A910, 0xF40E35855771202A, 0x106AA07032BBD1B8,
   0x19A4C116B8D2D0C8, 0x1E376C085141AB53, 0x2748774CDF8EEB99, 0x34B0BCB5E19B48A8,
   0x391C0CB3C5C95A63, 0x4ED8AA4AE3418ACB, 0x5B9CCA4F7763E373, 0x682E6FF3D6B2B8A3,
   0x748F82EE5DEFB2FC, 0x78A5636F43172F60, 0x84C87814A1F0AB72, 0x8CC702081A6439EC,
   0x90BEFFFA23631E28, 0xA4506CEBDE82BDE9, 0xBEF9A3F7B2C67915, 0xC67178F2E372532B,
   0xCA273ECEEA26619C, 0xD186B8C721C0C207, 0xEADA7DD6CDE0EB1E, 0xF57D4F7FEE6ED178,
   0x06F067AA72176FBA, 0x0A637DC5A2C898A6, 0x113F9804BEF90DAE, 0x1B710B35131C471B,
   0x28DB77F523047D84, 0x32CAAB7B40C72493, 0x3C9EBE0A15C9BEBC, 0x431D67C49C100D4C,
   0x4CC5D4BECB3E42B6, 0x597F299CFC657E2A, 0x5FCB6FAB3AD6FAEC, 0x6C44198C4A475817]"

definition H384 :: "u64 list" where
  "H384 =
  [0xCBBB9D5DC1059ED8, 0x629A292A367CD507, 0x9159015A3070DD17, 0x152FECD8F70E5939,
   0x67332667FFC00B31, 0x8EB44A8768581511, 0xDB0C2E0D64F98FA7, 0x47B5481DBEFA4FA4]"

definition H512 :: "u64 list" where
  "H512 =
  [0x6A09E667F3BCC908, 0xBB67AE8584CAA73B, 0x3C6EF372FE94F82B, 0xA54FF53A5F1D36F1,
   0x510E527FADE682D1, 0x9B05688C2B3E6C1F, 0x1F83D9ABFB41BD6B, 0x5BE0CD19137E2179]"

section \<open>The compression function (lines 122-177)\<close>

text \<open>\<open>SHA3_STEP\<close> assigns to its arguments \<open>D\<close> and \<open>H\<close>; the function returns the new values.\<close>

definition SHA3_STEP ::
    "u64 list \<Rightarrow> u64 \<Rightarrow> u64 \<Rightarrow> u64 \<Rightarrow> u64 \<Rightarrow> u64 \<Rightarrow> u64 \<Rightarrow> u64 \<Rightarrow> u64 \<Rightarrow> nat \<Rightarrow> u64 \<times> u64" where
  "SHA3_STEP W A B C D E F G H i =
     (let T1 = SPH_T64 (H + BSG5_1 E + CH_64 E F G + K512 ! i + W ! i);
          T2 = SPH_T64 (BSG5_0 A + MAJ_64 A B C);
          D = SPH_T64 (D + T1);
          H = SPH_T64 (T1 + T2)
      in (D, H))"

text \<open>The body of the main loop: eight steps.\<close>

fun SHA3_EIGHT :: "u64 list \<Rightarrow> u64 st8 \<Rightarrow> nat \<Rightarrow> u64 st8" where
  "SHA3_EIGHT W (A, B, C, D, E, F, G, H) i =
     (let (D, H) = SHA3_STEP W A B C D E F G H (i + 0);
          (C, G) = SHA3_STEP W H A B C D E F G (i + 1);
          (B, F) = SHA3_STEP W G H A B C D E F (i + 2);
          (A, E) = SHA3_STEP W F G H A B C D E (i + 3);
          (H, D) = SHA3_STEP W E F G H A B C D (i + 4);
          (G, C) = SHA3_STEP W D E F G H A B C (i + 5);
          (F, B) = SHA3_STEP W C D E F G H A B (i + 6);
          (E, A) = SHA3_STEP W B C D E F G H A (i + 7)
      in (A, B, C, D, E, F, G, H))"

text \<open>The schedule: the first loop fills 16 words, the second one appends the others.\<close>

definition SHA3_W :: "(nat \<Rightarrow> u64) \<Rightarrow> u64 list" where
  "SHA3_W inp =
     foldl (\<lambda>W i. W @ [SPH_T64 (SSG5_1 (W ! (i - 2)) + W ! (i - 7) + SSG5_0 (W ! (i - 15)) + W ! (i - 16))])
       (map inp [0..<16]) [16..<80]"

definition SHA3_ROUND_BODY :: "(nat \<Rightarrow> u64) \<Rightarrow> u64 list \<Rightarrow> u64 list" where
  "SHA3_ROUND_BODY inp r =
     (let W = SHA3_W inp;
          (A, B, C, D, E, F, G, H) =
            foldl (SHA3_EIGHT W) (r ! 0, r ! 1, r ! 2, r ! 3, r ! 4, r ! 5, r ! 6, r ! 7)
              (map (\<lambda>j. 8 * j) [0..<10])
      in [SPH_T64 (r ! 0 + A), SPH_T64 (r ! 1 + B), SPH_T64 (r ! 2 + C), SPH_T64 (r ! 3 + D),
          SPH_T64 (r ! 4 + E), SPH_T64 (r ! 5 + F), SPH_T64 (r ! 6 + G), SPH_T64 (r ! 7 + H)])"

definition sha3_round :: "arch \<Rightarrow> bytes \<Rightarrow> u64 list \<Rightarrow> u64 list" where
  "sha3_round a data r = SHA3_ROUND_BODY (\<lambda>x. sph_dec64be_aligned a (drop (8 * x) data)) r"

definition sph_sha384_comp :: "u64 list \<Rightarrow> u64 list \<Rightarrow> u64 list" where
  "sph_sha384_comp msg v = SHA3_ROUND_BODY (\<lambda>x. msg ! x) v"

section \<open>The interface (lines 179-245)\<close>

type_synonym sha384_context = "u64 list md_context"

definition sph_sha384_init :: "sha384_context \<Rightarrow> sha384_context" where
  "sph_sha384_init sc = sc\<lparr>val := H384, count := 0\<rparr>"

definition sph_sha512_init :: "sha384_context \<Rightarrow> sha384_context" where
  "sph_sha512_init sc = sc\<lparr>val := H512, count := 0\<rparr>"

text \<open>The macros with which \<open>md_helper.c\<close> is included (lines 201-204).\<close>

definition sha384_macros :: "arch \<Rightarrow> u64 list md_macros" where
  "sha384_macros a = \<lparr>WORD = BE64, BLEN = None, PLW = PLW_default, PW01 = False,
     RFUN = sha3_round a, OUTPUT = md_output_be64 a\<rparr>"

text \<open>\<open>sph_sha512\<close> is a macro for \<open>sph_sha384\<close> (\<open>sph_sha2.h\<close>).\<close>

definition sph_sha384 :: "arch \<Rightarrow> u64 \<Rightarrow> bytes \<Rightarrow> sha384_context \<Rightarrow> sha384_context option" where
  "sph_sha384 a addr data sc = md_update a (sha384_macros a) addr data sc"

abbreviation "sph_sha512 \<equiv> sph_sha384"

definition sph_sha384_close :: "arch \<Rightarrow> u64 \<Rightarrow> sha384_context \<Rightarrow> bytes \<times> sha384_context" where
  "sph_sha384_close a dst sc =
     (let (out, sc) = md_close a (sha384_macros a) dst 6 sc in (out, sph_sha384_init sc))"

definition sph_sha384_addbits_and_close ::
    "arch \<Rightarrow> u32 \<Rightarrow> nat \<Rightarrow> u64 \<Rightarrow> sha384_context \<Rightarrow> bytes \<times> sha384_context" where
  "sph_sha384_addbits_and_close a ub n dst sc =
     (let (out, sc) = md_addbits_and_close a (sha384_macros a) ub n dst 6 sc in (out, sph_sha384_init sc))"

definition sph_sha512_close :: "arch \<Rightarrow> u64 \<Rightarrow> sha384_context \<Rightarrow> bytes \<times> sha384_context" where
  "sph_sha512_close a dst sc =
     (let (out, sc) = md_close a (sha384_macros a) dst 8 sc in (out, sph_sha512_init sc))"

definition sph_sha512_addbits_and_close ::
    "arch \<Rightarrow> u32 \<Rightarrow> nat \<Rightarrow> u64 \<Rightarrow> sha384_context \<Rightarrow> bytes \<times> sha384_context" where
  "sph_sha512_addbits_and_close a ub n dst sc =
     (let (out, sc) = md_addbits_and_close a (sha384_macros a) ub n dst 8 sc in (out, sph_sha512_init sc))"

section \<open>The compression function is the one of the standard\<close>

lemma sha512_functions:
  "BSG5_0 = Sigma0 (sha512_fns K512)" "BSG5_1 = Sigma1 (sha512_fns K512)"
  "SSG5_0 = sigma0 (sha512_fns K512)" "SSG5_1 = sigma1 (sha512_fns K512)"
  "CH_64 = Ch" "MAJ_64 = Maj"
  by (simp_all add: fun_eq_iff BSG5_0_def BSG5_1_def SSG5_0_def SSG5_1_def sha512_fns_def rotr3_def
      rotr2_shr_def sph_rotations CH_64_def MAJ_64_def Ch_xor_form Maj_or_forms)

lemma Kt_sha512: "Kt (sha512_fns K512) = K512" and length_K512: "length K512 = 80"
  by (simp_all add: sha512_fns_def K512_def)

lemma sha2_step_SHA3_STEP:
  "sha2_step (sha512_fns K512) (\<lambda>t. W ! t) (a, b, c, d, e, f, g, h) t =
     (case SHA3_STEP W a b c d e f g h t of (d', h') \<Rightarrow> (h', a, b, c, d', e, f, g))"
  by (simp add: SHA3_STEP_def sha512_functions Kt_sha512 Let_def)

lemma SHA3_EIGHT_steps:
  "SHA3_EIGHT W st i = foldl (sha2_step (sha512_fns K512) (\<lambda>t. W ! t)) st [i..<i + 8]"
  unfolding upt_8
  by (cases st rule: st8_cases)
     (simp only: SHA3_EIGHT.simps Let_def foldl.simps sha2_step_SHA3_STEP sha2_step_case_prod
        prod.case add_0_right cong del: prod.case_cong_weak)

lemma foldl_SHA3_EIGHT:
  "foldl (SHA3_EIGHT W) st (map (\<lambda>j. 8 * j) [0..<n]) =
     foldl (sha2_step (sha512_fns K512) (\<lambda>t. W ! t)) st [0..<8 * n]"
  by (rule foldl_unrolled) (rule SHA3_EIGHT_steps)

lemma SHA3_W_schedule: "SHA3_W inp = map (schedule (sha512_fns K512) inp) [0..<80]"
  unfolding SHA3_W_def SPH_T64_id sha512_functions by (rule schedule_list) simp

lemma SHA3_ROUND_BODY_compress:
  assumes "length r = 8"
  shows "SHA3_ROUND_BODY inp r = sha2_compress (sha512_fns K512) inp r"
proof -
  let ?f = "sha512_fns K512" and ?W = "SHA3_W inp"
  have "foldl (SHA3_EIGHT ?W) st (map (\<lambda>j. 8 * j) [0..<10]) =
      foldl (sha2_step ?f (\<lambda>t. ?W ! t)) st [0..<80]" for st
    using foldl_SHA3_EIGHT [of ?W st 10] by simp
  also have "foldl (sha2_step ?f (\<lambda>t. ?W ! t)) st [0..<80] =
      foldl (sha2_step ?f (schedule ?f inp)) st [0..<80]" for st
    by (rule foldl_sha2_step_cong) (simp add: SHA3_W_schedule del: upt_Suc)
  finally have eq: "foldl (SHA3_EIGHT ?W) st (map (\<lambda>j. 8 * j) [0..<10]) =
      foldl (sha2_step ?f (schedule ?f inp)) st [0..<80]" for st .
  obtain a b c d e f g h where r: "r = [a, b, c, d, e, f, g, h]"
    using assms by (rule list8E)
  show ?thesis
    unfolding SHA3_ROUND_BODY_def Let_def eq sha2_compress_def Kt_sha512 length_K512 st8_of_def
    by (simp add: r split: prod.split del: upt_Suc)
qed

lemma sha3_round_compress:
  assumes "arch_ok a" and "length r = 8" and "length b = 128"
  shows "sha3_round a b r = sha2_compress (sha512_fns K512) (\<lambda>t. of_be (take 8 (drop (8 * t) b))) r"
proof -
  have "sph_dec64be_aligned a (drop (8 * t) b) = of_be (take 8 (drop (8 * t) b))" if "t < 16" for t
    using assms(1,3) that by simp
  then have "schedule f (\<lambda>x. sph_dec64be_aligned a (drop (8 * x) b)) =
      schedule f (\<lambda>t. of_be (take 8 (drop (8 * t) b)))" for f
    by (intro ext schedule_cong)
  then show ?thesis
    by (simp add: sha3_round_def SHA3_ROUND_BODY_compress [OF assms(2)] sha2_compress_def)
qed

section \<open>The digests are those of the standard\<close>

text \<open>
  SHA-384 and SHA-512 of the message \<open>m\<close> followed by the \<open>n\<close> highest bits of \<open>ub\<close>, as FIPS 180-4
  defines them: 128-byte blocks, a 16-byte length field, output of the first \<open>rnum\<close> words.
\<close>

definition fips_sha512 :: "u64 list \<Rightarrow> nat \<Rightarrow> u32 \<Rightarrow> nat \<Rightarrow> bytes \<Rightarrow> bytes" where
  "fips_sha512 iv rnum ub n m =
     std_hash 128 (\<lambda>b. sha2_compress (sha512_fns K512) (\<lambda>t. of_be (take 8 (drop (8 * t) b)))) iv
       (\<lambda>v. concat (map be64 (take rnum v))) (std_pad nat_be 128 16 m ub n)"

lemma sha384_macros_simps [simp]:
  "SPH_BLEN (sha384_macros a) = 128" "SPH_MAXPAD (sha384_macros a) = 112"
  "WORD (sha384_macros a) = BE64" "PLW (sha384_macros a) = PLW_default" "\<not> PW01 (sha384_macros a)"
  "RFUN (sha384_macros a) = sha3_round a" "OUTPUT (sha384_macros a) = md_output_be64 a"
  by (simp_all add: sha384_macros_def SPH_BLEN_def SPH_MAXPAD_def SPH_WLEN_def)

interpretation sha384: md_hash "arch_of p" "sha384_macros (arch_of p)" 7 H384 6
    "\<lambda>v. concat (map (\<lambda>u. be64 (v ! u)) [0..<6])" for p
  by unfold_locales (simp_all add: md_outputs)

interpretation sha512: md_hash "arch_of p" "sha384_macros (arch_of p)" 7 H512 8
    "\<lambda>v. concat (map (\<lambda>u. be64 (v ! u)) [0..<8])" for p
  by unfold_locales (simp_all add: md_outputs)

lemma length_H: "length H384 = 8" "length H512 = 8"
  by (simp_all add: H384_def H512_def)

lemma sha512_hash_of:
  assumes "n < 8" and "length iv = 8" and "rnum \<le> 8"
  shows "md_hash_of (sha384_macros (arch_of p)) iv (\<lambda>v. concat (map (\<lambda>u. be64 (v ! u)) [0..<rnum])) ub n m
    = fips_sha512 iv rnum ub n m"
  unfolding fips_sha512_def using assms
  by (subst md_hash_of_std [where P = "\<lambda>v. length v = 8"])
     (auto simp: sha3_round_compress concat_map_take)

text \<open>The functions of the interface are the generic ones of the template.\<close>

lemma sha512_interface:
  "sph_sha384_init = md_init H384" "sph_sha512_init = md_init H512"
  "sph_sha384 a = md_update a (sha384_macros a)"
  "sph_sha384_addbits_and_close a ub n = md_close_init a (sha384_macros a) H384 6 ub n"
  "sph_sha512_addbits_and_close a ub n = md_close_init a (sha384_macros a) H512 8 ub n"
  "sph_sha384_close a = sph_sha384_addbits_and_close a 0 0"
  "sph_sha512_close a = sph_sha512_addbits_and_close a 0 0"
  by (simp_all add: fun_eq_iff sph_sha384_init_def sph_sha512_init_def md_init_def sph_sha384_def
      sph_sha384_addbits_and_close_def sph_sha512_addbits_and_close_def md_close_init_def
      sph_sha384_close_def sph_sha512_close_def md_close_def)

lemma sha512_length_ok [simp]: "md_length_ok (sha384_macros a) l \<longleftrightarrow> l < 2 ^ 64"
  by (simp add: md_length_ok_def)

section \<open>Properties\<close>

text \<open>
  C36. SHA-512 of the library is SHA-512 of FIPS 180-4, however the message is cut into calls of
  \<open>sph_sha512\<close> and wherever the pieces lie in memory: from an initialised context the updates all
  return, and closing writes the digest of the concatenated pieces, for any total length below
  2 to the 64 bytes, on every supported platform.
\<close>

theorem sph_sha512_correct:
  assumes "length (buf sc) = 128" and "length (pieces ps) < 2 ^ 64"
  shows "\<exists>sc'. feed (sph_sha512 (arch_of p)) ps (sph_sha512_init sc) = Some sc'
     \<and> fst (sph_sha512_close (arch_of p) dst sc') = fips_sha512 H512 8 0 0 (pieces ps)"
  using sha512.inc.digest_of_pieces [of sc p ps dst] assms
  by (simp add: sha512_interface sha512_hash_of length_H)

theorem sph_sha512_correct_witness:
  "\<exists>sc'. feed (sph_sha512 (arch_of AMD64)) [(3, [0x61]), (8, []), (9, [0x62, 0x63])]
       (sph_sha512_init \<lparr>buf = replicate 128 7, val = [], count = 5\<rparr>) = Some sc'
     \<and> fst (sph_sha512_close (arch_of AMD64) 0 sc') = fips_sha512 H512 8 0 0 [0x61, 0x62, 0x63]"
  using sph_sha512_correct [of "\<lparr>buf = replicate 128 7, val = [], count = 5\<rparr>"
      "[(3, [0x61]), (8, []), (9, [0x62, 0x63])]" AMD64 0] by simp

text \<open>
  C39. SHA-384 and SHA-512 of the library with up to seven extra bits at the end of the message: for a
  message below the limit, cut into calls in any way, the updates return, and closing with the extra bits
  writes the digest of FIPS 180-4 of the bits and leaves the context as after an initialisation, so that
  it can be used again.
\<close>

theorem sph_sha384_addbits_correct:
  assumes "length (buf sc) = 128" and "length (pieces ps) < 2 ^ 64" and "n < 8"
  shows "\<exists>sc1 sc2. feed (sph_sha384 (arch_of p)) ps (sph_sha384_init sc) = Some sc1
     \<and> fst (sph_sha384_addbits_and_close (arch_of p) ub n dst sc1) = fips_sha512 H384 6 ub n (pieces ps)
     \<and> md_rep (sha384_macros (arch_of p)) H384 [] (snd (sph_sha384_addbits_and_close (arch_of p) ub n dst sc1))
     \<and> feed (sph_sha512 (arch_of p)) ps (sph_sha512_init sc) = Some sc2
     \<and> fst (sph_sha512_addbits_and_close (arch_of p) ub n dst sc2) = fips_sha512 H512 8 ub n (pieces ps)
     \<and> md_rep (sha384_macros (arch_of p)) H512 [] (snd (sph_sha512_addbits_and_close (arch_of p) ub n dst sc2))"
proof -
  obtain sc1 where "feed (sph_sha384 (arch_of p)) ps (sph_sha384_init sc) = Some sc1"
    and r1: "md_rep (sha384_macros (arch_of p)) H384 (pieces ps) sc1"
    using sha384.inc.feed_represents [OF sha384.inc.init_represents, of sc p ps] assms
    by (auto simp: sha512_interface)
  moreover obtain sc2 where "feed (sph_sha384 (arch_of p)) ps (sph_sha512_init sc) = Some sc2"
    and r2: "md_rep (sha384_macros (arch_of p)) H512 (pieces ps) sc2"
    using sha512.inc.feed_represents [OF sha512.inc.init_represents, of sc p ps] assms
    by (auto simp: sha512_interface)
  ultimately show ?thesis
    using sha384.close_digest [OF r1 assms(3), of ub dst] sha512.close_digest [OF r2 assms(3), of ub dst] assms
    by (simp add: sha512_interface sha512_hash_of length_H)
qed

theorem sph_sha384_addbits_correct_witness:
  "\<exists>sc1. feed (sph_sha384 (arch_of Arm_el)) [(0, [1, 2])]
       (sph_sha384_init \<lparr>buf = replicate 128 0, val = [], count = 0\<rparr>) = Some sc1
     \<and> fst (sph_sha384_addbits_and_close (arch_of Arm_el) 0xA0 3 0 sc1) = fips_sha512 H384 6 0xA0 3 [1, 2]"
  using sph_sha384_addbits_correct [of "\<lparr>buf = replicate 128 0, val = [], count = 0\<rparr>"
      "[(0, [1, 2])]" 3 Arm_el "0xA0" 0] by auto

text \<open>
  C38. The compression function, with its eight renamed steps per turn and its expanded schedule, is
  the one of the standard, both on bytes in memory and on a block given as words.
\<close>

theorem sha512_compression_correct:
  assumes "length r = 8" and "length b = 128"
  shows "sha3_round (arch_of p) b r = sha2_compress (sha512_fns K512) (\<lambda>t. of_be (take 8 (drop (8 * t) b))) r
    \<and> sph_sha384_comp msg r = sha2_compress (sha512_fns K512) (\<lambda>t. msg ! t) r"
  using assms by (simp add: sha3_round_compress sph_sha384_comp_def SHA3_ROUND_BODY_compress)

theorem sha512_compression_correct_witness:
  "sha3_round (arch_of Mips_eb) (replicate 128 3) H512 =
     sha2_compress (sha512_fns K512) (\<lambda>t. of_be (take 8 (drop (8 * t) (replicate 128 3)))) H512"
  using sha512_compression_correct [of H512 "replicate 128 3" Mips_eb] by (simp add: length_H)

text \<open>
  The constants are those of the standard: the 80 round constants are the first 64 bits of the
  fractional parts of the cube roots of the first 80 primes, the initial value of SHA-512 those of the
  square roots of the first eight primes, that of SHA-384 those of the next eight.
\<close>

theorem sha512_constants_correct:
  "list_all2 (is_cbrt_frac 64) (primes_below 410) (map unat K512)
   \<and> list_all2 (is_sqrt_frac 64) (take 8 (primes_below 410)) (map unat H512)
   \<and> list_all2 (is_sqrt_frac 64) (take 8 (drop 8 (primes_below 410))) (map unat H384)"
  unfolding primes_below_410 K512_def H512_def H384_def
  by (simp, intro conjI is_cbrt_fracI is_sqrt_fracI; simp add: isqrt8_def icbrt8_def)

end
