(* ===== verification/Sha1_Spec.thy ===== *)
theory Sha1_Spec
  imports Sha2_Spec Sph_Types
begin

text \<open>
  SHA-1 of FIPS 180-4, and SHA-0 of the withdrawn FIPS 180, which only lacks the rotation in the
  message schedule: the number of bits of that rotation is a parameter. The implementations keep the
  last 16 words of the schedule; the last section relates such a window to the whole schedule.
\<close>

section \<open>The functions of the standard\<close>

definition Parity :: "'a::len word \<Rightarrow> 'a word \<Rightarrow> 'a word \<Rightarrow> 'a word" where
  "Parity x y z = x XOR y XOR z"

definition sha1_f :: "nat \<Rightarrow> u32 \<Rightarrow> u32 \<Rightarrow> u32 \<Rightarrow> u32" where
  "sha1_f t = (if t < 20 then Ch else if t < 40 then Parity else if t < 60 then Maj else Parity)"

definition sha1_K :: "nat \<Rightarrow> u32" where
  "sha1_K t = (if t < 20 then 0x5A827999 else if t < 40 then 0x6ED9EBA1 else if t < 60 then 0x8F1BBCDC else 0xCA62C1D6)"

fun sha1_schedule :: "nat \<Rightarrow> (nat \<Rightarrow> u32) \<Rightarrow> nat \<Rightarrow> u32" where
  "sha1_schedule rot M t =
     (if t < 16 then M t
      else word_rotl rot (sha1_schedule rot M (t - 3) XOR sha1_schedule rot M (t - 8)
         XOR sha1_schedule rot M (t - 14) XOR sha1_schedule rot M (t - 16)))"

declare sha1_schedule.simps [simp del]

type_synonym 'w st5 = "'w \<times> 'w \<times> 'w \<times> 'w \<times> 'w"

fun sha1_step :: "(nat \<Rightarrow> u32) \<Rightarrow> u32 st5 \<Rightarrow> nat \<Rightarrow> u32 st5" where
  "sha1_step W (a, b, c, d, e) t =
     (word_rotl 5 a + sha1_f t b c d + e + sha1_K t + W t, a, word_rotl 30 b, c, d)"

fun st5_list :: "'w st5 \<Rightarrow> 'w list" where
  "st5_list (a, b, c, d, e) = [a, b, c, d, e]"

definition st5_of :: "'w list \<Rightarrow> 'w st5" where
  "st5_of r = (r ! 0, r ! 1, r ! 2, r ! 3, r ! 4)"

definition sha1_compress :: "nat \<Rightarrow> (nat \<Rightarrow> u32) \<Rightarrow> u32 list \<Rightarrow> u32 list" where
  "sha1_compress rot M r = map2 (+) r (st5_list (foldl (sha1_step (sha1_schedule rot M)) (st5_of r) [0..<80]))"

section \<open>Lemmas\<close>

lemma st5_cases:
  obtains a b c d e where "st = (a, b, c, d, e)"
  by (metis surj_pair)

lemma list5E:
  assumes "length r = 5"
  obtains a b c d e where "r = [a, b, c, d, e]"
  using assms by (auto simp: numeral_eq_Suc length_Suc_conv)

lemma sha1_step_cong: "W t = W' t \<Longrightarrow> sha1_step W st t = sha1_step W' st t"
  by (cases st rule: st5_cases) simp

lemma foldl_sha1_step_cong:
  "(\<And>t. t \<in> set ts \<Longrightarrow> W t = W' t) \<Longrightarrow> foldl (sha1_step W) st ts = foldl (sha1_step W') st ts"
  by (rule foldl_cong) (auto intro: sha1_step_cong)

lemma sha1_schedule_cong:
  assumes "\<And>t. t < 16 \<Longrightarrow> M t = M' t"
  shows "sha1_schedule rot M t = sha1_schedule rot M' t"
proof (induction t rule: less_induct)
  case (less t)
  then show ?case
    by (simp add: sha1_schedule.simps [of rot M t] sha1_schedule.simps [of rot M' t] assms)
qed

lemma sha1_compress_cong:
  "(\<And>t. t < 16 \<Longrightarrow> M t = M' t) \<Longrightarrow> sha1_compress rot M r = sha1_compress rot M' r"
  using sha1_schedule_cong [of M M' rot]
  by (simp add: sha1_compress_def ext [of "sha1_schedule rot M" "sha1_schedule rot M'"])

lemma length_st5_list [simp]: "length (st5_list st) = 5"
  by (cases st rule: st5_cases) simp

lemma length_sha1_compress [simp]: "length r = 5 \<Longrightarrow> length (sha1_compress rot M r) = 5"
  by (simp add: sha1_compress_def)

lemma map2_st5:
  assumes "length r = 5"
  shows "(case s of (W, A, B, C, D, E) \<Rightarrow> [r ! 0 + A, r ! 1 + B, r ! 2 + C, r ! 3 + D, r ! 4 + E])
    = map2 (+) r (st5_list (snd s))"
  using assms by (rule list5E) (simp split: prod.split)

section \<open>A step as the code writes it\<close>

text \<open>A step assigns to the variables that stand for \<open>e\<close> and \<open>b\<close>.\<close>

definition step_eb :: "(u32 \<Rightarrow> u32 \<Rightarrow> u32 \<Rightarrow> u32) \<Rightarrow> u32 \<Rightarrow> u32 \<Rightarrow> u32 \<Rightarrow> u32 \<Rightarrow> u32 \<Rightarrow> u32 \<Rightarrow> u32 \<Rightarrow> u32 \<times> u32" where
  "step_eb f k a b c d e w = (word_rotl 5 a + f b c d + e + w + k, word_rotl 30 b)"

lemma step_eb_block:
  "(let E = word_rotl 5 a + f b c d + e + w + k; B = word_rotl 30 b in rest E B)
     = (case step_eb f k a b c d e w of (E, B) \<Rightarrow> rest E B)"
  by (simp add: step_eb_def Let_def)

lemma sha1_step_eb:
  "sha1_step W (a, b, c, d, e) t =
     (case step_eb (sha1_f t) (sha1_K t) a b c d e (W t) of (e', b') \<Rightarrow> (e', a, b', c, d))"
  by (simp add: step_eb_def algebra_simps)

lemma sha1_step_case_prod:
  "sha1_step W (case p of (x, y) \<Rightarrow> g x y) t = (case p of (x, y) \<Rightarrow> sha1_step W (g x y) t)"
  by (cases p) simp

section \<open>The schedule through a window of 16 words\<close>

text \<open>The step for word \<open>t + 16\<close>: the oldest word leaves the window and the new one enters it.\<close>

fun sha1_win :: "nat \<Rightarrow> u32 st16 \<times> u32 st5 \<Rightarrow> nat \<Rightarrow> u32 st16 \<times> u32 st5" where
  "sha1_win rot ((w0, w1, w2, w3, w4, w5, w6, w7, w8, w9, w10, w11, w12, w13, w14, w15), st) t =
     (let w = word_rotl rot (w13 XOR w8 XOR w2 XOR w0)
      in ((w1, w2, w3, w4, w5, w6, w7, w8, w9, w10, w11, w12, w13, w14, w15, w), sha1_step (\<lambda>_. w) st (t + 16)))"

lemma sha1_win_case:
  "sha1_win rot (case p of (x, y) \<Rightarrow> g x y) t = (case p of (x, y) \<Rightarrow> sha1_win rot (g x y) t)"
  by (cases p) simp

lemma sha1_win_let: "sha1_win rot (let w = e in g w) t = (let w = e in sha1_win rot (g w) t)"
  by simp

lemma foldl_sha1_win:
  "foldl (sha1_win rot) (window (sha1_schedule rot M) 0, st) [0..<n] =
     (window (sha1_schedule rot M) n, foldl (sha1_step (sha1_schedule rot M)) st [16..<n + 16])"
proof (induction n)
  case (Suc n)
  let ?S = "sha1_schedule rot M"
  have "word_rotl rot (?S (n + 13) XOR ?S (n + 8) XOR ?S (n + 2) XOR ?S n) = ?S (n + 16)"
    by (subst (5) sha1_schedule.simps) (simp add: add.commute)
  then have "sha1_win rot (window ?S n, st') n = (window ?S (Suc n), sha1_step ?S st' (n + 16))" for st'
    by (simp only: window_Suc) (simp only: window_def sha1_win.simps Let_def, auto intro!: sha1_step_cong)
  moreover have upt: "[16..<Suc n + 16] = [16..<n + 16] @ [n + 16]"
    using upt_Suc_append [of 16 "n + 16"] by simp
  ultimately show ?case unfolding upt using Suc by simp
qed simp

lemma sha1_compress_win:
  "sha1_compress rot M r = map2 (+) r (st5_list (snd (foldl (sha1_win rot)
     (window M 0, foldl (sha1_step M) (st5_of r) [0..<16]) [0..<64])))"
proof -
  have "window M 0 = window (sha1_schedule rot M) 0"
    by (simp add: window_def sha1_schedule.simps)
  moreover have "foldl (sha1_step M) (st5_of r) [0..<16] = foldl (sha1_step (sha1_schedule rot M)) (st5_of r) [0..<16]"
    by (rule foldl_sha1_step_cong) (simp add: sha1_schedule.simps)
  moreover have "[0..<80] = [0..<16] @ [16..<64 + 16 :: nat]" using upt_add_eq_append [of 0 16 64] by simp
  ultimately show ?thesis by (simp add: sha1_compress_def foldl_sha1_win del: upt_Suc)
qed

section \<open>Facts about the unrolled steps\<close>

lemma sha1_function_forms:
  "((y XOR z) AND x) XOR z = Ch x y z" "x XOR y XOR z = Parity x y z" "(z AND y) OR ((z OR y) AND x) = Maj x y z"
  by (rule bit_word_eqI, auto simp: Ch_def Parity_def Maj_def bit_simps)+

lemma sha1_rotl: "SPH_ROTL32 x 5 = word_rotl 5 x" "SPH_ROTL32 x 30 = word_rotl 30 x"
    "SPH_ROTL32 x 1 = word_rotl 1 x"
  by (simp_all add: sph_rotations)

lemma sha1_rotl_0: "word_rotl 0 (x :: u32) = x"
  by (rule bit_word_eqI) (simp add: bit_simps)

lemma sha1_fK:
  "t < 20 \<Longrightarrow> sha1_f t = Ch" "t < 20 \<Longrightarrow> sha1_K t = 0x5A827999"
  "20 \<le> t \<Longrightarrow> t < 40 \<Longrightarrow> sha1_f t = Parity" "20 \<le> t \<Longrightarrow> t < 40 \<Longrightarrow> sha1_K t = 0x6ED9EBA1"
  "40 \<le> t \<Longrightarrow> t < 60 \<Longrightarrow> sha1_f t = Maj" "40 \<le> t \<Longrightarrow> t < 60 \<Longrightarrow> sha1_K t = 0x8F1BBCDC"
  "60 \<le> t \<Longrightarrow> sha1_f t = Parity" "60 \<le> t \<Longrightarrow> sha1_K t = 0xCA62C1D6"
  by (simp_all add: sha1_f_def sha1_K_def)

text \<open>A paragraph of 20 steps leaves the window four words further on than the names.\<close>

fun rot4 :: "'w st16 \<Rightarrow> 'w st16" where
  "rot4 (w0, w1, w2, w3, w4, w5, w6, w7, w8, w9, w10, w11, w12, w13, w14, w15) =
     (w4, w5, w6, w7, w8, w9, w10, w11, w12, w13, w14, w15, w0, w1, w2, w3)"

lemma sha1_turns:
  "[0..<4] = [0, 1, 2, 3 :: nat]"
  "[0..<16] = [0, 1, 2, 3, 4, 5, 6, 7, 8, 9, 10, 11, 12, 13, 14, 15 :: nat]"
  "[4..<24] = [4, 5, 6, 7, 8, 9, 10, 11, 12, 13, 14, 15, 16, 17, 18, 19, 20, 21, 22, 23 :: nat]"
  "[24..<44] = [24, 25, 26, 27, 28, 29, 30, 31, 32, 33, 34, 35, 36, 37, 38, 39, 40, 41, 42, 43 :: nat]"
  "[44..<64] = [44, 45, 46, 47, 48, 49, 50, 51, 52, 53, 54, 55, 56, 57, 58, 59, 60, 61, 62, 63 :: nat]"
  by (simp_all add: upt_conv_Cons)

lemma upt_64: "(([0..<4] @ [4..<24]) @ [24..<44]) @ [44..<64] = [0..<64 :: nat]"
  using upt_add_eq_append [of 0 4 20] upt_add_eq_append [of 0 24 20] upt_add_eq_append [of 0 44 20] by simp

end
