(* ===== verification/Sha0.thy ===== *)
theory Sha0
  imports Md_Helper Sha1_Spec
begin

text \<open>
  \<open>sha0.c\<close>: SHA-0, the version of SHA-1 that was withdrawn. The 80 steps are written out on five named variables and 16 named
  schedule words; each of the four paragraphs of the macro is a function here. They are shown to be
  the steps of the standard, and the digests those of the padded message.
\<close>

section \<open>Macros and tables (lines 38-54)\<close>

definition sha0_F :: "u32 \<Rightarrow> u32 \<Rightarrow> u32 \<Rightarrow> u32" where
  "sha0_F B C D = ((C XOR D) AND B) XOR D"

definition sha0_G :: "u32 \<Rightarrow> u32 \<Rightarrow> u32 \<Rightarrow> u32" where
  "sha0_G B C D = B XOR C XOR D"

definition sha0_H :: "u32 \<Rightarrow> u32 \<Rightarrow> u32 \<Rightarrow> u32" where
  "sha0_H B C D = (D AND C) OR ((D OR C) AND B)"

definition sha0_I :: "u32 \<Rightarrow> u32 \<Rightarrow> u32 \<Rightarrow> u32" where
  "sha0_I B C D = sha0_G B C D"

definition sha0_K1 :: u32 where "sha0_K1 = 0x5A827999"
definition sha0_K2 :: u32 where "sha0_K2 = 0x6ED9EBA1"
definition sha0_K3 :: u32 where "sha0_K3 = 0x8F1BBCDC"
definition sha0_K4 :: u32 where "sha0_K4 = 0xCA62C1D6"

definition sha0_IV :: "u32 list" where
  "sha0_IV = [0x67452301, 0xEFCDAB89, 0x98BADCFE, 0x10325476, 0xC3D2E1F0]"

section \<open>The compression function (lines 65-322)\<close>

text \<open>Steps 0 to 19.\<close>

definition SHA0_STEPS_0 :: "(nat \<Rightarrow> u32) \<Rightarrow> u32 st5 \<Rightarrow> u32 st16 \<times> u32 st5" where
  "SHA0_STEPS_0 inp st =
     (case st of (A, B, C, D, E) \<Rightarrow>
  let W00 = inp 0;
   E = SPH_T32 (SPH_ROTL32 A 5 + sha0_F B C D + E + W00 + sha0_K1);
   B = SPH_ROTL32 B 30;
   W01 = inp 1;
   D = SPH_T32 (SPH_ROTL32 E 5 + sha0_F A B C + D + W01 + sha0_K1);
   A = SPH_ROTL32 A 30;
   W02 = inp 2;
   C = SPH_T32 (SPH_ROTL32 D 5 + sha0_F E A B + C + W02 + sha0_K1);
   E = SPH_ROTL32 E 30;
   W03 = inp 3;
   B = SPH_T32 (SPH_ROTL32 C 5 + sha0_F D E A + B + W03 + sha0_K1);
   D = SPH_ROTL32 D 30;
   W04 = inp 4;
   A = SPH_T32 (SPH_ROTL32 B 5 + sha0_F C D E + A + W04 + sha0_K1);
   C = SPH_ROTL32 C 30;
   W05 = inp 5;
   E = SPH_T32 (SPH_ROTL32 A 5 + sha0_F B C D + E + W05 + sha0_K1);
   B = SPH_ROTL32 B 30;
   W06 = inp 6;
   D = SPH_T32 (SPH_ROTL32 E 5 + sha0_F A B C + D + W06 + sha0_K1);
   A = SPH_ROTL32 A 30;
   W07 = inp 7;
   C = SPH_T32 (SPH_ROTL32 D 5 + sha0_F E A B + C + W07 + sha0_K1);
   E = SPH_ROTL32 E 30;
   W08 = inp 8;
   B = SPH_T32 (SPH_ROTL32 C 5 + sha0_F D E A + B + W08 + sha0_K1);
   D = SPH_ROTL32 D 30;
   W09 = inp 9;
   A = SPH_T32 (SPH_ROTL32 B 5 + sha0_F C D E + A + W09 + sha0_K1);
   C = SPH_ROTL32 C 30;
   W10 = inp 10;
   E = SPH_T32 (SPH_ROTL32 A 5 + sha0_F B C D + E + W10 + sha0_K1);
   B = SPH_ROTL32 B 30;
   W11 = inp 11;
   D = SPH_T32 (SPH_ROTL32 E 5 + sha0_F A B C + D + W11 + sha0_K1);
   A = SPH_ROTL32 A 30;
   W12 = inp 12;
   C = SPH_T32 (SPH_ROTL32 D 5 + sha0_F E A B + C + W12 + sha0_K1);
   E = SPH_ROTL32 E 30;
   W13 = inp 13;
   B = SPH_T32 (SPH_ROTL32 C 5 + sha0_F D E A + B + W13 + sha0_K1);
   D = SPH_ROTL32 D 30;
   W14 = inp 14;
   A = SPH_T32 (SPH_ROTL32 B 5 + sha0_F C D E + A + W14 + sha0_K1);
   C = SPH_ROTL32 C 30;
   W15 = inp 15;
   E = SPH_T32 (SPH_ROTL32 A 5 + sha0_F B C D + E + W15 + sha0_K1);
   B = SPH_ROTL32 B 30;
   W00 = W13 XOR W08 XOR W02 XOR W00;
   D = SPH_T32 (SPH_ROTL32 E 5 + sha0_F A B C + D + W00 + sha0_K1);
   A = SPH_ROTL32 A 30;
   W01 = W14 XOR W09 XOR W03 XOR W01;
   C = SPH_T32 (SPH_ROTL32 D 5 + sha0_F E A B + C + W01 + sha0_K1);
   E = SPH_ROTL32 E 30;
   W02 = W15 XOR W10 XOR W04 XOR W02;
   B = SPH_T32 (SPH_ROTL32 C 5 + sha0_F D E A + B + W02 + sha0_K1);
   D = SPH_ROTL32 D 30;
   W03 = W00 XOR W11 XOR W05 XOR W03;
   A = SPH_T32 (SPH_ROTL32 B 5 + sha0_F C D E + A + W03 + sha0_K1);
   C = SPH_ROTL32 C 30
  in ((W00, W01, W02, W03, W04, W05, W06, W07, W08, W09, W10, W11, W12, W13, W14, W15),
      (A, B, C, D, E)))"

text \<open>Steps 20 to 39.\<close>

definition SHA0_STEPS_1 :: "u32 st16 \<times> u32 st5 \<Rightarrow> u32 st16 \<times> u32 st5" where
  "SHA0_STEPS_1 s =
     (case s of ((W00, W01, W02, W03, W04, W05, W06, W07, W08, W09, W10, W11, W12, W13, W14, W15),
        (A, B, C, D, E)) \<Rightarrow>
  let W04 = W01 XOR W12 XOR W06 XOR W04;
   E = SPH_T32 (SPH_ROTL32 A 5 + sha0_G B C D + E + W04 + sha0_K2);
   B = SPH_ROTL32 B 30;
   W05 = W02 XOR W13 XOR W07 XOR W05;
   D = SPH_T32 (SPH_ROTL32 E 5 + sha0_G A B C + D + W05 + sha0_K2);
   A = SPH_ROTL32 A 30;
   W06 = W03 XOR W14 XOR W08 XOR W06;
   C = SPH_T32 (SPH_ROTL32 D 5 + sha0_G E A B + C + W06 + sha0_K2);
   E = SPH_ROTL32 E 30;
   W07 = W04 XOR W15 XOR W09 XOR W07;
   B = SPH_T32 (SPH_ROTL32 C 5 + sha0_G D E A + B + W07 + sha0_K2);
   D = SPH_ROTL32 D 30;
   W08 = W05 XOR W00 XOR W10 XOR W08;
   A = SPH_T32 (SPH_ROTL32 B 5 + sha0_G C D E + A + W08 + sha0_K2);
   C = SPH_ROTL32 C 30;
   W09 = W06 XOR W01 XOR W11 XOR W09;
   E = SPH_T32 (SPH_ROTL32 A 5 + sha0_G B C D + E + W09 + sha0_K2);
   B = SPH_ROTL32 B 30;
   W10 = W07 XOR W02 XOR W12 XOR W10;
   D = SPH_T32 (SPH_ROTL32 E 5 + sha0_G A B C + D + W10 + sha0_K2);
   A = SPH_ROTL32 A 30;
   W11 = W08 XOR W03 XOR W13 XOR W11;
   C = SPH_T32 (SPH_ROTL32 D 5 + sha0_G E A B + C + W11 + sha0_K2);
   E = SPH_ROTL32 E 30;
   W12 = W09 XOR W04 XOR W14 XOR W12;
   B = SPH_T32 (SPH_ROTL32 C 5 + sha0_G D E A + B + W12 + sha0_K2);
   D = SPH_ROTL32 D 30;
   W13 = W10 XOR W05 XOR W15 XOR W13;
   A = SPH_T32 (SPH_ROTL32 B 5 + sha0_G C D E + A + W13 + sha0_K2);
   C = SPH_ROTL32 C 30;
   W14 = W11 XOR W06 XOR W00 XOR W14;
   E = SPH_T32 (SPH_ROTL32 A 5 + sha0_G B C D + E + W14 + sha0_K2);
   B = SPH_ROTL32 B 30;
   W15 = W12 XOR W07 XOR W01 XOR W15;
   D = SPH_T32 (SPH_ROTL32 E 5 + sha0_G A B C + D + W15 + sha0_K2);
   A = SPH_ROTL32 A 30;
   W00 = W13 XOR W08 XOR W02 XOR W00;
   C = SPH_T32 (SPH_ROTL32 D 5 + sha0_G E A B + C + W00 + sha0_K2);
   E = SPH_ROTL32 E 30;
   W01 = W14 XOR W09 XOR W03 XOR W01;
   B = SPH_T32 (SPH_ROTL32 C 5 + sha0_G D E A + B + W01 + sha0_K2);
   D = SPH_ROTL32 D 30;
   W02 = W15 XOR W10 XOR W04 XOR W02;
   A = SPH_T32 (SPH_ROTL32 B 5 + sha0_G C D E + A + W02 + sha0_K2);
   C = SPH_ROTL32 C 30;
   W03 = W00 XOR W11 XOR W05 XOR W03;
   E = SPH_T32 (SPH_ROTL32 A 5 + sha0_G B C D + E + W03 + sha0_K2);
   B = SPH_ROTL32 B 30;
   W04 = W01 XOR W12 XOR W06 XOR W04;
   D = SPH_T32 (SPH_ROTL32 E 5 + sha0_G A B C + D + W04 + sha0_K2);
   A = SPH_ROTL32 A 30;
   W05 = W02 XOR W13 XOR W07 XOR W05;
   C = SPH_T32 (SPH_ROTL32 D 5 + sha0_G E A B + C + W05 + sha0_K2);
   E = SPH_ROTL32 E 30;
   W06 = W03 XOR W14 XOR W08 XOR W06;
   B = SPH_T32 (SPH_ROTL32 C 5 + sha0_G D E A + B + W06 + sha0_K2);
   D = SPH_ROTL32 D 30;
   W07 = W04 XOR W15 XOR W09 XOR W07;
   A = SPH_T32 (SPH_ROTL32 B 5 + sha0_G C D E + A + W07 + sha0_K2);
   C = SPH_ROTL32 C 30
  in ((W00, W01, W02, W03, W04, W05, W06, W07, W08, W09, W10, W11, W12, W13, W14, W15),
      (A, B, C, D, E)))"

text \<open>Steps 40 to 59.\<close>

definition SHA0_STEPS_2 :: "u32 st16 \<times> u32 st5 \<Rightarrow> u32 st16 \<times> u32 st5" where
  "SHA0_STEPS_2 s =
     (case s of ((W00, W01, W02, W03, W04, W05, W06, W07, W08, W09, W10, W11, W12, W13, W14, W15),
        (A, B, C, D, E)) \<Rightarrow>
  let W08 = W05 XOR W00 XOR W10 XOR W08;
   E = SPH_T32 (SPH_ROTL32 A 5 + sha0_H B C D + E + W08 + sha0_K3);
   B = SPH_ROTL32 B 30;
   W09 = W06 XOR W01 XOR W11 XOR W09;
   D = SPH_T32 (SPH_ROTL32 E 5 + sha0_H A B C + D + W09 + sha0_K3);
   A = SPH_ROTL32 A 30;
   W10 = W07 XOR W02 XOR W12 XOR W10;
   C = SPH_T32 (SPH_ROTL32 D 5 + sha0_H E A B + C + W10 + sha0_K3);
   E = SPH_ROTL32 E 30;
   W11 = W08 XOR W03 XOR W13 XOR W11;
   B = SPH_T32 (SPH_ROTL32 C 5 + sha0_H D E A + B + W11 + sha0_K3);
   D = SPH_ROTL32 D 30;
   W12 = W09 XOR W04 XOR W14 XOR W12;
   A = SPH_T32 (SPH_ROTL32 B 5 + sha0_H C D E + A + W12 + sha0_K3);
   C = SPH_ROTL32 C 30;
   W13 = W10 XOR W05 XOR W15 XOR W13;
   E = SPH_T32 (SPH_ROTL32 A 5 + sha0_H B C D + E + W13 + sha0_K3);
   B = SPH_ROTL32 B 30;
   W14 = W11 XOR W06 XOR W00 XOR W14;
   D = SPH_T32 (SPH_ROTL32 E 5 + sha0_H A B C + D + W14 + sha0_K3);
   A = SPH_ROTL32 A 30;
   W15 = W12 XOR W07 XOR W01 XOR W15;
   C = SPH_T32 (SPH_ROTL32 D 5 + sha0_H E A B + C + W15 + sha0_K3);
   E = SPH_ROTL32 E 30;
   W00 = W13 XOR W08 XOR W02 XOR W00;
   B = SPH_T32 (SPH_ROTL32 C 5 + sha0_H D E A + B + W00 + sha0_K3);
   D = SPH_ROTL32 D 30;
   W01 = W14 XOR W09 XOR W03 XOR W01;
   A = SPH_T32 (SPH_ROTL32 B 5 + sha0_H C D E + A + W01 + sha0_K3);
   C = SPH_ROTL32 C 30;
   W02 = W15 XOR W10 XOR W04 XOR W02;
   E = SPH_T32 (SPH_ROTL32 A 5 + sha0_H B C D + E + W02 + sha0_K3);
   B = SPH_ROTL32 B 30;
   W03 = W00 XOR W11 XOR W05 XOR W03;
   D = SPH_T32 (SPH_ROTL32 E 5 + sha0_H A B C + D + W03 + sha0_K3);
   A = SPH_ROTL32 A 30;
   W04 = W01 XOR W12 XOR W06 XOR W04;
   C = SPH_T32 (SPH_ROTL32 D 5 + sha0_H E A B + C + W04 + sha0_K3);
   E = SPH_ROTL32 E 30;
   W05 = W02 XOR W13 XOR W07 XOR W05;
   B = SPH_T32 (SPH_ROTL32 C 5 + sha0_H D E A + B + W05 + sha0_K3);
   D = SPH_ROTL32 D 30;
   W06 = W03 XOR W14 XOR W08 XOR W06;
   A = SPH_T32 (SPH_ROTL32 B 5 + sha0_H C D E + A + W06 + sha0_K3);
   C = SPH_ROTL32 C 30;
   W07 = W04 XOR W15 XOR W09 XOR W07;
   E = SPH_T32 (SPH_ROTL32 A 5 + sha0_H B C D + E + W07 + sha0_K3);
   B = SPH_ROTL32 B 30;
   W08 = W05 XOR W00 XOR W10 XOR W08;
   D = SPH_T32 (SPH_ROTL32 E 5 + sha0_H A B C + D + W08 + sha0_K3);
   A = SPH_ROTL32 A 30;
   W09 = W06 XOR W01 XOR W11 XOR W09;
   C = SPH_T32 (SPH_ROTL32 D 5 + sha0_H E A B + C + W09 + sha0_K3);
   E = SPH_ROTL32 E 30;
   W10 = W07 XOR W02 XOR W12 XOR W10;
   B = SPH_T32 (SPH_ROTL32 C 5 + sha0_H D E A + B + W10 + sha0_K3);
   D = SPH_ROTL32 D 30;
   W11 = W08 XOR W03 XOR W13 XOR W11;
   A = SPH_T32 (SPH_ROTL32 B 5 + sha0_H C D E + A + W11 + sha0_K3);
   C = SPH_ROTL32 C 30
  in ((W00, W01, W02, W03, W04, W05, W06, W07, W08, W09, W10, W11, W12, W13, W14, W15),
      (A, B, C, D, E)))"

text \<open>Steps 60 to 79.\<close>

definition SHA0_STEPS_3 :: "u32 st16 \<times> u32 st5 \<Rightarrow> u32 st16 \<times> u32 st5" where
  "SHA0_STEPS_3 s =
     (case s of ((W00, W01, W02, W03, W04, W05, W06, W07, W08, W09, W10, W11, W12, W13, W14, W15),
        (A, B, C, D, E)) \<Rightarrow>
  let W12 = W09 XOR W04 XOR W14 XOR W12;
   E = SPH_T32 (SPH_ROTL32 A 5 + sha0_I B C D + E + W12 + sha0_K4);
   B = SPH_ROTL32 B 30;
   W13 = W10 XOR W05 XOR W15 XOR W13;
   D = SPH_T32 (SPH_ROTL32 E 5 + sha0_I A B C + D + W13 + sha0_K4);
   A = SPH_ROTL32 A 30;
   W14 = W11 XOR W06 XOR W00 XOR W14;
   C = SPH_T32 (SPH_ROTL32 D 5 + sha0_I E A B + C + W14 + sha0_K4);
   E = SPH_ROTL32 E 30;
   W15 = W12 XOR W07 XOR W01 XOR W15;
   B = SPH_T32 (SPH_ROTL32 C 5 + sha0_I D E A + B + W15 + sha0_K4);
   D = SPH_ROTL32 D 30;
   W00 = W13 XOR W08 XOR W02 XOR W00;
   A = SPH_T32 (SPH_ROTL32 B 5 + sha0_I C D E + A + W00 + sha0_K4);
   C = SPH_ROTL32 C 30;
   W01 = W14 XOR W09 XOR W03 XOR W01;
   E = SPH_T32 (SPH_ROTL32 A 5 + sha0_I B C D + E + W01 + sha0_K4);
   B = SPH_ROTL32 B 30;
   W02 = W15 XOR W10 XOR W04 XOR W02;
   D = SPH_T32 (SPH_ROTL32 E 5 + sha0_I A B C + D + W02 + sha0_K4);
   A = SPH_ROTL32 A 30;
   W03 = W00 XOR W11 XOR W05 XOR W03;
   C = SPH_T32 (SPH_ROTL32 D 5 + sha0_I E A B + C + W03 + sha0_K4);
   E = SPH_ROTL32 E 30;
   W04 = W01 XOR W12 XOR W06 XOR W04;
   B = SPH_T32 (SPH_ROTL32 C 5 + sha0_I D E A + B + W04 + sha0_K4);
   D = SPH_ROTL32 D 30;
   W05 = W02 XOR W13 XOR W07 XOR W05;
   A = SPH_T32 (SPH_ROTL32 B 5 + sha0_I C D E + A + W05 + sha0_K4);
   C = SPH_ROTL32 C 30;
   W06 = W03 XOR W14 XOR W08 XOR W06;
   E = SPH_T32 (SPH_ROTL32 A 5 + sha0_I B C D + E + W06 + sha0_K4);
   B = SPH_ROTL32 B 30;
   W07 = W04 XOR W15 XOR W09 XOR W07;
   D = SPH_T32 (SPH_ROTL32 E 5 + sha0_I A B C + D + W07 + sha0_K4);
   A = SPH_ROTL32 A 30;
   W08 = W05 XOR W00 XOR W10 XOR W08;
   C = SPH_T32 (SPH_ROTL32 D 5 + sha0_I E A B + C + W08 + sha0_K4);
   E = SPH_ROTL32 E 30;
   W09 = W06 XOR W01 XOR W11 XOR W09;
   B = SPH_T32 (SPH_ROTL32 C 5 + sha0_I D E A + B + W09 + sha0_K4);
   D = SPH_ROTL32 D 30;
   W10 = W07 XOR W02 XOR W12 XOR W10;
   A = SPH_T32 (SPH_ROTL32 B 5 + sha0_I C D E + A + W10 + sha0_K4);
   C = SPH_ROTL32 C 30;
   W11 = W08 XOR W03 XOR W13 XOR W11;
   E = SPH_T32 (SPH_ROTL32 A 5 + sha0_I B C D + E + W11 + sha0_K4);
   B = SPH_ROTL32 B 30;
   W12 = W09 XOR W04 XOR W14 XOR W12;
   D = SPH_T32 (SPH_ROTL32 E 5 + sha0_I A B C + D + W12 + sha0_K4);
   A = SPH_ROTL32 A 30;
   W13 = W10 XOR W05 XOR W15 XOR W13;
   C = SPH_T32 (SPH_ROTL32 D 5 + sha0_I E A B + C + W13 + sha0_K4);
   E = SPH_ROTL32 E 30;
   W14 = W11 XOR W06 XOR W00 XOR W14;
   B = SPH_T32 (SPH_ROTL32 C 5 + sha0_I D E A + B + W14 + sha0_K4);
   D = SPH_ROTL32 D 30;
   W15 = W12 XOR W07 XOR W01 XOR W15;
   A = SPH_T32 (SPH_ROTL32 B 5 + sha0_I C D E + A + W15 + sha0_K4);
   C = SPH_ROTL32 C 30
  in ((W00, W01, W02, W03, W04, W05, W06, W07, W08, W09, W10, W11, W12, W13, W14, W15),
      (A, B, C, D, E)))"

definition SHA0_ROUND_BODY :: "(nat \<Rightarrow> u32) \<Rightarrow> u32 list \<Rightarrow> u32 list" where
  "SHA0_ROUND_BODY inp r =
     (let s = SHA0_STEPS_0 inp (r ! 0, r ! 1, r ! 2, r ! 3, r ! 4);
          s = SHA0_STEPS_1 s;
          s = SHA0_STEPS_2 s;
          (_, A, B, C, D, E) = SHA0_STEPS_3 s
      in [SPH_T32 (r ! 0 + A), SPH_T32 (r ! 1 + B), SPH_T32 (r ! 2 + C), SPH_T32 (r ! 3 + D), SPH_T32 (r ! 4 + E)])"

definition sha0_round :: "arch \<Rightarrow> bytes \<Rightarrow> u32 list \<Rightarrow> u32 list" where
  "sha0_round a data r = SHA0_ROUND_BODY (\<lambda>x. sph_dec32be_aligned a (drop (4 * x) data)) r"

definition sph_sha0_comp :: "u32 list \<Rightarrow> u32 list \<Rightarrow> u32 list" where
  "sph_sha0_comp msg v = SHA0_ROUND_BODY (\<lambda>x. msg ! x) v"

section \<open>The interface (lines 335-378)\<close>

type_synonym sha0_context = "u32 list md_context"

definition sph_sha0_init :: "sha0_context \<Rightarrow> sha0_context" where
  "sph_sha0_init sc = sc\<lparr>val := sha0_IV, count := 0\<rparr>"

definition sha0_macros :: "arch \<Rightarrow> u32 list md_macros" where
  "sha0_macros a = \<lparr>WORD = BE32, BLEN = None, PLW = PLW_default, PW01 = False,
     RFUN = sha0_round a, OUTPUT = md_output_be32 a\<rparr>"

definition sph_sha0 :: "arch \<Rightarrow> u64 \<Rightarrow> bytes \<Rightarrow> sha0_context \<Rightarrow> sha0_context option" where
  "sph_sha0 a addr data sc = md_update a (sha0_macros a) addr data sc"

definition sph_sha0_close :: "arch \<Rightarrow> u64 \<Rightarrow> sha0_context \<Rightarrow> bytes \<times> sha0_context" where
  "sph_sha0_close a dst sc =
     (let (out, sc) = md_close a (sha0_macros a) dst 5 sc in (out, sph_sha0_init sc))"

definition sph_sha0_addbits_and_close ::
    "arch \<Rightarrow> u32 \<Rightarrow> nat \<Rightarrow> u64 \<Rightarrow> sha0_context \<Rightarrow> bytes \<times> sha0_context" where
  "sph_sha0_addbits_and_close a ub n dst sc =
     (let (out, sc) = md_addbits_and_close a (sha0_macros a) ub n dst 5 sc in (out, sph_sha0_init sc))"

section \<open>The compression function is the one of the standard\<close>

lemma sha0_functions:
  "sha0_F = Ch" "sha0_G = Parity" "sha0_H = Maj" "sha0_I = Parity"
  by (simp_all add: fun_eq_iff sha0_F_def sha0_G_def sha0_H_def sha0_I_def sha1_function_forms)

lemmas sha0_unrolled = prod.case SPH_T32_id sha0_functions sha1_rotl sha1_rotl_0 step_eb_block [where f = Ch] step_eb_block [where f = Parity] step_eb_block [where f = Maj] foldl.simps sha1_turns
  sha1_win.simps sha1_win_let sha1_win_case sha1_step_eb sha1_step_case_prod Pair_case_prod map_prod_let
  map_prod_case map_prod_simp id_apply rot4.simps sha1_fK sha0_K1_def sha0_K2_def sha0_K3_def sha0_K4_def
  arith_simps add_numeral_special add_0 rel_simps

lemma SHA0_STEPS_0_steps:
  "map_prod rot4 id (SHA0_STEPS_0 inp st) = foldl (sha1_win 0) (window inp 0, foldl (sha1_step inp) st [0..<16]) [0..<4]"
  by (cases st rule: st5_cases, simp only: SHA0_STEPS_0_def sha0_unrolled window_def
        cong del: prod.case_cong_weak let_weak_cong, simp only: Let_def)

lemma SHA0_STEPS_steps:
  "map_prod (\<lambda>w. rot4 (rot4 w)) id (SHA0_STEPS_1 (w, st)) = foldl (sha1_win 0) (rot4 w, st) [4..<24]"
  "map_prod (\<lambda>w. rot4 (rot4 (rot4 w))) id (SHA0_STEPS_2 (w, st)) = foldl (sha1_win 0) (rot4 (rot4 w), st) [24..<44]"
  "map_prod id id (SHA0_STEPS_3 (w, st)) = foldl (sha1_win 0) (rot4 (rot4 (rot4 w)), st) [44..<64]"
  by (cases w rule: st16_cases; cases st rule: st5_cases;
      simp only: SHA0_STEPS_1_def SHA0_STEPS_2_def SHA0_STEPS_3_def sha0_unrolled
        cong del: prod.case_cong_weak let_weak_cong)+

lemma SHA0_ROUND_BODY_compress:
  assumes "length r = 5"
  shows "SHA0_ROUND_BODY inp r = sha1_compress 0 inp r"
proof -
  let ?f = "foldl (sha1_win 0)" and ?S = "foldl (sha1_step inp) (st5_of r) [0..<16]"
  obtain w0 s0 where s0: "SHA0_STEPS_0 inp (st5_of r) = (w0, s0)" by (rule prod.exhaust)
  obtain w1 s1 where s1: "SHA0_STEPS_1 (w0, s0) = (w1, s1)" by (rule prod.exhaust)
  obtain w2 s2 where s2: "SHA0_STEPS_2 (w1, s1) = (w2, s2)" by (rule prod.exhaust)
  have "SHA0_STEPS_3 (w2, s2) = ?f (?f (?f (?f (window inp 0, ?S) [0..<4]) [4..<24]) [24..<44]) [44..<64]"
    using SHA0_STEPS_0_steps [of inp "st5_of r", symmetric] SHA0_STEPS_steps(1) [of w0 s0, symmetric]
      SHA0_STEPS_steps(2) [of w1 s1, symmetric] SHA0_STEPS_steps(3) [of w2 s2]
    unfolding s0 s1 s2 map_prod_simp id_apply map_prod.id by (simp only:)
  also have "\<dots> = ?f (window inp 0, ?S) [0..<64]" by (simp only: foldl_append [symmetric] upt_64)
  finally show ?thesis
    unfolding SHA0_ROUND_BODY_def Let_def st5_of_def [symmetric] s0 s1 s2 SPH_T32_id map2_st5 [OF assms]
    by (simp only: sha1_compress_win)
qed

lemma sha0_round_compress:
  assumes "arch_ok a" and "length r = 5" and "length b = 64"
  shows "sha0_round a b r = sha1_compress 0 (\<lambda>t. of_be (take 4 (drop (4 * t) b))) r"
proof -
  have "sph_dec32be_aligned a (drop (4 * t) b) = of_be (take 4 (drop (4 * t) b))" if "t < 16" for t
    using assms(1,3) that by simp
  then show ?thesis
    by (simp add: sha0_round_def SHA0_ROUND_BODY_compress [OF assms(2)] cong: sha1_compress_cong)
qed

section \<open>The digests are those of the standard\<close>

definition fips_sha0 :: "u32 \<Rightarrow> nat \<Rightarrow> bytes \<Rightarrow> bytes" where
  "fips_sha0 ub n m =
     std_hash 64 (\<lambda>b. sha1_compress 0 (\<lambda>t. of_be (take 4 (drop (4 * t) b)))) sha0_IV
       (\<lambda>v. concat (map be32 (take 5 v))) (std_pad nat_be 64 8 m ub n)"

lemma sha0_macros_simps [simp]:
  "SPH_BLEN (sha0_macros a) = 64" "SPH_MAXPAD (sha0_macros a) = 56"
  "WORD (sha0_macros a) = BE32" "PLW (sha0_macros a) = PLW_default" "\<not> PW01 (sha0_macros a)"
  "RFUN (sha0_macros a) = sha0_round a" "OUTPUT (sha0_macros a) = md_output_be32 a"
  by (simp_all add: sha0_macros_def SPH_BLEN_def SPH_MAXPAD_def SPH_WLEN_def)

interpretation sha0: md_hash "arch_of p" "sha0_macros (arch_of p)" 6 sha0_IV 5
    "\<lambda>v. concat (map (\<lambda>u. be32 (v ! u)) [0..<5])" for p
  by unfold_locales (simp_all add: md_outputs)

lemma sha0_hash_of:
  assumes "n < 8"
  shows "md_hash_of (sha0_macros (arch_of p)) sha0_IV (\<lambda>v. concat (map (\<lambda>u. be32 (v ! u)) [0..<5])) ub n m
    = fips_sha0 ub n m"
  unfolding fips_sha0_def using assms
  by (subst md_hash_of_std [where P = "\<lambda>v. length v = 5"])
     (auto simp: sha0_round_compress sha0_IV_def concat_map_take)

lemma sha0_interface:
  "sph_sha0_init = md_init sha0_IV" "sph_sha0 a = md_update a (sha0_macros a)"
  "sph_sha0_addbits_and_close a ub n = md_close_init a (sha0_macros a) sha0_IV 5 ub n"
  "sph_sha0_close a = sph_sha0_addbits_and_close a 0 0"
  by (simp_all add: fun_eq_iff sph_sha0_init_def md_init_def sph_sha0_def
      sph_sha0_addbits_and_close_def md_close_init_def sph_sha0_close_def md_close_def)

lemma sha0_length_ok [simp]: "md_length_ok (sha0_macros a) l"
  by (simp add: md_length_ok_def)

section \<open>Properties\<close>

text \<open>
  SHA-0 of the library is SHA-0 of FIPS 180, with up to seven extra bits at the end,
  however the message is cut into calls and wherever the pieces lie; the closed context can be used
  for the next message.
\<close>

theorem sph_sha0_correct:
  assumes "length (buf sc) = 64" and "n < 8"
  shows "\<exists>sc1 sc2. feed (sph_sha0 (arch_of p)) ps (sph_sha0_init sc) = Some sc1
     \<and> fst (sph_sha0_addbits_and_close (arch_of p) ub n dst sc1) = fips_sha0 ub n (pieces ps)
     \<and> feed (sph_sha0 (arch_of p)) qs (snd (sph_sha0_addbits_and_close (arch_of p) ub n dst sc1)) = Some sc2
     \<and> fst (sph_sha0_close (arch_of p) dst' sc2) = fips_sha0 0 0 (pieces qs)"
proof -
  obtain sc1 where f1: "feed (sph_sha0 (arch_of p)) ps (sph_sha0_init sc) = Some sc1"
    and r1: "md_rep (sha0_macros (arch_of p)) sha0_IV (pieces ps) sc1"
    using sha0.inc.feed_represents [OF sha0.inc.init_represents, of sc p ps] assms
    by (auto simp: sha0_interface)
  let ?c = "sph_sha0_addbits_and_close (arch_of p) ub n dst sc1"
  have c1: "fst ?c = fips_sha0 ub n (pieces ps)" and "md_rep (sha0_macros (arch_of p)) sha0_IV [] (snd ?c)"
    using sha0.close_digest [OF r1 assms(2), of ub dst] assms
    by (simp_all add: sha0_interface sha0_hash_of)
  then obtain sc2 where "feed (sph_sha0 (arch_of p)) qs (snd ?c) = Some sc2"
    and r2: "md_rep (sha0_macros (arch_of p)) sha0_IV (pieces qs) sc2"
    using sha0.inc.feed_represents [of p "[]" "snd ?c" qs] by (auto simp: sha0_interface)
  with f1 c1 sha0.close_digest [OF r2, of 0 0 dst'] show ?thesis
    by (simp add: sha0_interface sha0_hash_of)
qed

theorem sph_sha0_correct_witness:
  "\<exists>sc1. feed (sph_sha0 (arch_of I386)) [(1, [0x61]), (2, [0x62, 0x63])]
       (sph_sha0_init \<lparr>buf = replicate 64 7, val = [], count = 5\<rparr>) = Some sc1
     \<and> fst (sph_sha0_addbits_and_close (arch_of I386) 0x80 1 0 sc1) = fips_sha0 0x80 1 [0x61, 0x62, 0x63]"
  using sph_sha0_correct [of "\<lparr>buf = replicate 64 7, val = [], count = 5\<rparr>" 1 I386
      "[(1, [0x61]), (2, [0x62, 0x63])]" "0x80" 0 "[]"] by auto

text \<open>
  The compression function, with its 80 steps written out, is the one of the standard, on the
  bytes of a block and on a block given as words.
\<close>

theorem sha0_compression_correct:
  assumes "length r = 5" and "length b = 64"
  shows "sha0_round (arch_of p) b r = sha1_compress 0 (\<lambda>t. of_be (take 4 (drop (4 * t) b))) r
    \<and> sph_sha0_comp msg r = sha1_compress 0 (\<lambda>t. msg ! t) r"
  using assms by (simp add: sha0_round_compress sph_sha0_comp_def SHA0_ROUND_BODY_compress)

theorem sha0_compression_correct_witness:
  "sha0_round (arch_of Mips_eb) (replicate 64 3) sha0_IV =
     sha1_compress 0 (\<lambda>t. of_be (take 4 (drop (4 * t) (replicate 64 3)))) sha0_IV"
  using sha0_compression_correct [of sha0_IV "replicate 64 3" Mips_eb] by (simp add: sha0_IV_def)

end
