(* ===== verification/Md45_Spec.thy ===== *)
theory Md45_Spec
  imports Sha1_Spec
begin

text \<open>
  MD4 and MD5 as RFC 1320 and RFC 1321 define them: the functions of the rounds, the order in which a
  round reads the message words, the rotations and the constants, and the compression functions.
\<close>

section \<open>States of four words\<close>

type_synonym 'w st4 = "'w \<times> 'w \<times> 'w \<times> 'w"

fun st4_list :: "'w st4 \<Rightarrow> 'w list" where
  "st4_list (a, b, c, d) = [a, b, c, d]"

definition st4_of :: "'w list \<Rightarrow> 'w st4" where
  "st4_of r = (r ! 0, r ! 1, r ! 2, r ! 3)"

lemma st4_cases:
  obtains a b c d where "st = (a, b, c, d)"
  by (metis surj_pair)

lemma list4E:
  assumes "length r = 4"
  obtains a b c d where "r = [a, b, c, d]"
  using assms by (auto simp: numeral_eq_Suc length_Suc_conv)

lemma length_st4_list [simp]: "length (st4_list st) = 4"
  by (cases st rule: st4_cases) simp

lemma map2_st4:
  assumes "length r = 4"
  shows "(case s of (A, B, C, D) \<Rightarrow> [r ! 0 + A, r ! 1 + B, r ! 2 + C, r ! 3 + D]) = map2 (+) r (st4_list s)"
  using assms by (rule list4E) (simp split: prod.split)

section \<open>MD4\<close>

text \<open>
  An operation of round \<open>f\<close>, \<open>K\<close> reads word \<open>k\<close> and rotates by \<open>s\<close>. The words are read in order, by
  columns of the four by four square, and with the four bits of the index reversed.
\<close>

fun md4_op :: "(u32 \<Rightarrow> u32 \<Rightarrow> u32 \<Rightarrow> u32) \<Rightarrow> u32 \<Rightarrow> (nat \<Rightarrow> u32) \<Rightarrow> u32 st4 \<Rightarrow> nat \<times> nat \<Rightarrow> u32 st4" where
  "md4_op f K X (a, b, c, d) (k, s) =
     (let T = word_rotl s (a + f b c d + X k + K) in (d, T, b, c))"

definition md4_k :: "nat \<Rightarrow> nat \<Rightarrow> nat" where
  "md4_k r i =
     (if r = 0 then i else if r = 1 then 4 * (i mod 4) + i div 4
      else 8 * (i mod 2) + 4 * (i div 2 mod 2) + 2 * (i div 4 mod 2) + i div 8)"

definition md4_s :: "nat \<Rightarrow> nat list" where
  "md4_s r = (if r = 0 then [3, 7, 11, 19] else if r = 1 then [3, 5, 9, 13] else [3, 9, 11, 15])"

definition md4_ops :: "nat \<Rightarrow> (nat \<times> nat) list" where
  "md4_ops r = map (\<lambda>i. (md4_k r i, md4_s r ! (i mod 4))) [0..<16]"

definition md4_compress :: "(nat \<Rightarrow> u32) \<Rightarrow> u32 list \<Rightarrow> u32 list" where
  "md4_compress X r =
     map2 (+) r (st4_list (foldl (md4_op Parity 0x6ED9EBA1 X)
       (foldl (md4_op Maj 0x5A827999 X)
         (foldl (md4_op Ch 0 X) (st4_of r) (md4_ops 0)) (md4_ops 1)) (md4_ops 2)))"

section \<open>MD5\<close>

text \<open>The function of the fourth round, and the table of the standard: \<open>2 ^ 32\<close> times the sine of 1 to 64.\<close>

definition md5_I :: "u32 \<Rightarrow> u32 \<Rightarrow> u32 \<Rightarrow> u32" where
  "md5_I x y z = y XOR (x OR NOT z)"

definition md5_T :: "u32 list" where
  "md5_T =
  [0xD76AA478, 0xE8C7B756, 0x242070DB, 0xC1BDCEEE,
   0xF57C0FAF, 0x4787C62A, 0xA8304613, 0xFD469501,
   0x698098D8, 0x8B44F7AF, 0xFFFF5BB1, 0x895CD7BE,
   0x6B901122, 0xFD987193, 0xA679438E, 0x49B40821,
   0xF61E2562, 0xC040B340, 0x265E5A51, 0xE9B6C7AA,
   0xD62F105D, 0x02441453, 0xD8A1E681, 0xE7D3FBC8,
   0x21E1CDE6, 0xC33707D6, 0xF4D50D87, 0x455A14ED,
   0xA9E3E905, 0xFCEFA3F8, 0x676F02D9, 0x8D2A4C8A,
   0xFFFA3942, 0x8771F681, 0x6D9D6122, 0xFDE5380C,
   0xA4BEEA44, 0x4BDECFA9, 0xF6BB4B60, 0xBEBFBC70,
   0x289B7EC6, 0xEAA127FA, 0xD4EF3085, 0x04881D05,
   0xD9D4D039, 0xE6DB99E5, 0x1FA27CF8, 0xC4AC5665,
   0xF4292244, 0x432AFF97, 0xAB9423A7, 0xFC93A039,
   0x655B59C3, 0x8F0CCC92, 0xFFEFF47D, 0x85845DD1,
   0x6FA87E4F, 0xFE2CE6E0, 0xA3014314, 0x4E0811A1,
   0xF7537E82, 0xBD3AF235, 0x2AD7D2BB, 0xEB86D391]"

fun md5_op :: "(u32 \<Rightarrow> u32 \<Rightarrow> u32 \<Rightarrow> u32) \<Rightarrow> (nat \<Rightarrow> u32) \<Rightarrow> u32 st4 \<Rightarrow> nat \<times> nat \<times> u32 \<Rightarrow> u32 st4" where
  "md5_op f X (a, b, c, d) (k, s, t) =
     (let T = b + word_rotl s (a + f b c d + X k + t) in (d, T, b, c))"

definition md5_k :: "nat \<Rightarrow> nat \<Rightarrow> nat" where
  "md5_k r i = (if r = 0 then i else if r = 1 then 5 * i + 1 else if r = 2 then 3 * i + 5 else 7 * i) mod 16"

definition md5_s :: "nat \<Rightarrow> nat list" where
  "md5_s r = (if r = 0 then [7, 12, 17, 22] else if r = 1 then [5, 9, 14, 20]
     else if r = 2 then [4, 11, 16, 23] else [6, 10, 15, 21])"

definition md5_ops :: "nat \<Rightarrow> (nat \<times> nat \<times> u32) list" where
  "md5_ops r = map (\<lambda>i. (md5_k r i, md5_s r ! (i mod 4), md5_T ! (16 * r + i))) [0..<16]"

text \<open>The function of the second round chooses by its third argument.\<close>

definition md5_compress :: "(nat \<Rightarrow> u32) \<Rightarrow> u32 list \<Rightarrow> u32 list" where
  "md5_compress X r =
     map2 (+) r (st4_list (foldl (md5_op md5_I X) (foldl (md5_op Parity X)
       (foldl (md5_op (\<lambda>x y z. Ch z x y) X)
         (foldl (md5_op Ch X) (st4_of r) (md5_ops 0)) (md5_ops 1)) (md5_ops 2)) (md5_ops 3)))"

section \<open>Lemmas\<close>

text \<open>The operations of each round, listed as the standards list them.\<close>

lemma md4_ops_at:
  "md4_ops 0 = [(0, 3), (1, 7), (2, 11), (3, 19), (4, 3), (5, 7), (6, 11), (7, 19), (8, 3), (9, 7), (10, 11), (11, 19), (12, 3), (13, 7), (14, 11), (15, 19)]"
  "md4_ops 1 = [(0, 3), (4, 5), (8, 9), (12, 13), (1, 3), (5, 5), (9, 9), (13, 13), (2, 3), (6, 5), (10, 9), (14, 13), (3, 3), (7, 5), (11, 9), (15, 13)]"
  "md4_ops 2 = [(0, 3), (8, 9), (4, 11), (12, 15), (2, 3), (10, 9), (6, 11), (14, 15), (1, 3), (9, 9), (5, 11), (13, 15), (3, 3), (11, 9), (7, 11), (15, 15)]"
  by (simp_all add: md4_ops_def md4_k_def md4_s_def upt_conv_Cons)

lemma md5_ops_at:
  "md5_ops 0 = [(0, 7, 0xD76AA478), (1, 12, 0xE8C7B756), (2, 17, 0x242070DB), (3, 22, 0xC1BDCEEE), (4, 7, 0xF57C0FAF),
    (5, 12, 0x4787C62A), (6, 17, 0xA8304613), (7, 22, 0xFD469501), (8, 7, 0x698098D8), (9, 12, 0x8B44F7AF),
    (10, 17, 0xFFFF5BB1), (11, 22, 0x895CD7BE), (12, 7, 0x6B901122), (13, 12, 0xFD987193), (14, 17, 0xA679438E),
    (15, 22, 0x49B40821)]"
  "md5_ops 1 = [(1, 5, 0xF61E2562), (6, 9, 0xC040B340), (11, 14, 0x265E5A51), (0, 20, 0xE9B6C7AA), (5, 5, 0xD62F105D),
    (10, 9, 0x02441453), (15, 14, 0xD8A1E681), (4, 20, 0xE7D3FBC8), (9, 5, 0x21E1CDE6), (14, 9, 0xC33707D6),
    (3, 14, 0xF4D50D87), (8, 20, 0x455A14ED), (13, 5, 0xA9E3E905), (2, 9, 0xFCEFA3F8), (7, 14, 0x676F02D9),
    (12, 20, 0x8D2A4C8A)]"
  "md5_ops 2 = [(5, 4, 0xFFFA3942), (8, 11, 0x8771F681), (11, 16, 0x6D9D6122), (14, 23, 0xFDE5380C), (1, 4, 0xA4BEEA44),
    (4, 11, 0x4BDECFA9), (7, 16, 0xF6BB4B60), (10, 23, 0xBEBFBC70), (13, 4, 0x289B7EC6), (0, 11, 0xEAA127FA),
    (3, 16, 0xD4EF3085), (6, 23, 0x04881D05), (9, 4, 0xD9D4D039), (12, 11, 0xE6DB99E5), (15, 16, 0x1FA27CF8),
    (2, 23, 0xC4AC5665)]"
  "md5_ops 3 = [(0, 6, 0xF4292244), (7, 10, 0x432AFF97), (14, 15, 0xAB9423A7), (5, 21, 0xFC93A039), (12, 6, 0x655B59C3),
    (3, 10, 0x8F0CCC92), (10, 15, 0xFFEFF47D), (1, 21, 0x85845DD1), (8, 6, 0x6FA87E4F), (15, 10, 0xFE2CE6E0),
    (6, 15, 0xA3014314), (13, 21, 0x4E0811A1), (4, 6, 0xF7537E82), (11, 10, 0xBD3AF235), (2, 15, 0x2AD7D2BB),
    (9, 21, 0xEB86D391)]"
  by (simp_all add: md5_ops_def md5_k_def md5_s_def md5_T_def upt_conv_Cons)

lemma md4_op_let: "md4_op f K X (let w = e in g w) p = (let w = e in md4_op f K X (g w) p)"
  by simp

lemma md5_op_let: "md5_op f X (let w = e in g w) p = (let w = e in md5_op f X (g w) p)"
  by simp

lemma md5_function_forms:
  "((y XOR x) AND z) XOR y = Ch z x y" "y XOR (x OR NOT z) = md5_I x y z"
  by (rule bit_word_eqI, auto simp: Ch_def md5_I_def bit_simps)+

lemma md4_op_cong: "X k = X' k \<Longrightarrow> md4_op f K X st (k, s) = md4_op f K X' st (k, s)"
  by (cases st rule: st4_cases) simp

lemma md5_op_cong: "X k = X' k \<Longrightarrow> md5_op f X st (k, s, t) = md5_op f X' st (k, s, t)"
  by (cases st rule: st4_cases) simp

lemma md4_ops_words: "(k, s) \<in> set (md4_ops r) \<Longrightarrow> k < 16"
proof -
  assume "(k, s) \<in> set (md4_ops r)"
  then obtain i where "i < 16" and k: "k = md4_k r i" by (auto simp: md4_ops_def)
  then have "i div 4 < 4" and "i div 8 < 2" by simp_all
  moreover have "i mod 4 < 4" "i mod 2 < 2" "i div 2 mod 2 < 2" "i div 4 mod 2 < 2" by simp_all
  ultimately show ?thesis
    unfolding k md4_k_def using \<open>i < 16\<close> by (auto simp del: mod_less_divisor pos_mod_bound)
qed

lemma md5_ops_words: "(k, s, t) \<in> set (md5_ops r) \<Longrightarrow> k < 16"
  by (auto simp: md5_ops_def md5_k_def)

lemma md4_compress_cong:
  assumes "\<And>t. t < 16 \<Longrightarrow> X t = X' t"
  shows "md4_compress X r = md4_compress X' r"
proof -
  have "foldl (md4_op f K X) st (md4_ops n) = foldl (md4_op f K X') st (md4_ops n)" for f K st n
    by (rule foldl_cong) (auto intro!: md4_op_cong assms dest: md4_ops_words)
  then show ?thesis by (simp add: md4_compress_def)
qed

lemma md5_compress_cong:
  assumes "\<And>t. t < 16 \<Longrightarrow> X t = X' t"
  shows "md5_compress X r = md5_compress X' r"
proof -
  have "foldl (md5_op f X) st (md5_ops n) = foldl (md5_op f X') st (md5_ops n)" for f st n
    by (rule foldl_cong) (auto intro!: md5_op_cong assms dest: md5_ops_words)
  then show ?thesis by (simp add: md5_compress_def)
qed

lemma length_md45_compress [simp]:
  "length r = 4 \<Longrightarrow> length (md4_compress X r) = 4" "length r = 4 \<Longrightarrow> length (md5_compress X r) = 4"
  by (simp_all add: md4_compress_def md5_compress_def)

end
