(* ===== verification/Md5.thy ===== *)
theory Md5
  imports Md_Helper Md45_Spec
begin

text \<open>
  \<open>md5.c\<close>: MD5. The rounds are written out on four named variables; each of the paragraphs of the
  macro is a function here. They are shown to be the rounds of RFC 1321, and the digests those of
  the padded message.
\<close>

section \<open>Macros and tables (lines 38-48)\<close>

definition md5_F :: "u32 \<Rightarrow> u32 \<Rightarrow> u32 \<Rightarrow> u32" where
  "md5_F B C D = ((C XOR D) AND B) XOR D"

definition md5_G :: "u32 \<Rightarrow> u32 \<Rightarrow> u32 \<Rightarrow> u32" where
  "md5_G B C D = ((C XOR B) AND D) XOR C"

definition md5_H :: "u32 \<Rightarrow> u32 \<Rightarrow> u32 \<Rightarrow> u32" where
  "md5_H B C D = B XOR C XOR D"

definition md5_Ifn :: "u32 \<Rightarrow> u32 \<Rightarrow> u32 \<Rightarrow> u32" where
  "md5_Ifn B C D = C XOR (B OR (NOT D))"

definition md5_ROTL :: "u32 \<Rightarrow> nat \<Rightarrow> u32" where
  "md5_ROTL x n = SPH_ROTL32 (SPH_T32 x) n"

definition md5_IV :: "u32 list" where
  "md5_IV = [0x67452301, 0xEFCDAB89, 0x98BADCFE, 0x10325476]"

section \<open>The compression function (lines 50-130)\<close>

definition MD5_ROUND_1 :: "(nat \<Rightarrow> u32) \<Rightarrow> u32 st4 \<Rightarrow> u32 st4" where
  "MD5_ROUND_1 inp st =
     (case st of (A, B, C, D) \<Rightarrow>
  let A = SPH_T32 (B + md5_ROTL (A + md5_F B C D + inp 0 + 0xD76AA478) 7);
   D = SPH_T32 (A + md5_ROTL (D + md5_F A B C + inp 1 + 0xE8C7B756) 12);
   C = SPH_T32 (D + md5_ROTL (C + md5_F D A B + inp 2 + 0x242070DB) 17);
   B = SPH_T32 (C + md5_ROTL (B + md5_F C D A + inp 3 + 0xC1BDCEEE) 22);
   A = SPH_T32 (B + md5_ROTL (A + md5_F B C D + inp 4 + 0xF57C0FAF) 7);
   D = SPH_T32 (A + md5_ROTL (D + md5_F A B C + inp 5 + 0x4787C62A) 12);
   C = SPH_T32 (D + md5_ROTL (C + md5_F D A B + inp 6 + 0xA8304613) 17);
   B = SPH_T32 (C + md5_ROTL (B + md5_F C D A + inp 7 + 0xFD469501) 22);
   A = SPH_T32 (B + md5_ROTL (A + md5_F B C D + inp 8 + 0x698098D8) 7);
   D = SPH_T32 (A + md5_ROTL (D + md5_F A B C + inp 9 + 0x8B44F7AF) 12);
   C = SPH_T32 (D + md5_ROTL (C + md5_F D A B + inp 10 + 0xFFFF5BB1) 17);
   B = SPH_T32 (C + md5_ROTL (B + md5_F C D A + inp 11 + 0x895CD7BE) 22);
   A = SPH_T32 (B + md5_ROTL (A + md5_F B C D + inp 12 + 0x6B901122) 7);
   D = SPH_T32 (A + md5_ROTL (D + md5_F A B C + inp 13 + 0xFD987193) 12);
   C = SPH_T32 (D + md5_ROTL (C + md5_F D A B + inp 14 + 0xA679438E) 17);
   B = SPH_T32 (C + md5_ROTL (B + md5_F C D A + inp 15 + 0x49B40821) 22)
  in (A, B, C, D))"

definition MD5_ROUND_2 :: "(nat \<Rightarrow> u32) \<Rightarrow> u32 st4 \<Rightarrow> u32 st4" where
  "MD5_ROUND_2 inp st =
     (case st of (A, B, C, D) \<Rightarrow>
  let A = SPH_T32 (B + md5_ROTL (A + md5_G B C D + inp 1 + 0xF61E2562) 5);
   D = SPH_T32 (A + md5_ROTL (D + md5_G A B C + inp 6 + 0xC040B340) 9);
   C = SPH_T32 (D + md5_ROTL (C + md5_G D A B + inp 11 + 0x265E5A51) 14);
   B = SPH_T32 (C + md5_ROTL (B + md5_G C D A + inp 0 + 0xE9B6C7AA) 20);
   A = SPH_T32 (B + md5_ROTL (A + md5_G B C D + inp 5 + 0xD62F105D) 5);
   D = SPH_T32 (A + md5_ROTL (D + md5_G A B C + inp 10 + 0x02441453) 9);
   C = SPH_T32 (D + md5_ROTL (C + md5_G D A B + inp 15 + 0xD8A1E681) 14);
   B = SPH_T32 (C + md5_ROTL (B + md5_G C D A + inp 4 + 0xE7D3FBC8) 20);
   A = SPH_T32 (B + md5_ROTL (A + md5_G B C D + inp 9 + 0x21E1CDE6) 5);
   D = SPH_T32 (A + md5_ROTL (D + md5_G A B C + inp 14 + 0xC33707D6) 9);
   C = SPH_T32 (D + md5_ROTL (C + md5_G D A B + inp 3 + 0xF4D50D87) 14);
   B = SPH_T32 (C + md5_ROTL (B + md5_G C D A + inp 8 + 0x455A14ED) 20);
   A = SPH_T32 (B + md5_ROTL (A + md5_G B C D + inp 13 + 0xA9E3E905) 5);
   D = SPH_T32 (A + md5_ROTL (D + md5_G A B C + inp 2 + 0xFCEFA3F8) 9);
   C = SPH_T32 (D + md5_ROTL (C + md5_G D A B + inp 7 + 0x676F02D9) 14);
   B = SPH_T32 (C + md5_ROTL (B + md5_G C D A + inp 12 + 0x8D2A4C8A) 20)
  in (A, B, C, D))"

definition MD5_ROUND_3 :: "(nat \<Rightarrow> u32) \<Rightarrow> u32 st4 \<Rightarrow> u32 st4" where
  "MD5_ROUND_3 inp st =
     (case st of (A, B, C, D) \<Rightarrow>
  let A = SPH_T32 (B + md5_ROTL (A + md5_H B C D + inp 5 + 0xFFFA3942) 4);
   D = SPH_T32 (A + md5_ROTL (D + md5_H A B C + inp 8 + 0x8771F681) 11);
   C = SPH_T32 (D + md5_ROTL (C + md5_H D A B + inp 11 + 0x6D9D6122) 16);
   B = SPH_T32 (C + md5_ROTL (B + md5_H C D A + inp 14 + 0xFDE5380C) 23);
   A = SPH_T32 (B + md5_ROTL (A + md5_H B C D + inp 1 + 0xA4BEEA44) 4);
   D = SPH_T32 (A + md5_ROTL (D + md5_H A B C + inp 4 + 0x4BDECFA9) 11);
   C = SPH_T32 (D + md5_ROTL (C + md5_H D A B + inp 7 + 0xF6BB4B60) 16);
   B = SPH_T32 (C + md5_ROTL (B + md5_H C D A + inp 10 + 0xBEBFBC70) 23);
   A = SPH_T32 (B + md5_ROTL (A + md5_H B C D + inp 13 + 0x289B7EC6) 4);
   D = SPH_T32 (A + md5_ROTL (D + md5_H A B C + inp 0 + 0xEAA127FA) 11);
   C = SPH_T32 (D + md5_ROTL (C + md5_H D A B + inp 3 + 0xD4EF3085) 16);
   B = SPH_T32 (C + md5_ROTL (B + md5_H C D A + inp 6 + 0x04881D05) 23);
   A = SPH_T32 (B + md5_ROTL (A + md5_H B C D + inp 9 + 0xD9D4D039) 4);
   D = SPH_T32 (A + md5_ROTL (D + md5_H A B C + inp 12 + 0xE6DB99E5) 11);
   C = SPH_T32 (D + md5_ROTL (C + md5_H D A B + inp 15 + 0x1FA27CF8) 16);
   B = SPH_T32 (C + md5_ROTL (B + md5_H C D A + inp 2 + 0xC4AC5665) 23)
  in (A, B, C, D))"

definition MD5_ROUND_4 :: "(nat \<Rightarrow> u32) \<Rightarrow> u32 st4 \<Rightarrow> u32 st4" where
  "MD5_ROUND_4 inp st =
     (case st of (A, B, C, D) \<Rightarrow>
  let A = SPH_T32 (B + md5_ROTL (A + md5_Ifn B C D + inp 0 + 0xF4292244) 6);
   D = SPH_T32 (A + md5_ROTL (D + md5_Ifn A B C + inp 7 + 0x432AFF97) 10);
   C = SPH_T32 (D + md5_ROTL (C + md5_Ifn D A B + inp 14 + 0xAB9423A7) 15);
   B = SPH_T32 (C + md5_ROTL (B + md5_Ifn C D A + inp 5 + 0xFC93A039) 21);
   A = SPH_T32 (B + md5_ROTL (A + md5_Ifn B C D + inp 12 + 0x655B59C3) 6);
   D = SPH_T32 (A + md5_ROTL (D + md5_Ifn A B C + inp 3 + 0x8F0CCC92) 10);
   C = SPH_T32 (D + md5_ROTL (C + md5_Ifn D A B + inp 10 + 0xFFEFF47D) 15);
   B = SPH_T32 (C + md5_ROTL (B + md5_Ifn C D A + inp 1 + 0x85845DD1) 21);
   A = SPH_T32 (B + md5_ROTL (A + md5_Ifn B C D + inp 8 + 0x6FA87E4F) 6);
   D = SPH_T32 (A + md5_ROTL (D + md5_Ifn A B C + inp 15 + 0xFE2CE6E0) 10);
   C = SPH_T32 (D + md5_ROTL (C + md5_Ifn D A B + inp 6 + 0xA3014314) 15);
   B = SPH_T32 (C + md5_ROTL (B + md5_Ifn C D A + inp 13 + 0x4E0811A1) 21);
   A = SPH_T32 (B + md5_ROTL (A + md5_Ifn B C D + inp 4 + 0xF7537E82) 6);
   D = SPH_T32 (A + md5_ROTL (D + md5_Ifn A B C + inp 11 + 0xBD3AF235) 10);
   C = SPH_T32 (D + md5_ROTL (C + md5_Ifn D A B + inp 2 + 0x2AD7D2BB) 15);
   B = SPH_T32 (C + md5_ROTL (B + md5_Ifn C D A + inp 9 + 0xEB86D391) 21)
  in (A, B, C, D))"

definition MD5_ROUND_BODY :: "(nat \<Rightarrow> u32) \<Rightarrow> u32 list \<Rightarrow> u32 list" where
  "MD5_ROUND_BODY inp r =
     (let st = MD5_ROUND_1 inp (r ! 0, r ! 1, r ! 2, r ! 3);
          st = MD5_ROUND_2 inp st;
          st = MD5_ROUND_3 inp st;
          (A, B, C, D) = MD5_ROUND_4 inp st
      in [SPH_T32 (r ! 0 + A), SPH_T32 (r ! 1 + B), SPH_T32 (r ! 2 + C), SPH_T32 (r ! 3 + D)])"

text \<open>Where little-endian reads are fast, the words are read from the buffer again at each use.\<close>

definition md5_round :: "arch \<Rightarrow> bytes \<Rightarrow> u32 list \<Rightarrow> u32 list" where
  "md5_round a data r =
     (if SPH_LITTLE_FAST a then MD5_ROUND_BODY (\<lambda>idx. sph_dec32le_aligned a (drop (4 * idx) data)) r
      else
        let X_var = map (\<lambda>i. sph_dec32le_aligned a (drop (4 * i) data)) [0..<16]
        in MD5_ROUND_BODY (\<lambda>idx. X_var ! idx) r)"

definition sph_md5_comp :: "u32 list \<Rightarrow> u32 list \<Rightarrow> u32 list" where
  "sph_md5_comp msg v = MD5_ROUND_BODY (\<lambda>i. msg ! i) v"

section \<open>The interface (lines 162-205)\<close>

type_synonym md5_context = "u32 list md_context"

definition sph_md5_init :: "md5_context \<Rightarrow> md5_context" where
  "sph_md5_init sc = sc\<lparr>val := md5_IV, count := 0\<rparr>"

definition md5_macros :: "arch \<Rightarrow> u32 list md_macros" where
  "md5_macros a = \<lparr>WORD = LE32, BLEN = None, PLW = PLW_default, PW01 = False,
     RFUN = md5_round a, OUTPUT = md_output_le32 a\<rparr>"

definition sph_md5 :: "arch \<Rightarrow> u64 \<Rightarrow> bytes \<Rightarrow> md5_context \<Rightarrow> md5_context option" where
  "sph_md5 a addr data sc = md_update a (md5_macros a) addr data sc"

definition sph_md5_close :: "arch \<Rightarrow> u64 \<Rightarrow> md5_context \<Rightarrow> bytes \<times> md5_context" where
  "sph_md5_close a dst sc =
     (let (out, sc) = md_close a (md5_macros a) dst 4 sc in (out, sph_md5_init sc))"

definition sph_md5_addbits_and_close ::
    "arch \<Rightarrow> u32 \<Rightarrow> nat \<Rightarrow> u64 \<Rightarrow> md5_context \<Rightarrow> bytes \<times> md5_context" where
  "sph_md5_addbits_and_close a ub n dst sc =
     (let (out, sc) = md_addbits_and_close a (md5_macros a) ub n dst 4 sc in (out, sph_md5_init sc))"

section \<open>The compression function is the one of the standard\<close>

lemma md5_functions:
  "md5_F = Ch" "md5_G = (\<lambda>x y z. Ch z x y)" "md5_H = Parity" "md5_Ifn = md5_I"
  by (simp_all add: fun_eq_iff md5_F_def md5_G_def md5_H_def md5_Ifn_def md5_function_forms sha1_function_forms)

lemma MD5_ROUND_steps:
  "MD5_ROUND_1 inp st = foldl (md5_op Ch inp) st (md5_ops 0)"
  "MD5_ROUND_2 inp st = foldl (md5_op (\<lambda>x y z. Ch z x y) inp) st (md5_ops 1)"
  "MD5_ROUND_3 inp st = foldl (md5_op Parity inp) st (md5_ops 2)"
  "MD5_ROUND_4 inp st = foldl (md5_op md5_I inp) st (md5_ops 3)"
  by (cases st rule: st4_cases;
      simp only: MD5_ROUND_1_def MD5_ROUND_2_def MD5_ROUND_3_def MD5_ROUND_4_def prod.case
        SPH_T32_id md5_functions md5_ROTL_def sph_rotations rel_simps foldl.simps md5_ops_at md5_op.simps
        md5_op_let cong del: prod.case_cong_weak let_weak_cong)+

lemma MD5_ROUND_BODY_compress:
  assumes "length r = 4"
  shows "MD5_ROUND_BODY inp r = md5_compress inp r"
  unfolding MD5_ROUND_BODY_def Let_def SPH_T32_id map2_st4 [OF assms] MD5_ROUND_steps st4_of_def [symmetric]
    md5_compress_def ..

lemma md5_round_compress:
  assumes "arch_ok a" and "length r = 4" and "length b = 64"
  shows "md5_round a b r = md5_compress (\<lambda>t. of_le (take 4 (drop (4 * t) b))) r"
proof -
  have "sph_dec32le_aligned a (drop (4 * t) b) = of_le (take 4 (drop (4 * t) b))" if "t < 16" for t
    using assms(1,3) that by simp
  then show ?thesis
    by (simp add: md5_round_def MD5_ROUND_BODY_compress [OF assms(2)] cong: md5_compress_cong del: upt_Suc)
qed

section \<open>The digests are those of the standard\<close>

definition rfc_md5 :: "u32 \<Rightarrow> nat \<Rightarrow> bytes \<Rightarrow> bytes" where
  "rfc_md5 ub n m =
     std_hash 64 (\<lambda>b. md5_compress (\<lambda>t. of_le (take 4 (drop (4 * t) b)))) md5_IV
       (\<lambda>v. concat (map le32 (take 4 v))) (std_pad nat_le 64 8 m ub n)"

lemma md5_macros_simps [simp]:
  "SPH_BLEN (md5_macros a) = 64" "SPH_MAXPAD (md5_macros a) = 56"
  "WORD (md5_macros a) = LE32" "PLW (md5_macros a) = PLW_default" "\<not> PW01 (md5_macros a)"
  "RFUN (md5_macros a) = md5_round a" "OUTPUT (md5_macros a) = md_output_le32 a"
  by (simp_all add: md5_macros_def SPH_BLEN_def SPH_MAXPAD_def SPH_WLEN_def)

interpretation md5: md_hash "arch_of p" "md5_macros (arch_of p)" 6 md5_IV 4
    "\<lambda>v. concat (map (\<lambda>u. le32 (v ! u)) [0..<4])" for p
  by unfold_locales (simp_all add: md_outputs)

lemma md5_hash_of:
  assumes "n < 8"
  shows "md_hash_of (md5_macros (arch_of p)) md5_IV (\<lambda>v. concat (map (\<lambda>u. le32 (v ! u)) [0..<4])) ub n m
    = rfc_md5 ub n m"
  unfolding rfc_md5_def using assms
  by (subst md_hash_of_std [where P = "\<lambda>v. length v = 4"])
     (auto simp: md5_round_compress md5_IV_def concat_map_take)

lemma md5_interface:
  "sph_md5_init = md_init md5_IV" "sph_md5 a = md_update a (md5_macros a)"
  "sph_md5_addbits_and_close a ub n = md_close_init a (md5_macros a) md5_IV 4 ub n"
  "sph_md5_close a = sph_md5_addbits_and_close a 0 0"
  by (simp_all add: fun_eq_iff sph_md5_init_def md_init_def sph_md5_def
      sph_md5_addbits_and_close_def md_close_init_def sph_md5_close_def md_close_def)

lemma md5_length_ok [simp]: "md_length_ok (md5_macros a) l"
  by (simp add: md_length_ok_def)

section \<open>Properties\<close>

text \<open>
  MD5 of the library is MD5 of RFC 1321, with up to seven extra bits at the end, however the message is cut
  into calls and wherever the pieces lie; the closed context can be used for the next message.
\<close>

theorem sph_md5_correct:
  assumes "length (buf sc) = 64" and "n < 8"
  shows "\<exists>sc1 sc2. feed (sph_md5 (arch_of p)) ps (sph_md5_init sc) = Some sc1
     \<and> fst (sph_md5_addbits_and_close (arch_of p) ub n dst sc1) = rfc_md5 ub n (pieces ps)
     \<and> feed (sph_md5 (arch_of p)) qs (snd (sph_md5_addbits_and_close (arch_of p) ub n dst sc1)) = Some sc2
     \<and> fst (sph_md5_close (arch_of p) dst' sc2) = rfc_md5 0 0 (pieces qs)"
proof -
  obtain sc1 where f1: "feed (sph_md5 (arch_of p)) ps (sph_md5_init sc) = Some sc1"
    and r1: "md_rep (md5_macros (arch_of p)) md5_IV (pieces ps) sc1"
    using md5.inc.feed_represents [OF md5.inc.init_represents, of sc p ps] assms
    by (auto simp: md5_interface)
  let ?c = "sph_md5_addbits_and_close (arch_of p) ub n dst sc1"
  have c1: "fst ?c = rfc_md5 ub n (pieces ps)" and "md_rep (md5_macros (arch_of p)) md5_IV [] (snd ?c)"
    using md5.close_digest [OF r1 assms(2), of ub dst] assms
    by (simp_all add: md5_interface md5_hash_of)
  then obtain sc2 where "feed (sph_md5 (arch_of p)) qs (snd ?c) = Some sc2"
    and r2: "md_rep (md5_macros (arch_of p)) md5_IV (pieces qs) sc2"
    using md5.inc.feed_represents [of p "[]" "snd ?c" qs] by (auto simp: md5_interface)
  with f1 c1 md5.close_digest [OF r2, of 0 0 dst'] show ?thesis
    by (simp add: md5_interface md5_hash_of)
qed

theorem sph_md5_correct_witness:
  "\<exists>sc1. feed (sph_md5 (arch_of I386)) [(1, [0x61]), (2, [0x62, 0x63])]
       (sph_md5_init \<lparr>buf = replicate 64 7, val = [], count = 5\<rparr>) = Some sc1
     \<and> fst (sph_md5_addbits_and_close (arch_of I386) 0x80 1 0 sc1) = rfc_md5 0x80 1 [0x61, 0x62, 0x63]"
  using sph_md5_correct [of "\<lparr>buf = replicate 64 7, val = [], count = 5\<rparr>" 1 I386
      "[(1, [0x61]), (2, [0x62, 0x63])]" "0x80" 0 "[]"] by auto

text \<open>
  The compression function, with its 64 operations written out, is the one of RFC 1321, on the
  bytes of a block, whether they are read once or at each use, and on a block given as words.
\<close>

theorem md5_compression_correct:
  assumes "length r = 4" and "length b = 64"
  shows "md5_round (arch_of p) b r = md5_compress (\<lambda>t. of_le (take 4 (drop (4 * t) b))) r
    \<and> sph_md5_comp msg r = md5_compress (\<lambda>t. msg ! t) r"
  using assms by (simp add: md5_round_compress sph_md5_comp_def MD5_ROUND_BODY_compress)

theorem md5_compression_correct_witness:
  "md5_round (arch_of Mips_eb) (replicate 64 3) md5_IV =
     md5_compress (\<lambda>t. of_le (take 4 (drop (4 * t) (replicate 64 3)))) md5_IV"
  using md5_compression_correct [of md5_IV "replicate 64 3" Mips_eb] by (simp add: md5_IV_def)

end
