(* ===== verification/Md4.thy ===== *)
theory Md4
  imports Md_Helper Md45_Spec
begin

text \<open>
  \<open>md4.c\<close>: MD4. The rounds are written out on four named variables; each of the paragraphs of the
  macro is a function here. They are shown to be the rounds of RFC 1320, and the digests those of
  the padded message.
\<close>

section \<open>Macros and tables (lines 38-47)\<close>

definition md4_F :: "u32 \<Rightarrow> u32 \<Rightarrow> u32 \<Rightarrow> u32" where
  "md4_F B C D = ((C XOR D) AND B) XOR D"

definition md4_G :: "u32 \<Rightarrow> u32 \<Rightarrow> u32 \<Rightarrow> u32" where
  "md4_G B C D = (D AND C) OR ((D OR C) AND B)"

definition md4_H :: "u32 \<Rightarrow> u32 \<Rightarrow> u32 \<Rightarrow> u32" where
  "md4_H B C D = B XOR C XOR D"

definition md4_IV :: "u32 list" where
  "md4_IV = [0x67452301, 0xEFCDAB89, 0x98BADCFE, 0x10325476]"

section \<open>The compression function (lines 49-112)\<close>

definition MD4_ROUND_1 :: "(nat \<Rightarrow> u32) \<Rightarrow> u32 st4 \<Rightarrow> u32 st4" where
  "MD4_ROUND_1 inp st =
     (case st of (A, B, C, D) \<Rightarrow>
  let A = SPH_ROTL32 (SPH_T32 (A + md4_F B C D + inp 0)) 3;
   D = SPH_ROTL32 (SPH_T32 (D + md4_F A B C + inp 1)) 7;
   C = SPH_ROTL32 (SPH_T32 (C + md4_F D A B + inp 2)) 11;
   B = SPH_ROTL32 (SPH_T32 (B + md4_F C D A + inp 3)) 19;
   A = SPH_ROTL32 (SPH_T32 (A + md4_F B C D + inp 4)) 3;
   D = SPH_ROTL32 (SPH_T32 (D + md4_F A B C + inp 5)) 7;
   C = SPH_ROTL32 (SPH_T32 (C + md4_F D A B + inp 6)) 11;
   B = SPH_ROTL32 (SPH_T32 (B + md4_F C D A + inp 7)) 19;
   A = SPH_ROTL32 (SPH_T32 (A + md4_F B C D + inp 8)) 3;
   D = SPH_ROTL32 (SPH_T32 (D + md4_F A B C + inp 9)) 7;
   C = SPH_ROTL32 (SPH_T32 (C + md4_F D A B + inp 10)) 11;
   B = SPH_ROTL32 (SPH_T32 (B + md4_F C D A + inp 11)) 19;
   A = SPH_ROTL32 (SPH_T32 (A + md4_F B C D + inp 12)) 3;
   D = SPH_ROTL32 (SPH_T32 (D + md4_F A B C + inp 13)) 7;
   C = SPH_ROTL32 (SPH_T32 (C + md4_F D A B + inp 14)) 11;
   B = SPH_ROTL32 (SPH_T32 (B + md4_F C D A + inp 15)) 19
  in (A, B, C, D))"

definition MD4_ROUND_2 :: "(nat \<Rightarrow> u32) \<Rightarrow> u32 st4 \<Rightarrow> u32 st4" where
  "MD4_ROUND_2 inp st =
     (case st of (A, B, C, D) \<Rightarrow>
  let A = SPH_ROTL32 (SPH_T32 (A + md4_G B C D + inp 0 + 0x5A827999)) 3;
   D = SPH_ROTL32 (SPH_T32 (D + md4_G A B C + inp 4 + 0x5A827999)) 5;
   C = SPH_ROTL32 (SPH_T32 (C + md4_G D A B + inp 8 + 0x5A827999)) 9;
   B = SPH_ROTL32 (SPH_T32 (B + md4_G C D A + inp 12 + 0x5A827999)) 13;
   A = SPH_ROTL32 (SPH_T32 (A + md4_G B C D + inp 1 + 0x5A827999)) 3;
   D = SPH_ROTL32 (SPH_T32 (D + md4_G A B C + inp 5 + 0x5A827999)) 5;
   C = SPH_ROTL32 (SPH_T32 (C + md4_G D A B + inp 9 + 0x5A827999)) 9;
   B = SPH_ROTL32 (SPH_T32 (B + md4_G C D A + inp 13 + 0x5A827999)) 13;
   A = SPH_ROTL32 (SPH_T32 (A + md4_G B C D + inp 2 + 0x5A827999)) 3;
   D = SPH_ROTL32 (SPH_T32 (D + md4_G A B C + inp 6 + 0x5A827999)) 5;
   C = SPH_ROTL32 (SPH_T32 (C + md4_G D A B + inp 10 + 0x5A827999)) 9;
   B = SPH_ROTL32 (SPH_T32 (B + md4_G C D A + inp 14 + 0x5A827999)) 13;
   A = SPH_ROTL32 (SPH_T32 (A + md4_G B C D + inp 3 + 0x5A827999)) 3;
   D = SPH_ROTL32 (SPH_T32 (D + md4_G A B C + inp 7 + 0x5A827999)) 5;
   C = SPH_ROTL32 (SPH_T32 (C + md4_G D A B + inp 11 + 0x5A827999)) 9;
   B = SPH_ROTL32 (SPH_T32 (B + md4_G C D A + inp 15 + 0x5A827999)) 13
  in (A, B, C, D))"

definition MD4_ROUND_3 :: "(nat \<Rightarrow> u32) \<Rightarrow> u32 st4 \<Rightarrow> u32 st4" where
  "MD4_ROUND_3 inp st =
     (case st of (A, B, C, D) \<Rightarrow>
  let A = SPH_ROTL32 (SPH_T32 (A + md4_H B C D + inp 0 + 0x6ED9EBA1)) 3;
   D = SPH_ROTL32 (SPH_T32 (D + md4_H A B C + inp 8 + 0x6ED9EBA1)) 9;
   C = SPH_ROTL32 (SPH_T32 (C + md4_H D A B + inp 4 + 0x6ED9EBA1)) 11;
   B = SPH_ROTL32 (SPH_T32 (B + md4_H C D A + inp 12 + 0x6ED9EBA1)) 15;
   A = SPH_ROTL32 (SPH_T32 (A + md4_H B C D + inp 2 + 0x6ED9EBA1)) 3;
   D = SPH_ROTL32 (SPH_T32 (D + md4_H A B C + inp 10 + 0x6ED9EBA1)) 9;
   C = SPH_ROTL32 (SPH_T32 (C + md4_H D A B + inp 6 + 0x6ED9EBA1)) 11;
   B = SPH_ROTL32 (SPH_T32 (B + md4_H C D A + inp 14 + 0x6ED9EBA1)) 15;
   A = SPH_ROTL32 (SPH_T32 (A + md4_H B C D + inp 1 + 0x6ED9EBA1)) 3;
   D = SPH_ROTL32 (SPH_T32 (D + md4_H A B C + inp 9 + 0x6ED9EBA1)) 9;
   C = SPH_ROTL32 (SPH_T32 (C + md4_H D A B + inp 5 + 0x6ED9EBA1)) 11;
   B = SPH_ROTL32 (SPH_T32 (B + md4_H C D A + inp 13 + 0x6ED9EBA1)) 15;
   A = SPH_ROTL32 (SPH_T32 (A + md4_H B C D + inp 3 + 0x6ED9EBA1)) 3;
   D = SPH_ROTL32 (SPH_T32 (D + md4_H A B C + inp 11 + 0x6ED9EBA1)) 9;
   C = SPH_ROTL32 (SPH_T32 (C + md4_H D A B + inp 7 + 0x6ED9EBA1)) 11;
   B = SPH_ROTL32 (SPH_T32 (B + md4_H C D A + inp 15 + 0x6ED9EBA1)) 15
  in (A, B, C, D))"

definition MD4_ROUND_BODY :: "(nat \<Rightarrow> u32) \<Rightarrow> u32 list \<Rightarrow> u32 list" where
  "MD4_ROUND_BODY inp r =
     (let st = MD4_ROUND_1 inp (r ! 0, r ! 1, r ! 2, r ! 3);
          st = MD4_ROUND_2 inp st;
          (A, B, C, D) = MD4_ROUND_3 inp st
      in [SPH_T32 (r ! 0 + A), SPH_T32 (r ! 1 + B), SPH_T32 (r ! 2 + C), SPH_T32 (r ! 3 + D)])"

text \<open>Where little-endian reads are fast, the words are read from the buffer again at each use.\<close>

definition md4_round :: "arch \<Rightarrow> bytes \<Rightarrow> u32 list \<Rightarrow> u32 list" where
  "md4_round a data r =
     (if SPH_LITTLE_FAST a then MD4_ROUND_BODY (\<lambda>idx. sph_dec32le_aligned a (drop (4 * idx) data)) r
      else
        let X_var = map (\<lambda>i. sph_dec32le_aligned a (drop (4 * i) data)) [0..<16]
        in MD4_ROUND_BODY (\<lambda>idx. X_var ! idx) r)"

definition sph_md4_comp :: "u32 list \<Rightarrow> u32 list \<Rightarrow> u32 list" where
  "sph_md4_comp msg v = MD4_ROUND_BODY (\<lambda>i. msg ! i) v"

section \<open>The interface (lines 141-176)\<close>

type_synonym md4_context = "u32 list md_context"

definition sph_md4_init :: "md4_context \<Rightarrow> md4_context" where
  "sph_md4_init sc = sc\<lparr>val := md4_IV, count := 0\<rparr>"

definition md4_macros :: "arch \<Rightarrow> u32 list md_macros" where
  "md4_macros a = \<lparr>WORD = LE32, BLEN = None, PLW = PLW_default, PW01 = False,
     RFUN = md4_round a, OUTPUT = md_output_le32 a\<rparr>"

definition sph_md4 :: "arch \<Rightarrow> u64 \<Rightarrow> bytes \<Rightarrow> md4_context \<Rightarrow> md4_context option" where
  "sph_md4 a addr data sc = md_update a (md4_macros a) addr data sc"

definition sph_md4_close :: "arch \<Rightarrow> u64 \<Rightarrow> md4_context \<Rightarrow> bytes \<times> md4_context" where
  "sph_md4_close a dst sc =
     (let (out, sc) = md_close a (md4_macros a) dst 4 sc in (out, sph_md4_init sc))"

section \<open>The compression function is the one of the standard\<close>

lemma md4_functions:
  "md4_F = Ch" "md4_G = Maj" "md4_H = Parity"
  by (simp_all add: fun_eq_iff md4_F_def md4_G_def md4_H_def sha1_function_forms)

lemma MD4_ROUND_steps:
  "MD4_ROUND_1 inp st = foldl (md4_op Ch 0 inp) st (md4_ops 0)"
  "MD4_ROUND_2 inp st = foldl (md4_op Maj 0x5A827999 inp) st (md4_ops 1)"
  "MD4_ROUND_3 inp st = foldl (md4_op Parity 0x6ED9EBA1 inp) st (md4_ops 2)"
  by (cases st rule: st4_cases;
      simp only: MD4_ROUND_1_def MD4_ROUND_2_def MD4_ROUND_3_def prod.case
        SPH_T32_id md4_functions add_0_right sph_rotations rel_simps foldl.simps md4_ops_at md4_op.simps
        md4_op_let cong del: prod.case_cong_weak let_weak_cong)+

lemma MD4_ROUND_BODY_compress:
  assumes "length r = 4"
  shows "MD4_ROUND_BODY inp r = md4_compress inp r"
  unfolding MD4_ROUND_BODY_def Let_def SPH_T32_id map2_st4 [OF assms] MD4_ROUND_steps st4_of_def [symmetric]
    md4_compress_def ..

lemma md4_round_compress:
  assumes "arch_ok a" and "length r = 4" and "length b = 64"
  shows "md4_round a b r = md4_compress (\<lambda>t. of_le (take 4 (drop (4 * t) b))) r"
proof -
  have "sph_dec32le_aligned a (drop (4 * t) b) = of_le (take 4 (drop (4 * t) b))" if "t < 16" for t
    using assms(1,3) that by simp
  then show ?thesis
    by (simp add: md4_round_def MD4_ROUND_BODY_compress [OF assms(2)] cong: md4_compress_cong del: upt_Suc)
qed

section \<open>The digests are those of the standard\<close>

definition rfc_md4 :: "u32 \<Rightarrow> nat \<Rightarrow> bytes \<Rightarrow> bytes" where
  "rfc_md4 ub n m =
     std_hash 64 (\<lambda>b. md4_compress (\<lambda>t. of_le (take 4 (drop (4 * t) b)))) md4_IV
       (\<lambda>v. concat (map le32 (take 4 v))) (std_pad nat_le 64 8 m ub n)"

lemma md4_macros_simps [simp]:
  "SPH_BLEN (md4_macros a) = 64" "SPH_MAXPAD (md4_macros a) = 56"
  "WORD (md4_macros a) = LE32" "PLW (md4_macros a) = PLW_default" "\<not> PW01 (md4_macros a)"
  "RFUN (md4_macros a) = md4_round a" "OUTPUT (md4_macros a) = md_output_le32 a"
  by (simp_all add: md4_macros_def SPH_BLEN_def SPH_MAXPAD_def SPH_WLEN_def)

interpretation md4: md_hash "arch_of p" "md4_macros (arch_of p)" 6 md4_IV 4
    "\<lambda>v. concat (map (\<lambda>u. le32 (v ! u)) [0..<4])" for p
  by unfold_locales (simp_all add: md_outputs)

lemma md4_hash_of:
  assumes "n < 8"
  shows "md_hash_of (md4_macros (arch_of p)) md4_IV (\<lambda>v. concat (map (\<lambda>u. le32 (v ! u)) [0..<4])) ub n m
    = rfc_md4 ub n m"
  unfolding rfc_md4_def using assms
  by (subst md_hash_of_std [where P = "\<lambda>v. length v = 4"])
     (auto simp: md4_round_compress md4_IV_def concat_map_take)

lemma md4_interface:
  "sph_md4_init = md_init md4_IV" "sph_md4 a = md_update a (md4_macros a)"
  "sph_md4_close a = md_close_init a (md4_macros a) md4_IV 4 0 0"
  by (simp_all add: fun_eq_iff sph_md4_init_def md_init_def sph_md4_def md_close_init_def
      sph_md4_close_def md_close_def)

lemma md4_length_ok [simp]: "md_length_ok (md4_macros a) l"
  by (simp add: md_length_ok_def)

section \<open>Properties\<close>

text \<open>
  MD4 of the library is MD4 of RFC 1320, however the message is cut
  into calls and wherever the pieces lie; the closed context can be used for the next message.
\<close>

theorem sph_md4_correct:
  assumes "length (buf sc) = 64"
  shows "\<exists>sc1 sc2. feed (sph_md4 (arch_of p)) ps (sph_md4_init sc) = Some sc1
     \<and> fst (sph_md4_close (arch_of p) dst sc1) = rfc_md4 0 0 (pieces ps)
     \<and> feed (sph_md4 (arch_of p)) qs (snd (sph_md4_close (arch_of p) dst sc1)) = Some sc2
     \<and> fst (sph_md4_close (arch_of p) dst' sc2) = rfc_md4 0 0 (pieces qs)"
proof -
  obtain sc1 where f1: "feed (sph_md4 (arch_of p)) ps (sph_md4_init sc) = Some sc1"
    and r1: "md_rep (md4_macros (arch_of p)) md4_IV (pieces ps) sc1"
    using md4.inc.feed_represents [OF md4.inc.init_represents, of sc p ps] assms
    by (auto simp: md4_interface)
  let ?c = "sph_md4_close (arch_of p) dst sc1"
  have c1: "fst ?c = rfc_md4 0 0 (pieces ps)" and "md_rep (md4_macros (arch_of p)) md4_IV [] (snd ?c)"
    using md4.close_digest [OF r1, of 0 0 dst] assms
    by (simp_all add: md4_interface md4_hash_of)
  then obtain sc2 where "feed (sph_md4 (arch_of p)) qs (snd ?c) = Some sc2"
    and r2: "md_rep (md4_macros (arch_of p)) md4_IV (pieces qs) sc2"
    using md4.inc.feed_represents [of p "[]" "snd ?c" qs] by (auto simp: md4_interface)
  with f1 c1 md4.close_digest [OF r2, of 0 0 dst'] show ?thesis
    by (simp add: md4_interface md4_hash_of)
qed

theorem sph_md4_correct_witness:
  "\<exists>sc1. feed (sph_md4 (arch_of I386)) [(1, [0x61]), (2, [0x62, 0x63])]
       (sph_md4_init \<lparr>buf = replicate 64 7, val = [], count = 5\<rparr>) = Some sc1
     \<and> fst (sph_md4_close (arch_of I386) 0 sc1) = rfc_md4 0 0 [0x61, 0x62, 0x63]"
  using sph_md4_correct [of "\<lparr>buf = replicate 64 7, val = [], count = 5\<rparr>" I386
      "[(1, [0x61]), (2, [0x62, 0x63])]" 0 "[]"] by auto

text \<open>
  The compression function, with its 48 operations written out, is the one of RFC 1320, on the
  bytes of a block, whether they are read once or at each use, and on a block given as words.
\<close>

theorem md4_compression_correct:
  assumes "length r = 4" and "length b = 64"
  shows "md4_round (arch_of p) b r = md4_compress (\<lambda>t. of_le (take 4 (drop (4 * t) b))) r
    \<and> sph_md4_comp msg r = md4_compress (\<lambda>t. msg ! t) r"
  using assms by (simp add: md4_round_compress sph_md4_comp_def MD4_ROUND_BODY_compress)

theorem md4_compression_correct_witness:
  "md4_round (arch_of Mips_eb) (replicate 64 3) md4_IV =
     md4_compress (\<lambda>t. of_le (take 4 (drop (4 * t) (replicate 64 3)))) md4_IV"
  using md4_compression_correct [of md4_IV "replicate 64 3" Mips_eb] by (simp add: md4_IV_def)

end
