(* ===== verification/Md2.thy ===== *)
theory Md2
  imports Sph_Types Hash_Interface
begin

text \<open>
  \<open>md2.c\<close>: MD2 of RFC 1319, with the checksum as the errata of the RFC correct it. The component does
  not use \<open>md_helper.c\<close>. Its update function is right when the buffered bytes and the new ones fill a
  block; when they do not, it loses both, which the last section proves.
\<close>

section \<open>The code\<close>

text \<open>The table (lines 41-64).\<close>

definition md2_S :: bytes where
  "md2_S =
  [41, 46, 67, 201, 162, 216, 124, 1, 61, 54, 84, 161, 236, 240, 6, 19,
   98, 167, 5, 243, 192, 199, 115, 140, 152, 147, 43, 217, 188, 76, 130, 202,
   30, 155, 87, 60, 253, 212, 224, 22, 103, 66, 111, 24, 138, 23, 229, 18,
   190, 78, 196, 214, 218, 158, 222, 73, 160, 251, 245, 142, 187, 47, 238, 122,
   169, 104, 121, 145, 21, 178, 7, 63, 148, 194, 16, 137, 11, 34, 95, 33,
   128, 127, 93, 154, 90, 144, 50, 39, 53, 62, 204, 231, 191, 247, 151, 3,
   255, 25, 48, 179, 72, 165, 181, 209, 215, 94, 146, 42, 172, 86, 170, 198,
   79, 184, 56, 210, 150, 164, 125, 182, 118, 252, 107, 226, 156, 116, 4, 241,
   69, 157, 112, 89, 100, 113, 135, 32, 134, 91, 207, 101, 230, 45, 168, 2,
   27, 96, 37, 173, 174, 176, 185, 246, 28, 70, 97, 105, 52, 64, 126, 15,
   85, 71, 163, 35, 221, 81, 175, 58, 195, 92, 249, 206, 186, 197, 234, 38,
   44, 83, 13, 110, 133, 40, 132, 9, 211, 223, 205, 244, 65, 129, 77, 82,
   106, 220, 55, 200, 108, 193, 171, 250, 36, 225, 123, 8, 12, 189, 177, 74,
   120, 136, 149, 139, 227, 99, 232, 109, 233, 203, 213, 254, 59, 0, 29, 57,
   242, 239, 183, 14, 102, 88, 208, 228, 166, 119, 114, 248, 235, 117, 75, 10,
   49, 68, 80, 180, 143, 237, 31, 26, 219, 153, 141, 51, 159, 17, 131, 20]"

text \<open>The context (\<open>sph_md2.h\<close>); \<open>buf\<close>, which is there for alignment only, is left out.\<close>

record md2_context =
  md2_X :: bytes
  md2_C :: bytes
  md2_L :: u32
  md2_count :: u32

text \<open>The checksum loop of \<open>md2_round\<close>: the new \<open>C\<close> and \<open>L\<close>.\<close>

definition md2_checksum_step :: "bytes \<Rightarrow> bytes \<times> u32 \<Rightarrow> nat \<Rightarrow> bytes \<times> u32" where
  "md2_checksum_step X s j =
     (case s of (C, L) \<Rightarrow>
        let c = C ! j XOR md2_S ! unat ((ucast (X ! (j + 16)) :: u32) XOR L)
        in (C[j := c], ucast c))"

text \<open>The third part of the block: through the words of the union, or byte by byte.\<close>

definition md2_xor_words :: "arch \<Rightarrow> bytes \<Rightarrow> bytes" where
  "md2_xor_words a X =
     foldl (\<lambda>X i. mem_write X (4 * (i + 8))
         (store32 a (load32 a (drop (4 * (i + 4)) X) XOR load32 a (drop (4 * i) X)))) X [0..<4]"

definition md2_xor_bytes :: "bytes \<Rightarrow> bytes" where
  "md2_xor_bytes X =
     (let
          X = X[32 := X ! 16 XOR X ! 0];
          X = X[33 := X ! 17 XOR X ! 1];
          X = X[34 := X ! 18 XOR X ! 2];
          X = X[35 := X ! 19 XOR X ! 3];
          X = X[36 := X ! 20 XOR X ! 4];
          X = X[37 := X ! 21 XOR X ! 5];
          X = X[38 := X ! 22 XOR X ! 6];
          X = X[39 := X ! 23 XOR X ! 7];
          X = X[40 := X ! 24 XOR X ! 8];
          X = X[41 := X ! 25 XOR X ! 9];
          X = X[42 := X ! 26 XOR X ! 10];
          X = X[43 := X ! 27 XOR X ! 11];
          X = X[44 := X ! 28 XOR X ! 12];
          X = X[45 := X ! 29 XOR X ! 13];
          X = X[46 := X ! 30 XOR X ! 14];
          X = X[47 := X ! 31 XOR X ! 15]
      in X)"

text \<open>The mixing: \<open>t = (X[i] ^= S[t])\<close>, eight times per turn, six turns per pass, 18 passes.\<close>

definition md2_step :: "bytes \<times> u32 \<Rightarrow> nat \<Rightarrow> bytes \<times> u32" where
  "md2_step s i = (case s of (X, t) \<Rightarrow> let x = X ! i XOR md2_S ! unat t in (X[i := x], ucast x))"

definition md2_eight :: "bytes \<times> u32 \<Rightarrow> nat \<Rightarrow> bytes \<times> u32" where
  "md2_eight s k =
     (let (X, t) = s;
          (X, t) = md2_step (X, t) (k + 0);
          (X, t) = md2_step (X, t) (k + 1);
          (X, t) = md2_step (X, t) (k + 2);
          (X, t) = md2_step (X, t) (k + 3);
          (X, t) = md2_step (X, t) (k + 4);
          (X, t) = md2_step (X, t) (k + 5);
          (X, t) = md2_step (X, t) (k + 6);
          (X, t) = md2_step (X, t) (k + 7)
      in (X, t))"

definition md2_pass :: "bytes \<times> u32 \<Rightarrow> nat \<Rightarrow> bytes \<times> u32" where
  "md2_pass s j =
     (let (X, t) = foldl md2_eight s (map (\<lambda>i. 8 * i) [0..<6])
      in (X, (t + of_nat j) AND 0xFF))"

definition md2_round :: "arch \<Rightarrow> md2_context \<Rightarrow> md2_context" where
  "md2_round a mc =
     (let (C, L) = foldl (md2_checksum_step (md2_X mc)) (md2_C mc, md2_L mc) [0..<16];
          mc = mc\<lparr>md2_C := C, md2_L := L\<rparr>;
          mc = mc\<lparr>md2_X := (if SPH_UPTR a then md2_xor_words a (md2_X mc) else md2_xor_bytes (md2_X mc))\<rparr>;
          (X, t) = foldl md2_pass (md2_X mc, 0) [0..<18]
      in mc\<lparr>md2_X := X\<rparr>)"

definition sph_md2_init :: "md2_context \<Rightarrow> md2_context" where
  "sph_md2_init mc =
     mc\<lparr>md2_X := mem_write (md2_X mc) 0 (replicate 16 0), md2_C := replicate 16 0, md2_L := 0, md2_count := 0\<rparr>"

text \<open>The loop over the complete blocks of an update: the remaining data and the context.\<close>

fun md2_blocks_loop :: "arch \<Rightarrow> bytes \<Rightarrow> md2_context \<Rightarrow> bytes \<times> md2_context" where
  "md2_blocks_loop a data mc =
     (if 16 \<le> length data
      then md2_blocks_loop a (drop 16 data) (md2_round a (mc\<lparr>md2_X := mem_write (md2_X mc) 16 (take 16 data)\<rparr>))
      else (data, mc))"

declare md2_blocks_loop.simps [simp del]

definition sph_md2 :: "arch \<Rightarrow> bytes \<Rightarrow> md2_context \<Rightarrow> md2_context" where
  "sph_md2 a data mc =
     (let current = unat (md2_count mc);
          (data, mc) =
            (if current > 0 then
               let clen = 16 - current;
                   clen = (if clen > length data then length data else clen);
                   mc = mc\<lparr>md2_X := mem_write (md2_X mc) (16 + current) (take clen data)\<rparr>;
                   data = drop clen data;
                   current = current + clen
               in if current = 16 then (data, md2_round a mc) else (data, mc)
             else (data, mc));
          (data, mc) = md2_blocks_loop a data mc;
          mc = mc\<lparr>md2_X := mem_write (md2_X mc) 16 data\<rparr>
      in mc\<lparr>md2_count := of_nat (length data)\<rparr>)"

definition sph_md2_close :: "arch \<Rightarrow> md2_context \<Rightarrow> bytes \<times> md2_context" where
  "sph_md2_close a mc =
     (let u = unat (md2_count mc);
          v = 16 - u;
          mc = mc\<lparr>md2_X := mem_write (md2_X mc) (16 + u) (replicate v (of_nat v))\<rparr>;
          mc = md2_round a mc;
          mc = mc\<lparr>md2_X := mem_write (md2_X mc) 16 (md2_C mc)\<rparr>;
          mc = md2_round a mc;
          dst = take 16 (md2_X mc)
      in (dst, sph_md2_init mc))"

section \<open>RFC 1319\<close>

definition md2_checksum :: "bytes \<times> u8 \<Rightarrow> bytes \<Rightarrow> bytes \<times> u8" where
  "md2_checksum s b =
     foldl (\<lambda>(C, L) j. let c = C ! j XOR md2_S ! unat (b ! j XOR L) in (C[j := c], c)) s [0..<16]"

definition md2_mix :: "bytes \<Rightarrow> bytes" where
  "md2_mix X =
     fst (foldl (\<lambda>s j. case foldl (\<lambda>(X, t) k. let x = X ! k XOR md2_S ! unat t in (X[k := x], x)) s [0..<48]
            of (X, t) \<Rightarrow> (X, t + of_nat j)) (X, 0 :: u8) [0..<18])"

definition md2_block :: "bytes \<Rightarrow> bytes \<Rightarrow> bytes" where
  "md2_block X b = take 16 (md2_mix (X @ b @ map2 (XOR) b X))"

definition md2_pad :: "bytes \<Rightarrow> bytes" where
  "md2_pad m = (let v = 16 - length m mod 16 in m @ replicate v (of_nat v))"

definition rfc_md2 :: "bytes \<Rightarrow> bytes" where
  "rfc_md2 m =
     (let p = md2_pad m;
          c = fst (foldl md2_checksum (replicate 16 0, 0) (blocks 16 p))
      in foldl md2_block (replicate 16 0) (blocks 16 (p @ c)))"

section \<open>The round\<close>

lemma length_md2_S [simp]: "length md2_S = 256"
  by (simp add: md2_S_def)

lemma unat_ucast_byte [simp]: "unat (ucast (x :: u8) :: u32) = unat x"
  by transfer simp

lemma ucast_xor_byte: "(ucast x :: u32) XOR ucast y = ucast (x XOR y :: u8)"
  by (rule bit_word_eqI) (auto simp: bit_simps)

lemma add_and_0xFF: "((ucast (u :: u8) :: u32) + of_nat j) AND 0xFF = ucast (u + of_nat j)"
proof -
  have m: "w AND 0xFF = take_bit 8 w" for w :: u32
    by (simp add: take_bit_eq_mask mask_eq_exp_minus_1)
  have "unat (take_bit 8 ((ucast u :: u32) + of_nat j)) = (unat u + j) mod 256"
    by (simp add: unsigned_take_bit_eq take_bit_eq_mod unat_word_ariths unat_of_nat mod_mod_cancel mod_simps)
  moreover have "unat (ucast (u + of_nat j) :: u32) = (unat u + j) mod 256"
    by (simp add: unat_word_ariths unat_of_nat mod_simps)
  ultimately show ?thesis unfolding m by (simp add: word_unat_eq_iff)
qed

lemma md2_checksum_round:
  assumes "length X = 48"
  shows "foldl (md2_checksum_step X) (C, ucast L) [0..<16] =
    (case md2_checksum (C, L) (take 16 (drop 16 X)) of (C, L) \<Rightarrow> (C, ucast L))"
proof -
  have "foldl (md2_checksum_step X) (C, ucast L) [0..<n] =
    (case foldl (\<lambda>(C, L) j. let c = C ! j XOR md2_S ! unat (take 16 (drop 16 X) ! j XOR L) in (C[j := c], c)) (C, L) [0..<n]
      of (C, L) \<Rightarrow> (C, ucast L))" if "n \<le> 16" for n
    using that
  proof (induction n)
    case (Suc n)
    then show ?case using assms
      by (simp add: md2_checksum_step_def Let_def ucast_xor_byte add.commute split: prod.split)
  qed simp
  from this [of 16] show ?thesis by (simp add: md2_checksum_def del: upt_Suc)
qed

lemma md2_eight_steps: "md2_eight s k = foldl md2_step s [k..<k + 8]"
  unfolding upt_8 by (cases s) (simp add: md2_eight_def Let_def case_prod_beta)

lemma md2_pass_mix:
  "md2_pass (X, ucast t) j =
     (case foldl (\<lambda>(X, t) k. let x = X ! k XOR md2_S ! unat t in (X[k := x], x)) (X, t) [0..<48]
        of (X, t) \<Rightarrow> (X, ucast (t + of_nat j :: u8)))"
proof -
  have "foldl md2_step (X, ucast t) [0..<n] =
    (case foldl (\<lambda>(X, t) k. let x = X ! k XOR md2_S ! unat t in (X[k := x], x)) (X, t) [0..<n]
      of (X, t) \<Rightarrow> (X, ucast t))" for n
    by (induction n) (simp_all add: md2_step_def Let_def split: prod.split)
  moreover have "foldl md2_eight s (map (\<lambda>i. 8 * i) [0..<6]) = foldl md2_step s [0..<48]" for s
    using foldl_unrolled [of md2_eight md2_step 8 s 6] md2_eight_steps by simp
  ultimately show ?thesis by (simp add: md2_pass_def add_and_0xFF split: prod.split del: upt_Suc)
qed

lemma foldl_md2_pass: "fst (foldl md2_pass (X, 0) [0..<18]) = md2_mix X"
proof -
  have "foldl md2_pass (X, ucast t) [0..<n] =
    (case foldl (\<lambda>s j. case foldl (\<lambda>(X, t) k. let x = X ! k XOR md2_S ! unat t in (X[k := x], x)) s [0..<48]
            of (X, t) \<Rightarrow> (X, t + of_nat j)) (X, t :: u8) [0..<n] of (X, t) \<Rightarrow> (X, ucast t))" for t n
    by (induction n) (simp_all add: md2_pass_mix split: prod.split)
  from this [of 0 18] show ?thesis by (simp add: md2_mix_def split: prod.split del: upt_Suc)
qed

lemma length_foldl_fst:
  "(\<And>s k. length (fst (g s k)) = length (fst s)) \<Longrightarrow> length (fst (foldl g s ks)) = length (fst s)"
  by (induction ks arbitrary: s) simp_all

lemma length_md2_mix [simp]: "length (md2_mix X) = length X"
  unfolding md2_mix_def
  by (rule trans [OF length_foldl_fst], simp only: case_prod_beta fst_conv, rule length_foldl_fst)
     (simp_all add: Let_def case_prod_beta)

text \<open>The two ways to compute the third part of the block.\<close>

lemma store32_xor:
  "store32 a (load32 a (a0 # a1 # a2 # a3 # r) XOR load32 a (b0 # b1 # b2 # b3 # s)) =
     [a0 XOR b0, a1 XOR b1, a2 XOR b2, a3 XOR b3]"
  by (cases "SPH_LITTLE_ENDIAN a")
     (simp_all add: load32_def store32_def, (intro conjI word8_eqI; simp add: bits_simps)+)

lemma upt_from_2: "[0..<48] = 0 # 1 # [2..<48 :: nat]" "[0..<32] = 0 # 1 # [2..<32 :: nat]"
    "[0..<4] = [0, 1, 2, 3 :: nat]"
  by (simp_all add: upt_conv_Cons numeral_2_eq_2)

lemma md2_xor_map:
  "md2_xor_bytes (map f [0..<48]) = map f [0..<32] @ map (\<lambda>i. f i XOR f (i - 16)) [16..<32]"
  "md2_xor_words a (map f [0..<48]) = map f [0..<32] @ map (\<lambda>i. f i XOR f (i - 16)) [16..<32]"
  by (simp_all add: md2_xor_bytes_def md2_xor_words_def upt_from_2 Let_def store32_xor mem_write_def)

lemma md2_xor:
  assumes "length x = 16" and "length b = 16" and "length y = 16"
  shows "md2_xor_bytes (x @ b @ y) = x @ b @ map2 (XOR) b x" "md2_xor_words a (x @ b @ y) = x @ b @ map2 (XOR) b x"
proof -
  let ?X = "x @ b @ y"
  have X: "?X = map ((!) ?X) [0..<48]" by (rule nth_equalityI) (simp_all add: assms)
  have "map ((!) ?X) [0..<32] @ map (\<lambda>i. ?X ! i XOR ?X ! (i - 16)) [16..<32] = x @ b @ map2 (XOR) b x"
    by (rule nth_equalityI) (auto simp: assms nth_append simp del: upt_Suc upt_rec_numeral)
  then show "md2_xor_bytes ?X = x @ b @ map2 (XOR) b x" "md2_xor_words a ?X = x @ b @ map2 (XOR) b x"
    using md2_xor_map [where f = "(!) ?X"] X by metis+
qed

text \<open>So a round is the checksum and the block function of the RFC.\<close>

lemma md2_round_block:
  assumes "length x = 16" and "length b = 16" and "length y = 16" and "md2_checksum (C, L) b = (C', L')"
  shows "\<exists>z. md2_round a \<lparr>md2_X = x @ b @ y, md2_C = C, md2_L = ucast L, md2_count = n\<rparr> =
     \<lparr>md2_X = md2_block x b @ z, md2_C = C', md2_L = ucast L', md2_count = n\<rparr> \<and> length z = 32"
proof -
  have c: "foldl (md2_checksum_step (x @ b @ y)) (C, ucast L) [0..<16] = (C', ucast L')"
    using md2_checksum_round [of "x @ b @ y" C L] assms by simp
  let ?m = "md2_mix (x @ b @ map2 (XOR) b x)"
  have "?m = md2_block x b @ drop 16 ?m" by (simp add: md2_block_def)
  moreover have "length (drop 16 ?m) = 32" by (simp add: assms)
  ultimately show ?thesis
    using foldl_md2_pass [of "x @ b @ map2 (XOR) b x"]
    by (auto simp: md2_round_def Let_def c md2_xor assms split: prod.split simp del: upt_Suc)
qed

section \<open>What a context represents\<close>

lemma length_md2_block [simp]: "length x = 16 \<Longrightarrow> length b = 16 \<Longrightarrow> length (md2_block x b) = 16"
  by (simp add: md2_block_def)

lemma length_md2_checksum [simp]: "length (fst (md2_checksum s b)) = length (fst s)"
  unfolding md2_checksum_def by (rule length_foldl_fst) (simp add: Let_def case_prod_beta)

text \<open>The blocks of \<open>m\<close> have been absorbed; the rest of \<open>m\<close> is in the second part of the buffer.\<close>

definition md2_at :: "bytes \<Rightarrow> md2_context \<Rightarrow> bool" where
  "md2_at m mc \<longleftrightarrow>
     length (md2_X mc) = 48 \<and> take 16 (md2_X mc) = foldl md2_block (replicate 16 0) (blocks 16 m)
     \<and> (\<exists>L. foldl md2_checksum (replicate 16 0, 0) (blocks 16 m) = (md2_C mc, L) \<and> md2_L mc = ucast L)"

definition md2_rep :: "bytes \<Rightarrow> md2_context \<Rightarrow> bool" where
  "md2_rep m mc \<longleftrightarrow>
     md2_at m mc \<and> md2_count mc = of_nat (length m mod 16)
     \<and> take (length m mod 16) (drop 16 (md2_X mc)) = partial_block 16 m"

lemma md2_at_round:
  assumes at: "md2_at m mc" and b: "take 16 (drop 16 (md2_X mc)) = partial_block 16 m @ d"
  shows "md2_at (m @ d) (md2_round a mc)" and "md2_count (md2_round a mc) = md2_count mc"
proof -
  obtain L where L: "foldl md2_checksum (replicate 16 0, 0) (blocks 16 m) = (md2_C mc, L)" "md2_L mc = ucast L"
    using at by (auto simp: md2_at_def)
  let ?x = "take 16 (md2_X mc)" and ?b = "take 16 (drop 16 (md2_X mc))" and ?y = "drop 32 (md2_X mc)"
  have l48: "length (md2_X mc) = 48" using at by (simp add: md2_at_def)
  then have len: "length ?x = 16" "length ?b = 16" "length ?y = 16" by simp_all
  have "?y = drop 16 (drop 16 (md2_X mc))" by simp
  then have X: "md2_X mc = ?x @ ?b @ ?y" by (simp only: append_take_drop_id)
  obtain C' L' where c: "md2_checksum (md2_C mc, L) ?b = (C', L')" by fastforce
  obtain z where z: "md2_round a \<lparr>md2_X = ?x @ ?b @ ?y, md2_C = md2_C mc, md2_L = ucast L, md2_count = md2_count mc\<rparr> =
      \<lparr>md2_X = md2_block ?x ?b @ z, md2_C = C', md2_L = ucast L', md2_count = md2_count mc\<rparr>" and lz: "length z = 32"
    using md2_round_block [OF len c] by blast
  have round: "md2_round a mc = \<lparr>md2_X = md2_block ?x ?b @ z, md2_C = C', md2_L = ucast L', md2_count = md2_count mc\<rparr>"
    using z X L(2) by (metis md2_context.surjective old.unit.exhaust)
  have "blocks 16 (m @ d) = blocks 16 m @ blocks 16 ?b"
    unfolding b by (rule split_at_block [of 16 m]) auto
  also have "blocks 16 ?b = [?b]" using len by (intro blocks_one) simp_all
  finally show "md2_at (m @ d) (md2_round a mc)"
    using at len lz by (simp add: md2_at_def round L c)
  show "md2_count (md2_round a mc) = md2_count mc" by (simp add: round)
qed

lemma take_drop_mem_write:
  "off + length src \<le> length xs \<Longrightarrow> take (length src) (drop off (mem_write xs off src)) = src"
  by (simp add: mem_write_def)

lemma md2_at_write:
  "md2_at m mc \<Longrightarrow> 16 + k + length d \<le> 48 \<Longrightarrow> md2_at m (mc\<lparr>md2_X := mem_write (md2_X mc) (16 + k) d\<rparr>)"
  by (auto simp: md2_at_def)

lemma md2_blocks_loop:
  assumes "md2_at m mc" and "16 dvd length m"
  shows "\<exists>h d' mc'. md2_blocks_loop a d mc = (d', mc') \<and> d = h @ d' \<and> 16 dvd length h \<and> length d' < 16
    \<and> md2_at (m @ h) mc'"
  using assms
proof (induction a d mc arbitrary: m rule: md2_blocks_loop.induct)
  case (1 a d mc)
  show ?case
  proof (cases "16 \<le> length d")
    case False
    with 1 show ?thesis by (auto simp: md2_blocks_loop.simps [of a d])
  next
    case True
    let ?mc = "mc\<lparr>md2_X := mem_write (md2_X mc) 16 (take 16 d)\<rparr>"
    have "md2_at m ?mc" using md2_at_write [of m mc 0 "take 16 d"] "1.prems"(1) True by simp
    moreover have "partial_block 16 m = []" using "1.prems"(2) by (simp add: partial_block_def)
    moreover have "length (md2_X mc) = 48" using "1.prems"(1) by (simp add: md2_at_def)
    then have "take 16 (drop 16 (md2_X ?mc)) = take 16 d"
      using take_drop_mem_write [of 16 "take 16 d" "md2_X mc"] True by simp
    ultimately have "md2_at (m @ take 16 d) (md2_round a ?mc)" by (intro md2_at_round) simp_all
    with "1.IH" [OF True, of "m @ take 16 d"] "1.prems"(2) True
    obtain h d' mc' where "md2_blocks_loop a (drop 16 d) (md2_round a ?mc) = (d', mc')" "drop 16 d = h @ d'"
        "16 dvd length h" "length d' < 16" "md2_at (m @ take 16 d @ h) mc'"
      by auto
    moreover from this(2) have "d = (take 16 d @ h) @ d'" by (metis append_assoc append_take_drop_id)
    moreover have "md2_blocks_loop a d mc = md2_blocks_loop a (drop 16 d) (md2_round a ?mc)"
      using True by (subst md2_blocks_loop.simps) simp
    moreover have "16 dvd length (take 16 d @ h)" using \<open>16 dvd length h\<close> True by simp
    ultimately show ?thesis by (metis append_assoc)
  qed
qed

text \<open>Initialisation, an update that fills the block or finds the buffer empty, and one that does not.\<close>

lemma md2_init_rep: "length (md2_X mc) = 48 \<Longrightarrow> md2_rep [] (sph_md2_init mc)"
  by (simp add: md2_rep_def md2_at_def sph_md2_init_def mem_write_def partial_block_def)

text \<open>The part of an update after the buffered block: the loop and the copy of the rest.\<close>

lemma md2_rest_rep:
  assumes at: "md2_at m mc" and m: "16 dvd length m"
  shows "md2_rep (m @ d) (let (data, mc) = md2_blocks_loop a d mc; mc = mc\<lparr>md2_X := mem_write (md2_X mc) 16 data\<rparr>
     in mc\<lparr>md2_count := of_nat (length data)\<rparr>)"
proof -
  obtain h d' mc' where loop: "md2_blocks_loop a d mc = (d', mc')" and d: "d = h @ d'" and h: "16 dvd length h"
      and d': "length d' < 16" and at': "md2_at (m @ h) mc'"
    using md2_blocks_loop [OF assms] by blast
  have "blocks 16 (m @ h @ d') = blocks 16 (m @ h)"
    using blocks_append [of 16 "m @ h" d'] m h d' by simp
  moreover have "md2_at (m @ h) (mc'\<lparr>md2_X := mem_write (md2_X mc') 16 d'\<rparr>)"
    using md2_at_write [OF at', of 0 d'] d' by simp
  ultimately have "md2_at (m @ d) (mc'\<lparr>md2_X := mem_write (md2_X mc') 16 d'\<rparr>)"
    by (simp add: md2_at_def d)
  moreover have mod: "length (m @ d) mod 16 = length d'"
    using m h d' by (auto simp: d elim!: dvdE)
  moreover have "partial_block 16 (m @ d) = d'"
  proof -
    have "length (m @ d) div 16 * 16 = length (m @ h)"
      using mod d by (metis append_assoc div_mult_mod_eq add_right_cancel length_append)
    then show ?thesis by (simp add: partial_block_def d)
  qed
  moreover have "length (md2_X mc') = 48" using at' by (simp add: md2_at_def)
  then have "take (length d') (drop 16 (mem_write (md2_X mc') 16 d')) = d'"
    using d' by (intro take_drop_mem_write) simp
  ultimately show ?thesis
    by (simp add: loop md2_rep_def md2_at_def)
qed

lemma md2_count_of:
  "md2_rep m mc \<Longrightarrow> unat (md2_count mc) = length m mod 16"
  by (simp add: md2_rep_def unat_of_nat)

lemma md2_at_complete: "md2_at (take (length m div 16 * 16) m) mc = md2_at m mc"
proof -
  have "blocks 16 (take (length m div 16 * 16) m) = blocks 16 m"
  proof (rule split_at_block [of 16 m])
    fix h assume h: "m = h @ partial_block 16 m" and b: "blocks 16 h = blocks 16 m"
    have "length h = length m div 16 * 16"
      using arg_cong [OF h, of length] by (simp add: minus_mod_eq_div_mult [symmetric])
    then have "take (length m div 16 * 16) m = h" by (metis append_eq_conv_conj h)
    with b show ?thesis by simp
  qed simp
  then show ?thesis by (simp add: md2_at_def)
qed

lemma sph_md2_rep:
  assumes rep: "md2_rep m mc" and fill: "length m mod 16 = 0 \<or> 16 \<le> length m mod 16 + length d"
  shows "md2_rep (m @ d) (sph_md2 a d mc)"
proof (cases "length m mod 16 = 0")
  case True
  with rep have "md2_at m mc" "16 dvd length m" by (auto simp: md2_rep_def dvd_eq_mod_eq_0)
  from md2_rest_rep [OF this, of d a] show ?thesis
    by (simp add: sph_md2_def md2_count_of [OF rep] True)
next
  case False
  let ?r = "length m mod 16"
  let ?t = "16 - ?r"
  have r: "?r < 16" and len: "?t \<le> length d" using False fill by simp_all
  let ?mc = "mc\<lparr>md2_X := mem_write (md2_X mc) (16 + ?r) (take ?t d)\<rparr>"
  have at: "md2_at m ?mc" using rep r len by (intro md2_at_write) (simp_all add: md2_rep_def)
  have "length (md2_X mc) = 48" using rep by (simp add: md2_rep_def md2_at_def)
  then have "take 16 (drop 16 (md2_X ?mc)) = take ?r (drop 16 (md2_X mc)) @ take ?t d"
    using r len by (simp add: mem_write_def drop_take min_def)
  then have buf: "take 16 (drop 16 (md2_X ?mc)) = partial_block 16 m @ take ?t d"
    using rep by (simp add: md2_rep_def)
  have "16 dvd length (m @ take ?t d)"
    using len r by (simp add: min_def dvd_eq_mod_eq_0 mod_add_left_eq [symmetric, of "length m"])
  from md2_rest_rep [OF md2_at_round(1) [OF at buf] this, of "drop ?t d" a] show ?thesis
    using False r len by (simp add: sph_md2_def Let_def md2_count_of [OF rep] not_less)
qed

text \<open>
  The other case: the buffered bytes and the new ones do not fill a block. The copy at the end of the
  function then takes place with no data left, and the count becomes 0.
\<close>

lemma sph_md2_loses:
  assumes rep: "md2_rep m mc" and "length m mod 16 \<noteq> 0" and "length m mod 16 + length d < 16"
  shows "md2_rep (take (length m div 16 * 16) m) (sph_md2 a d mc)"
proof -
  let ?mc = "mc\<lparr>md2_X := mem_write (md2_X mc) (16 + length m mod 16) d\<rparr>"
  have "md2_at m ?mc" using rep assms by (intro md2_at_write) (simp_all add: md2_rep_def)
  then have "md2_at (take (length m div 16 * 16) m) ?mc" by (simp only: md2_at_complete)
  moreover have "16 dvd length (take (length m div 16 * 16) m)"
    by (simp only: length_take min.absorb2 div_times_less_eq_dividend dvd_triv_right)
  ultimately have "md2_rep (take (length m div 16 * 16) m @ [])
      (let (data, mc) = md2_blocks_loop a [] ?mc; mc = mc\<lparr>md2_X := mem_write (md2_X mc) 16 data\<rparr>
        in mc\<lparr>md2_count := of_nat (length data)\<rparr>)" by (rule md2_rest_rep)
  moreover have "length d < 16 - length m mod 16" using assms(3) by simp
  ultimately show ?thesis
    using assms(2,3) by (simp add: sph_md2_def Let_def md2_count_of [OF rep])
qed

section \<open>Closing\<close>

lemma sph_md2_close_rep:
  assumes rep: "md2_rep m mc"
  shows "fst (sph_md2_close a mc) = rfc_md2 m" and "md2_rep [] (snd (sph_md2_close a mc))"
proof -
  let ?r = "length m mod 16"
  let ?p = "replicate (16 - ?r) (of_nat (16 - ?r)) :: bytes"
  have r: "?r < 16" by simp
  have at: "md2_at m mc" and "length (md2_X mc) = 48" using rep by (simp_all add: md2_rep_def md2_at_def)
  let ?m1 = "mc\<lparr>md2_X := mem_write (md2_X mc) (16 + ?r) ?p\<rparr>"
  have at1: "md2_at m ?m1" using at r by (intro md2_at_write) simp_all
  have "take 16 (drop 16 (md2_X ?m1)) = take ?r (drop 16 (md2_X mc)) @ ?p"
    using r \<open>length (md2_X mc) = 48\<close> by (simp add: mem_write_def drop_take min_def)
  then have b1: "take 16 (drop 16 (md2_X ?m1)) = partial_block 16 m @ ?p"
    using rep by (simp add: md2_rep_def)
  let ?m2 = "md2_round a ?m1"
  have at2: "md2_at (m @ ?p) ?m2" by (rule md2_at_round(1) [OF at1 b1])
  have p: "m @ ?p = md2_pad m" by (simp add: md2_pad_def Let_def)
  have "length (m @ ?p) = length m div 16 * 16 + 16"
    using r div_mult_mod_eq [of "length m" 16] by (simp only: length_append length_replicate)
  then have "16 dvd length (m @ ?p)" by simp
  then have e: "partial_block 16 (m @ ?p) = []" by (simp add: partial_block_def)
  let ?m3 = "?m2\<lparr>md2_X := mem_write (md2_X ?m2) 16 (md2_C ?m2)\<rparr>"
  have C: "length (md2_C ?m2) = 16" and c: "md2_C ?m2 = fst (foldl md2_checksum (replicate 16 0, 0) (blocks 16 (md2_pad m)))"
  proof -
    show c: "md2_C ?m2 = fst (foldl md2_checksum (replicate 16 0, 0) (blocks 16 (md2_pad m)))"
      using at2 unfolding p by (auto simp: md2_at_def)
    show "length (md2_C ?m2) = 16" unfolding c by (simp add: length_foldl_fst)
  qed
  have at3: "md2_at (m @ ?p) ?m3" using md2_at_write [OF at2, of 0 "md2_C ?m2"] C by simp
  have "length (md2_X ?m2) = 48" using at2 by (simp add: md2_at_def)
  then have "take 16 (drop 16 (md2_X ?m3)) = partial_block 16 (m @ ?p) @ md2_C ?m2"
    using take_drop_mem_write [of 16 "md2_C ?m2" "md2_X ?m2"] C unfolding e by simp
  then have at4: "md2_at ((m @ ?p) @ md2_C ?m2) (md2_round a ?m3)" by (rule md2_at_round(1) [OF at3])
  have close: "sph_md2_close a mc = (take 16 (md2_X (md2_round a ?m3)), sph_md2_init (md2_round a ?m3))"
    by (simp add: sph_md2_close_def Let_def md2_count_of [OF rep])
  show "fst (sph_md2_close a mc) = rfc_md2 m"
    using at4 unfolding close p c by (simp add: md2_at_def rfc_md2_def Let_def)
  show "md2_rep [] (snd (sph_md2_close a mc))"
    using at4 unfolding close by (simp add: md2_init_rep md2_at_def)
qed

section \<open>Properties\<close>

text \<open>The message that a context represents after an update, as the two lemmas above say.\<close>

definition md2_kept :: "bytes \<Rightarrow> bytes \<Rightarrow> bytes" where
  "md2_kept m d =
     (if length m mod 16 = 0 \<or> 16 \<le> length m mod 16 + length d then m @ d
      else take (length m div 16 * 16) m)"

lemma foldl_sph_md2: "md2_rep m mc \<Longrightarrow> md2_rep (foldl md2_kept m ds) (foldl (\<lambda>c d. sph_md2 a d c) mc ds)"
  by (induction ds arbitrary: m mc) (simp_all add: md2_kept_def sph_md2_rep sph_md2_loses)

text \<open>The cuts for which nothing is lost: each piece finds the buffer empty or completes the block.\<close>

fun md2_cut_ok :: "nat \<Rightarrow> bytes list \<Rightarrow> bool" where
  "md2_cut_ok l [] = True"
| "md2_cut_ok l (d # ds) \<longleftrightarrow> (l mod 16 = 0 \<or> 16 \<le> l mod 16 + length d) \<and> md2_cut_ok (l + length d) ds"

lemma md2_cut_ok_kept: "md2_cut_ok (length m) ds \<Longrightarrow> foldl md2_kept m ds = m @ concat ds"
  by (induction ds arbitrary: m) (auto simp: md2_kept_def)

text \<open>
  A message given to \<open>sph_md2\<close> in pieces each of which finds the buffer empty or completes the
  block (so in particular in one piece) has the digest of RFC 1319, and the closed context is ready
  for the next message.
\<close>

theorem sph_md2_correct:
  assumes "length (md2_X mc) = 48" and "md2_cut_ok 0 ds"
  shows "fst (sph_md2_close a (foldl (\<lambda>c d. sph_md2 a d c) (sph_md2_init mc) ds)) = rfc_md2 (concat ds)
    \<and> md2_rep [] (snd (sph_md2_close a (foldl (\<lambda>c d. sph_md2 a d c) (sph_md2_init mc) ds)))"
  using sph_md2_close_rep [OF foldl_sph_md2 [OF md2_init_rep [OF assms(1)]]] md2_cut_ok_kept [of "[]" ds] assms(2)
  by simp

theorem sph_md2_correct_witness:
  "fst (sph_md2_close (arch_of AMD64) (foldl (\<lambda>c d. sph_md2 (arch_of AMD64) d c)
     (sph_md2_init \<lparr>md2_X = replicate 48 9, md2_C = [], md2_L = 3, md2_count = 4\<rparr>)
     [replicate 20 1, replicate 13 2, replicate 15 3, [5]]))
   = rfc_md2 (concat [replicate 20 1, replicate 13 2, replicate 15 3, [5]])"
  by (rule conjunct1, rule sph_md2_correct) simp_all

text \<open>
  C40. What \<open>sph_md2\<close> does with any cut of the message: a piece that neither finds the buffer empty nor
  completes the block is lost together with the buffered bytes, so that the digest is that of
  another message.
\<close>

theorem sph_md2_loses_data:
  assumes "length (md2_X mc) = 48"
  shows "fst (sph_md2_close a (foldl (\<lambda>c d. sph_md2 a d c) (sph_md2_init mc) ds)) = rfc_md2 (foldl md2_kept [] ds)
    \<and> fst (sph_md2_close a (sph_md2 a [0x62] (sph_md2 a [0x61] (sph_md2_init mc)))) = rfc_md2 []
    \<and> fst (sph_md2_close a (sph_md2 a [] (sph_md2 a [0x61] (sph_md2_init mc)))) = rfc_md2 []"
proof -
  have d: "fst (sph_md2_close a (foldl (\<lambda>c d. sph_md2 a d c) (sph_md2_init mc) ds)) = rfc_md2 (foldl md2_kept [] ds)" for ds
    by (rule sph_md2_close_rep(1) [OF foldl_sph_md2 [OF md2_init_rep [OF assms]]])
  from d d [of "[[0x61], [0x62]]"] d [of "[[0x61], []]"] show ?thesis
    by (simp add: md2_kept_def)
qed

theorem sph_md2_loses_data_witness:
  "fst (sph_md2_close (arch_of AMD64) (sph_md2 (arch_of AMD64) [0x62] (sph_md2 (arch_of AMD64) [0x61]
     (sph_md2_init \<lparr>md2_X = replicate 48 0, md2_C = [], md2_L = 0, md2_count = 0\<rparr>)))) = rfc_md2 []"
  using sph_md2_loses_data [of "\<lparr>md2_X = replicate 48 0, md2_C = [], md2_L = 0, md2_count = 0\<rparr>"] by simp

text \<open>
  A round is the block function of the RFC, and does not depend on the platform: the third part of
  the buffer is the same by 32-bit words of either byte order and byte by byte.
\<close>

theorem md2_round_correct:
  assumes "length (md2_X mc) = 48"
  shows "md2_round a mc = md2_round b mc
    \<and> take 16 (md2_X (md2_round a mc)) = md2_block (take 16 (md2_X mc)) (take 16 (drop 16 (md2_X mc)))"
proof
  let ?X = "md2_X mc"
  have X: "?X = take 16 ?X @ take 16 (drop 16 ?X) @ drop 32 ?X"
    using append_take_drop_id [of 16 ?X] append_take_drop_id [of 16 "drop 16 ?X"] by simp
  have w: "md2_xor_words c ?X = md2_xor_bytes ?X" for c
    using X md2_xor [of "take 16 ?X" "take 16 (drop 16 ?X)" "drop 32 ?X"] assms by simp
  then show "md2_round a mc = md2_round b mc" by (simp add: md2_round_def Let_def split: prod.split del: upt_Suc)
  have "md2_xor_bytes ?X = take 16 ?X @ take 16 (drop 16 ?X) @ map2 (XOR) (take 16 (drop 16 ?X)) (take 16 ?X)"
    using X md2_xor(1) [of "take 16 ?X" "take 16 (drop 16 ?X)" "drop 32 ?X"] assms by simp
  then have "md2_X (md2_round a mc) = md2_mix (take 16 ?X @ take 16 (drop 16 ?X) @ map2 (XOR) (take 16 (drop 16 ?X)) (take 16 ?X))"
    by (simp add: md2_round_def Let_def w foldl_md2_pass [symmetric] split: prod.split del: upt_Suc)
  then show "take 16 (md2_X (md2_round a mc)) = md2_block (take 16 ?X) (take 16 (drop 16 ?X))"
    by (simp add: md2_block_def)
qed

theorem md2_round_correct_witness:
  "md2_round (arch_of AMD64) \<lparr>md2_X = replicate 48 7, md2_C = replicate 16 0, md2_L = 0, md2_count = 0\<rparr>
   = md2_round (arch_of Arm_el) \<lparr>md2_X = replicate 48 7, md2_C = replicate 16 0, md2_L = 0, md2_count = 0\<rparr>"
  by (rule conjunct1, rule md2_round_correct) simp

end
