(* ===== verification/Ripemd_Spec.thy ===== *)
theory Ripemd_Spec
  imports Md45_Spec
begin

text \<open>
  The RIPEMD functions as their designers define them: the original RIPEMD, whose two lines differ in
  their constants only, and RIPEMD-128 and RIPEMD-160, whose lines read the message words in the
  orders generated by the permutations \<open>rho\<close> and \<open>pi\<close> and rotate by an amount that depends on the
  round and on the word.
\<close>

section \<open>Orders and rotations\<close>

definition rmd_rho :: "nat list" where
  "rmd_rho = [7, 4, 13, 1, 10, 6, 15, 3, 12, 0, 9, 5, 2, 14, 11, 8]"

definition rmd_pi :: "nat list" where
  "rmd_pi = map (\<lambda>i. (9 * i + 5) mod 16) [0..<16]"

text \<open>The words a round reads: \<open>rho\<close> applied once more in each round, from the identity or from \<open>pi\<close>.\<close>

primrec rmd_order :: "nat list \<Rightarrow> nat \<Rightarrow> nat list" where
  "rmd_order ks 0 = ks"
| "rmd_order ks (Suc r) = map (\<lambda>k. rmd_rho ! k) (rmd_order ks r)"

text \<open>The rotation of each message word, in each round.\<close>

definition rmd_shift :: "nat \<Rightarrow> nat list" where
  "rmd_shift r =
     (if r = 0 then [11, 14, 15, 12, 5, 8, 7, 9, 11, 13, 14, 15, 6, 7, 9, 8]
      else if r = 1 then [12, 13, 11, 15, 6, 9, 9, 7, 12, 15, 11, 13, 7, 8, 7, 7]
      else if r = 2 then [13, 15, 14, 11, 7, 7, 6, 8, 13, 14, 13, 12, 5, 5, 6, 9]
      else if r = 3 then [14, 11, 12, 14, 8, 6, 5, 5, 15, 12, 15, 14, 9, 9, 8, 6]
      else [15, 12, 13, 13, 9, 5, 8, 6, 14, 11, 12, 11, 8, 6, 5, 5])"

definition rmd_left :: "nat \<Rightarrow> (nat \<times> nat) list" where
  "rmd_left r = map (\<lambda>k. (k, rmd_shift r ! k)) (rmd_order [0..<16] r)"

definition rmd_right :: "nat \<Rightarrow> (nat \<times> nat) list" where
  "rmd_right r = map (\<lambda>k. (k, rmd_shift r ! k)) (rmd_order rmd_pi r)"

text \<open>The original RIPEMD has orders and rotations of its own.\<close>

definition ormd_ops :: "nat \<Rightarrow> (nat \<times> nat) list" where
  "ormd_ops r =
     (if r = 0 then zip [0..<16] [11, 14, 15, 12, 5, 8, 7, 9, 11, 13, 14, 15, 6, 7, 9, 8]
      else if r = 1 then zip [7, 4, 13, 1, 10, 6, 15, 3, 12, 0, 9, 5, 14, 2, 11, 8]
        [7, 6, 8, 13, 11, 9, 7, 15, 7, 12, 15, 9, 7, 11, 13, 12]
      else zip [3, 10, 2, 4, 9, 15, 8, 1, 14, 7, 0, 6, 11, 13, 5, 12]
        [11, 13, 14, 7, 14, 9, 13, 15, 6, 8, 13, 6, 12, 5, 7, 5])"

section \<open>Functions and constants\<close>

text \<open>The five boolean functions, and the constants: parts of the square and cube roots of 2, 3, 5 and 7.\<close>

definition rmd_f :: "nat \<Rightarrow> u32 \<Rightarrow> u32 \<Rightarrow> u32 \<Rightarrow> u32" where
  "rmd_f j x y z =
     (if j = 0 then x XOR y XOR z else if j = 1 then (x AND y) OR (NOT x AND z)
      else if j = 2 then (x OR NOT y) XOR z else if j = 3 then (x AND z) OR (y AND NOT z)
      else x XOR (y OR NOT z))"

definition rmd_sqrt :: "nat \<Rightarrow> u32" where
  "rmd_sqrt r = (if r = 0 then 0 else if r = 1 then 0x5A827999 else if r = 2 then 0x6ED9EBA1
     else if r = 3 then 0x8F1BBCDC else 0xA953FD4E)"

definition rmd_cbrt :: "nat \<Rightarrow> u32" where
  "rmd_cbrt r = (if r = 0 then 0x50A28BE6 else if r = 1 then 0x5C4DD124 else if r = 2 then 0x6D703EF3
     else if r = 3 then 0x7A6D76E9 else 0)"

section \<open>RIPEMD and RIPEMD-128\<close>

text \<open>Their operation is the one of MD4. The two lines are combined with the words of the state turned by one.\<close>

definition rmd_combine4 :: "u32 list \<Rightarrow> u32 st4 \<Rightarrow> u32 st4 \<Rightarrow> u32 list" where
  "rmd_combine4 h l r =
     (case (l, r) of ((a1, b1, c1, d1), (a2, b2, c2, d2)) \<Rightarrow>
        [h ! 1 + c1 + d2, h ! 2 + d1 + a2, h ! 3 + a1 + b2, h ! 0 + b1 + c2])"

definition ripemd_compress :: "(nat \<Rightarrow> u32) \<Rightarrow> u32 list \<Rightarrow> u32 list" where
  "ripemd_compress X h =
     rmd_combine4 h
       (foldl (md4_op Parity 0x6ED9EBA1 X) (foldl (md4_op Maj 0x5A827999 X)
         (foldl (md4_op Ch 0 X) (st4_of h) (ormd_ops 0)) (ormd_ops 1)) (ormd_ops 2))
       (foldl (md4_op Parity 0x5C4DD124 X) (foldl (md4_op Maj 0 X)
         (foldl (md4_op Ch 0x50A28BE6 X) (st4_of h) (ormd_ops 0)) (ormd_ops 1)) (ormd_ops 2))"

definition rmd128_left :: "(nat \<Rightarrow> u32) \<Rightarrow> u32 st4 \<Rightarrow> nat \<Rightarrow> u32 st4" where
  "rmd128_left X st r = foldl (md4_op (rmd_f r) (rmd_sqrt r) X) st (rmd_left r)"

definition rmd128_right :: "(nat \<Rightarrow> u32) \<Rightarrow> u32 st4 \<Rightarrow> nat \<Rightarrow> u32 st4" where
  "rmd128_right X st r = foldl (md4_op (rmd_f (3 - r)) (if r = 3 then 0 else rmd_cbrt r) X) st (rmd_right r)"

definition ripemd128_compress :: "(nat \<Rightarrow> u32) \<Rightarrow> u32 list \<Rightarrow> u32 list" where
  "ripemd128_compress X h =
     rmd_combine4 h (foldl (rmd128_left X) (st4_of h) [0..<4]) (foldl (rmd128_right X) (st4_of h) [0..<4])"

section \<open>RIPEMD-160\<close>

fun rmd160_op :: "(u32 \<Rightarrow> u32 \<Rightarrow> u32 \<Rightarrow> u32) \<Rightarrow> u32 \<Rightarrow> (nat \<Rightarrow> u32) \<Rightarrow> u32 st5 \<Rightarrow> nat \<times> nat \<Rightarrow> u32 st5" where
  "rmd160_op f K X (a, b, c, d, e) (k, s) =
     (e, word_rotl s (a + f b c d + X k + K) + e, b, word_rotl 10 c, d)"

definition rmd160_left :: "(nat \<Rightarrow> u32) \<Rightarrow> u32 st5 \<Rightarrow> nat \<Rightarrow> u32 st5" where
  "rmd160_left X st r = foldl (rmd160_op (rmd_f r) (rmd_sqrt r) X) st (rmd_left r)"

definition rmd160_right :: "(nat \<Rightarrow> u32) \<Rightarrow> u32 st5 \<Rightarrow> nat \<Rightarrow> u32 st5" where
  "rmd160_right X st r = foldl (rmd160_op (rmd_f (4 - r)) (rmd_cbrt r) X) st (rmd_right r)"

definition rmd_combine5 :: "u32 list \<Rightarrow> u32 st5 \<Rightarrow> u32 st5 \<Rightarrow> u32 list" where
  "rmd_combine5 h l r =
     (case (l, r) of ((a1, b1, c1, d1, e1), (a2, b2, c2, d2, e2)) \<Rightarrow>
        [h ! 1 + c1 + d2, h ! 2 + d1 + e2, h ! 3 + e1 + a2, h ! 4 + a1 + b2, h ! 0 + b1 + c2])"

definition ripemd160_compress :: "(nat \<Rightarrow> u32) \<Rightarrow> u32 list \<Rightarrow> u32 list" where
  "ripemd160_compress X h =
     rmd_combine5 h (foldl (rmd160_left X) (st5_of h) [0..<5]) (foldl (rmd160_right X) (st5_of h) [0..<5])"

section \<open>Lemmas\<close>

lemma upt_turns_16: "[0..<16] = [0, 1, 2, 3, 4, 5, 6, 7, 8, 9, 10, 11, 12, 13, 14, 15 :: nat]"
  by (simp add: upt_conv_Cons)

text \<open>The orders and the operations, written out.\<close>

lemma rmd_order_numeral:
  "rmd_order ks (numeral n) = map (\<lambda>k. rmd_rho ! k) (rmd_order ks (pred_numeral n))"
  by (simp add: numeral_eq_Suc)

lemma rmd_order_at:
  "rmd_order [0..<16] 0 = [0, 1, 2, 3, 4, 5, 6, 7, 8, 9, 10, 11, 12, 13, 14, 15]"
  "rmd_order [0..<16] 1 = [7, 4, 13, 1, 10, 6, 15, 3, 12, 0, 9, 5, 2, 14, 11, 8]"
  "rmd_order [0..<16] 2 = [3, 10, 14, 4, 9, 15, 8, 1, 2, 7, 0, 6, 13, 11, 5, 12]"
  "rmd_order [0..<16] 3 = [1, 9, 11, 10, 0, 8, 12, 4, 13, 3, 7, 15, 14, 5, 6, 2]"
  "rmd_order [0..<16] 4 = [4, 0, 5, 9, 7, 12, 2, 10, 14, 1, 3, 8, 11, 6, 15, 13]"
  "rmd_order rmd_pi 0 = [5, 14, 7, 0, 9, 2, 11, 4, 13, 6, 15, 8, 1, 10, 3, 12]"
  "rmd_order rmd_pi 1 = [6, 11, 3, 7, 0, 13, 5, 10, 14, 15, 8, 12, 4, 9, 1, 2]"
  "rmd_order rmd_pi 2 = [15, 5, 1, 3, 7, 14, 6, 9, 11, 8, 12, 2, 10, 0, 4, 13]"
  "rmd_order rmd_pi 3 = [8, 6, 4, 1, 3, 11, 15, 0, 5, 12, 2, 13, 9, 7, 10, 14]"
  "rmd_order rmd_pi 4 = [12, 15, 10, 4, 1, 5, 8, 7, 6, 2, 13, 14, 0, 3, 9, 11]"
  by (simp_all add: rmd_order_numeral rmd_pi_def rmd_rho_def upt_turns_16)

lemma rmd_ops_at:
  "rmd_left 0 = [(0, 11), (1, 14), (2, 15), (3, 12), (4, 5), (5, 8), (6, 7), (7, 9), (8, 11), (9, 13), (10, 14), (11, 15), (12, 6), (13, 7), (14, 9), (15, 8)]"
  "rmd_left 1 = [(7, 7), (4, 6), (13, 8), (1, 13), (10, 11), (6, 9), (15, 7), (3, 15), (12, 7), (0, 12), (9, 15), (5, 9), (2, 11), (14, 7), (11, 13), (8, 12)]"
  "rmd_left 2 = [(3, 11), (10, 13), (14, 6), (4, 7), (9, 14), (15, 9), (8, 13), (1, 15), (2, 14), (7, 8), (0, 13), (6, 6), (13, 5), (11, 12), (5, 7), (12, 5)]"
  "rmd_left 3 = [(1, 11), (9, 12), (11, 14), (10, 15), (0, 14), (8, 15), (12, 9), (4, 8), (13, 9), (3, 14), (7, 5), (15, 6), (14, 8), (5, 6), (6, 5), (2, 12)]"
  "rmd_left 4 = [(4, 9), (0, 15), (5, 5), (9, 11), (7, 6), (12, 8), (2, 13), (10, 12), (14, 5), (1, 12), (3, 13), (8, 14), (11, 11), (6, 8), (15, 5), (13, 6)]"
  "rmd_right 0 = [(5, 8), (14, 9), (7, 9), (0, 11), (9, 13), (2, 15), (11, 15), (4, 5), (13, 7), (6, 7), (15, 8), (8, 11), (1, 14), (10, 14), (3, 12), (12, 6)]"
  "rmd_right 1 = [(6, 9), (11, 13), (3, 15), (7, 7), (0, 12), (13, 8), (5, 9), (10, 11), (14, 7), (15, 7), (8, 12), (12, 7), (4, 6), (9, 15), (1, 13), (2, 11)]"
  "rmd_right 2 = [(15, 9), (5, 7), (1, 15), (3, 11), (7, 8), (14, 6), (6, 6), (9, 14), (11, 12), (8, 13), (12, 5), (2, 14), (10, 13), (0, 13), (4, 7), (13, 5)]"
  "rmd_right 3 = [(8, 15), (6, 5), (4, 8), (1, 11), (3, 14), (11, 14), (15, 6), (0, 14), (5, 6), (12, 9), (2, 12), (13, 9), (9, 12), (7, 5), (10, 15), (14, 8)]"
  "rmd_right 4 = [(12, 8), (15, 5), (10, 12), (4, 9), (1, 12), (5, 5), (8, 14), (7, 6), (6, 8), (2, 13), (13, 6), (14, 5), (0, 15), (3, 13), (9, 11), (11, 11)]"
  by (simp_all only: rmd_left_def rmd_right_def rmd_order_at list.map) (simp_all add: rmd_shift_def)

lemma ormd_ops_at:
  "ormd_ops 0 = [(0, 11), (1, 14), (2, 15), (3, 12), (4, 5), (5, 8), (6, 7), (7, 9), (8, 11), (9, 13), (10, 14), (11, 15), (12, 6), (13, 7), (14, 9), (15, 8)]"
  "ormd_ops 1 = [(7, 7), (4, 6), (13, 8), (1, 13), (10, 11), (6, 9), (15, 7), (3, 15), (12, 7), (0, 12), (9, 15), (5, 9), (14, 7), (2, 11), (11, 13), (8, 12)]"
  "ormd_ops 2 = [(3, 11), (10, 13), (2, 14), (4, 7), (9, 14), (15, 9), (8, 13), (1, 15), (14, 6), (7, 8), (0, 13), (6, 6), (11, 12), (13, 5), (5, 7), (12, 5)]"
  by (simp_all add: ormd_ops_def upt_conv_Cons)

text \<open>The words that the operations read are those of the block.\<close>

lemma rmd_order_words:
  "\<forall>k\<in>set ks. k < 16 \<Longrightarrow> k \<in> set (rmd_order ks r) \<Longrightarrow> k < 16"
proof (induction r arbitrary: k)
  case (Suc r)
  have "\<forall>j<16. rmd_rho ! j < 16" by (simp add: all_less_numeral rmd_rho_def)
  with Suc show ?case by auto
qed simp

lemma rmd_ops_words:
  "(k, s) \<in> set (rmd_left r) \<Longrightarrow> k < 16" "(k, s) \<in> set (rmd_right r) \<Longrightarrow> k < 16"
  by (auto simp: rmd_left_def rmd_right_def rmd_pi_def dest!: rmd_order_words [rotated])

lemma ormd_ops_words: "r < 3 \<Longrightarrow> (k, s) \<in> set (ormd_ops r) \<Longrightarrow> k < 16"
proof -
  assume "r < 3" and "(k, s) \<in> set (ormd_ops r)"
  then show "k < 16" by (cases "r = 0"; cases "r = 1") (auto simp: ormd_ops_def dest!: set_zip_leftD)
qed

lemma foldl_md4_op_cong:
  assumes "\<And>t. t < 16 \<Longrightarrow> X t = X' t" and "\<And>k s. (k, s) \<in> set ops \<Longrightarrow> k < 16"
  shows "foldl (md4_op f K X) st ops = foldl (md4_op f K X') st ops"
  by (rule foldl_cong) (auto intro!: md4_op_cong assms dest: assms(2))

lemma rmd_compress_cong:
  assumes "\<And>t. t < 16 \<Longrightarrow> X t = X' t"
  shows "ripemd_compress X h = ripemd_compress X' h" "ripemd128_compress X h = ripemd128_compress X' h"
    "ripemd160_compress X h = ripemd160_compress X' h"
proof -
  have o: "foldl (md4_op f K X) st (ormd_ops r) = foldl (md4_op f K X') st (ormd_ops r)" if "r < 3" for f K st r
    by (rule foldl_md4_op_cong [OF assms]) (auto dest: ormd_ops_words [OF that])
  show "ripemd_compress X h = ripemd_compress X' h"
    by (simp add: ripemd_compress_def o)
  have "foldl (md4_op f K X) st (rmd_left r) = foldl (md4_op f K X') st (rmd_left r)"
    "foldl (md4_op f K X) st (rmd_right r) = foldl (md4_op f K X') st (rmd_right r)" for f K st r
    by (rule foldl_md4_op_cong [OF assms]; auto dest: rmd_ops_words)+
  then have "rmd128_left X = rmd128_left X'" "rmd128_right X = rmd128_right X'"
    by (simp_all add: fun_eq_iff rmd128_left_def rmd128_right_def)
  then show "ripemd128_compress X h = ripemd128_compress X' h"
    by (simp add: ripemd128_compress_def)
  have op: "rmd160_op f K X st (k, s) = rmd160_op f K X' st (k, s)" if "k < 16" for f K st k s
    using assms [OF that] by (cases st rule: st5_cases) simp
  have "foldl (rmd160_op f K X) st (rmd_left r) = foldl (rmd160_op f K X') st (rmd_left r)"
    "foldl (rmd160_op f K X) st (rmd_right r) = foldl (rmd160_op f K X') st (rmd_right r)" for f K st r
    by (rule foldl_cong; auto intro!: op dest: rmd_ops_words)+
  then have "rmd160_left X = rmd160_left X'" "rmd160_right X = rmd160_right X'"
    by (simp_all add: fun_eq_iff rmd160_left_def rmd160_right_def)
  then show "ripemd160_compress X h = ripemd160_compress X' h"
    by (simp add: ripemd160_compress_def)
qed

end
