(* ===== verification/Ripemd.thy ===== *)
theory Ripemd
  imports Md_Helper Ripemd_Spec
begin

text \<open>
  \<open>ripemd.c\<close>: the original RIPEMD. The two lines of the compression function are written out on named
  variables, one paragraph of the macro per round; each paragraph is a function here. They are
  shown to be the rounds of the definition, and the digests those of the padded message.
\<close>

section \<open>Functions and tables (lines 41-47, 71-103)\<close>

definition ormd_F :: "u32 \<Rightarrow> u32 \<Rightarrow> u32 \<Rightarrow> u32" where
  "ormd_F x y z = ((y XOR z) AND x) XOR z"

definition ormd_G :: "u32 \<Rightarrow> u32 \<Rightarrow> u32 \<Rightarrow> u32" where
  "ormd_G x y z = (x AND y) OR ((x OR y) AND z)"

definition ormd_H :: "u32 \<Rightarrow> u32 \<Rightarrow> u32 \<Rightarrow> u32" where
  "ormd_H x y z = x XOR y XOR z"

text \<open>The array has five elements and four initialisers.\<close>

definition oIV :: "u32 list" where
  "oIV = [0x67452301, 0xEFCDAB89, 0x98BADCFE, 0x10325476, 0]"

text \<open>The macros assign to their first argument.\<close>

definition FF1 :: "u32 \<Rightarrow> u32 \<Rightarrow> u32 \<Rightarrow> u32 \<Rightarrow> u32 \<Rightarrow> nat \<Rightarrow> u32" where
  "FF1 A B C D X s = (let tmp = SPH_T32 (A + ormd_F B C D + X) in SPH_ROTL32 tmp s)"

definition GG1 :: "u32 \<Rightarrow> u32 \<Rightarrow> u32 \<Rightarrow> u32 \<Rightarrow> u32 \<Rightarrow> nat \<Rightarrow> u32" where
  "GG1 A B C D X s = (let tmp = SPH_T32 (A + ormd_G B C D + X + 0x5A827999) in SPH_ROTL32 tmp s)"

definition HH1 :: "u32 \<Rightarrow> u32 \<Rightarrow> u32 \<Rightarrow> u32 \<Rightarrow> u32 \<Rightarrow> nat \<Rightarrow> u32" where
  "HH1 A B C D X s = (let tmp = SPH_T32 (A + ormd_H B C D + X + 0x6ED9EBA1) in SPH_ROTL32 tmp s)"

definition FF2 :: "u32 \<Rightarrow> u32 \<Rightarrow> u32 \<Rightarrow> u32 \<Rightarrow> u32 \<Rightarrow> nat \<Rightarrow> u32" where
  "FF2 A B C D X s = (let tmp = SPH_T32 (A + ormd_F B C D + X + 0x50A28BE6) in SPH_ROTL32 tmp s)"

definition GG2 :: "u32 \<Rightarrow> u32 \<Rightarrow> u32 \<Rightarrow> u32 \<Rightarrow> u32 \<Rightarrow> nat \<Rightarrow> u32" where
  "GG2 A B C D X s = (let tmp = SPH_T32 (A + ormd_G B C D + X) in SPH_ROTL32 tmp s)"

definition HH2 :: "u32 \<Rightarrow> u32 \<Rightarrow> u32 \<Rightarrow> u32 \<Rightarrow> u32 \<Rightarrow> nat \<Rightarrow> u32" where
  "HH2 A B C D X s = (let tmp = SPH_T32 (A + ormd_H B C D + X + 0x5C4DD124) in SPH_ROTL32 tmp s)"

section \<open>The compression function\<close>

definition RIPEMD_LEFT_1 :: "(nat \<Rightarrow> u32) \<Rightarrow> u32 st4 \<Rightarrow> u32 st4" where
  "RIPEMD_LEFT_1 inp st =
     (case st of (A1, B1, C1, D1) \<Rightarrow>
  let A1 = FF1 A1 B1 C1 D1 (inp 0) 11;
   D1 = FF1 D1 A1 B1 C1 (inp 1) 14;
   C1 = FF1 C1 D1 A1 B1 (inp 2) 15;
   B1 = FF1 B1 C1 D1 A1 (inp 3) 12;
   A1 = FF1 A1 B1 C1 D1 (inp 4) 5;
   D1 = FF1 D1 A1 B1 C1 (inp 5) 8;
   C1 = FF1 C1 D1 A1 B1 (inp 6) 7;
   B1 = FF1 B1 C1 D1 A1 (inp 7) 9;
   A1 = FF1 A1 B1 C1 D1 (inp 8) 11;
   D1 = FF1 D1 A1 B1 C1 (inp 9) 13;
   C1 = FF1 C1 D1 A1 B1 (inp 10) 14;
   B1 = FF1 B1 C1 D1 A1 (inp 11) 15;
   A1 = FF1 A1 B1 C1 D1 (inp 12) 6;
   D1 = FF1 D1 A1 B1 C1 (inp 13) 7;
   C1 = FF1 C1 D1 A1 B1 (inp 14) 9;
   B1 = FF1 B1 C1 D1 A1 (inp 15) 8
  in (A1, B1, C1, D1))"

definition RIPEMD_LEFT_2 :: "(nat \<Rightarrow> u32) \<Rightarrow> u32 st4 \<Rightarrow> u32 st4" where
  "RIPEMD_LEFT_2 inp st =
     (case st of (A1, B1, C1, D1) \<Rightarrow>
  let A1 = GG1 A1 B1 C1 D1 (inp 7) 7;
   D1 = GG1 D1 A1 B1 C1 (inp 4) 6;
   C1 = GG1 C1 D1 A1 B1 (inp 13) 8;
   B1 = GG1 B1 C1 D1 A1 (inp 1) 13;
   A1 = GG1 A1 B1 C1 D1 (inp 10) 11;
   D1 = GG1 D1 A1 B1 C1 (inp 6) 9;
   C1 = GG1 C1 D1 A1 B1 (inp 15) 7;
   B1 = GG1 B1 C1 D1 A1 (inp 3) 15;
   A1 = GG1 A1 B1 C1 D1 (inp 12) 7;
   D1 = GG1 D1 A1 B1 C1 (inp 0) 12;
   C1 = GG1 C1 D1 A1 B1 (inp 9) 15;
   B1 = GG1 B1 C1 D1 A1 (inp 5) 9;
   A1 = GG1 A1 B1 C1 D1 (inp 14) 7;
   D1 = GG1 D1 A1 B1 C1 (inp 2) 11;
   C1 = GG1 C1 D1 A1 B1 (inp 11) 13;
   B1 = GG1 B1 C1 D1 A1 (inp 8) 12
  in (A1, B1, C1, D1))"

definition RIPEMD_LEFT_3 :: "(nat \<Rightarrow> u32) \<Rightarrow> u32 st4 \<Rightarrow> u32 st4" where
  "RIPEMD_LEFT_3 inp st =
     (case st of (A1, B1, C1, D1) \<Rightarrow>
  let A1 = HH1 A1 B1 C1 D1 (inp 3) 11;
   D1 = HH1 D1 A1 B1 C1 (inp 10) 13;
   C1 = HH1 C1 D1 A1 B1 (inp 2) 14;
   B1 = HH1 B1 C1 D1 A1 (inp 4) 7;
   A1 = HH1 A1 B1 C1 D1 (inp 9) 14;
   D1 = HH1 D1 A1 B1 C1 (inp 15) 9;
   C1 = HH1 C1 D1 A1 B1 (inp 8) 13;
   B1 = HH1 B1 C1 D1 A1 (inp 1) 15;
   A1 = HH1 A1 B1 C1 D1 (inp 14) 6;
   D1 = HH1 D1 A1 B1 C1 (inp 7) 8;
   C1 = HH1 C1 D1 A1 B1 (inp 0) 13;
   B1 = HH1 B1 C1 D1 A1 (inp 6) 6;
   A1 = HH1 A1 B1 C1 D1 (inp 11) 12;
   D1 = HH1 D1 A1 B1 C1 (inp 13) 5;
   C1 = HH1 C1 D1 A1 B1 (inp 5) 7;
   B1 = HH1 B1 C1 D1 A1 (inp 12) 5
  in (A1, B1, C1, D1))"

definition RIPEMD_RIGHT_1 :: "(nat \<Rightarrow> u32) \<Rightarrow> u32 st4 \<Rightarrow> u32 st4" where
  "RIPEMD_RIGHT_1 inp st =
     (case st of (A2, B2, C2, D2) \<Rightarrow>
  let A2 = FF2 A2 B2 C2 D2 (inp 0) 11;
   D2 = FF2 D2 A2 B2 C2 (inp 1) 14;
   C2 = FF2 C2 D2 A2 B2 (inp 2) 15;
   B2 = FF2 B2 C2 D2 A2 (inp 3) 12;
   A2 = FF2 A2 B2 C2 D2 (inp 4) 5;
   D2 = FF2 D2 A2 B2 C2 (inp 5) 8;
   C2 = FF2 C2 D2 A2 B2 (inp 6) 7;
   B2 = FF2 B2 C2 D2 A2 (inp 7) 9;
   A2 = FF2 A2 B2 C2 D2 (inp 8) 11;
   D2 = FF2 D2 A2 B2 C2 (inp 9) 13;
   C2 = FF2 C2 D2 A2 B2 (inp 10) 14;
   B2 = FF2 B2 C2 D2 A2 (inp 11) 15;
   A2 = FF2 A2 B2 C2 D2 (inp 12) 6;
   D2 = FF2 D2 A2 B2 C2 (inp 13) 7;
   C2 = FF2 C2 D2 A2 B2 (inp 14) 9;
   B2 = FF2 B2 C2 D2 A2 (inp 15) 8
  in (A2, B2, C2, D2))"

definition RIPEMD_RIGHT_2 :: "(nat \<Rightarrow> u32) \<Rightarrow> u32 st4 \<Rightarrow> u32 st4" where
  "RIPEMD_RIGHT_2 inp st =
     (case st of (A2, B2, C2, D2) \<Rightarrow>
  let A2 = GG2 A2 B2 C2 D2 (inp 7) 7;
   D2 = GG2 D2 A2 B2 C2 (inp 4) 6;
   C2 = GG2 C2 D2 A2 B2 (inp 13) 8;
   B2 = GG2 B2 C2 D2 A2 (inp 1) 13;
   A2 = GG2 A2 B2 C2 D2 (inp 10) 11;
   D2 = GG2 D2 A2 B2 C2 (inp 6) 9;
   C2 = GG2 C2 D2 A2 B2 (inp 15) 7;
   B2 = GG2 B2 C2 D2 A2 (inp 3) 15;
   A2 = GG2 A2 B2 C2 D2 (inp 12) 7;
   D2 = GG2 D2 A2 B2 C2 (inp 0) 12;
   C2 = GG2 C2 D2 A2 B2 (inp 9) 15;
   B2 = GG2 B2 C2 D2 A2 (inp 5) 9;
   A2 = GG2 A2 B2 C2 D2 (inp 14) 7;
   D2 = GG2 D2 A2 B2 C2 (inp 2) 11;
   C2 = GG2 C2 D2 A2 B2 (inp 11) 13;
   B2 = GG2 B2 C2 D2 A2 (inp 8) 12
  in (A2, B2, C2, D2))"

definition RIPEMD_RIGHT_3 :: "(nat \<Rightarrow> u32) \<Rightarrow> u32 st4 \<Rightarrow> u32 st4" where
  "RIPEMD_RIGHT_3 inp st =
     (case st of (A2, B2, C2, D2) \<Rightarrow>
  let A2 = HH2 A2 B2 C2 D2 (inp 3) 11;
   D2 = HH2 D2 A2 B2 C2 (inp 10) 13;
   C2 = HH2 C2 D2 A2 B2 (inp 2) 14;
   B2 = HH2 B2 C2 D2 A2 (inp 4) 7;
   A2 = HH2 A2 B2 C2 D2 (inp 9) 14;
   D2 = HH2 D2 A2 B2 C2 (inp 15) 9;
   C2 = HH2 C2 D2 A2 B2 (inp 8) 13;
   B2 = HH2 B2 C2 D2 A2 (inp 1) 15;
   A2 = HH2 A2 B2 C2 D2 (inp 14) 6;
   D2 = HH2 D2 A2 B2 C2 (inp 7) 8;
   C2 = HH2 C2 D2 A2 B2 (inp 0) 13;
   B2 = HH2 B2 C2 D2 A2 (inp 6) 6;
   A2 = HH2 A2 B2 C2 D2 (inp 11) 12;
   D2 = HH2 D2 A2 B2 C2 (inp 13) 5;
   C2 = HH2 C2 D2 A2 B2 (inp 5) 7;
   B2 = HH2 B2 C2 D2 A2 (inp 12) 5
  in (A2, B2, C2, D2))"

definition RIPEMD_ROUND_BODY :: "(nat \<Rightarrow> u32) \<Rightarrow> u32 list \<Rightarrow> u32 list" where
  "RIPEMD_ROUND_BODY inp h =
     (let s1 = RIPEMD_LEFT_1 inp (h ! 0, h ! 1, h ! 2, h ! 3);
          s1 = RIPEMD_LEFT_2 inp s1;
          (A1, B1, C1, D1) = RIPEMD_LEFT_3 inp s1;
          s2 = RIPEMD_RIGHT_1 inp (h ! 0, h ! 1, h ! 2, h ! 3);
          s2 = RIPEMD_RIGHT_2 inp s2;
          (A2, B2, C2, D2) = RIPEMD_RIGHT_3 inp s2;
          tmp = SPH_T32 (h ! 1 + C1 + D2);
          h1 = SPH_T32 (h ! 2 + D1 + A2);
          h2 = SPH_T32 (h ! 3 + A1 + B2);
          h3 = SPH_T32 (h ! 0 + B1 + C2)
      in [tmp, h1, h2, h3])"

text \<open>Where little-endian reads are fast, the words are read from the buffer again at each use.\<close>

definition ripemd_round :: "arch \<Rightarrow> bytes \<Rightarrow> u32 list \<Rightarrow> u32 list" where
  "ripemd_round a data r =
     (if SPH_LITTLE_FAST a then RIPEMD_ROUND_BODY (\<lambda>x. sph_dec32le_aligned a (drop (4 * x) data)) r
      else
        let X_var = map (\<lambda>i. sph_dec32le_aligned a (drop (4 * i) data)) [0..<16]
        in RIPEMD_ROUND_BODY (\<lambda>x. X_var ! x) r)"

definition sph_ripemd_comp :: "u32 list \<Rightarrow> u32 list \<Rightarrow> u32 list" where
  "sph_ripemd_comp msg v = RIPEMD_ROUND_BODY (\<lambda>x. msg ! x) v"

section \<open>The interface\<close>

type_synonym ripemd_context = "u32 list md_context"

text \<open>The size copied is that of the field.\<close>

definition sph_ripemd_init :: "ripemd_context \<Rightarrow> ripemd_context" where
  "sph_ripemd_init sc = sc\<lparr>val := take 4 oIV, count := 0\<rparr>"

definition ripemd_macros :: "arch \<Rightarrow> u32 list md_macros" where
  "ripemd_macros a = \<lparr>WORD = LE32, BLEN = None, PLW = PLW_default, PW01 = False,
     RFUN = ripemd_round a, OUTPUT = md_output_le32 a\<rparr>"

definition sph_ripemd :: "arch \<Rightarrow> u64 \<Rightarrow> bytes \<Rightarrow> ripemd_context \<Rightarrow> ripemd_context option" where
  "sph_ripemd a addr data sc = md_update a (ripemd_macros a) addr data sc"

definition sph_ripemd_close :: "arch \<Rightarrow> u64 \<Rightarrow> ripemd_context \<Rightarrow> bytes \<times> ripemd_context" where
  "sph_ripemd_close a dst sc =
     (let (out, sc) = md_close a (ripemd_macros a) dst 4 sc in (out, sph_ripemd_init sc))"

section \<open>The compression function is the one of the definition\<close>

lemma ormd_functions: "ormd_F = Ch" "ormd_G = Maj" "ormd_H = Parity"
  by (simp_all add: fun_eq_iff ormd_F_def ormd_G_def ormd_H_def sha1_function_forms(1,2) Maj_or_forms(1))

lemma ormd_macros:
  "0 < s \<Longrightarrow> s < 32 \<Longrightarrow> FF1 A B C D X s = word_rotl s (A + Ch B C D + X + 0)"
  "0 < s \<Longrightarrow> s < 32 \<Longrightarrow> GG1 A B C D X s = word_rotl s (A + Maj B C D + X + 0x5A827999)"
  "0 < s \<Longrightarrow> s < 32 \<Longrightarrow> HH1 A B C D X s = word_rotl s (A + Parity B C D + X + 0x6ED9EBA1)"
  "0 < s \<Longrightarrow> s < 32 \<Longrightarrow> FF2 A B C D X s = word_rotl s (A + Ch B C D + X + 0x50A28BE6)"
  "0 < s \<Longrightarrow> s < 32 \<Longrightarrow> GG2 A B C D X s = word_rotl s (A + Maj B C D + X + 0)"
  "0 < s \<Longrightarrow> s < 32 \<Longrightarrow> HH2 A B C D X s = word_rotl s (A + Parity B C D + X + 0x5C4DD124)"
  by (simp_all add: FF1_def GG1_def HH1_def FF2_def GG2_def HH2_def ormd_functions sph_rotations)

lemma RIPEMD_steps:
  "RIPEMD_LEFT_1 inp st = foldl (md4_op Ch 0 inp) st (ormd_ops 0)"
  "RIPEMD_LEFT_2 inp st = foldl (md4_op Maj 0x5A827999 inp) st (ormd_ops 1)"
  "RIPEMD_LEFT_3 inp st = foldl (md4_op Parity 0x6ED9EBA1 inp) st (ormd_ops 2)"
  "RIPEMD_RIGHT_1 inp st = foldl (md4_op Ch 0x50A28BE6 inp) st (ormd_ops 0)"
  "RIPEMD_RIGHT_2 inp st = foldl (md4_op Maj 0 inp) st (ormd_ops 1)"
  "RIPEMD_RIGHT_3 inp st = foldl (md4_op Parity 0x5C4DD124 inp) st (ormd_ops 2)"
  by (cases st rule: st4_cases;
      simp only: RIPEMD_LEFT_1_def RIPEMD_LEFT_2_def RIPEMD_LEFT_3_def RIPEMD_RIGHT_1_def RIPEMD_RIGHT_2_def RIPEMD_RIGHT_3_def
        prod.case ormd_macros rel_simps foldl.simps ormd_ops_at md4_op.simps
        md4_op_let cong del: prod.case_cong_weak let_weak_cong)+

lemma RIPEMD_ROUND_BODY_compress: "RIPEMD_ROUND_BODY inp h = ripemd_compress inp h"
  unfolding RIPEMD_ROUND_BODY_def ripemd_compress_def Let_def RIPEMD_steps SPH_T32_id st4_of_def rmd_combine4_def
  by (simp split: prod.split)

lemma length_ripemd_compress [simp]: "length (ripemd_compress X h) = 4"
  by (simp add: ripemd_compress_def rmd_combine4_def split: prod.split)

lemma ripemd_round_compress:
  assumes "arch_ok a" and "length b = 64"
  shows "ripemd_round a b r = ripemd_compress (\<lambda>t. of_le (take 4 (drop (4 * t) b))) r"
proof -
  have "sph_dec32le_aligned a (drop (4 * t) b) = of_le (take 4 (drop (4 * t) b))" if "t < 16" for t
    using assms that by simp
  then show ?thesis
    by (simp add: ripemd_round_def RIPEMD_ROUND_BODY_compress cong: rmd_compress_cong del: upt_Suc)
qed

section \<open>The digests are those of the definition\<close>

definition std_ripemd :: "bytes \<Rightarrow> bytes" where
  "std_ripemd m =
     std_hash 64 (\<lambda>b. ripemd_compress (\<lambda>t. of_le (take 4 (drop (4 * t) b)))) (take 4 oIV)
       (\<lambda>v. concat (map le32 (take 4 v))) (std_pad nat_le 64 8 m 0 0)"

lemma ripemd_macros_simps [simp]:
  "SPH_BLEN (ripemd_macros a) = 64" "SPH_MAXPAD (ripemd_macros a) = 56"
  "WORD (ripemd_macros a) = LE32" "PLW (ripemd_macros a) = PLW_default" "\<not> PW01 (ripemd_macros a)"
  "RFUN (ripemd_macros a) = ripemd_round a" "OUTPUT (ripemd_macros a) = md_output_le32 a"
  by (simp_all add: ripemd_macros_def SPH_BLEN_def SPH_MAXPAD_def SPH_WLEN_def)

interpretation ripemd: md_hash "arch_of p" "ripemd_macros (arch_of p)" 6 "take 4 oIV" 4
    "\<lambda>v. concat (map (\<lambda>u. le32 (v ! u)) [0..<4])" for p
  by unfold_locales (simp_all add: md_outputs)

lemma ripemd_hash_of:
  "md_hash_of (ripemd_macros (arch_of p)) (take 4 oIV) (\<lambda>v. concat (map (\<lambda>u. le32 (v ! u)) [0..<4])) 0 0 m = std_ripemd m"
  unfolding std_ripemd_def
  by (subst md_hash_of_std [where P = "\<lambda>v. length v = 4"])
     (auto simp: ripemd_round_compress oIV_def concat_map_take)

lemma ripemd_interface:
  "sph_ripemd_init = md_init (take 4 oIV)" "sph_ripemd a = md_update a (ripemd_macros a)"
  "sph_ripemd_close a = md_close_init a (ripemd_macros a) (take 4 oIV) 4 0 0"
  by (simp_all add: fun_eq_iff sph_ripemd_init_def md_init_def sph_ripemd_def md_close_init_def
      sph_ripemd_close_def md_close_def)

lemma ripemd_length_ok [simp]: "md_length_ok (ripemd_macros a) l"
  by (simp add: md_length_ok_def)

section \<open>Properties\<close>

text \<open>
  The original RIPEMD of the library is the function of the definition, however the message is cut into calls
  and wherever the pieces lie; the closed context can be used for the next message.
\<close>

theorem sph_ripemd_correct:
  assumes "length (buf sc) = 64"
  shows "\<exists>sc1 sc2. feed (sph_ripemd (arch_of p)) ps (sph_ripemd_init sc) = Some sc1
     \<and> fst (sph_ripemd_close (arch_of p) dst sc1) = std_ripemd (pieces ps)
     \<and> feed (sph_ripemd (arch_of p)) qs (snd (sph_ripemd_close (arch_of p) dst sc1)) = Some sc2
     \<and> fst (sph_ripemd_close (arch_of p) dst' sc2) = std_ripemd (pieces qs)"
proof -
  obtain sc1 where f1: "feed (sph_ripemd (arch_of p)) ps (sph_ripemd_init sc) = Some sc1"
    and r1: "md_rep (ripemd_macros (arch_of p)) (take 4 oIV) (pieces ps) sc1"
    using ripemd.inc.feed_represents [OF ripemd.inc.init_represents, of sc p ps] assms
    by (auto simp: ripemd_interface)
  let ?c = "sph_ripemd_close (arch_of p) dst sc1"
  have c1: "fst ?c = std_ripemd (pieces ps)" and "md_rep (ripemd_macros (arch_of p)) (take 4 oIV) [] (snd ?c)"
    using ripemd.close_digest [OF r1, of 0 0 dst] by (simp_all add: ripemd_interface ripemd_hash_of)
  then obtain sc2 where "feed (sph_ripemd (arch_of p)) qs (snd ?c) = Some sc2"
    and r2: "md_rep (ripemd_macros (arch_of p)) (take 4 oIV) (pieces qs) sc2"
    using ripemd.inc.feed_represents [of p "[]" "snd ?c" qs] by (auto simp: ripemd_interface)
  with f1 c1 ripemd.close_digest [OF r2, of 0 0 dst'] show ?thesis
    by (simp add: ripemd_interface ripemd_hash_of)
qed

theorem sph_ripemd_correct_witness:
  "\<exists>sc1. feed (sph_ripemd (arch_of I386)) [(1, [0x61]), (2, [0x62, 0x63])]
       (sph_ripemd_init \<lparr>buf = replicate 64 7, val = [], count = 5\<rparr>) = Some sc1
     \<and> fst (sph_ripemd_close (arch_of I386) 0 sc1) = std_ripemd [0x61, 0x62, 0x63]"
  using sph_ripemd_correct [of "\<lparr>buf = replicate 64 7, val = [], count = 5\<rparr>" I386
      "[(1, [0x61]), (2, [0x62, 0x63])]" 0 "[]"] by auto

text \<open>
  The compression function, with its 48 operations per line written out, is the one of the
  definition, on the bytes of a block, whether they are read once or at each use, and on a block
  given as words.
\<close>

theorem ripemd_compression_correct:
  assumes "length b = 64"
  shows "ripemd_round (arch_of p) b r = ripemd_compress (\<lambda>t. of_le (take 4 (drop (4 * t) b))) r
    \<and> sph_ripemd_comp msg r = ripemd_compress (\<lambda>t. msg ! t) r"
  using assms by (simp add: ripemd_round_compress sph_ripemd_comp_def RIPEMD_ROUND_BODY_compress)

theorem ripemd_compression_correct_witness:
  "ripemd_round (arch_of Mips_eb) (replicate 64 3) oIV =
     ripemd_compress (\<lambda>t. of_le (take 4 (drop (4 * t) (replicate 64 3)))) oIV"
  using ripemd_compression_correct [of "replicate 64 3" Mips_eb] by simp

end
