(* ===== verification/Ripemd128.thy ===== *)
theory Ripemd128
  imports Md_Helper Ripemd_Spec
begin

text \<open>
  \<open>ripemd.c\<close>: RIPEMD-128. The two lines of the compression function are written out on named
  variables, one paragraph of the macro per round; each paragraph is a function here. They are
  shown to be the rounds of the definition, and the digests those of the padded message.
\<close>

section \<open>Functions and tables (lines 53-62, 296-315)\<close>

definition rmd_F1 :: "u32 \<Rightarrow> u32 \<Rightarrow> u32 \<Rightarrow> u32" where
  "rmd_F1 x y z = x XOR y XOR z"

definition rmd_F2 :: "u32 \<Rightarrow> u32 \<Rightarrow> u32 \<Rightarrow> u32" where
  "rmd_F2 x y z = ((y XOR z) AND x) XOR z"

definition rmd_F3 :: "u32 \<Rightarrow> u32 \<Rightarrow> u32 \<Rightarrow> u32" where
  "rmd_F3 x y z = (x OR (NOT y)) XOR z"

definition rmd_F4 :: "u32 \<Rightarrow> u32 \<Rightarrow> u32 \<Rightarrow> u32" where
  "rmd_F4 x y z = ((x XOR y) AND z) XOR y"

definition rmd_F5 :: "u32 \<Rightarrow> u32 \<Rightarrow> u32 \<Rightarrow> u32" where
  "rmd_F5 x y z = x XOR (y OR (NOT z))"

definition rmd_IV :: "u32 list" where
  "rmd_IV = [0x67452301, 0xEFCDAB89, 0x98BADCFE, 0x10325476, 0xC3D2E1F0]"

definition sK11 :: u32 where "sK11 = 0"
definition sK12 :: u32 where "sK12 = 0x5A827999"
definition sK13 :: u32 where "sK13 = 0x6ED9EBA1"
definition sK14 :: u32 where "sK14 = 0x8F1BBCDC"
definition sK21 :: u32 where "sK21 = 0x50A28BE6"
definition sK22 :: u32 where "sK22 = 0x5C4DD124"
definition sK23 :: u32 where "sK23 = 0x6D703EF3"
definition sK24 :: u32 where "sK24 = 0"

definition sRR ::
    "u32 \<Rightarrow> u32 \<Rightarrow> u32 \<Rightarrow> u32 \<Rightarrow> (u32 \<Rightarrow> u32 \<Rightarrow> u32 \<Rightarrow> u32) \<Rightarrow> nat \<Rightarrow> u32 \<Rightarrow> u32 \<Rightarrow> u32" where
  "sRR a b c d f s r k = SPH_ROTL32 (SPH_T32 (a + f b c d + r + k)) s"

section \<open>The compression function\<close>

definition RIPEMD128_LEFT_1 :: "(nat \<Rightarrow> u32) \<Rightarrow> u32 st4 \<Rightarrow> u32 st4" where
  "RIPEMD128_LEFT_1 inp st =
     (case st of (A1, B1, C1, D1) \<Rightarrow>
  let A1 = sRR A1 B1 C1 D1 rmd_F1 11 (inp 0) sK11;
   D1 = sRR D1 A1 B1 C1 rmd_F1 14 (inp 1) sK11;
   C1 = sRR C1 D1 A1 B1 rmd_F1 15 (inp 2) sK11;
   B1 = sRR B1 C1 D1 A1 rmd_F1 12 (inp 3) sK11;
   A1 = sRR A1 B1 C1 D1 rmd_F1 5 (inp 4) sK11;
   D1 = sRR D1 A1 B1 C1 rmd_F1 8 (inp 5) sK11;
   C1 = sRR C1 D1 A1 B1 rmd_F1 7 (inp 6) sK11;
   B1 = sRR B1 C1 D1 A1 rmd_F1 9 (inp 7) sK11;
   A1 = sRR A1 B1 C1 D1 rmd_F1 11 (inp 8) sK11;
   D1 = sRR D1 A1 B1 C1 rmd_F1 13 (inp 9) sK11;
   C1 = sRR C1 D1 A1 B1 rmd_F1 14 (inp 10) sK11;
   B1 = sRR B1 C1 D1 A1 rmd_F1 15 (inp 11) sK11;
   A1 = sRR A1 B1 C1 D1 rmd_F1 6 (inp 12) sK11;
   D1 = sRR D1 A1 B1 C1 rmd_F1 7 (inp 13) sK11;
   C1 = sRR C1 D1 A1 B1 rmd_F1 9 (inp 14) sK11;
   B1 = sRR B1 C1 D1 A1 rmd_F1 8 (inp 15) sK11
  in (A1, B1, C1, D1))"

definition RIPEMD128_LEFT_2 :: "(nat \<Rightarrow> u32) \<Rightarrow> u32 st4 \<Rightarrow> u32 st4" where
  "RIPEMD128_LEFT_2 inp st =
     (case st of (A1, B1, C1, D1) \<Rightarrow>
  let A1 = sRR A1 B1 C1 D1 rmd_F2 7 (inp 7) sK12;
   D1 = sRR D1 A1 B1 C1 rmd_F2 6 (inp 4) sK12;
   C1 = sRR C1 D1 A1 B1 rmd_F2 8 (inp 13) sK12;
   B1 = sRR B1 C1 D1 A1 rmd_F2 13 (inp 1) sK12;
   A1 = sRR A1 B1 C1 D1 rmd_F2 11 (inp 10) sK12;
   D1 = sRR D1 A1 B1 C1 rmd_F2 9 (inp 6) sK12;
   C1 = sRR C1 D1 A1 B1 rmd_F2 7 (inp 15) sK12;
   B1 = sRR B1 C1 D1 A1 rmd_F2 15 (inp 3) sK12;
   A1 = sRR A1 B1 C1 D1 rmd_F2 7 (inp 12) sK12;
   D1 = sRR D1 A1 B1 C1 rmd_F2 12 (inp 0) sK12;
   C1 = sRR C1 D1 A1 B1 rmd_F2 15 (inp 9) sK12;
   B1 = sRR B1 C1 D1 A1 rmd_F2 9 (inp 5) sK12;
   A1 = sRR A1 B1 C1 D1 rmd_F2 11 (inp 2) sK12;
   D1 = sRR D1 A1 B1 C1 rmd_F2 7 (inp 14) sK12;
   C1 = sRR C1 D1 A1 B1 rmd_F2 13 (inp 11) sK12;
   B1 = sRR B1 C1 D1 A1 rmd_F2 12 (inp 8) sK12
  in (A1, B1, C1, D1))"

definition RIPEMD128_LEFT_3 :: "(nat \<Rightarrow> u32) \<Rightarrow> u32 st4 \<Rightarrow> u32 st4" where
  "RIPEMD128_LEFT_3 inp st =
     (case st of (A1, B1, C1, D1) \<Rightarrow>
  let A1 = sRR A1 B1 C1 D1 rmd_F3 11 (inp 3) sK13;
   D1 = sRR D1 A1 B1 C1 rmd_F3 13 (inp 10) sK13;
   C1 = sRR C1 D1 A1 B1 rmd_F3 6 (inp 14) sK13;
   B1 = sRR B1 C1 D1 A1 rmd_F3 7 (inp 4) sK13;
   A1 = sRR A1 B1 C1 D1 rmd_F3 14 (inp 9) sK13;
   D1 = sRR D1 A1 B1 C1 rmd_F3 9 (inp 15) sK13;
   C1 = sRR C1 D1 A1 B1 rmd_F3 13 (inp 8) sK13;
   B1 = sRR B1 C1 D1 A1 rmd_F3 15 (inp 1) sK13;
   A1 = sRR A1 B1 C1 D1 rmd_F3 14 (inp 2) sK13;
   D1 = sRR D1 A1 B1 C1 rmd_F3 8 (inp 7) sK13;
   C1 = sRR C1 D1 A1 B1 rmd_F3 13 (inp 0) sK13;
   B1 = sRR B1 C1 D1 A1 rmd_F3 6 (inp 6) sK13;
   A1 = sRR A1 B1 C1 D1 rmd_F3 5 (inp 13) sK13;
   D1 = sRR D1 A1 B1 C1 rmd_F3 12 (inp 11) sK13;
   C1 = sRR C1 D1 A1 B1 rmd_F3 7 (inp 5) sK13;
   B1 = sRR B1 C1 D1 A1 rmd_F3 5 (inp 12) sK13
  in (A1, B1, C1, D1))"

definition RIPEMD128_LEFT_4 :: "(nat \<Rightarrow> u32) \<Rightarrow> u32 st4 \<Rightarrow> u32 st4" where
  "RIPEMD128_LEFT_4 inp st =
     (case st of (A1, B1, C1, D1) \<Rightarrow>
  let A1 = sRR A1 B1 C1 D1 rmd_F4 11 (inp 1) sK14;
   D1 = sRR D1 A1 B1 C1 rmd_F4 12 (inp 9) sK14;
   C1 = sRR C1 D1 A1 B1 rmd_F4 14 (inp 11) sK14;
   B1 = sRR B1 C1 D1 A1 rmd_F4 15 (inp 10) sK14;
   A1 = sRR A1 B1 C1 D1 rmd_F4 14 (inp 0) sK14;
   D1 = sRR D1 A1 B1 C1 rmd_F4 15 (inp 8) sK14;
   C1 = sRR C1 D1 A1 B1 rmd_F4 9 (inp 12) sK14;
   B1 = sRR B1 C1 D1 A1 rmd_F4 8 (inp 4) sK14;
   A1 = sRR A1 B1 C1 D1 rmd_F4 9 (inp 13) sK14;
   D1 = sRR D1 A1 B1 C1 rmd_F4 14 (inp 3) sK14;
   C1 = sRR C1 D1 A1 B1 rmd_F4 5 (inp 7) sK14;
   B1 = sRR B1 C1 D1 A1 rmd_F4 6 (inp 15) sK14;
   A1 = sRR A1 B1 C1 D1 rmd_F4 8 (inp 14) sK14;
   D1 = sRR D1 A1 B1 C1 rmd_F4 6 (inp 5) sK14;
   C1 = sRR C1 D1 A1 B1 rmd_F4 5 (inp 6) sK14;
   B1 = sRR B1 C1 D1 A1 rmd_F4 12 (inp 2) sK14
  in (A1, B1, C1, D1))"

definition RIPEMD128_RIGHT_1 :: "(nat \<Rightarrow> u32) \<Rightarrow> u32 st4 \<Rightarrow> u32 st4" where
  "RIPEMD128_RIGHT_1 inp st =
     (case st of (A2, B2, C2, D2) \<Rightarrow>
  let A2 = sRR A2 B2 C2 D2 rmd_F4 8 (inp 5) sK21;
   D2 = sRR D2 A2 B2 C2 rmd_F4 9 (inp 14) sK21;
   C2 = sRR C2 D2 A2 B2 rmd_F4 9 (inp 7) sK21;
   B2 = sRR B2 C2 D2 A2 rmd_F4 11 (inp 0) sK21;
   A2 = sRR A2 B2 C2 D2 rmd_F4 13 (inp 9) sK21;
   D2 = sRR D2 A2 B2 C2 rmd_F4 15 (inp 2) sK21;
   C2 = sRR C2 D2 A2 B2 rmd_F4 15 (inp 11) sK21;
   B2 = sRR B2 C2 D2 A2 rmd_F4 5 (inp 4) sK21;
   A2 = sRR A2 B2 C2 D2 rmd_F4 7 (inp 13) sK21;
   D2 = sRR D2 A2 B2 C2 rmd_F4 7 (inp 6) sK21;
   C2 = sRR C2 D2 A2 B2 rmd_F4 8 (inp 15) sK21;
   B2 = sRR B2 C2 D2 A2 rmd_F4 11 (inp 8) sK21;
   A2 = sRR A2 B2 C2 D2 rmd_F4 14 (inp 1) sK21;
   D2 = sRR D2 A2 B2 C2 rmd_F4 14 (inp 10) sK21;
   C2 = sRR C2 D2 A2 B2 rmd_F4 12 (inp 3) sK21;
   B2 = sRR B2 C2 D2 A2 rmd_F4 6 (inp 12) sK21
  in (A2, B2, C2, D2))"

definition RIPEMD128_RIGHT_2 :: "(nat \<Rightarrow> u32) \<Rightarrow> u32 st4 \<Rightarrow> u32 st4" where
  "RIPEMD128_RIGHT_2 inp st =
     (case st of (A2, B2, C2, D2) \<Rightarrow>
  let A2 = sRR A2 B2 C2 D2 rmd_F3 9 (inp 6) sK22;
   D2 = sRR D2 A2 B2 C2 rmd_F3 13 (inp 11) sK22;
   C2 = sRR C2 D2 A2 B2 rmd_F3 15 (inp 3) sK22;
   B2 = sRR B2 C2 D2 A2 rmd_F3 7 (inp 7) sK22;
   A2 = sRR A2 B2 C2 D2 rmd_F3 12 (inp 0) sK22;
   D2 = sRR D2 A2 B2 C2 rmd_F3 8 (inp 13) sK22;
   C2 = sRR C2 D2 A2 B2 rmd_F3 9 (inp 5) sK22;
   B2 = sRR B2 C2 D2 A2 rmd_F3 11 (inp 10) sK22;
   A2 = sRR A2 B2 C2 D2 rmd_F3 7 (inp 14) sK22;
   D2 = sRR D2 A2 B2 C2 rmd_F3 7 (inp 15) sK22;
   C2 = sRR C2 D2 A2 B2 rmd_F3 12 (inp 8) sK22;
   B2 = sRR B2 C2 D2 A2 rmd_F3 7 (inp 12) sK22;
   A2 = sRR A2 B2 C2 D2 rmd_F3 6 (inp 4) sK22;
   D2 = sRR D2 A2 B2 C2 rmd_F3 15 (inp 9) sK22;
   C2 = sRR C2 D2 A2 B2 rmd_F3 13 (inp 1) sK22;
   B2 = sRR B2 C2 D2 A2 rmd_F3 11 (inp 2) sK22
  in (A2, B2, C2, D2))"

definition RIPEMD128_RIGHT_3 :: "(nat \<Rightarrow> u32) \<Rightarrow> u32 st4 \<Rightarrow> u32 st4" where
  "RIPEMD128_RIGHT_3 inp st =
     (case st of (A2, B2, C2, D2) \<Rightarrow>
  let A2 = sRR A2 B2 C2 D2 rmd_F2 9 (inp 15) sK23;
   D2 = sRR D2 A2 B2 C2 rmd_F2 7 (inp 5) sK23;
   C2 = sRR C2 D2 A2 B2 rmd_F2 15 (inp 1) sK23;
   B2 = sRR B2 C2 D2 A2 rmd_F2 11 (inp 3) sK23;
   A2 = sRR A2 B2 C2 D2 rmd_F2 8 (inp 7) sK23;
   D2 = sRR D2 A2 B2 C2 rmd_F2 6 (inp 14) sK23;
   C2 = sRR C2 D2 A2 B2 rmd_F2 6 (inp 6) sK23;
   B2 = sRR B2 C2 D2 A2 rmd_F2 14 (inp 9) sK23;
   A2 = sRR A2 B2 C2 D2 rmd_F2 12 (inp 11) sK23;
   D2 = sRR D2 A2 B2 C2 rmd_F2 13 (inp 8) sK23;
   C2 = sRR C2 D2 A2 B2 rmd_F2 5 (inp 12) sK23;
   B2 = sRR B2 C2 D2 A2 rmd_F2 14 (inp 2) sK23;
   A2 = sRR A2 B2 C2 D2 rmd_F2 13 (inp 10) sK23;
   D2 = sRR D2 A2 B2 C2 rmd_F2 13 (inp 0) sK23;
   C2 = sRR C2 D2 A2 B2 rmd_F2 7 (inp 4) sK23;
   B2 = sRR B2 C2 D2 A2 rmd_F2 5 (inp 13) sK23
  in (A2, B2, C2, D2))"

definition RIPEMD128_RIGHT_4 :: "(nat \<Rightarrow> u32) \<Rightarrow> u32 st4 \<Rightarrow> u32 st4" where
  "RIPEMD128_RIGHT_4 inp st =
     (case st of (A2, B2, C2, D2) \<Rightarrow>
  let A2 = sRR A2 B2 C2 D2 rmd_F1 15 (inp 8) sK24;
   D2 = sRR D2 A2 B2 C2 rmd_F1 5 (inp 6) sK24;
   C2 = sRR C2 D2 A2 B2 rmd_F1 8 (inp 4) sK24;
   B2 = sRR B2 C2 D2 A2 rmd_F1 11 (inp 1) sK24;
   A2 = sRR A2 B2 C2 D2 rmd_F1 14 (inp 3) sK24;
   D2 = sRR D2 A2 B2 C2 rmd_F1 14 (inp 11) sK24;
   C2 = sRR C2 D2 A2 B2 rmd_F1 6 (inp 15) sK24;
   B2 = sRR B2 C2 D2 A2 rmd_F1 14 (inp 0) sK24;
   A2 = sRR A2 B2 C2 D2 rmd_F1 6 (inp 5) sK24;
   D2 = sRR D2 A2 B2 C2 rmd_F1 9 (inp 12) sK24;
   C2 = sRR C2 D2 A2 B2 rmd_F1 12 (inp 2) sK24;
   B2 = sRR B2 C2 D2 A2 rmd_F1 9 (inp 13) sK24;
   A2 = sRR A2 B2 C2 D2 rmd_F1 12 (inp 9) sK24;
   D2 = sRR D2 A2 B2 C2 rmd_F1 5 (inp 7) sK24;
   C2 = sRR C2 D2 A2 B2 rmd_F1 15 (inp 10) sK24;
   B2 = sRR B2 C2 D2 A2 rmd_F1 8 (inp 14) sK24
  in (A2, B2, C2, D2))"

definition RIPEMD128_ROUND_BODY :: "(nat \<Rightarrow> u32) \<Rightarrow> u32 list \<Rightarrow> u32 list" where
  "RIPEMD128_ROUND_BODY inp h =
     (let s1 = RIPEMD128_LEFT_1 inp (h ! 0, h ! 1, h ! 2, h ! 3);
          s1 = RIPEMD128_LEFT_2 inp s1;
          s1 = RIPEMD128_LEFT_3 inp s1;
          (A1, B1, C1, D1) = RIPEMD128_LEFT_4 inp s1;
          s2 = RIPEMD128_RIGHT_1 inp (h ! 0, h ! 1, h ! 2, h ! 3);
          s2 = RIPEMD128_RIGHT_2 inp s2;
          s2 = RIPEMD128_RIGHT_3 inp s2;
          (A2, B2, C2, D2) = RIPEMD128_RIGHT_4 inp s2;
          tmp = SPH_T32 (h ! 1 + C1 + D2);
          h1 = SPH_T32 (h ! 2 + D1 + A2);
          h2 = SPH_T32 (h ! 3 + A1 + B2);
          h3 = SPH_T32 (h ! 0 + B1 + C2)
      in [tmp, h1, h2, h3])"

text \<open>Where little-endian reads are fast, the words are read from the buffer again at each use.\<close>

definition ripemd128_round :: "arch \<Rightarrow> bytes \<Rightarrow> u32 list \<Rightarrow> u32 list" where
  "ripemd128_round a data r =
     (if SPH_LITTLE_FAST a then RIPEMD128_ROUND_BODY (\<lambda>x. sph_dec32le_aligned a (drop (4 * x) data)) r
      else
        let X_var = map (\<lambda>i. sph_dec32le_aligned a (drop (4 * i) data)) [0..<16]
        in RIPEMD128_ROUND_BODY (\<lambda>x. X_var ! x) r)"

definition sph_ripemd128_comp :: "u32 list \<Rightarrow> u32 list \<Rightarrow> u32 list" where
  "sph_ripemd128_comp msg v = RIPEMD128_ROUND_BODY (\<lambda>x. msg ! x) v"

section \<open>The interface\<close>

type_synonym ripemd128_context = "u32 list md_context"

text \<open>The size copied is that of the field.\<close>

definition sph_ripemd128_init :: "ripemd128_context \<Rightarrow> ripemd128_context" where
  "sph_ripemd128_init sc = sc\<lparr>val := take 4 rmd_IV, count := 0\<rparr>"

definition ripemd128_macros :: "arch \<Rightarrow> u32 list md_macros" where
  "ripemd128_macros a = \<lparr>WORD = LE32, BLEN = None, PLW = PLW_default, PW01 = False,
     RFUN = ripemd128_round a, OUTPUT = md_output_le32 a\<rparr>"

definition sph_ripemd128 :: "arch \<Rightarrow> u64 \<Rightarrow> bytes \<Rightarrow> ripemd128_context \<Rightarrow> ripemd128_context option" where
  "sph_ripemd128 a addr data sc = md_update a (ripemd128_macros a) addr data sc"

definition sph_ripemd128_close :: "arch \<Rightarrow> u64 \<Rightarrow> ripemd128_context \<Rightarrow> bytes \<times> ripemd128_context" where
  "sph_ripemd128_close a dst sc =
     (let (out, sc) = md_close a (ripemd128_macros a) dst 4 sc in (out, sph_ripemd128_init sc))"

section \<open>The compression function is the one of the definition\<close>

lemma rmd_functions:
  "rmd_F1 = rmd_f 0" "rmd_F2 = rmd_f 1" "rmd_F3 = rmd_f 2" "rmd_F4 = rmd_f 3" "rmd_F5 = rmd_f 4"
  unfolding fun_eq_iff rmd_F1_def rmd_F2_def rmd_F3_def rmd_F4_def rmd_F5_def rmd_f_def
  by (intro allI bit_word_eqI, auto simp: bit_simps)+

lemma rmd128_constants:
  "sK11 = rmd_sqrt 0" "sK12 = rmd_sqrt 1" "sK13 = rmd_sqrt 2" "sK14 = rmd_sqrt 3"
  "sK21 = rmd_cbrt 0" "sK22 = rmd_cbrt 1" "sK23 = rmd_cbrt 2" "sK24 = 0"
  by (simp_all add: rmd_sqrt_def rmd_cbrt_def sK11_def sK12_def sK13_def sK14_def sK21_def sK22_def
      sK23_def sK24_def)

lemma sRR_rotl: "0 < s \<Longrightarrow> s < 32 \<Longrightarrow> sRR a b c d f s r k = word_rotl s (a + f b c d + r + k)"
  by (simp add: sRR_def sph_rotations)

lemma rmd128_at:
  "rmd128_left X st 0 = foldl (md4_op (rmd_f 0) (rmd_sqrt 0) X) st (rmd_left 0)"
  "rmd128_left X st 1 = foldl (md4_op (rmd_f 1) (rmd_sqrt 1) X) st (rmd_left 1)"
  "rmd128_left X st 2 = foldl (md4_op (rmd_f 2) (rmd_sqrt 2) X) st (rmd_left 2)"
  "rmd128_left X st 3 = foldl (md4_op (rmd_f 3) (rmd_sqrt 3) X) st (rmd_left 3)"
  "rmd128_right X st 0 = foldl (md4_op (rmd_f 3) (rmd_cbrt 0) X) st (rmd_right 0)"
  "rmd128_right X st 1 = foldl (md4_op (rmd_f 2) (rmd_cbrt 1) X) st (rmd_right 1)"
  "rmd128_right X st 2 = foldl (md4_op (rmd_f 1) (rmd_cbrt 2) X) st (rmd_right 2)"
  "rmd128_right X st 3 = foldl (md4_op (rmd_f 0) 0 X) st (rmd_right 3)"
  by (simp_all add: rmd128_left_def rmd128_right_def)

lemma RIPEMD128_steps:
  "RIPEMD128_LEFT_1 inp st = rmd128_left inp st 0"
  "RIPEMD128_LEFT_2 inp st = rmd128_left inp st 1"
  "RIPEMD128_LEFT_3 inp st = rmd128_left inp st 2"
  "RIPEMD128_LEFT_4 inp st = rmd128_left inp st 3"
  "RIPEMD128_RIGHT_1 inp st = rmd128_right inp st 0"
  "RIPEMD128_RIGHT_2 inp st = rmd128_right inp st 1"
  "RIPEMD128_RIGHT_3 inp st = rmd128_right inp st 2"
  "RIPEMD128_RIGHT_4 inp st = rmd128_right inp st 3"
  by (cases st rule: st4_cases;
      simp only: RIPEMD128_LEFT_1_def RIPEMD128_LEFT_2_def RIPEMD128_LEFT_3_def RIPEMD128_LEFT_4_def RIPEMD128_RIGHT_1_def RIPEMD128_RIGHT_2_def RIPEMD128_RIGHT_3_def RIPEMD128_RIGHT_4_def
        prod.case sRR_rotl rmd_functions rmd128_constants rmd128_at rel_simps foldl.simps rmd_ops_at md4_op.simps
        md4_op_let cong del: prod.case_cong_weak let_weak_cong)+

lemma RIPEMD128_ROUND_BODY_compress: "RIPEMD128_ROUND_BODY inp h = ripemd128_compress inp h"
proof -
  have "[0..<4] = [0, 1, 2, 3 :: nat]" by (simp add: upt_conv_Cons)
  then show ?thesis
    unfolding RIPEMD128_ROUND_BODY_def ripemd128_compress_def Let_def RIPEMD128_steps SPH_T32_id st4_of_def rmd_combine4_def
    by (simp split: prod.split)
qed

lemma length_ripemd128_compress [simp]: "length (ripemd128_compress X h) = 4"
  by (simp add: ripemd128_compress_def rmd_combine4_def split: prod.split)

lemma ripemd128_round_compress:
  assumes "arch_ok a" and "length b = 64"
  shows "ripemd128_round a b r = ripemd128_compress (\<lambda>t. of_le (take 4 (drop (4 * t) b))) r"
proof -
  have "sph_dec32le_aligned a (drop (4 * t) b) = of_le (take 4 (drop (4 * t) b))" if "t < 16" for t
    using assms that by simp
  then show ?thesis
    by (simp add: ripemd128_round_def RIPEMD128_ROUND_BODY_compress cong: rmd_compress_cong del: upt_Suc)
qed

section \<open>The digests are those of the definition\<close>

definition std_ripemd128 :: "bytes \<Rightarrow> bytes" where
  "std_ripemd128 m =
     std_hash 64 (\<lambda>b. ripemd128_compress (\<lambda>t. of_le (take 4 (drop (4 * t) b)))) (take 4 rmd_IV)
       (\<lambda>v. concat (map le32 (take 4 v))) (std_pad nat_le 64 8 m 0 0)"

lemma ripemd128_macros_simps [simp]:
  "SPH_BLEN (ripemd128_macros a) = 64" "SPH_MAXPAD (ripemd128_macros a) = 56"
  "WORD (ripemd128_macros a) = LE32" "PLW (ripemd128_macros a) = PLW_default" "\<not> PW01 (ripemd128_macros a)"
  "RFUN (ripemd128_macros a) = ripemd128_round a" "OUTPUT (ripemd128_macros a) = md_output_le32 a"
  by (simp_all add: ripemd128_macros_def SPH_BLEN_def SPH_MAXPAD_def SPH_WLEN_def)

interpretation ripemd128: md_hash "arch_of p" "ripemd128_macros (arch_of p)" 6 "take 4 rmd_IV" 4
    "\<lambda>v. concat (map (\<lambda>u. le32 (v ! u)) [0..<4])" for p
  by unfold_locales (simp_all add: md_outputs)

lemma ripemd128_hash_of:
  "md_hash_of (ripemd128_macros (arch_of p)) (take 4 rmd_IV) (\<lambda>v. concat (map (\<lambda>u. le32 (v ! u)) [0..<4])) 0 0 m = std_ripemd128 m"
  unfolding std_ripemd128_def
  by (subst md_hash_of_std [where P = "\<lambda>v. length v = 4"])
     (auto simp: ripemd128_round_compress rmd_IV_def concat_map_take)

lemma ripemd128_interface:
  "sph_ripemd128_init = md_init (take 4 rmd_IV)" "sph_ripemd128 a = md_update a (ripemd128_macros a)"
  "sph_ripemd128_close a = md_close_init a (ripemd128_macros a) (take 4 rmd_IV) 4 0 0"
  by (simp_all add: fun_eq_iff sph_ripemd128_init_def md_init_def sph_ripemd128_def md_close_init_def
      sph_ripemd128_close_def md_close_def)

lemma ripemd128_length_ok [simp]: "md_length_ok (ripemd128_macros a) l"
  by (simp add: md_length_ok_def)

section \<open>Properties\<close>

text \<open>
  RIPEMD-128 of the library is the function of the definition, however the message is cut into calls
  and wherever the pieces lie; the closed context can be used for the next message.
\<close>

theorem sph_ripemd128_correct:
  assumes "length (buf sc) = 64"
  shows "\<exists>sc1 sc2. feed (sph_ripemd128 (arch_of p)) ps (sph_ripemd128_init sc) = Some sc1
     \<and> fst (sph_ripemd128_close (arch_of p) dst sc1) = std_ripemd128 (pieces ps)
     \<and> feed (sph_ripemd128 (arch_of p)) qs (snd (sph_ripemd128_close (arch_of p) dst sc1)) = Some sc2
     \<and> fst (sph_ripemd128_close (arch_of p) dst' sc2) = std_ripemd128 (pieces qs)"
proof -
  obtain sc1 where f1: "feed (sph_ripemd128 (arch_of p)) ps (sph_ripemd128_init sc) = Some sc1"
    and r1: "md_rep (ripemd128_macros (arch_of p)) (take 4 rmd_IV) (pieces ps) sc1"
    using ripemd128.inc.feed_represents [OF ripemd128.inc.init_represents, of sc p ps] assms
    by (auto simp: ripemd128_interface)
  let ?c = "sph_ripemd128_close (arch_of p) dst sc1"
  have c1: "fst ?c = std_ripemd128 (pieces ps)" and "md_rep (ripemd128_macros (arch_of p)) (take 4 rmd_IV) [] (snd ?c)"
    using ripemd128.close_digest [OF r1, of 0 0 dst] by (simp_all add: ripemd128_interface ripemd128_hash_of)
  then obtain sc2 where "feed (sph_ripemd128 (arch_of p)) qs (snd ?c) = Some sc2"
    and r2: "md_rep (ripemd128_macros (arch_of p)) (take 4 rmd_IV) (pieces qs) sc2"
    using ripemd128.inc.feed_represents [of p "[]" "snd ?c" qs] by (auto simp: ripemd128_interface)
  with f1 c1 ripemd128.close_digest [OF r2, of 0 0 dst'] show ?thesis
    by (simp add: ripemd128_interface ripemd128_hash_of)
qed

theorem sph_ripemd128_correct_witness:
  "\<exists>sc1. feed (sph_ripemd128 (arch_of I386)) [(1, [0x61]), (2, [0x62, 0x63])]
       (sph_ripemd128_init \<lparr>buf = replicate 64 7, val = [], count = 5\<rparr>) = Some sc1
     \<and> fst (sph_ripemd128_close (arch_of I386) 0 sc1) = std_ripemd128 [0x61, 0x62, 0x63]"
  using sph_ripemd128_correct [of "\<lparr>buf = replicate 64 7, val = [], count = 5\<rparr>" I386
      "[(1, [0x61]), (2, [0x62, 0x63])]" 0 "[]"] by auto

text \<open>
  The compression function, with its 64 operations per line written out, is the one of the
  definition, on the bytes of a block, whether they are read once or at each use, and on a block
  given as words.
\<close>

theorem ripemd128_compression_correct:
  assumes "length b = 64"
  shows "ripemd128_round (arch_of p) b r = ripemd128_compress (\<lambda>t. of_le (take 4 (drop (4 * t) b))) r
    \<and> sph_ripemd128_comp msg r = ripemd128_compress (\<lambda>t. msg ! t) r"
  using assms by (simp add: ripemd128_round_compress sph_ripemd128_comp_def RIPEMD128_ROUND_BODY_compress)

theorem ripemd128_compression_correct_witness:
  "ripemd128_round (arch_of Mips_eb) (replicate 64 3) rmd_IV =
     ripemd128_compress (\<lambda>t. of_le (take 4 (drop (4 * t) (replicate 64 3)))) rmd_IV"
  using ripemd128_compression_correct [of "replicate 64 3" Mips_eb] by simp

end
