(* ===== verification/Ripemd160.thy ===== *)
theory Ripemd160
  imports Ripemd128
begin

text \<open>
  \<open>ripemd.c\<close>: RIPEMD-160. The two lines of the compression function are written out on named
  variables, one paragraph of the macro per round; each paragraph is a function here. They are
  shown to be the rounds of the definition, and the digests those of the padded message.
\<close>

section \<open>Constants and the operation\<close>

definition K11 :: u32 where "K11 = 0"
definition K12 :: u32 where "K12 = 0x5A827999"
definition K13 :: u32 where "K13 = 0x6ED9EBA1"
definition K14 :: u32 where "K14 = 0x8F1BBCDC"
definition K15 :: u32 where "K15 = 0xA953FD4E"
definition K21 :: u32 where "K21 = 0x50A28BE6"
definition K22 :: u32 where "K22 = 0x5C4DD124"
definition K23 :: u32 where "K23 = 0x6D703EF3"
definition K24 :: u32 where "K24 = 0x7A6D76E9"
definition K25 :: u32 where "K25 = 0"

text \<open>\<open>RR\<close> assigns to \<open>a\<close> and \<open>c\<close>; the function returns their new values.\<close>

definition RR ::
    "u32 \<Rightarrow> u32 \<Rightarrow> u32 \<Rightarrow> u32 \<Rightarrow> u32 \<Rightarrow> (u32 \<Rightarrow> u32 \<Rightarrow> u32 \<Rightarrow> u32) \<Rightarrow> nat \<Rightarrow> u32 \<Rightarrow> u32 \<Rightarrow> u32 \<times> u32" where
  "RR a b c d e f s r k =
     (let a = SPH_T32 (SPH_ROTL32 (SPH_T32 (a + f b c d + r + k)) s + e);
          c = SPH_ROTL32 c 10
      in (a, c))"

section \<open>The compression function\<close>

definition RIPEMD160_LEFT_1 :: "(nat \<Rightarrow> u32) \<Rightarrow> u32 st5 \<Rightarrow> u32 st5" where
  "RIPEMD160_LEFT_1 inp st =
     (case st of (A1, B1, C1, D1, E1) \<Rightarrow>
  let (A1, C1) = RR A1 B1 C1 D1 E1 rmd_F1 11 (inp 0) K11;
   (E1, B1) = RR E1 A1 B1 C1 D1 rmd_F1 14 (inp 1) K11;
   (D1, A1) = RR D1 E1 A1 B1 C1 rmd_F1 15 (inp 2) K11;
   (C1, E1) = RR C1 D1 E1 A1 B1 rmd_F1 12 (inp 3) K11;
   (B1, D1) = RR B1 C1 D1 E1 A1 rmd_F1 5 (inp 4) K11;
   (A1, C1) = RR A1 B1 C1 D1 E1 rmd_F1 8 (inp 5) K11;
   (E1, B1) = RR E1 A1 B1 C1 D1 rmd_F1 7 (inp 6) K11;
   (D1, A1) = RR D1 E1 A1 B1 C1 rmd_F1 9 (inp 7) K11;
   (C1, E1) = RR C1 D1 E1 A1 B1 rmd_F1 11 (inp 8) K11;
   (B1, D1) = RR B1 C1 D1 E1 A1 rmd_F1 13 (inp 9) K11;
   (A1, C1) = RR A1 B1 C1 D1 E1 rmd_F1 14 (inp 10) K11;
   (E1, B1) = RR E1 A1 B1 C1 D1 rmd_F1 15 (inp 11) K11;
   (D1, A1) = RR D1 E1 A1 B1 C1 rmd_F1 6 (inp 12) K11;
   (C1, E1) = RR C1 D1 E1 A1 B1 rmd_F1 7 (inp 13) K11;
   (B1, D1) = RR B1 C1 D1 E1 A1 rmd_F1 9 (inp 14) K11;
   (A1, C1) = RR A1 B1 C1 D1 E1 rmd_F1 8 (inp 15) K11
  in (A1, B1, C1, D1, E1))"

definition RIPEMD160_LEFT_2 :: "(nat \<Rightarrow> u32) \<Rightarrow> u32 st5 \<Rightarrow> u32 st5" where
  "RIPEMD160_LEFT_2 inp st =
     (case st of (A1, B1, C1, D1, E1) \<Rightarrow>
  let (E1, B1) = RR E1 A1 B1 C1 D1 rmd_F2 7 (inp 7) K12;
   (D1, A1) = RR D1 E1 A1 B1 C1 rmd_F2 6 (inp 4) K12;
   (C1, E1) = RR C1 D1 E1 A1 B1 rmd_F2 8 (inp 13) K12;
   (B1, D1) = RR B1 C1 D1 E1 A1 rmd_F2 13 (inp 1) K12;
   (A1, C1) = RR A1 B1 C1 D1 E1 rmd_F2 11 (inp 10) K12;
   (E1, B1) = RR E1 A1 B1 C1 D1 rmd_F2 9 (inp 6) K12;
   (D1, A1) = RR D1 E1 A1 B1 C1 rmd_F2 7 (inp 15) K12;
   (C1, E1) = RR C1 D1 E1 A1 B1 rmd_F2 15 (inp 3) K12;
   (B1, D1) = RR B1 C1 D1 E1 A1 rmd_F2 7 (inp 12) K12;
   (A1, C1) = RR A1 B1 C1 D1 E1 rmd_F2 12 (inp 0) K12;
   (E1, B1) = RR E1 A1 B1 C1 D1 rmd_F2 15 (inp 9) K12;
   (D1, A1) = RR D1 E1 A1 B1 C1 rmd_F2 9 (inp 5) K12;
   (C1, E1) = RR C1 D1 E1 A1 B1 rmd_F2 11 (inp 2) K12;
   (B1, D1) = RR B1 C1 D1 E1 A1 rmd_F2 7 (inp 14) K12;
   (A1, C1) = RR A1 B1 C1 D1 E1 rmd_F2 13 (inp 11) K12;
   (E1, B1) = RR E1 A1 B1 C1 D1 rmd_F2 12 (inp 8) K12
  in (A1, B1, C1, D1, E1))"

definition RIPEMD160_LEFT_3 :: "(nat \<Rightarrow> u32) \<Rightarrow> u32 st5 \<Rightarrow> u32 st5" where
  "RIPEMD160_LEFT_3 inp st =
     (case st of (A1, B1, C1, D1, E1) \<Rightarrow>
  let (D1, A1) = RR D1 E1 A1 B1 C1 rmd_F3 11 (inp 3) K13;
   (C1, E1) = RR C1 D1 E1 A1 B1 rmd_F3 13 (inp 10) K13;
   (B1, D1) = RR B1 C1 D1 E1 A1 rmd_F3 6 (inp 14) K13;
   (A1, C1) = RR A1 B1 C1 D1 E1 rmd_F3 7 (inp 4) K13;
   (E1, B1) = RR E1 A1 B1 C1 D1 rmd_F3 14 (inp 9) K13;
   (D1, A1) = RR D1 E1 A1 B1 C1 rmd_F3 9 (inp 15) K13;
   (C1, E1) = RR C1 D1 E1 A1 B1 rmd_F3 13 (inp 8) K13;
   (B1, D1) = RR B1 C1 D1 E1 A1 rmd_F3 15 (inp 1) K13;
   (A1, C1) = RR A1 B1 C1 D1 E1 rmd_F3 14 (inp 2) K13;
   (E1, B1) = RR E1 A1 B1 C1 D1 rmd_F3 8 (inp 7) K13;
   (D1, A1) = RR D1 E1 A1 B1 C1 rmd_F3 13 (inp 0) K13;
   (C1, E1) = RR C1 D1 E1 A1 B1 rmd_F3 6 (inp 6) K13;
   (B1, D1) = RR B1 C1 D1 E1 A1 rmd_F3 5 (inp 13) K13;
   (A1, C1) = RR A1 B1 C1 D1 E1 rmd_F3 12 (inp 11) K13;
   (E1, B1) = RR E1 A1 B1 C1 D1 rmd_F3 7 (inp 5) K13;
   (D1, A1) = RR D1 E1 A1 B1 C1 rmd_F3 5 (inp 12) K13
  in (A1, B1, C1, D1, E1))"

definition RIPEMD160_LEFT_4 :: "(nat \<Rightarrow> u32) \<Rightarrow> u32 st5 \<Rightarrow> u32 st5" where
  "RIPEMD160_LEFT_4 inp st =
     (case st of (A1, B1, C1, D1, E1) \<Rightarrow>
  let (C1, E1) = RR C1 D1 E1 A1 B1 rmd_F4 11 (inp 1) K14;
   (B1, D1) = RR B1 C1 D1 E1 A1 rmd_F4 12 (inp 9) K14;
   (A1, C1) = RR A1 B1 C1 D1 E1 rmd_F4 14 (inp 11) K14;
   (E1, B1) = RR E1 A1 B1 C1 D1 rmd_F4 15 (inp 10) K14;
   (D1, A1) = RR D1 E1 A1 B1 C1 rmd_F4 14 (inp 0) K14;
   (C1, E1) = RR C1 D1 E1 A1 B1 rmd_F4 15 (inp 8) K14;
   (B1, D1) = RR B1 C1 D1 E1 A1 rmd_F4 9 (inp 12) K14;
   (A1, C1) = RR A1 B1 C1 D1 E1 rmd_F4 8 (inp 4) K14;
   (E1, B1) = RR E1 A1 B1 C1 D1 rmd_F4 9 (inp 13) K14;
   (D1, A1) = RR D1 E1 A1 B1 C1 rmd_F4 14 (inp 3) K14;
   (C1, E1) = RR C1 D1 E1 A1 B1 rmd_F4 5 (inp 7) K14;
   (B1, D1) = RR B1 C1 D1 E1 A1 rmd_F4 6 (inp 15) K14;
   (A1, C1) = RR A1 B1 C1 D1 E1 rmd_F4 8 (inp 14) K14;
   (E1, B1) = RR E1 A1 B1 C1 D1 rmd_F4 6 (inp 5) K14;
   (D1, A1) = RR D1 E1 A1 B1 C1 rmd_F4 5 (inp 6) K14;
   (C1, E1) = RR C1 D1 E1 A1 B1 rmd_F4 12 (inp 2) K14
  in (A1, B1, C1, D1, E1))"

definition RIPEMD160_LEFT_5 :: "(nat \<Rightarrow> u32) \<Rightarrow> u32 st5 \<Rightarrow> u32 st5" where
  "RIPEMD160_LEFT_5 inp st =
     (case st of (A1, B1, C1, D1, E1) \<Rightarrow>
  let (B1, D1) = RR B1 C1 D1 E1 A1 rmd_F5 9 (inp 4) K15;
   (A1, C1) = RR A1 B1 C1 D1 E1 rmd_F5 15 (inp 0) K15;
   (E1, B1) = RR E1 A1 B1 C1 D1 rmd_F5 5 (inp 5) K15;
   (D1, A1) = RR D1 E1 A1 B1 C1 rmd_F5 11 (inp 9) K15;
   (C1, E1) = RR C1 D1 E1 A1 B1 rmd_F5 6 (inp 7) K15;
   (B1, D1) = RR B1 C1 D1 E1 A1 rmd_F5 8 (inp 12) K15;
   (A1, C1) = RR A1 B1 C1 D1 E1 rmd_F5 13 (inp 2) K15;
   (E1, B1) = RR E1 A1 B1 C1 D1 rmd_F5 12 (inp 10) K15;
   (D1, A1) = RR D1 E1 A1 B1 C1 rmd_F5 5 (inp 14) K15;
   (C1, E1) = RR C1 D1 E1 A1 B1 rmd_F5 12 (inp 1) K15;
   (B1, D1) = RR B1 C1 D1 E1 A1 rmd_F5 13 (inp 3) K15;
   (A1, C1) = RR A1 B1 C1 D1 E1 rmd_F5 14 (inp 8) K15;
   (E1, B1) = RR E1 A1 B1 C1 D1 rmd_F5 11 (inp 11) K15;
   (D1, A1) = RR D1 E1 A1 B1 C1 rmd_F5 8 (inp 6) K15;
   (C1, E1) = RR C1 D1 E1 A1 B1 rmd_F5 5 (inp 15) K15;
   (B1, D1) = RR B1 C1 D1 E1 A1 rmd_F5 6 (inp 13) K15
  in (A1, B1, C1, D1, E1))"

definition RIPEMD160_RIGHT_1 :: "(nat \<Rightarrow> u32) \<Rightarrow> u32 st5 \<Rightarrow> u32 st5" where
  "RIPEMD160_RIGHT_1 inp st =
     (case st of (A2, B2, C2, D2, E2) \<Rightarrow>
  let (A2, C2) = RR A2 B2 C2 D2 E2 rmd_F5 8 (inp 5) K21;
   (E2, B2) = RR E2 A2 B2 C2 D2 rmd_F5 9 (inp 14) K21;
   (D2, A2) = RR D2 E2 A2 B2 C2 rmd_F5 9 (inp 7) K21;
   (C2, E2) = RR C2 D2 E2 A2 B2 rmd_F5 11 (inp 0) K21;
   (B2, D2) = RR B2 C2 D2 E2 A2 rmd_F5 13 (inp 9) K21;
   (A2, C2) = RR A2 B2 C2 D2 E2 rmd_F5 15 (inp 2) K21;
   (E2, B2) = RR E2 A2 B2 C2 D2 rmd_F5 15 (inp 11) K21;
   (D2, A2) = RR D2 E2 A2 B2 C2 rmd_F5 5 (inp 4) K21;
   (C2, E2) = RR C2 D2 E2 A2 B2 rmd_F5 7 (inp 13) K21;
   (B2, D2) = RR B2 C2 D2 E2 A2 rmd_F5 7 (inp 6) K21;
   (A2, C2) = RR A2 B2 C2 D2 E2 rmd_F5 8 (inp 15) K21;
   (E2, B2) = RR E2 A2 B2 C2 D2 rmd_F5 11 (inp 8) K21;
   (D2, A2) = RR D2 E2 A2 B2 C2 rmd_F5 14 (inp 1) K21;
   (C2, E2) = RR C2 D2 E2 A2 B2 rmd_F5 14 (inp 10) K21;
   (B2, D2) = RR B2 C2 D2 E2 A2 rmd_F5 12 (inp 3) K21;
   (A2, C2) = RR A2 B2 C2 D2 E2 rmd_F5 6 (inp 12) K21
  in (A2, B2, C2, D2, E2))"

definition RIPEMD160_RIGHT_2 :: "(nat \<Rightarrow> u32) \<Rightarrow> u32 st5 \<Rightarrow> u32 st5" where
  "RIPEMD160_RIGHT_2 inp st =
     (case st of (A2, B2, C2, D2, E2) \<Rightarrow>
  let (E2, B2) = RR E2 A2 B2 C2 D2 rmd_F4 9 (inp 6) K22;
   (D2, A2) = RR D2 E2 A2 B2 C2 rmd_F4 13 (inp 11) K22;
   (C2, E2) = RR C2 D2 E2 A2 B2 rmd_F4 15 (inp 3) K22;
   (B2, D2) = RR B2 C2 D2 E2 A2 rmd_F4 7 (inp 7) K22;
   (A2, C2) = RR A2 B2 C2 D2 E2 rmd_F4 12 (inp 0) K22;
   (E2, B2) = RR E2 A2 B2 C2 D2 rmd_F4 8 (inp 13) K22;
   (D2, A2) = RR D2 E2 A2 B2 C2 rmd_F4 9 (inp 5) K22;
   (C2, E2) = RR C2 D2 E2 A2 B2 rmd_F4 11 (inp 10) K22;
   (B2, D2) = RR B2 C2 D2 E2 A2 rmd_F4 7 (inp 14) K22;
   (A2, C2) = RR A2 B2 C2 D2 E2 rmd_F4 7 (inp 15) K22;
   (E2, B2) = RR E2 A2 B2 C2 D2 rmd_F4 12 (inp 8) K22;
   (D2, A2) = RR D2 E2 A2 B2 C2 rmd_F4 7 (inp 12) K22;
   (C2, E2) = RR C2 D2 E2 A2 B2 rmd_F4 6 (inp 4) K22;
   (B2, D2) = RR B2 C2 D2 E2 A2 rmd_F4 15 (inp 9) K22;
   (A2, C2) = RR A2 B2 C2 D2 E2 rmd_F4 13 (inp 1) K22;
   (E2, B2) = RR E2 A2 B2 C2 D2 rmd_F4 11 (inp 2) K22
  in (A2, B2, C2, D2, E2))"

definition RIPEMD160_RIGHT_3 :: "(nat \<Rightarrow> u32) \<Rightarrow> u32 st5 \<Rightarrow> u32 st5" where
  "RIPEMD160_RIGHT_3 inp st =
     (case st of (A2, B2, C2, D2, E2) \<Rightarrow>
  let (D2, A2) = RR D2 E2 A2 B2 C2 rmd_F3 9 (inp 15) K23;
   (C2, E2) = RR C2 D2 E2 A2 B2 rmd_F3 7 (inp 5) K23;
   (B2, D2) = RR B2 C2 D2 E2 A2 rmd_F3 15 (inp 1) K23;
   (A2, C2) = RR A2 B2 C2 D2 E2 rmd_F3 11 (inp 3) K23;
   (E2, B2) = RR E2 A2 B2 C2 D2 rmd_F3 8 (inp 7) K23;
   (D2, A2) = RR D2 E2 A2 B2 C2 rmd_F3 6 (inp 14) K23;
   (C2, E2) = RR C2 D2 E2 A2 B2 rmd_F3 6 (inp 6) K23;
   (B2, D2) = RR B2 C2 D2 E2 A2 rmd_F3 14 (inp 9) K23;
   (A2, C2) = RR A2 B2 C2 D2 E2 rmd_F3 12 (inp 11) K23;
   (E2, B2) = RR E2 A2 B2 C2 D2 rmd_F3 13 (inp 8) K23;
   (D2, A2) = RR D2 E2 A2 B2 C2 rmd_F3 5 (inp 12) K23;
   (C2, E2) = RR C2 D2 E2 A2 B2 rmd_F3 14 (inp 2) K23;
   (B2, D2) = RR B2 C2 D2 E2 A2 rmd_F3 13 (inp 10) K23;
   (A2, C2) = RR A2 B2 C2 D2 E2 rmd_F3 13 (inp 0) K23;
   (E2, B2) = RR E2 A2 B2 C2 D2 rmd_F3 7 (inp 4) K23;
   (D2, A2) = RR D2 E2 A2 B2 C2 rmd_F3 5 (inp 13) K23
  in (A2, B2, C2, D2, E2))"

definition RIPEMD160_RIGHT_4 :: "(nat \<Rightarrow> u32) \<Rightarrow> u32 st5 \<Rightarrow> u32 st5" where
  "RIPEMD160_RIGHT_4 inp st =
     (case st of (A2, B2, C2, D2, E2) \<Rightarrow>
  let (C2, E2) = RR C2 D2 E2 A2 B2 rmd_F2 15 (inp 8) K24;
   (B2, D2) = RR B2 C2 D2 E2 A2 rmd_F2 5 (inp 6) K24;
   (A2, C2) = RR A2 B2 C2 D2 E2 rmd_F2 8 (inp 4) K24;
   (E2, B2) = RR E2 A2 B2 C2 D2 rmd_F2 11 (inp 1) K24;
   (D2, A2) = RR D2 E2 A2 B2 C2 rmd_F2 14 (inp 3) K24;
   (C2, E2) = RR C2 D2 E2 A2 B2 rmd_F2 14 (inp 11) K24;
   (B2, D2) = RR B2 C2 D2 E2 A2 rmd_F2 6 (inp 15) K24;
   (A2, C2) = RR A2 B2 C2 D2 E2 rmd_F2 14 (inp 0) K24;
   (E2, B2) = RR E2 A2 B2 C2 D2 rmd_F2 6 (inp 5) K24;
   (D2, A2) = RR D2 E2 A2 B2 C2 rmd_F2 9 (inp 12) K24;
   (C2, E2) = RR C2 D2 E2 A2 B2 rmd_F2 12 (inp 2) K24;
   (B2, D2) = RR B2 C2 D2 E2 A2 rmd_F2 9 (inp 13) K24;
   (A2, C2) = RR A2 B2 C2 D2 E2 rmd_F2 12 (inp 9) K24;
   (E2, B2) = RR E2 A2 B2 C2 D2 rmd_F2 5 (inp 7) K24;
   (D2, A2) = RR D2 E2 A2 B2 C2 rmd_F2 15 (inp 10) K24;
   (C2, E2) = RR C2 D2 E2 A2 B2 rmd_F2 8 (inp 14) K24
  in (A2, B2, C2, D2, E2))"

definition RIPEMD160_RIGHT_5 :: "(nat \<Rightarrow> u32) \<Rightarrow> u32 st5 \<Rightarrow> u32 st5" where
  "RIPEMD160_RIGHT_5 inp st =
     (case st of (A2, B2, C2, D2, E2) \<Rightarrow>
  let (B2, D2) = RR B2 C2 D2 E2 A2 rmd_F1 8 (inp 12) K25;
   (A2, C2) = RR A2 B2 C2 D2 E2 rmd_F1 5 (inp 15) K25;
   (E2, B2) = RR E2 A2 B2 C2 D2 rmd_F1 12 (inp 10) K25;
   (D2, A2) = RR D2 E2 A2 B2 C2 rmd_F1 9 (inp 4) K25;
   (C2, E2) = RR C2 D2 E2 A2 B2 rmd_F1 12 (inp 1) K25;
   (B2, D2) = RR B2 C2 D2 E2 A2 rmd_F1 5 (inp 5) K25;
   (A2, C2) = RR A2 B2 C2 D2 E2 rmd_F1 14 (inp 8) K25;
   (E2, B2) = RR E2 A2 B2 C2 D2 rmd_F1 6 (inp 7) K25;
   (D2, A2) = RR D2 E2 A2 B2 C2 rmd_F1 8 (inp 6) K25;
   (C2, E2) = RR C2 D2 E2 A2 B2 rmd_F1 13 (inp 2) K25;
   (B2, D2) = RR B2 C2 D2 E2 A2 rmd_F1 6 (inp 13) K25;
   (A2, C2) = RR A2 B2 C2 D2 E2 rmd_F1 5 (inp 14) K25;
   (E2, B2) = RR E2 A2 B2 C2 D2 rmd_F1 15 (inp 0) K25;
   (D2, A2) = RR D2 E2 A2 B2 C2 rmd_F1 13 (inp 3) K25;
   (C2, E2) = RR C2 D2 E2 A2 B2 rmd_F1 11 (inp 9) K25;
   (B2, D2) = RR B2 C2 D2 E2 A2 rmd_F1 11 (inp 11) K25
  in (A2, B2, C2, D2, E2))"

definition RIPEMD160_ROUND_BODY :: "(nat \<Rightarrow> u32) \<Rightarrow> u32 list \<Rightarrow> u32 list" where
  "RIPEMD160_ROUND_BODY inp h =
     (let s1 = RIPEMD160_LEFT_1 inp (h ! 0, h ! 1, h ! 2, h ! 3, h ! 4);
          s1 = RIPEMD160_LEFT_2 inp s1;
          s1 = RIPEMD160_LEFT_3 inp s1;
          s1 = RIPEMD160_LEFT_4 inp s1;
          (A1, B1, C1, D1, E1) = RIPEMD160_LEFT_5 inp s1;
          s2 = RIPEMD160_RIGHT_1 inp (h ! 0, h ! 1, h ! 2, h ! 3, h ! 4);
          s2 = RIPEMD160_RIGHT_2 inp s2;
          s2 = RIPEMD160_RIGHT_3 inp s2;
          s2 = RIPEMD160_RIGHT_4 inp s2;
          (A2, B2, C2, D2, E2) = RIPEMD160_RIGHT_5 inp s2;
          tmp = SPH_T32 (h ! 1 + C1 + D2);
          h1 = SPH_T32 (h ! 2 + D1 + E2);
          h2 = SPH_T32 (h ! 3 + E1 + A2);
          h3 = SPH_T32 (h ! 4 + A1 + B2);
          h4 = SPH_T32 (h ! 0 + B1 + C2)
      in [tmp, h1, h2, h3, h4])"

text \<open>Where little-endian reads are fast, the words are read from the buffer again at each use.\<close>

definition ripemd160_round :: "arch \<Rightarrow> bytes \<Rightarrow> u32 list \<Rightarrow> u32 list" where
  "ripemd160_round a data r =
     (if SPH_LITTLE_FAST a then RIPEMD160_ROUND_BODY (\<lambda>x. sph_dec32le_aligned a (drop (4 * x) data)) r
      else
        let X_var = map (\<lambda>i. sph_dec32le_aligned a (drop (4 * i) data)) [0..<16]
        in RIPEMD160_ROUND_BODY (\<lambda>x. X_var ! x) r)"

definition sph_ripemd160_comp :: "u32 list \<Rightarrow> u32 list \<Rightarrow> u32 list" where
  "sph_ripemd160_comp msg v = RIPEMD160_ROUND_BODY (\<lambda>x. msg ! x) v"

section \<open>The interface\<close>

type_synonym ripemd160_context = "u32 list md_context"

text \<open>The size copied is that of the field.\<close>

definition sph_ripemd160_init :: "ripemd160_context \<Rightarrow> ripemd160_context" where
  "sph_ripemd160_init sc = sc\<lparr>val := take 5 rmd_IV, count := 0\<rparr>"

definition ripemd160_macros :: "arch \<Rightarrow> u32 list md_macros" where
  "ripemd160_macros a = \<lparr>WORD = LE32, BLEN = None, PLW = PLW_default, PW01 = False,
     RFUN = ripemd160_round a, OUTPUT = md_output_le32 a\<rparr>"

definition sph_ripemd160 :: "arch \<Rightarrow> u64 \<Rightarrow> bytes \<Rightarrow> ripemd160_context \<Rightarrow> ripemd160_context option" where
  "sph_ripemd160 a addr data sc = md_update a (ripemd160_macros a) addr data sc"

definition sph_ripemd160_close :: "arch \<Rightarrow> u64 \<Rightarrow> ripemd160_context \<Rightarrow> bytes \<times> ripemd160_context" where
  "sph_ripemd160_close a dst sc =
     (let (out, sc) = md_close a (ripemd160_macros a) dst 5 sc in (out, sph_ripemd160_init sc))"

section \<open>The compression function is the one of the definition\<close>

lemma rmd160_constants:
  "K11 = rmd_sqrt 0" "K12 = rmd_sqrt 1" "K13 = rmd_sqrt 2" "K14 = rmd_sqrt 3" "K15 = rmd_sqrt 4"
  "K21 = rmd_cbrt 0" "K22 = rmd_cbrt 1" "K23 = rmd_cbrt 2" "K24 = rmd_cbrt 3" "K25 = rmd_cbrt 4"
  by (simp_all add: rmd_sqrt_def rmd_cbrt_def K11_def K12_def K13_def K14_def K15_def K21_def K22_def
      K23_def K24_def K25_def)

lemma rmd160_op_RR:
  "0 < s \<Longrightarrow> s < 32 \<Longrightarrow> rmd160_op f K X (a, b, c, d, e) (k, s) =
     (case RR a b c d e f s (X k) K of (a', c') \<Rightarrow> (e, a', b, c', d))"
  by (simp add: RR_def sph_rotations)

lemma rmd160_op_case:
  "rmd160_op f K X (case p of (x, y) \<Rightarrow> g x y) o1 = (case p of (x, y) \<Rightarrow> rmd160_op f K X (g x y) o1)"
  by (cases p) simp

text \<open>Each round turns the roles of the five variables by one.\<close>

fun rot5 :: "'w st5 \<Rightarrow> 'w st5" where
  "rot5 (a, b, c, d, e) = (e, a, b, c, d)"

lemma rot5_case: "rot5 (case p of (x, y) \<Rightarrow> g x y) = (case p of (x, y) \<Rightarrow> rot5 (g x y))"
  by (cases p) simp

lemma let_case_prod: "(let (x, y) = p in g x y) = (case p of (x, y) \<Rightarrow> g x y)"
  by (simp only: Let_def)

lemma rmd160_at:
  "rmd160_left X st 0 = foldl (rmd160_op (rmd_f 0) (rmd_sqrt 0) X) st (rmd_left 0)"
  "rmd160_left X st 1 = foldl (rmd160_op (rmd_f 1) (rmd_sqrt 1) X) st (rmd_left 1)"
  "rmd160_left X st 2 = foldl (rmd160_op (rmd_f 2) (rmd_sqrt 2) X) st (rmd_left 2)"
  "rmd160_left X st 3 = foldl (rmd160_op (rmd_f 3) (rmd_sqrt 3) X) st (rmd_left 3)"
  "rmd160_left X st 4 = foldl (rmd160_op (rmd_f 4) (rmd_sqrt 4) X) st (rmd_left 4)"
  "rmd160_right X st 0 = foldl (rmd160_op (rmd_f 4) (rmd_cbrt 0) X) st (rmd_right 0)"
  "rmd160_right X st 1 = foldl (rmd160_op (rmd_f 3) (rmd_cbrt 1) X) st (rmd_right 1)"
  "rmd160_right X st 2 = foldl (rmd160_op (rmd_f 2) (rmd_cbrt 2) X) st (rmd_right 2)"
  "rmd160_right X st 3 = foldl (rmd160_op (rmd_f 1) (rmd_cbrt 3) X) st (rmd_right 3)"
  "rmd160_right X st 4 = foldl (rmd160_op (rmd_f 0) (rmd_cbrt 4) X) st (rmd_right 4)"
  by (simp_all add: rmd160_left_def rmd160_right_def)

lemma RIPEMD160_steps:
  "rot5 (RIPEMD160_LEFT_1 inp st) = rmd160_left inp (st) 0"
  "rot5 (rot5 (RIPEMD160_LEFT_2 inp st)) = rmd160_left inp (rot5 (st)) 1"
  "rot5 (rot5 (rot5 (RIPEMD160_LEFT_3 inp st))) = rmd160_left inp (rot5 (rot5 (st))) 2"
  "rot5 (rot5 (rot5 (rot5 (RIPEMD160_LEFT_4 inp st)))) = rmd160_left inp (rot5 (rot5 (rot5 (st)))) 3"
  "RIPEMD160_LEFT_5 inp st = rmd160_left inp (rot5 (rot5 (rot5 (rot5 (st))))) 4"
  "rot5 (RIPEMD160_RIGHT_1 inp st) = rmd160_right inp (st) 0"
  "rot5 (rot5 (RIPEMD160_RIGHT_2 inp st)) = rmd160_right inp (rot5 (st)) 1"
  "rot5 (rot5 (rot5 (RIPEMD160_RIGHT_3 inp st))) = rmd160_right inp (rot5 (rot5 (st))) 2"
  "rot5 (rot5 (rot5 (rot5 (RIPEMD160_RIGHT_4 inp st)))) = rmd160_right inp (rot5 (rot5 (rot5 (st)))) 3"
  "RIPEMD160_RIGHT_5 inp st = rmd160_right inp (rot5 (rot5 (rot5 (rot5 (st))))) 4"
  by (cases st rule: st5_cases;
      simp only: RIPEMD160_LEFT_1_def RIPEMD160_LEFT_2_def RIPEMD160_LEFT_3_def RIPEMD160_LEFT_4_def RIPEMD160_LEFT_5_def RIPEMD160_RIGHT_1_def RIPEMD160_RIGHT_2_def RIPEMD160_RIGHT_3_def RIPEMD160_RIGHT_4_def RIPEMD160_RIGHT_5_def
        prod.case let_case_prod rmd_functions rmd160_constants rmd160_at rel_simps foldl.simps rmd_ops_at rmd160_op_RR
        rmd160_op_case rot5_case rot5.simps cong del: prod.case_cong_weak let_weak_cong)+

lemma RIPEMD160_ROUND_BODY_compress: "RIPEMD160_ROUND_BODY inp h = ripemd160_compress inp h"
proof -
  have five: "[0..<5] = [0, 1, 2, 3, 4 :: nat]" by (simp add: upt_conv_Cons)
  have l: "foldl (rmd160_left inp) st [0..<5] =
      RIPEMD160_LEFT_5 inp (RIPEMD160_LEFT_4 inp (RIPEMD160_LEFT_3 inp (RIPEMD160_LEFT_2 inp (RIPEMD160_LEFT_1 inp st))))" for st
    unfolding five foldl.simps RIPEMD160_steps(5) RIPEMD160_steps(4) [symmetric] RIPEMD160_steps(3) [symmetric]
      RIPEMD160_steps(2) [symmetric] RIPEMD160_steps(1) [symmetric] by (simp only:)
  have r: "foldl (rmd160_right inp) st [0..<5] =
      RIPEMD160_RIGHT_5 inp (RIPEMD160_RIGHT_4 inp (RIPEMD160_RIGHT_3 inp (RIPEMD160_RIGHT_2 inp (RIPEMD160_RIGHT_1 inp st))))" for st
    unfolding five foldl.simps RIPEMD160_steps(10) RIPEMD160_steps(9) [symmetric] RIPEMD160_steps(8) [symmetric]
      RIPEMD160_steps(7) [symmetric] RIPEMD160_steps(6) [symmetric] by (simp only:)
  show ?thesis
    unfolding RIPEMD160_ROUND_BODY_def ripemd160_compress_def Let_def l r SPH_T32_id st5_of_def rmd_combine5_def
    by (simp split: prod.split)
qed

lemma length_ripemd160_compress [simp]: "length (ripemd160_compress X h) = 5"
  by (simp add: ripemd160_compress_def rmd_combine5_def split: prod.split)

lemma ripemd160_round_compress:
  assumes "arch_ok a" and "length b = 64"
  shows "ripemd160_round a b r = ripemd160_compress (\<lambda>t. of_le (take 4 (drop (4 * t) b))) r"
proof -
  have "sph_dec32le_aligned a (drop (4 * t) b) = of_le (take 4 (drop (4 * t) b))" if "t < 16" for t
    using assms that by simp
  then show ?thesis
    by (simp add: ripemd160_round_def RIPEMD160_ROUND_BODY_compress cong: rmd_compress_cong del: upt_Suc)
qed

section \<open>The digests are those of the definition\<close>

definition std_ripemd160 :: "bytes \<Rightarrow> bytes" where
  "std_ripemd160 m =
     std_hash 64 (\<lambda>b. ripemd160_compress (\<lambda>t. of_le (take 4 (drop (4 * t) b)))) (take 5 rmd_IV)
       (\<lambda>v. concat (map le32 (take 5 v))) (std_pad nat_le 64 8 m 0 0)"

lemma ripemd160_macros_simps [simp]:
  "SPH_BLEN (ripemd160_macros a) = 64" "SPH_MAXPAD (ripemd160_macros a) = 56"
  "WORD (ripemd160_macros a) = LE32" "PLW (ripemd160_macros a) = PLW_default" "\<not> PW01 (ripemd160_macros a)"
  "RFUN (ripemd160_macros a) = ripemd160_round a" "OUTPUT (ripemd160_macros a) = md_output_le32 a"
  by (simp_all add: ripemd160_macros_def SPH_BLEN_def SPH_MAXPAD_def SPH_WLEN_def)

interpretation ripemd160: md_hash "arch_of p" "ripemd160_macros (arch_of p)" 6 "take 5 rmd_IV" 5
    "\<lambda>v. concat (map (\<lambda>u. le32 (v ! u)) [0..<5])" for p
  by unfold_locales (simp_all add: md_outputs)

lemma ripemd160_hash_of:
  "md_hash_of (ripemd160_macros (arch_of p)) (take 5 rmd_IV) (\<lambda>v. concat (map (\<lambda>u. le32 (v ! u)) [0..<5])) 0 0 m = std_ripemd160 m"
  unfolding std_ripemd160_def
  by (subst md_hash_of_std [where P = "\<lambda>v. length v = 5"])
     (auto simp: ripemd160_round_compress rmd_IV_def concat_map_take)

lemma ripemd160_interface:
  "sph_ripemd160_init = md_init (take 5 rmd_IV)" "sph_ripemd160 a = md_update a (ripemd160_macros a)"
  "sph_ripemd160_close a = md_close_init a (ripemd160_macros a) (take 5 rmd_IV) 5 0 0"
  by (simp_all add: fun_eq_iff sph_ripemd160_init_def md_init_def sph_ripemd160_def md_close_init_def
      sph_ripemd160_close_def md_close_def)

lemma ripemd160_length_ok [simp]: "md_length_ok (ripemd160_macros a) l"
  by (simp add: md_length_ok_def)

section \<open>Properties\<close>

text \<open>
  RIPEMD-160 of the library is the function of the definition, however the message is cut into calls
  and wherever the pieces lie; the closed context can be used for the next message.
\<close>

theorem sph_ripemd160_correct:
  assumes "length (buf sc) = 64"
  shows "\<exists>sc1 sc2. feed (sph_ripemd160 (arch_of p)) ps (sph_ripemd160_init sc) = Some sc1
     \<and> fst (sph_ripemd160_close (arch_of p) dst sc1) = std_ripemd160 (pieces ps)
     \<and> feed (sph_ripemd160 (arch_of p)) qs (snd (sph_ripemd160_close (arch_of p) dst sc1)) = Some sc2
     \<and> fst (sph_ripemd160_close (arch_of p) dst' sc2) = std_ripemd160 (pieces qs)"
proof -
  obtain sc1 where f1: "feed (sph_ripemd160 (arch_of p)) ps (sph_ripemd160_init sc) = Some sc1"
    and r1: "md_rep (ripemd160_macros (arch_of p)) (take 5 rmd_IV) (pieces ps) sc1"
    using ripemd160.inc.feed_represents [OF ripemd160.inc.init_represents, of sc p ps] assms
    by (auto simp: ripemd160_interface)
  let ?c = "sph_ripemd160_close (arch_of p) dst sc1"
  have c1: "fst ?c = std_ripemd160 (pieces ps)" and "md_rep (ripemd160_macros (arch_of p)) (take 5 rmd_IV) [] (snd ?c)"
    using ripemd160.close_digest [OF r1, of 0 0 dst] by (simp_all add: ripemd160_interface ripemd160_hash_of)
  then obtain sc2 where "feed (sph_ripemd160 (arch_of p)) qs (snd ?c) = Some sc2"
    and r2: "md_rep (ripemd160_macros (arch_of p)) (take 5 rmd_IV) (pieces qs) sc2"
    using ripemd160.inc.feed_represents [of p "[]" "snd ?c" qs] by (auto simp: ripemd160_interface)
  with f1 c1 ripemd160.close_digest [OF r2, of 0 0 dst'] show ?thesis
    by (simp add: ripemd160_interface ripemd160_hash_of)
qed

theorem sph_ripemd160_correct_witness:
  "\<exists>sc1. feed (sph_ripemd160 (arch_of I386)) [(1, [0x61]), (2, [0x62, 0x63])]
       (sph_ripemd160_init \<lparr>buf = replicate 64 7, val = [], count = 5\<rparr>) = Some sc1
     \<and> fst (sph_ripemd160_close (arch_of I386) 0 sc1) = std_ripemd160 [0x61, 0x62, 0x63]"
  using sph_ripemd160_correct [of "\<lparr>buf = replicate 64 7, val = [], count = 5\<rparr>" I386
      "[(1, [0x61]), (2, [0x62, 0x63])]" 0 "[]"] by auto

text \<open>
  The compression function, with its 80 operations per line written out, is the one of the
  definition, on the bytes of a block, whether they are read once or at each use, and on a block
  given as words.
\<close>

theorem ripemd160_compression_correct:
  assumes "length b = 64"
  shows "ripemd160_round (arch_of p) b r = ripemd160_compress (\<lambda>t. of_le (take 4 (drop (4 * t) b))) r
    \<and> sph_ripemd160_comp msg r = ripemd160_compress (\<lambda>t. msg ! t) r"
  using assms by (simp add: ripemd160_round_compress sph_ripemd160_comp_def RIPEMD160_ROUND_BODY_compress)

theorem ripemd160_compression_correct_witness:
  "ripemd160_round (arch_of Mips_eb) (replicate 64 3) rmd_IV =
     ripemd160_compress (\<lambda>t. of_le (take 4 (drop (4 * t) (replicate 64 3)))) rmd_IV"
  using ripemd160_compression_correct [of "replicate 64 3" Mips_eb] by simp

end
