(* ===== verification/Bts_Asset.thy ===== *)
theory Bts_Asset
  imports Prelude "HOL-Library.Log_Nat"
begin

text \<open>
  Assets and prices of the BitShares toolkit (\<open>bitshares_toolkit/libraries/blockchain/asset.cpp\<close>
  and \<open>asset.hpp\<close>, the exceptions of \<open>exceptions.hpp\<close>, the amounts of \<open>types.hpp\<close> and
  \<open>config.hpp\<close>): amounts are \<open>int64_t\<close>, kept here as 64-bit words read with \<open>sint\<close> and compared with
  the signed order, so that every wrap-around of the code is a wrap-around of the model. A function
  that throws returns the exception as the left value of a sum.

  The arbitrary precision integers and the 128-bit integers of the \<open>fc\<close> library are not part of the
  repository: what the code calls of them is the record \<open>fc_lib\<close>, an argument of the definitions,
  and \<open>fc_documented\<close> says what their documentation promises.
\<close>

section \<open>Exceptions\<close>

text \<open>
  The exceptions of \<open>exceptions.hpp\<close> that the modelled code throws, the failure of an \<open>FC_ASSERT\<close>,
  and two values for runs the language gives no meaning to: \<open>undefined_behaviour\<close> (an iterator or an
  empty optional is dereferenced, a string is written beyond its end) and \<open>no_result\<close> for a call
  into the \<open>fc\<close> library that throws an exception of its own.
\<close>

datatype chain_error =
    fc_assert | undefined_behaviour | no_result
  | addition_overflow | addition_underthrow | asset_type_mismatch
  | asset_divide_by_self | asset_divide_by_zero
  | unsupported_chain_operation | unknown_transaction | duplicate_transaction | expired_transaction
  | zero_amount | zero_price | negative_deposit | negative_withdraw | negative_issue
  | not_a_delegate | not_an_active_delegate | not_a_delegate_signature
  | unknown_balance_record | insufficient_funds | missing_signature
  | invalid_claim_password | invalid_withdraw_condition
  | invalid_account_name | unknown_account_id | unknown_account_name
  | missing_parent_account_signature | parent_account_retracted
  | account_already_registered | account_key_in_use | account_retracted
  | unknown_parent_account_name | invalid_fire_operation | invalid_vote_message_size
  | unknown_proposal_id | invalid_precision | invalid_asset_symbol | unknown_asset_id
  | asset_symbol_in_use | invalid_asset_amount | over_issue
  | delegate_vote_limit | insufficient_fee | negative_fee | missing_deposit
  | unknown_market_order | block_numbers_not_sequential | invalid_previous_block_id
  | invalid_block_time | time_in_past

section \<open>Amounts\<close>

type_synonym share_type = "64 word"
type_synonym uint128 = "128 word"

text \<open>\<open>fc::signed_int\<close>, the type of the identifiers, is an integer of the \<open>fc\<close> library.\<close>

type_synonym asset_id_type = int
type_synonym account_id_type = int
type_synonym proposal_id_type = int

definition share_abs :: "share_type \<Rightarrow> share_type" where
  "share_abs x = (if x <s 0 then - x else x)"

record asset =
  amount :: share_type
  asset_id :: asset_id_type

definition mk_asset :: "share_type \<Rightarrow> asset_id_type \<Rightarrow> asset" where
  "mk_asset x i = \<lparr>amount = x, asset_id = i\<rparr>"

text \<open>\<open>operator +=\<close> and \<open>operator -=\<close>.\<close>

definition asset_add :: "asset \<Rightarrow> asset \<Rightarrow> chain_error + asset" where
  "asset_add self a_o =
    (if asset_id self \<noteq> asset_id a_o then Inl fc_assert
     else let old = self; self = self\<lparr>amount := amount self + amount a_o\<rparr>
       in if amount self <s amount old then Inl addition_overflow else Inr self)"

definition asset_sub :: "asset \<Rightarrow> asset \<Rightarrow> chain_error + asset" where
  "asset_sub self a_o =
    (if asset_id self \<noteq> asset_id a_o then Inl fc_assert
     else let old = self; self = self\<lparr>amount := amount self - amount a_o\<rparr>
       in if amount old <s amount self then Inl addition_underthrow else Inr self)"

definition asset_times_const :: "asset \<Rightarrow> u64 \<Rightarrow> asset" where
  "asset_times_const self c = mk_asset (amount self * c) 0"

definition asset_div_const :: "asset \<Rightarrow> u64 \<Rightarrow> asset" where
  "asset_div_const self c = self\<lparr>amount := amount self div c\<rparr>"

definition asset_uminus :: "asset \<Rightarrow> asset" where
  "asset_uminus self = mk_asset (- amount self) (asset_id self)"

text \<open>The comparisons of assets: only the ordered ones look at the identifiers.\<close>

definition asset_eq :: "asset \<Rightarrow> asset \<Rightarrow> bool" where
  "asset_eq l r = (amount l = amount r)"

definition asset_less :: "asset \<Rightarrow> asset \<Rightarrow> bool" where
  "asset_less l r = (amount l <s amount r)"

definition asset_le :: "asset \<Rightarrow> asset \<Rightarrow> bool" where
  "asset_le l r = (asset_id l = asset_id r \<and> amount l <=s amount r)"

section \<open>Prices\<close>

definition BTS_BLOCKCHAIN_MAX_SHARES :: u64 where
  "BTS_BLOCKCHAIN_MAX_SHARES = 1000 * 1000 * 1000 * 1000 * 1000"

definition BTS_PRICE_PRECISION :: u64 where
  "BTS_PRICE_PRECISION = BTS_BLOCKCHAIN_MAX_SHARES * 1000"

record price =
  ratio :: uint128
  base_asset_id :: asset_id_type
  quote_asset_id :: asset_id_type

definition mk_price :: "uint128 \<Rightarrow> asset_id_type \<Rightarrow> asset_id_type \<Rightarrow> price" where
  "mk_price r b q = \<lparr>ratio = r, base_asset_id = b, quote_asset_id = q\<rparr>"

text \<open>\<open>price()\<close>; its members are default initialised by the \<open>fc\<close> types.\<close>

definition null_price :: price where
  "null_price = mk_price 0 0 0"

definition price_eq :: "price \<Rightarrow> price \<Rightarrow> bool" where
  "price_eq l r = (ratio l = ratio r)"

definition price_neq :: "price \<Rightarrow> price \<Rightarrow> bool" where
  "price_neq l r = (ratio l = ratio r)"

definition price_less :: "price \<Rightarrow> price \<Rightarrow> bool" where
  "price_less l r = (ratio l < ratio r)"

definition asset_pair :: "price \<Rightarrow> asset_id_type \<times> asset_id_type" where
  "asset_pair p = (base_asset_id p, quote_asset_id p)"

definition price_le :: "price \<Rightarrow> price \<Rightarrow> bool" where
  "price_le l r = (ratio l \<le> ratio r \<and> asset_pair l = asset_pair r)"

text \<open>
  What the code uses of \<open>fc::bigint\<close> and \<open>fc::uint128\<close>. The values of a \<open>bigint\<close> are the integers;
  its sums and products are exact. \<open>to_int64\<close> asserts that the value has at most 63 bits: \<open>None\<close> is the
  exception.
\<close>

record fc_lib =
  fc_of_amount :: "share_type \<Rightarrow> int"
  fc_of_ratio :: "uint128 \<Rightarrow> int"
  fc_div :: "int \<Rightarrow> int \<Rightarrow> int"
  fc_log2 :: "int \<Rightarrow> int"
  fc_to_int64 :: "int \<Rightarrow> share_type option"
  fc_to_uint128 :: "int \<Rightarrow> uint128"
  fc_uint128_of_int64 :: "share_type \<Rightarrow> uint128"
  fc_string_of_uint128 :: "uint128 \<Rightarrow> string"
  fc_uint128_of_string :: "string \<Rightarrow> uint128"


text \<open>\<open>rtn.amount = amnt.to_int64()\<close>.\<close>

definition to_amount :: "fc_lib \<Rightarrow> int \<Rightarrow> asset_id_type \<Rightarrow> chain_error + asset" where
  "to_amount fc x i = (case fc_to_int64 fc x of None \<Rightarrow> Inl fc_assert | Some w \<Rightarrow> Inr (mk_asset w i))"

text \<open>\<open>operator * ( const asset\& a, const price\& p )\<close>\<close>

definition asset_times_price :: "fc_lib \<Rightarrow> asset \<Rightarrow> price \<Rightarrow> chain_error + asset" where
  "asset_times_price fc a p =
    (if asset_id a = base_asset_id p then
       (let amnt = fc_div fc (fc_of_amount fc (amount a) * fc_of_ratio fc (ratio p))
                             (uint BTS_PRICE_PRECISION)
        in if fc_log2 fc amnt \<ge> 128 then Inl addition_overflow
           else to_amount fc amnt (quote_asset_id p))
     else if asset_id a = quote_asset_id p then
       (let result = fc_div fc (fc_of_amount fc (amount a) * uint BTS_PRICE_PRECISION)
                               (fc_of_ratio fc (ratio p))
        in if fc_log2 fc result \<ge> 128 then Inl addition_overflow
           else to_amount fc result (base_asset_id p))
     else Inl asset_type_mismatch)"

section \<open>Prices as text\<close>

definition is_digit :: "char \<Rightarrow> bool" where
  "is_digit c = (48 \<le> (of_char c :: nat) \<and> (of_char c :: nat) \<le> 57)"

text \<open>The characters \<open>std::isspace\<close> accepts in the default locale.\<close>

definition is_space :: "char \<Rightarrow> bool" where
  "is_space c = (c = CHR '' '' \<or> (9 \<le> (of_char c :: nat) \<and> (of_char c :: nat) \<le> 13))"

definition skip_space :: "string \<Rightarrow> string" where
  "skip_space s = dropWhile is_space s"

definition decimal_value :: "string \<Rightarrow> nat" where
  "decimal_value s = foldl (\<lambda>n c. 10 * n + (of_char c - 48)) 0 s"

definition digit_char :: "nat \<Rightarrow> char" where
  "digit_char n = char_of (48 + n)"

fun decimal :: "nat \<Rightarrow> string" where
  "decimal n = (if n < 10 then [digit_char n] else decimal (n div 10) @ [digit_char (n mod 10)])"

declare decimal.simps [simp del]

text \<open>
  \<open>ss >> i\<close> of the standard library for an \<open>int64_t\<close>: the value, what is left of the input, and
  whether the stream has failed (then nothing more is extracted from it).
\<close>

definition read_int64 :: "string \<Rightarrow> share_type \<times> string \<times> bool" where
  "read_int64 s =
    (let t = skip_space s;
         neg = (t \<noteq> [] \<and> hd t = CHR ''-'');
         u = (if t \<noteq> [] \<and> hd t \<in> {CHR ''-'', CHR ''+''} then tl t else t);
         ds = takeWhile is_digit u;
         n = (if neg then - int (decimal_value ds) else int (decimal_value ds));
         rest = dropWhile is_digit u
     in if ds = [] then (0, rest, True)
        else if 2 ^ 63 \<le> n then (word_of_int (2 ^ 63 - 1), rest, True)
        else if n < - (2 ^ 63) then (word_of_int (- (2 ^ 63)), rest, True)
        else (word_of_int n, rest, False))"

text \<open>\<open>ss >> c >> w\<close> for a \<open>char\<close> and a \<open>string\<close>, the second of which is what is returned.\<close>

definition read_char_word :: "string \<Rightarrow> string" where
  "read_char_word s =
    (case skip_space s of [] \<Rightarrow> [] | c # r \<Rightarrow> takeWhile (\<lambda>x. \<not> is_space x) (skip_space r))"

definition set_ratio_from_string :: "fc_lib \<Rightarrow> string \<Rightarrow> chain_error + uint128" where
  "set_ratio_from_string fc ratio_str =
    (let (int_part, rest, failed) = read_int64 ratio_str;
         fraction_part = (if failed then [] else read_char_word rest);
         fract_str = fc_string_of_uint128 fc (ucast BTS_PRICE_PRECISION)
     in if length fract_str \<le> length fraction_part then Inl undefined_behaviour
        else let fract_str = take 1 fract_str @ fraction_part @ drop (1 + length fraction_part) fract_str
          in Inr (fc_uint128_of_int64 fc int_part * ucast BTS_PRICE_PRECISION
                  + fc_uint128_of_string fc fract_str - ucast BTS_PRICE_PRECISION))"

text \<open>\<open>while( number.back() == '0' ) number.pop_back();\<close>\<close>

definition pop_zeros :: "string \<Rightarrow> string" where
  "pop_zeros s = rev (dropWhile (\<lambda>c. c = CHR ''0'') (rev s))"

definition ratio_string :: "fc_lib \<Rightarrow> uint128 \<Rightarrow> string" where
  "ratio_string fc r =
    pop_zeros (fc_string_of_uint128 fc (r div ucast BTS_PRICE_PRECISION) @ ''.'' @
      drop 1 (fc_string_of_uint128 fc (r mod ucast BTS_PRICE_PRECISION + ucast BTS_PRICE_PRECISION)))"

section \<open>What the fc library documents\<close>

text \<open>
  Conversions keep the value where the target can hold it, \<open>to_int64\<close> throws where it cannot, division
  truncates, \<open>log2\<close> is the number of bits less one or that number, and decimal text is read and written as usual.
\<close>

definition fc_documented :: "fc_lib \<Rightarrow> bool" where
  "fc_documented fc \<longleftrightarrow>
    (\<forall>w. 0 \<le> sint w \<longrightarrow> fc_of_amount fc w = sint w) \<and>
    (\<forall>w. fc_of_ratio fc w = uint w) \<and>
    (\<forall>x y. 0 \<le> x \<longrightarrow> 0 < y \<longrightarrow> fc_div fc x y = x div y) \<and>
    (\<forall>x n. 0 \<le> x \<longrightarrow> x < 2 ^ n \<longrightarrow> fc_log2 fc x \<le> int n) \<and>
    (\<forall>x n. 2 ^ n \<le> x \<longrightarrow> int n \<le> fc_log2 fc x) \<and>
    (\<forall>x. 0 \<le> x \<longrightarrow> fc_to_int64 fc x = (if x < 2 ^ 63 then Some (word_of_int x) else None)) \<and>
    (\<forall>x. 0 \<le> x \<longrightarrow> x < 2 ^ 128 \<longrightarrow> fc_to_uint128 fc x = word_of_int x) \<and>
    (\<forall>w. 0 \<le> sint w \<longrightarrow> fc_uint128_of_int64 fc w = word_of_int (sint w)) \<and>
    (\<forall>w. fc_string_of_uint128 fc w = decimal (unat w)) \<and>
    (\<forall>s. s \<noteq> [] \<longrightarrow> list_all is_digit s \<longrightarrow> decimal_value s < 2 ^ 128 \<longrightarrow>
         fc_uint128_of_string fc s = of_nat (decimal_value s))"

text \<open>An instance, used to show that the documented behaviour is possible.\<close>

definition fc_reference :: fc_lib where
  "fc_reference =
    \<lparr>fc_of_amount = sint, fc_of_ratio = uint, fc_div = (\<lambda>x y. x div y),
     fc_log2 = (\<lambda>x. int (floorlog 2 (nat x))),
     fc_to_int64 = (\<lambda>x. if \<bar>x\<bar> < 2 ^ 63 then Some (word_of_int x) else None), fc_to_uint128 = word_of_int,
     fc_uint128_of_int64 = (\<lambda>w. word_of_int (sint w)),
     fc_string_of_uint128 = (\<lambda>w. decimal (unat w)),
     fc_uint128_of_string = (\<lambda>s. of_nat (decimal_value s))\<rparr>"

section \<open>Signed words\<close>

lemma sint64_range: "- (2 ^ 63) \<le> sint (a :: share_type)" "sint (a :: share_type) < 2 ^ 63"
  using sint_ge [of a] sint_lt [of a] by simp_all

lemma sint64_of_int: "sint (word_of_int k :: share_type) = (k + 2 ^ 63) mod 2 ^ 64 - 2 ^ 63"
  by (simp add: sint_sbintrunc' signed_take_bit_eq_take_bit_shift take_bit_eq_mod)

lemma sint64_of_int_id: "- (2 ^ 63) \<le> k \<Longrightarrow> k < 2 ^ 63 \<Longrightarrow> sint (word_of_int k :: share_type) = k"
  by (simp add: sint64_of_int)

lemma wrap64:
  assumes "- (2 ^ 64) \<le> (k :: int)" and "k < 2 ^ 64"
  shows "(k + 2 ^ 63) mod 2 ^ 64 - 2 ^ 63 =
    (if 2 ^ 63 \<le> k then k - 2 ^ 64 else if k < - (2 ^ 63) then k + 2 ^ 64 else k)"
proof -
  have "(k + 2 ^ 63) mod 2 ^ 64 =
    (if 2 ^ 63 \<le> k then k - 2 ^ 63 else if k < - (2 ^ 63) then k + 3 * 2 ^ 63 else k + 2 ^ 63)"
    using assms mod_pos_pos_trivial [of "k + 2 ^ 63 - 2 ^ 64" "2 ^ 64"]
      mod_pos_pos_trivial [of "k + 2 ^ 63 + 2 ^ 64" "2 ^ 64"] mod_pos_pos_trivial [of "k + 2 ^ 63" "2 ^ 64"]
      minus_mod_self2 [of "k + 2 ^ 63" "2 ^ 64"] mod_add_self2 [of "k + 2 ^ 63" "2 ^ 64"]
    by (auto split: if_splits)
  then show ?thesis by simp
qed

lemma sint64_add:
  "sint (a + b :: share_type) =
    (if 2 ^ 63 \<le> sint a + sint b then sint a + sint b - 2 ^ 64
     else if sint a + sint b < - (2 ^ 63) then sint a + sint b + 2 ^ 64 else sint a + sint b)"
proof -
  have "a + b = word_of_int (sint a + sint b)" by simp
  then have "sint (a + b) = (sint a + sint b + 2 ^ 63) mod 2 ^ 64 - 2 ^ 63"
    by (metis sint64_of_int)
  then show ?thesis
    using wrap64 [of "sint a + sint b"] sint64_range [of a] sint64_range [of b] by simp
qed

lemma sint64_sub:
  "sint (a - b :: share_type) =
    (if 2 ^ 63 \<le> sint a - sint b then sint a - sint b - 2 ^ 64
     else if sint a - sint b < - (2 ^ 63) then sint a - sint b + 2 ^ 64 else sint a - sint b)"
proof -
  have "a - b = word_of_int (sint a - sint b)" by simp
  then have "sint (a - b) = (sint a - sint b + 2 ^ 63) mod 2 ^ 64 - 2 ^ 63"
    by (metis sint64_of_int)
  then show ?thesis
    using wrap64 [of "sint a - sint b"] sint64_range [of a] sint64_range [of b] by simp
qed

section \<open>Checked sums\<close>

text \<open>
  C24. The overflow check of \<open>operator +=\<close> and \<open>operator -=\<close>, for all operands. An addition is
  accepted exactly when the assets agree and the operand is not negative and the sum is
  representable, and then the result is the exact sum; a negative operand is always reported as an
  overflow, unless the sum falls below the smallest \<open>int64_t\<close>: that one wraps around unreported.
  A subtraction is the mirror image. (An overflow of signed integers is undefined in C++; the sums of the
  model wrap around, which is what the comparison in the code relies on.)
\<close>

theorem asset_add_sub_checked:
  "(asset_add a b =
     (if asset_id a \<noteq> asset_id b then Inl fc_assert
      else if 0 \<le> sint (amount b) \<and> sint (amount a) + sint (amount b) < 2 ^ 63
              \<or> sint (amount a) + sint (amount b) < - (2 ^ 63)
      then Inr (mk_asset (word_of_int (sint (amount a) + sint (amount b))) (asset_id a))
      else Inl addition_overflow)) \<and>
   (asset_sub a b =
     (if asset_id a \<noteq> asset_id b then Inl fc_assert
      else if 0 \<le> sint (amount b) \<and> - (2 ^ 63) \<le> sint (amount a) - sint (amount b)
              \<or> 2 ^ 63 \<le> sint (amount a) - sint (amount b)
      then Inr (mk_asset (word_of_int (sint (amount a) - sint (amount b))) (asset_id a))
      else Inl addition_underthrow))"
  using sint64_range [of "amount a"] sint64_range [of "amount b"]
  by (auto simp: asset_add_def asset_sub_def mk_asset_def Let_def word_sless_alt sint64_add sint64_sub)

section \<open>Exchange at a price\<close>

lemma precision_value: "uint BTS_PRICE_PRECISION = 10 ^ 18"
  by (simp add: BTS_PRICE_PRECISION_def BTS_BLOCKCHAIN_MAX_SHARES_def)

lemma unat_precision: "unat BTS_PRICE_PRECISION = 10 ^ 18"
  by (simp add: BTS_PRICE_PRECISION_def BTS_BLOCKCHAIN_MAX_SHARES_def)

lemma fc_documentedD:
  assumes "fc_documented fc"
  shows "0 \<le> sint w \<Longrightarrow> fc_of_amount fc w = sint w"
    and "fc_of_ratio fc r = uint r"
    and "0 \<le> x \<Longrightarrow> 0 < y \<Longrightarrow> fc_div fc x y = x div y"
    and "0 \<le> x \<Longrightarrow> x < 2 ^ n \<Longrightarrow> fc_log2 fc x \<le> int n"
    and "2 ^ n \<le> x \<Longrightarrow> int n \<le> fc_log2 fc x"
    and "0 \<le> x \<Longrightarrow> fc_to_int64 fc x = (if x < 2 ^ 63 then Some (word_of_int x) else None)"
    and "0 \<le> x \<Longrightarrow> x < 2 ^ 128 \<Longrightarrow> fc_to_uint128 fc x = word_of_int x"
    and "0 \<le> sint w \<Longrightarrow> fc_uint128_of_int64 fc w = word_of_int (sint w)"
    and "fc_string_of_uint128 fc r = decimal (unat r)"
    and "s \<noteq> [] \<Longrightarrow> list_all is_digit s \<Longrightarrow> decimal_value s < 2 ^ 128 \<Longrightarrow>
           fc_uint128_of_string fc s = of_nat (decimal_value s)"
  using assms by (auto simp: fc_documented_def)

lemma floorlog_le: "0 \<le> x \<Longrightarrow> x < 2 ^ n \<Longrightarrow> floorlog 2 (nat x) \<le> n"
proof (cases "nat x = 0")
  case False
  assume "0 \<le> x" and "x < 2 ^ n"
  then have "nat x < 2 ^ n" by (simp add: nat_less_iff)
  with floorlog_bounds [of "nat x" 2] False have "(2::nat) ^ (floorlog 2 (nat x) - 1) < 2 ^ n"
    using le_less_trans by fastforce
  then show ?thesis by (simp only: power_strict_increasing_iff one_less_numeral_iff semiring_norm)
qed (simp add: floorlog_def)

lemma le_floorlog: "2 ^ n \<le> x \<Longrightarrow> n \<le> floorlog 2 (nat x)"
proof -
  assume "2 ^ n \<le> x"
  then have "2 ^ n \<le> nat x" by (simp add: le_nat_iff)
  moreover from this have "0 < nat x" by (metis less_le_trans pos2 zero_less_power)
  ultimately have "(2::nat) ^ n < 2 ^ floorlog 2 (nat x)"
    using floorlog_bounds [of "nat x" 2] by linarith
  then show ?thesis by simp
qed

lemma fc_reference_documented: "fc_documented fc_reference"
  by (auto simp: fc_documented_def fc_reference_def floorlog_le le_floorlog)

lemma precision_pos: "0 < uint BTS_PRICE_PRECISION"
  by (simp add: precision_value)

text \<open>The amount an amount is worth at a price, from either side of it.\<close>

definition worth :: "asset \<Rightarrow> price \<Rightarrow> int" where
  "worth a p = (if asset_id a = base_asset_id p then sint (amount a) * uint (ratio p) div uint BTS_PRICE_PRECISION
     else sint (amount a) * uint BTS_PRICE_PRECISION div uint (ratio p))"

definition other_asset :: "asset \<Rightarrow> price \<Rightarrow> asset_id_type" where
  "other_asset a p = (if asset_id a = base_asset_id p then quote_asset_id p else base_asset_id p)"

lemma worth_nonneg: "0 \<le> sint (amount a) \<Longrightarrow> 0 \<le> worth a p"
proof -
  assume a: "0 \<le> sint (amount a)"
  have "0 \<le> x div y" if "0 \<le> x" "0 \<le> y" for x y :: int
    using that by (cases "y = 0") (simp_all add: pos_imp_zdiv_nonneg_iff)
  then show ?thesis using a precision_pos uint_nonnegative [of "ratio p"] by (simp add: worth_def)
qed

lemma asset_times_price_worth:
  assumes "fc_documented fc" and "0 \<le> sint (amount a)"
    and "asset_id a = base_asset_id p \<or> asset_id a = quote_asset_id p \<and> ratio p \<noteq> 0"
  shows "asset_times_price fc a p =
    (if fc_log2 fc (worth a p) \<ge> 128 then Inl addition_overflow
     else if worth a p < 2 ^ 63 then Inr (mk_asset (word_of_int (worth a p)) (other_asset a p))
     else Inl fc_assert)"
proof -
  have "0 < uint (ratio p)" if "ratio p \<noteq> 0"
    using that uint_nonnegative [of "ratio p"] by (simp add: order_less_le uint_0_iff)
  then show ?thesis
    using assms worth_nonneg [OF assms(2), of p]
    by (auto simp: asset_times_price_def fc_documentedD precision_pos Let_def to_amount_def worth_def other_asset_def)
qed

text \<open>
  C28. A price times an amount that is not negative, of either asset of the price (of the quote asset only
  for a ratio other than 0, for which the code divides by zero). The result is the exact one rounded down,
  an amount of the other asset, whenever it is a value of \<open>int64_t\<close>; above that there is an exception: that
  of the conversion to \<open>int64_t\<close> for the results below \<open>2\<^sup>1\<^sup>2\<^sup>7\<close>, which the guard of the code lets pass, and
  \<open>addition_overflow\<close> from \<open>2\<^sup>1\<^sup>2\<^sup>8\<close> on. An amount of a third asset is a mismatch.
\<close>

theorem asset_times_price_cases:
  assumes "fc_documented fc" and "0 \<le> sint (amount a)"
  shows "(asset_id a \<noteq> base_asset_id p \<and> asset_id a \<noteq> quote_asset_id p \<longrightarrow>
         asset_times_price fc a p = Inl asset_type_mismatch)
    \<and> (asset_id a = base_asset_id p \<or> asset_id a = quote_asset_id p \<and> ratio p \<noteq> 0 \<longrightarrow>
         (if worth a p < 2 ^ 63
          then \<exists>c. asset_times_price fc a p = Inr c \<and> sint (amount c) = worth a p \<and> asset_id c = other_asset a p
          else if worth a p < 2 ^ 127 then asset_times_price fc a p = Inl fc_assert
          else if worth a p < 2 ^ 128 then asset_times_price fc a p \<in> {Inl fc_assert, Inl addition_overflow}
          else asset_times_price fc a p = Inl addition_overflow))"
proof (intro conjI impI)
  show "asset_times_price fc a p = Inl asset_type_mismatch"
    if "asset_id a \<noteq> base_asset_id p \<and> asset_id a \<noteq> quote_asset_id p"
    using that by (simp add: asset_times_price_def)
next
  assume side: "asset_id a = base_asset_id p \<or> asset_id a = quote_asset_id p \<and> ratio p \<noteq> 0"
  let ?x = "worth a p"
  note x = worth_nonneg [OF assms(2), of p]
  have "?x < 2 ^ 127 \<Longrightarrow> fc_log2 fc ?x \<le> int 127" "2 ^ 128 \<le> ?x \<Longrightarrow> int 128 \<le> fc_log2 fc ?x"
    using fc_documentedD(4) [OF assms(1) x] fc_documentedD(5) [OF assms(1)] by blast+
  moreover have "?x < 2 ^ 63 \<Longrightarrow> sint (word_of_int ?x :: share_type) = ?x" using x by (simp add: sint64_of_int_id)
  ultimately show "if ?x < 2 ^ 63
      then \<exists>c. asset_times_price fc a p = Inr c \<and> sint (amount c) = ?x \<and> asset_id c = other_asset a p
      else if ?x < 2 ^ 127 then asset_times_price fc a p = Inl fc_assert
      else if ?x < 2 ^ 128 then asset_times_price fc a p \<in> {Inl fc_assert, Inl addition_overflow}
      else asset_times_price fc a p = Inl addition_overflow"
    by (auto simp: asset_times_price_worth [OF assms side] mk_asset_def)
qed

theorem asset_times_price_cases_witness:
  "(\<exists>c. asset_times_price fc_reference (mk_asset 4 0) (mk_price 3000000000000000000 0 22) = Inr c
      \<and> sint (amount c) = 12 \<and> asset_id c = 22)
    \<and> (\<exists>c. asset_times_price fc_reference (mk_asset 4 22) (mk_price 3000000000000000000 0 22) = Inr c
      \<and> sint (amount c) = 1 \<and> asset_id c = 0)
    \<and> asset_times_price fc_reference (mk_asset 1000 22) (mk_price 1 0 22) = Inl fc_assert"
  using asset_times_price_cases [OF fc_reference_documented, of "mk_asset 4 0" "mk_price 3000000000000000000 0 22"]
    asset_times_price_cases [OF fc_reference_documented, of "mk_asset 4 22" "mk_price 3000000000000000000 0 22"]
    asset_times_price_cases [OF fc_reference_documented, of "mk_asset 1000 22" "mk_price 1 0 22"]
  by (simp add: mk_asset_def mk_price_def precision_value worth_def other_asset_def)







section \<open>Text of a price\<close>

lemma of_char_digit: "n < 10 \<Longrightarrow> (of_char (digit_char n) :: nat) = 48 + n"
  by (simp add: digit_char_def)

lemma digit_char: "n < 10 \<Longrightarrow> is_digit (digit_char n)"
  by (simp add: is_digit_def of_char_digit)

lemma decimal_value_snoc: "decimal_value (s @ [c]) = 10 * decimal_value s + (of_char c - 48)"
  by (simp add: decimal_value_def)

lemma decimal_value_decimal [simp]: "decimal_value (decimal n) = n"
proof (induction n rule: decimal.induct)
  case (1 n)
  show ?case
  proof (cases "n < 10")
    case True
    then show ?thesis by (simp add: decimal.simps [of n] decimal_value_def of_char_digit)
  next
    case False
    then show ?thesis using 1 by (simp add: decimal.simps [of n] decimal_value_snoc of_char_digit)
  qed
qed

lemma decimal_digits [simp]: "list_all is_digit (decimal n)"
proof (induction n rule: decimal.induct)
  case (1 n)
  then show ?case by (cases "n < 10") (simp_all add: decimal.simps [of n] digit_char)
qed

lemma decimal_not_Nil [simp]: "decimal n \<noteq> []"
  by (simp add: decimal.simps [of n])

lemma decimal_value_append: "decimal_value (s @ t) = decimal_value s * 10 ^ length t + decimal_value t"
proof (induction t rule: rev_induct)
  case (snoc c t)
  then show ?case by (simp add: decimal_value_snoc append.assoc [symmetric] del: append_assoc)
qed (simp add: decimal_value_def)

lemma decimal_value_zeros [simp]: "decimal_value (replicate n CHR ''0'') = 0"
  by (induction n) (simp_all add: decimal_value_def replicate_append_same [symmetric] del: replicate_Suc
      flip: replicate_Suc, simp add: replicate_append_same [symmetric])

lemma decimal_length: "10 ^ k \<le> n \<Longrightarrow> n < 10 ^ Suc k \<Longrightarrow> length (decimal n) = Suc k"
proof (induction k arbitrary: n)
  case 0
  then show ?case by (simp add: decimal.simps [of n])
next
  case (Suc k)
  have "1 \<le> (10 :: nat) ^ k" by simp
  then have "\<not> n < 10" using Suc.prems(1) unfolding power_Suc by linarith
  moreover have "10 ^ k \<le> n div 10" "n div 10 < 10 ^ Suc k"
    using Suc.prems by (simp_all add: less_mult_imp_div_less mult.commute) 
  ultimately show ?case using Suc.IH [of "n div 10"] by (simp add: decimal.simps [of n])
qed

lemma decimal_value_less: "list_all is_digit s \<Longrightarrow> decimal_value s < 10 ^ length s"
proof (induction s rule: rev_induct)
  case (snoc c s)
  then have "(of_char c :: nat) \<le> 57" and "decimal_value s < 10 ^ length s" by (simp_all add: is_digit_def)
  then show ?case by (simp add: decimal_value_snoc)
qed (simp add: decimal_value_def)

lemma digit_chars: "digit_char 0 = CHR ''0''" "digit_char 1 = CHR ''1''"
  by code_simp+

lemma decimal_power: "decimal (10 ^ k) = CHR ''1'' # replicate k CHR ''0''"
proof (induction k)
  case (Suc k)
  have "(1 :: nat) \<le> 10 ^ k" by simp
  with Suc show ?case
    by (simp add: decimal.simps [of "10 * 10 ^ k"] digit_chars replicate_append_same)
qed (simp add: decimal.simps [of 1] digit_chars [simplified] decimal.simps [of "Suc 0"])

lemma digit_one: "decimal_value [c] = 1 \<Longrightarrow> c = CHR ''1''"
proof -
  assume "decimal_value [c] = 1"
  then have "(of_char c :: nat) = of_char (CHR ''1'')" by (simp add: decimal_value_def)
  then show ?thesis by (simp only: of_char_eq_iff)
qed

lemma leading_one:
  fixes d v f T :: nat
  assumes "d * T + v = f + T" and "v < T" and "f < T"
  shows "d = 1" and "v = f"
proof -
  have "d \<noteq> 0" using assms by (intro notI) simp
  moreover have "\<not> 2 \<le> d"
  proof
    assume "2 \<le> d"
    then have "2 * T \<le> d * T" by (rule mult_le_mono1)
    with assms show False by linarith
  qed
  ultimately show "d = 1" by simp
  with assms show "v = f" by simp
qed

text \<open>The digits of the fraction, with a leading one the code takes off.\<close>

lemma decimal_fraction:
  assumes "f < 10 ^ k"
  obtains F where "decimal (f + 10 ^ k) = CHR ''1'' # F" and "length F = k"
    and "list_all is_digit F" and "decimal_value F = f"
proof -
  have len: "length (decimal (f + 10 ^ k)) = Suc k" using assms by (intro decimal_length) simp_all
  then obtain c F where cF: "decimal (f + 10 ^ k) = c # F" "length F = k" by (cases "decimal (f + 10 ^ k)") auto
  have digits: "is_digit c" "list_all is_digit F" using decimal_digits [of "f + 10 ^ k"] cF by simp_all
  have "decimal_value [c] * 10 ^ k + decimal_value F = f + 10 ^ k"
    using decimal_value_append [of "[c]" F] decimal_value_decimal [of "f + 10 ^ k"] cF by simp
  moreover have "decimal_value F < 10 ^ k" using decimal_value_less [OF digits(2)] cF by simp
  ultimately have "decimal_value [c] = 1" "decimal_value F = f" using leading_one assms by blast+
  then show thesis using that cF digits digit_one by simp
qed

lemma takeWhile_replicate: "takeWhile (\<lambda>c. c = a) s = replicate (length (takeWhile (\<lambda>c. c = a) s)) a"
  by (induction s) simp_all

lemma pop_zeros_replicate:
  obtains k where "s = pop_zeros s @ replicate k CHR ''0''"
proof -
  let ?P = "\<lambda>c. c = CHR ''0''"
  have "s = rev (takeWhile ?P (rev s) @ dropWhile ?P (rev s))"
    by (subst takeWhile_dropWhile_id) simp
  also have "\<dots> = pop_zeros s @ rev (takeWhile ?P (rev s))"
    by (simp only: pop_zeros_def rev_append)
  also have "rev (takeWhile ?P (rev s)) = replicate (length (takeWhile ?P (rev s))) CHR ''0''"
    by (subst takeWhile_replicate) simp
  finally show thesis by (rule that)
qed

lemma pop_zeros_append: "pop_zeros (s @ ''.'' @ t) = s @ ''.'' @ pop_zeros t"
  by (simp add: pop_zeros_def dropWhile_append)

lemma digit_not_space: "is_digit c \<Longrightarrow> \<not> is_space c"
  by (auto simp: is_digit_def is_space_def)

lemma skip_space_digits [simp]: "list_all is_digit s \<Longrightarrow> skip_space (s @ t) = (if s = [] then skip_space t else s @ t)"
  by (cases s) (simp_all add: skip_space_def digit_not_space)

lemma read_int64_decimal:
  assumes "n < 2 ^ 63" and "t = [] \<or> \<not> is_digit (hd t)"
  shows "read_int64 (decimal n @ t) = (word_of_int (int n), t, False)"
proof -
  have tw: "takeWhile is_digit (decimal n @ t) = decimal n" "dropWhile is_digit (decimal n @ t) = t"
    using assms(2) decimal_digits [of n]
    by (simp_all add: list.pred_set takeWhile_append2 dropWhile_append2) (cases t; simp)+
  have "is_digit (hd (decimal n))" using decimal_digits [of n] by (cases "decimal n") simp_all
  then have "hd (decimal n @ t) \<notin> {CHR ''-'', CHR ''+''}" by (auto simp: is_digit_def)
  then show ?thesis using assms(1) by (simp add: read_int64_def Let_def tw)
qed

lemma read_char_word_digits: "list_all is_digit s \<Longrightarrow> read_char_word (CHR ''.'' # s) = s"
proof -
  assume s: "list_all is_digit s"
  have "skip_space s = s" using skip_space_digits [OF s, of "[]"] by (cases s) (simp_all add: skip_space_def)
  moreover have "takeWhile (\<lambda>c. \<not> is_space c) s = s"
    using s digit_not_space by (auto simp: list.pred_set takeWhile_eq_all_conv)
  ultimately show ?thesis by (simp add: read_char_word_def skip_space_def is_space_def)
qed

text \<open>An integral part that is no \<open>int64_t\<close>: the extraction stores the largest one and fails.\<close>

lemma read_int64_large:
  assumes "2 ^ 63 \<le> n" and "t = [] \<or> \<not> is_digit (hd t)"
  shows "read_int64 (decimal n @ t) = (word_of_int (2 ^ 63 - 1), t, True)"
proof -
  have tw: "takeWhile is_digit (decimal n @ t) = decimal n" "dropWhile is_digit (decimal n @ t) = t"
    using assms(2) decimal_digits [of n]
    by (simp_all add: list.pred_set takeWhile_append2 dropWhile_append2) (cases t; simp)+
  have "is_digit (hd (decimal n))" using decimal_digits [of n] by (cases "decimal n") simp_all
  then have "hd (decimal n @ t) \<notin> {CHR ''-'', CHR ''+''}" by (auto simp: is_digit_def)
  moreover have "(2 :: int) ^ 63 \<le> int n" using assms(1) by simp
  ultimately show ?thesis by (simp add: read_int64_def Let_def tw)
qed

lemma unat_precision128: "unat (ucast BTS_PRICE_PRECISION :: uint128) = 10 ^ 18"
  by (simp add: BTS_PRICE_PRECISION_def BTS_BLOCKCHAIN_MAX_SHARES_def)

text \<open>The text of a ratio, and the digits of its fraction that the writer does not drop.\<close>

lemma ratio_string_parts:
  assumes "fc_documented fc"
  obtains F k where "ratio_string fc r = decimal (unat r div 10 ^ 18) @ CHR ''.'' # pop_zeros F"
    and "length F = 18" and "list_all is_digit F" and "decimal_value F = unat r mod 10 ^ 18"
    and "decimal (unat r mod 10 ^ 18 + 10 ^ 18) = CHR ''1'' # F" and "F = pop_zeros F @ replicate k CHR ''0''"
proof -
  let ?f = "unat r mod 10 ^ 18"
  have f: "?f < 10 ^ 18" by simp
  obtain F where F: "decimal (?f + 10 ^ 18) = CHR ''1'' # F" "length F = 18" "list_all is_digit F" "decimal_value F = ?f"
    using decimal_fraction [OF f] by metis
  obtain k where k: "F = pop_zeros F @ replicate k CHR ''0''" using pop_zeros_replicate .
  have "unat (r mod ucast BTS_PRICE_PRECISION + ucast BTS_PRICE_PRECISION) = ?f + 10 ^ 18"
    by (simp add: unat_word_ariths unat_mod unat_precision128)
  then have "ratio_string fc r = decimal (unat r div 10 ^ 18) @ CHR ''.'' # pop_zeros F"
    using F(1) by (simp add: ratio_string_def fc_documentedD(9) [OF assms(1)] unat_div unat_precision128
        pop_zeros_append [simplified])
  then show thesis using that F k by blast
qed

text \<open>
  C30. What reading the text of a ratio gives, for every ratio: the ratio itself, whatever zeros the writer
  dropped, when its integral part is an \<open>int64_t\<close>; otherwise the extraction of the integral part fails with
  the largest \<open>int64_t\<close>, nothing more is read, and the result is that number without a fraction.
\<close>

theorem ratio_string_roundtrip:
  assumes "fc_documented fc"
  shows "set_ratio_from_string fc (ratio_string fc r) =
    Inr (if unat r < 2 ^ 63 * 10 ^ 18 then r else (2 ^ 63 - 1) * 10 ^ 18)"
proof -
  let ?D = "10 ^ 18 :: nat"
  define q f where "q = unat r div ?D" and "f = unat r mod ?D"
  have f: "f < ?D" by (simp add: f_def)
  obtain F k where str: "ratio_string fc r = decimal q @ CHR ''.'' # pop_zeros F"
    and F: "length F = 18" "list_all is_digit F" "decimal_value F = f" "decimal (f + ?D) = CHR ''1'' # F"
    and k: "F = pop_zeros F @ replicate k CHR ''0''"
    unfolding q_def f_def by (rule ratio_string_parts [OF assms])
  have one: "fc_string_of_uint128 fc (ucast BTS_PRICE_PRECISION) = CHR ''1'' # replicate 18 CHR ''0''"
    by (simp only: fc_documentedD(9) [OF assms(1)] unat_precision128 decimal_power)
  have Dw: "(ucast BTS_PRICE_PRECISION :: uint128) = of_nat ?D"
    by (simp add: BTS_PRICE_PRECISION_def BTS_BLOCKCHAIN_MAX_SHARES_def)
  have parse: "fc_uint128_of_string fc s = of_nat (decimal_value s)"
    if "list_all is_digit s" "s \<noteq> []" "decimal_value s < 2 ^ 128" for s
    using fc_documentedD(10) [OF assms(1)] that by blast
  have of_q: "fc_uint128_of_int64 fc (word_of_int (int n)) = of_nat n" if "n < 2 ^ 63" for n
  proof -
    have n: "sint (word_of_int (int n) :: share_type) = int n" by (rule sint64_of_int_id) (use that in simp_all)
    show ?thesis by (subst fc_documentedD(8) [OF assms(1)], unfold n) simp_all
  qed
  show ?thesis
  proof (cases "q < 2 ^ 63")
    case True
    have len: "length (pop_zeros F) + k = 18" by (metis F(1) k length_append length_replicate)
    have dig: "list_all is_digit (pop_zeros F)" using F(2) k by (metis list_all_append)
    have rd: "read_int64 (ratio_string fc r) = (word_of_int (int q), CHR ''.'' # pop_zeros F, False)"
      using read_int64_decimal [OF True, of "CHR ''.'' # pop_zeros F"] by (simp add: str is_digit_def)
    have overlay: "take 1 (CHR ''1'' # replicate 18 CHR ''0'') @ pop_zeros F @
        drop (1 + length (pop_zeros F)) (CHR ''1'' # replicate 18 CHR ''0'') = CHR ''1'' # F"
      using len k by (simp add: drop_replicate) (metis diff_add_inverse)
    have fd: "decimal_value (CHR ''1'' # F) = f + ?D" by (metis F(4) decimal_value_decimal)
    have "fc_uint128_of_string fc (CHR ''1'' # F) = of_nat (f + ?D)"
      using parse [of "CHR ''1'' # F"] f F(2) by (simp add: fd [simplified] is_digit_def)
    moreover have "of_nat q * of_nat ?D + of_nat (f + ?D) - of_nat ?D = r"
    proof -
      have "of_nat q * of_nat ?D + of_nat (f + ?D) - of_nat ?D = (of_nat (q * ?D + f) :: uint128)" by simp
      also have "q * ?D + f = unat r" by (simp add: q_def f_def)
      finally show ?thesis by simp
    qed
    moreover have "set_ratio_from_string fc (ratio_string fc r) =
      Inr (fc_uint128_of_int64 fc (word_of_int (int q)) * ucast BTS_PRICE_PRECISION
        + fc_uint128_of_string fc (CHR ''1'' # F) - ucast BTS_PRICE_PRECISION)"
      using len by (simp only: set_ratio_from_string_def rd Let_def prod.case if_False
          read_char_word_digits [OF dig] one overlay) simp
    moreover have "unat r < 2 ^ 63 * 10 ^ 18"
      using True unfolding q_def by (simp add: div_less_iff_less_mult)
    ultimately show ?thesis by (simp only: of_q [OF True] Dw if_True)
  next
    case False
    have rd: "read_int64 (ratio_string fc r) = (word_of_int (2 ^ 63 - 1), CHR ''.'' # pop_zeros F, True)"
      using read_int64_large [of q "CHR ''.'' # pop_zeros F"] False by (simp add: str is_digit_def)
    have max: "fc_uint128_of_int64 fc (word_of_int (2 ^ 63 - 1)) = of_nat (2 ^ 63 - 1)"
      using of_q [of "2 ^ 63 - 1"] by simp
    have "fc_uint128_of_string fc (CHR ''1'' # replicate 18 CHR ''0'') = of_nat ?D"
      using parse [of "decimal ?D"] by (simp add: decimal_power [symmetric] del: decimal_power)
    moreover have "set_ratio_from_string fc (ratio_string fc r) =
      Inr (fc_uint128_of_int64 fc (word_of_int (2 ^ 63 - 1)) * ucast BTS_PRICE_PRECISION
        + fc_uint128_of_string fc (CHR ''1'' # replicate 18 CHR ''0'') - ucast BTS_PRICE_PRECISION)"
      by (simp only: set_ratio_from_string_def rd Let_def prod.case if_True one) simp
    moreover have "\<not> unat r < 2 ^ 63 * 10 ^ 18"
      using False unfolding q_def by (simp add: div_less_iff_less_mult)
    ultimately show ?thesis by (simp only: max Dw if_False) simp
  qed
qed

theorem ratio_string_roundtrip_witness:
  "set_ratio_from_string fc_reference (ratio_string fc_reference 1500000000000000000) = Inr 1500000000000000000
   \<and> set_ratio_from_string fc_reference (ratio_string fc_reference (2 ^ 63 * 10 ^ 18 + 1)) = Inr ((2 ^ 63 - 1) * 10 ^ 18)"
  using ratio_string_roundtrip [OF fc_reference_documented, of 1500000000000000000]
    ratio_string_roundtrip [OF fc_reference_documented, of "2 ^ 63 * 10 ^ 18 + 1"]
  by simp

end
