(* ===== verification/Bts_Records.thy ===== *)
theory Bts_Records
  imports Bts_Asset
begin

text \<open>
  The records of the blockchain (\<open>account_record.hpp\<close>, \<open>asset_record.hpp\<close>, \<open>balance_record.hpp\<close>,
  \<open>proposal_record.hpp\<close>, \<open>market_records.hpp\<close>, \<open>withdraw_types.hpp\<close>), the transactions with their
  operations (\<open>transaction.hpp\<close>, the \<open>*_operations.hpp\<close>), the block header (\<open>block.hpp\<close>), and the
  addresses that are computed from them (\<open>address.cpp\<close>, \<open>pts_address.cpp\<close>).

  A value the code keeps serialised beside a type tag (the data of a withdraw condition, an
  operation, the evidence of a fire operation) is kept here as the datatype it is unpacked to; data
  that does not unpack is a constructor of its own. Keys, addresses, hashes and signatures are byte
  lists, an \<open>fc::variant\<close> of user data is an uninterpreted string.
\<close>

section \<open>Identifiers and keys\<close>

type_synonym address = bytes
type_synonym public_key_type = bytes
type_synonym digest_type = bytes
type_synonym transaction_id_type = bytes
type_synonym block_id_type = bytes
type_synonym signature_type = bytes
type_synonym variant = string
type_synonym time_point_sec = u32
type_synonym balance_id_type = address

definition null_key :: public_key_type where
  "null_key = replicate 33 0"

definition null_address :: address where
  "null_address = replicate 20 0"

section \<open>Accounts\<close>

record delegate_stats =
  ds_votes_for :: share_type
  ds_votes_against :: share_type
  blocks_produced :: u32
  blocks_missed :: u32
  next_secret_hash :: bytes
  last_block_num_produced :: u32
  pay_balance :: share_type

definition new_delegate_stats :: delegate_stats where
  "new_delegate_stats = \<lparr>ds_votes_for = 0, ds_votes_against = 0, blocks_produced = 0,
     blocks_missed = 0, next_secret_hash = replicate 20 0, last_block_num_produced = - 1,
     pay_balance = 0\<rparr>"

record account_record =
  ac_id :: account_id_type
  ac_name :: string
  ac_public_data :: variant
  owner_key :: public_key_type
  active_key_history :: "(time_point_sec \<times> public_key_type) list"
  ac_registration_date :: time_point_sec
  ac_last_update :: time_point_sec
  delegate_info :: "delegate_stats option"
  ac_meta_data :: "variant option"

text \<open>Storing into a \<open>std::map\<close>, which is kept in the order of its keys.\<close>

fun ord_store :: "'k::linorder \<Rightarrow> 'v \<Rightarrow> ('k \<times> 'v) list \<Rightarrow> ('k \<times> 'v) list" where
  "ord_store k v [] = [(k, v)]"
| "ord_store k v ((k', v') # xs) =
    (if k < k' then (k, v) # (k', v') # xs
     else if k = k' then (k, v) # xs
     else (k', v') # ord_store k v xs)"

definition account_is_null :: "account_record \<Rightarrow> bool" where
  "account_is_null r = (owner_key r = null_key)"

definition account_make_null :: "account_record \<Rightarrow> account_record" where
  "account_make_null r = r\<lparr>owner_key := null_key\<rparr>"

definition is_delegate :: "account_record \<Rightarrow> bool" where
  "is_delegate r = (delegate_info r \<noteq> None)"

definition active_key :: "account_record \<Rightarrow> public_key_type" where
  "active_key r = (if active_key_history r = [] then null_key else snd (last (active_key_history r)))"

definition is_retracted :: "account_record \<Rightarrow> bool" where
  "is_retracted r = (active_key r = null_key)"

definition set_active_key :: "time_point_sec \<Rightarrow> public_key_type \<Rightarrow> account_record \<Rightarrow> chain_error + account_record" where
  "set_active_key now new_key r =
    (if now = 0 then Inl fc_assert
     else Inr (r\<lparr>active_key_history := ord_store now new_key (active_key_history r)\<rparr>))"

definition net_votes :: "account_record \<Rightarrow> chain_error + share_type" where
  "net_votes r = (case delegate_info r of None \<Rightarrow> Inl fc_assert
     | Some d \<Rightarrow> Inr (ds_votes_for d - ds_votes_against d))"

definition votes_for :: "account_record \<Rightarrow> chain_error + share_type" where
  "votes_for r = (case delegate_info r of None \<Rightarrow> Inl fc_assert | Some d \<Rightarrow> Inr (ds_votes_for d))"

definition votes_against :: "account_record \<Rightarrow> chain_error + share_type" where
  "votes_against r = (case delegate_info r of None \<Rightarrow> Inl fc_assert | Some d \<Rightarrow> Inr (ds_votes_against d))"

definition adjust_votes_for :: "share_type \<Rightarrow> account_record \<Rightarrow> chain_error + account_record" where
  "adjust_votes_for delta r = (case delegate_info r of None \<Rightarrow> Inl fc_assert
     | Some d \<Rightarrow> Inr (r\<lparr>delegate_info := Some (d\<lparr>ds_votes_for := ds_votes_for d + delta\<rparr>)\<rparr>))"

definition adjust_votes_against :: "share_type \<Rightarrow> account_record \<Rightarrow> chain_error + account_record" where
  "adjust_votes_against delta r = (case delegate_info r of None \<Rightarrow> Inl fc_assert
     | Some d \<Rightarrow> Inr (r\<lparr>delegate_info := Some (d\<lparr>ds_votes_against := ds_votes_against d + delta\<rparr>)\<rparr>))"

section \<open>Assets\<close>

definition market_issued_asset :: account_id_type where
  "market_issued_asset = - 2"

text \<open>\<open>FC_REFLECT\<close> leaves \<open>last_update\<close> out of the stored form of this record; here it is stored with the rest.\<close>

record asset_record =
  as_id :: asset_id_type
  as_symbol :: string
  as_name :: string
  as_description :: string
  as_public_data :: variant
  issuer_account_id :: account_id_type
  as_precision :: u64
  as_registration_date :: time_point_sec
  as_last_update :: time_point_sec
  current_share_supply :: share_type
  maximum_share_supply :: share_type
  collected_fees :: share_type

definition asset_is_null :: "asset_record \<Rightarrow> bool" where
  "asset_is_null r = (issuer_account_id r = - 1)"

definition asset_make_null :: "asset_record \<Rightarrow> asset_record" where
  "asset_make_null r = r\<lparr>issuer_account_id := - 1\<rparr>"

definition can_issue :: "asset_record \<Rightarrow> asset \<Rightarrow> bool" where
  "can_issue r a =
    (if as_id r \<noteq> asset_id a then False
     else if amount a <=s 0 then False
     else let new_share_supply = current_share_supply r + amount a
       in current_share_supply r <s new_share_supply \<and> new_share_supply <s maximum_share_supply r)"

section \<open>Balances and their conditions\<close>

datatype withdraw_data =
    withdraw_null
  | withdraw_with_signature address "variant option"
  | withdraw_with_multi_sig u32 "address list" "variant option"
  | withdraw_with_password address address time_point_sec bytes "variant option"
      \<comment> \<open>payee, payor, timeout, password hash\<close>
  | withdraw_option address address time_point_sec price
      \<comment> \<open>optionor, optionee, date, strike price\<close>
  | withdraw_unknown_type
      \<comment> \<open>a type number the code has no case for\<close>
  | withdraw_malformed

record withdraw_condition =
  wc_asset_id :: asset_id_type
  wc_delegate_id :: account_id_type
  wc_data :: withdraw_data

definition mk_condition :: "withdraw_data \<Rightarrow> asset_id_type \<Rightarrow> account_id_type \<Rightarrow> withdraw_condition" where
  "mk_condition d a i = \<lparr>wc_asset_id = a, wc_delegate_id = i, wc_data = d\<rparr>"

record balance_record =
  bal_balance :: share_type
  bal_condition :: withdraw_condition
  bal_last_update :: time_point_sec

definition new_balance_record :: "withdraw_condition \<Rightarrow> balance_record" where
  "new_balance_record c = \<lparr>bal_balance = 0, bal_condition = c, bal_last_update = 0\<rparr>"

definition balance_is_null :: "balance_record \<Rightarrow> bool" where
  "balance_is_null r = (bal_balance r = 0)"

definition balance_make_null :: "balance_record \<Rightarrow> balance_record" where
  "balance_make_null r = r\<lparr>bal_balance := 0\<rparr>"

section \<open>Proposals\<close>

record proposal_record =
  pr_id :: proposal_id_type
  submitting_delegate_id :: account_id_type
  pr_submission_date :: time_point_sec
  pr_subject :: string
  pr_body :: string
  pr_proposal_type :: string
  pr_data :: variant
  ratified :: bool

definition proposal_is_null :: "proposal_record \<Rightarrow> bool" where
  "proposal_is_null r = (submitting_delegate_id r = - 1)"

definition proposal_make_null :: "proposal_record \<Rightarrow> proposal_record" where
  "proposal_make_null r = r\<lparr>submitting_delegate_id := - 1\<rparr>"

type_synonym proposal_vote_id_type = "proposal_id_type \<times> account_id_type"

datatype vote_type = vote_no | vote_yes | vote_undefined

record proposal_vote =
  pv_id :: proposal_vote_id_type
  pv_timestamp :: time_point_sec
  pv_message :: string
  pv_vote :: vote_type

definition vote_is_null :: "proposal_vote \<Rightarrow> bool" where
  "vote_is_null r = (pv_vote r = vote_undefined)"

definition vote_make_null :: "proposal_vote \<Rightarrow> proposal_vote" where
  "vote_make_null r = r\<lparr>pv_vote := vote_undefined\<rparr>"

section \<open>Market orders\<close>

record market_index_key =
  order_price :: price
  order_owner :: address

text \<open>
  The order of the keys, which compares the ratios of the prices and then the owners, decides which
  keys a \<open>std::map\<close> and a \<open>level_map\<close> hold for the same: those with the same ratio and owner.
\<close>

definition market_key :: "market_index_key \<Rightarrow> uint128 \<times> address" where
  "market_key k = (ratio (order_price k), order_owner k)"

record order_record =
  ord_balance :: share_type
  ord_delegate_id :: account_id_type

definition new_order_record :: order_record where
  "new_order_record = \<lparr>ord_balance = 0, ord_delegate_id = 0\<rparr>"

definition order_is_null :: "order_record \<Rightarrow> bool" where
  "order_is_null r = (ord_balance r = 0)"

record collateral_record =
  collateral_balance :: share_type
  payoff_balance :: share_type
  col_delegate_id :: account_id_type

definition new_collateral_record :: collateral_record where
  "new_collateral_record = \<lparr>collateral_balance = 0, payoff_balance = 0, col_delegate_id = 0\<rparr>"

definition collateral_is_null :: "collateral_record \<Rightarrow> bool" where
  "collateral_is_null r = (payoff_balance r = 0)"

section \<open>Block headers\<close>

record signed_block_header =
  bh_previous :: block_id_type
  bh_block_num :: u32
  fee_rate :: share_type
  delegate_pay_rate :: share_type
  bh_timestamp :: time_point_sec
  transaction_digest :: digest_type
  bh_next_secret_hash :: bytes
  previous_secret :: bytes
  delegate_signature :: signature_type

section \<open>Operations and transactions\<close>

record delegate_testimony =
  dt_delegate_id :: account_id_type
  dt_transaction_id :: transaction_id_type
  dt_valid :: bool
  dt_timestamp :: time_point_sec
  dt_signature :: signature_type

datatype fire_reason =
    multiple_blocks_signed signed_block_header signed_block_header
  | invalid_testimony delegate_testimony
  | malformed_reason
  | other_reason

text \<open>
  The operations; \<open>other_operation\<close> stands for the type numbers no evaluator is registered for, among
  them the short, cover and collateral operations.
\<close>

datatype operation =
    withdraw_operation balance_id_type share_type bytes
  | deposit_operation share_type withdraw_condition
  | register_account_operation string variant public_key_type public_key_type bool "variant option"
  | update_account_operation account_id_type "variant option" "public_key_type option" bool
  | withdraw_pay_operation share_type account_id_type
  | create_asset_operation string string string variant account_id_type share_type u64
  | update_asset_operation asset_id_type string string variant account_id_type
  | issue_asset_operation asset
  | fire_delegate_operation fire_reason account_id_type
  | submit_proposal_operation account_id_type time_point_sec string string string variant
  | vote_proposal_operation proposal_vote_id_type time_point_sec vote_type string
  | bid_operation share_type market_index_key account_id_type
  | ask_operation share_type market_index_key account_id_type
  | malformed_operation
  | other_operation u8

record signed_transaction =
  expiration :: "time_point_sec option"
  trx_delegate_id :: "account_id_type option"
  operations :: "operation list"
  signatures :: "signature_type list"

text \<open>
  \<open>transaction_record\<close>: the location and the transaction; the rest of the evaluation state it also
  copies is never read by the blockchain library.
\<close>

record transaction_record =
  loc_block_num :: u32
  loc_trx_num :: u32
  rec_trx :: signed_transaction

definition null_trx :: signed_transaction where
  "null_trx = \<lparr>expiration = None, trx_delegate_id = None, operations = [], signatures = []\<rparr>"

definition new_transaction_record :: transaction_record where
  "new_transaction_record = \<lparr>loc_block_num = 0, loc_trx_num = 0, rec_trx = null_trx\<rparr>"

section \<open>Hashes, keys and addresses\<close>

text \<open>
  What the code uses of the hashes, the elliptic curve keys and the serialiser of the \<open>fc\<close> library.
  \<open>fc_recover\<close> is the key a compact signature of a digest belongs to; it throws when there is none.
\<close>

record env =
  fc :: fc_lib
  fc_sha256 :: "bytes \<Rightarrow> bytes"
  fc_sha512 :: "bytes \<Rightarrow> bytes"
  fc_ripemd160 :: "bytes \<Rightarrow> bytes"
  fc_ecc_point :: "public_key_type \<Rightarrow> bytes"
  fc_recover :: "signature_type \<Rightarrow> digest_type \<Rightarrow> public_key_type option"
  pack_condition :: "withdraw_condition \<Rightarrow> bytes"
  pack_transaction :: "signed_transaction \<Rightarrow> bytes"
  pack_signed_transaction :: "signed_transaction \<Rightarrow> bytes"
  pack_header :: "signed_block_header \<Rightarrow> bytes"
  pack_signed_header :: "signed_block_header \<Rightarrow> bytes"
  pack_testimony :: "delegate_testimony \<Rightarrow> bytes"

definition address_of_key :: "env \<Rightarrow> public_key_type \<Rightarrow> address" where
  "address_of_key e k = fc_ripemd160 e (fc_sha512 e k)"

definition condition_address :: "env \<Rightarrow> withdraw_condition \<Rightarrow> address" where
  "condition_address e c = fc_ripemd160 e (fc_sha512 e (pack_condition e c))"

definition pts_address :: "env \<Rightarrow> public_key_type \<Rightarrow> bool \<Rightarrow> u8 \<Rightarrow> bytes" where
  "pts_address e pub compressed version =
    (let sha2 = (if compressed then fc_sha256 e pub else fc_sha256 e (fc_ecc_point e pub));
         rep = fc_ripemd160 e sha2;
         addr = version # rep;
         check = fc_sha256 e (fc_sha256 e addr)
     in addr @ take 4 check)"

definition address_of_pts :: "env \<Rightarrow> bytes \<Rightarrow> address" where
  "address_of_pts e p = fc_ripemd160 e p"

definition trx_digest :: "env \<Rightarrow> digest_type \<Rightarrow> signed_transaction \<Rightarrow> digest_type" where
  "trx_digest e chain_id t = fc_sha256 e (pack_transaction e t @ chain_id)"

definition trx_id :: "env \<Rightarrow> signed_transaction \<Rightarrow> transaction_id_type" where
  "trx_id e t = fc_ripemd160 e (fc_sha512 e (pack_signed_transaction e t))"

definition trx_data_size :: "env \<Rightarrow> signed_transaction \<Rightarrow> u64" where
  "trx_data_size e t = of_nat (length (pack_signed_transaction e t))"

definition header_digest :: "env \<Rightarrow> signed_block_header \<Rightarrow> digest_type" where
  "header_digest e h = fc_sha256 e (pack_header e h)"

definition header_id :: "env \<Rightarrow> signed_block_header \<Rightarrow> block_id_type" where
  "header_id e h = fc_ripemd160 e (fc_sha512 e (pack_signed_header e h))"

definition header_signee :: "env \<Rightarrow> signed_block_header \<Rightarrow> public_key_type option" where
  "header_signee e h = fc_recover e (delegate_signature h) (header_digest e h)"

definition testimony_signee :: "env \<Rightarrow> delegate_testimony \<Rightarrow> public_key_type option" where
  "testimony_signee e t = fc_recover e (dt_signature t) (fc_sha256 e (pack_testimony e t))"

definition balance_id :: "env \<Rightarrow> balance_record \<Rightarrow> balance_id_type" where
  "balance_id e r = condition_address e (bal_condition r)"

end
