(* ===== verification/Bts_State.thy ===== *)
theory Bts_State
  imports Bts_Records "HOL-Library.AList"
begin

text \<open>
  The state of the chain: the database (the tables of \<open>chain_database.cpp\<close> that the chain interface
  reads and writes), the pending states that are stacked on it (\<open>pending_chain_state.cpp\<close>), and the
  operations of \<open>chain_interface\<close> on both. A table is an association list; the order of its entries is
  the order in which the code iterates over it, which no result below depends on. A \<open>level_map\<close> of the
  repository and a \<open>std::map\<close> are such tables; those of the market are indexed by what the order of
  \<open>market_index_key\<close> distinguishes.
\<close>

section \<open>Results\<close>

definition res_bind :: "'e + 'a \<Rightarrow> ('a \<Rightarrow> 'e + 'b) \<Rightarrow> 'e + 'b" where
  "res_bind r f = (case r of Inl e \<Rightarrow> Inl e | Inr x \<Rightarrow> f x)"

fun fold_res :: "('x \<Rightarrow> 's \<Rightarrow> 'e + 's) \<Rightarrow> 'x list \<Rightarrow> 's \<Rightarrow> 'e + 's" where
  "fold_res f [] s = Inr s"
| "fold_res f (x # xs) s = res_bind (f x s) (fold_res f xs)"

section \<open>Tables\<close>

type_synonym ('k, 'v) table = "('k \<times> 'v) list"

text \<open>
  A table of the market holds the full key beside the value. Storing under a key a \<open>std::map\<close> takes for
  one it has keeps the key object; a \<open>level_map\<close> writes the new one.
\<close>

type_synonym 'v market_table = "(uint128 \<times> address, market_index_key \<times> 'v) table"

definition market_find :: "market_index_key \<Rightarrow> 'v market_table \<Rightarrow> 'v option" where
  "market_find k t = map_option snd (map_of t (market_key k))"

definition market_store :: "market_index_key \<Rightarrow> 'v \<Rightarrow> 'v market_table \<Rightarrow> 'v market_table" where
  "market_store k v t =
    AList.update (market_key k) (case map_of t (market_key k) of None \<Rightarrow> k | Some (k', _) \<Rightarrow> k', v) t"

definition market_put :: "market_index_key \<Rightarrow> 'v \<Rightarrow> 'v market_table \<Rightarrow> 'v market_table" where
  "market_put k v t = AList.update (market_key k) (k, v) t"

definition market_remove :: "market_index_key \<Rightarrow> 'v market_table \<Rightarrow> 'v market_table" where
  "market_remove k t = AList.delete (market_key k) t"

section \<open>Properties\<close>

datatype chain_property_enum =
    last_asset_id | last_account_id | last_proposal_id | last_random_seed_id
  | active_delegate_list_id | chain_id_property | confirmation_requirement | database_version

datatype property_value =
    null_value | int_value int | ids_value "account_id_type list" | hash_value bytes

section \<open>The states\<close>

record pending_chain_state =
  assets :: "(asset_id_type, asset_record) table"
  accounts :: "(account_id_type, account_record) table"
  balances :: "(balance_id_type, balance_record) table"
  account_id_index :: "(string, account_id_type) table"
  symbol_id_index :: "(string, asset_id_type) table"
  transactions :: "(transaction_id_type, transaction_record) table"
  properties :: "(chain_property_enum, property_value) table"
  proposals :: "(proposal_id_type, proposal_record) table"
  key_to_account :: "(address, account_id_type) table"
  proposal_votes :: "(proposal_vote_id_type, proposal_vote) table"
  bids :: "order_record market_table"
  asks :: "order_record market_table"
  shorts :: "order_record market_table"
  collateral :: "collateral_record market_table"

definition new_pending_state :: pending_chain_state where
  "new_pending_state = \<lparr>assets = [], accounts = [], balances = [], account_id_index = [],
     symbol_id_index = [], transactions = [], properties = [], proposals = [], key_to_account = [],
     proposal_votes = [], bids = [], asks = [], shorts = [], collateral = []\<rparr>"

text \<open>
  The database: its tables, the header of the head block, and \<open>wall_clock\<close>, the time
  \<open>bts::blockchain::now()\<close> reports, which the chain uses only as long as it has no block.
\<close>

record chain_database =
  property_db :: "(chain_property_enum, property_value) table"
  proposal_db :: "(proposal_id_type, proposal_record) table"
  proposal_vote_db :: "(proposal_vote_id_type, proposal_vote) table"
  transaction_db :: "(transaction_id_type, transaction_record) table"
  asset_db :: "(asset_id_type, asset_record) table"
  balance_db :: "(balance_id_type, balance_record) table"
  account_db :: "(account_id_type, account_record) table"
  address_to_account_db :: "(address, account_id_type) table"
  account_index_db :: "(string, account_id_type) table"
  symbol_index_db :: "(string, asset_id_type) table"
  delegate_vote_index_db :: "(share_type \<times> account_id_type) list"
  ask_db :: "order_record market_table"
  bid_db :: "order_record market_table"
  short_db :: "order_record market_table"
  collateral_db :: "collateral_record market_table"
  head_block_header :: signed_block_header
  wall_clock :: time_point_sec

text \<open>
  What a \<open>chain_interface_ptr\<close> points to: nothing, the database, or a pending state with its previous
  state below it.
\<close>

datatype chain = No_State | Database chain_database | Pending pending_chain_state chain

section \<open>The database\<close>

subsection \<open>The index of the delegates by votes\<close>

definition vote_del_less :: "share_type \<times> account_id_type \<Rightarrow> share_type \<times> account_id_type \<Rightarrow> bool" where
  "vote_del_less a b =
    (if fst b <s fst a then True else if fst a <s fst b then False else snd a < snd b)"

fun vote_index_store :: "share_type \<times> account_id_type \<Rightarrow> (share_type \<times> account_id_type) list \<Rightarrow> (share_type \<times> account_id_type) list" where
  "vote_index_store v [] = [v]"
| "vote_index_store v (w # ws) =
    (if vote_del_less v w then v # w # ws
     else if v = w then w # ws
     else w # vote_index_store v ws)"

definition vote_index_remove :: "share_type \<times> account_id_type \<Rightarrow> (share_type \<times> account_id_type) list \<Rightarrow> (share_type \<times> account_id_type) list" where
  "vote_index_remove v ws = filter (\<lambda>w. w \<noteq> v) ws"

definition vote_entry :: "account_record \<Rightarrow> account_id_type \<Rightarrow> share_type \<times> account_id_type" where
  "vote_entry r i = (case net_votes r of Inl _ \<Rightarrow> (0, i) | Inr n \<Rightarrow> (n, i))"

subsection \<open>Storing records\<close>

definition db_store_asset_record :: "asset_record \<Rightarrow> chain_database \<Rightarrow> chain_database" where
  "db_store_asset_record r d =
    (if asset_is_null r
     then d\<lparr>asset_db := AList.delete (as_id r) (asset_db d),
            symbol_index_db := AList.delete (as_symbol r) (symbol_index_db d)\<rparr>
     else d\<lparr>asset_db := AList.update (as_id r) r (asset_db d),
            symbol_index_db := AList.update (as_symbol r) (as_id r) (symbol_index_db d)\<rparr>)"

definition db_store_balance_record :: "env \<Rightarrow> balance_record \<Rightarrow> chain_database \<Rightarrow> chain_database" where
  "db_store_balance_record e r d =
    (if balance_is_null r then d\<lparr>balance_db := AList.delete (balance_id e r) (balance_db d)\<rparr>
     else d\<lparr>balance_db := AList.update (balance_id e r) r (balance_db d)\<rparr>)"

definition db_remove_account :: "env \<Rightarrow> account_record \<Rightarrow> account_record \<Rightarrow> chain_database \<Rightarrow> chain_database" where
  "db_remove_account e r old d =
    (let d = d\<lparr>account_db := AList.delete (ac_id r) (account_db d),
               account_index_db := AList.delete (ac_name r) (account_index_db d),
               address_to_account_db := foldl (\<lambda>t item. AList.delete (address_of_key e (snd item)) t)
                 (address_to_account_db d) (active_key_history old)\<rparr>
     in if is_delegate old
        then d\<lparr>delegate_vote_index_db := vote_index_remove (vote_entry old (ac_id r)) (delegate_vote_index_db d)\<rparr>
        else d)"

definition db_write_account :: "env \<Rightarrow> account_record \<Rightarrow> account_record option \<Rightarrow> chain_database \<Rightarrow> chain_database" where
  "db_write_account e r old_rec d =
    (let d = d\<lparr>account_db := AList.update (ac_id r) r (account_db d),
               account_index_db := AList.update (ac_name r) (ac_id r) (account_index_db d),
               address_to_account_db := foldl (\<lambda>t item. AList.update (address_of_key e (snd item)) (ac_id r) t)
                 (address_to_account_db d) (active_key_history r)\<rparr>;
         d = (case old_rec of
                Some old \<Rightarrow> if is_delegate old
                  then d\<lparr>delegate_vote_index_db := vote_index_remove (vote_entry old (ac_id r)) (delegate_vote_index_db d)\<rparr>
                  else d
              | None \<Rightarrow> d)
     in if is_delegate r
        then d\<lparr>delegate_vote_index_db := vote_index_store (vote_entry r (ac_id r)) (delegate_vote_index_db d)\<rparr>
        else d)"

definition db_store_account_record :: "env \<Rightarrow> account_record \<Rightarrow> chain_database \<Rightarrow> chain_database" where
  "db_store_account_record e r d =
    (let old_rec = map_of (account_db d) (ac_id r)
     in if account_is_null r \<and> old_rec \<noteq> None then db_remove_account e r (the old_rec) d
        else if \<not> account_is_null r then db_write_account e r old_rec d
        else d)"

definition db_store_transaction :: "transaction_id_type \<Rightarrow> transaction_record \<Rightarrow> chain_database \<Rightarrow> chain_database" where
  "db_store_transaction i r d = d\<lparr>transaction_db := AList.update i r (transaction_db d)\<rparr>"

definition db_set_property :: "chain_property_enum \<Rightarrow> property_value \<Rightarrow> chain_database \<Rightarrow> chain_database" where
  "db_set_property p v d =
    (if v = null_value then d\<lparr>property_db := AList.delete p (property_db d)\<rparr>
     else d\<lparr>property_db := AList.update p v (property_db d)\<rparr>)"

definition db_store_proposal_record :: "proposal_record \<Rightarrow> chain_database \<Rightarrow> chain_database" where
  "db_store_proposal_record r d =
    (if proposal_is_null r then d\<lparr>proposal_db := AList.delete (pr_id r) (proposal_db d)\<rparr>
     else d\<lparr>proposal_db := AList.update (pr_id r) r (proposal_db d)\<rparr>)"

definition db_store_proposal_vote :: "proposal_vote \<Rightarrow> chain_database \<Rightarrow> chain_database" where
  "db_store_proposal_vote r d =
    (if vote_is_null r then d\<lparr>proposal_vote_db := AList.delete (pv_id r) (proposal_vote_db d)\<rparr>
     else d\<lparr>proposal_vote_db := AList.update (pv_id r) r (proposal_vote_db d)\<rparr>)"

definition db_store_bid_record :: "market_index_key \<Rightarrow> order_record \<Rightarrow> chain_database \<Rightarrow> chain_database" where
  "db_store_bid_record k r d =
    (if order_is_null r then d\<lparr>bid_db := market_remove k (bid_db d)\<rparr>
     else d\<lparr>bid_db := market_put k r (bid_db d)\<rparr>)"

definition db_store_ask_record :: "market_index_key \<Rightarrow> order_record \<Rightarrow> chain_database \<Rightarrow> chain_database" where
  "db_store_ask_record k r d =
    (if order_is_null r then d\<lparr>ask_db := market_remove k (ask_db d)\<rparr>
     else d\<lparr>ask_db := market_put k r (ask_db d)\<rparr>)"

definition db_store_short_record :: "market_index_key \<Rightarrow> order_record \<Rightarrow> chain_database \<Rightarrow> chain_database" where
  "db_store_short_record k r d =
    (if order_is_null r then d\<lparr>short_db := market_remove k (short_db d)\<rparr>
     else d\<lparr>short_db := market_put k r (short_db d)\<rparr>)"

definition db_store_collateral_record :: "market_index_key \<Rightarrow> collateral_record \<Rightarrow> chain_database \<Rightarrow> chain_database" where
  "db_store_collateral_record k r d =
    (if collateral_is_null r then d\<lparr>collateral_db := market_remove k (collateral_db d)\<rparr>
     else d\<lparr>collateral_db := market_put k r (collateral_db d)\<rparr>)"

section \<open>A pending state\<close>

definition p_store_asset_record :: "asset_record \<Rightarrow> pending_chain_state \<Rightarrow> pending_chain_state" where
  "p_store_asset_record r p = p\<lparr>assets := AList.update (as_id r) r (assets p)\<rparr>"

definition p_store_balance_record :: "env \<Rightarrow> balance_record \<Rightarrow> pending_chain_state \<Rightarrow> pending_chain_state" where
  "p_store_balance_record e r p = p\<lparr>balances := AList.update (balance_id e r) r (balances p)\<rparr>"

definition p_store_account_record :: "env \<Rightarrow> account_record \<Rightarrow> pending_chain_state \<Rightarrow> pending_chain_state" where
  "p_store_account_record e r p =
    p\<lparr>accounts := AList.update (ac_id r) r (accounts p),
      account_id_index := AList.update (ac_name r) (ac_id r) (account_id_index p),
      key_to_account := AList.update (address_of_key e (owner_key r)) (ac_id r)
        (foldl (\<lambda>t item. AList.update (address_of_key e (snd item)) (ac_id r) t)
          (key_to_account p) (active_key_history r))\<rparr>"

definition p_store_transaction :: "transaction_id_type \<Rightarrow> transaction_record \<Rightarrow> pending_chain_state \<Rightarrow> pending_chain_state" where
  "p_store_transaction i r p = p\<lparr>transactions := AList.update i r (transactions p)\<rparr>"

definition p_set_property :: "chain_property_enum \<Rightarrow> property_value \<Rightarrow> pending_chain_state \<Rightarrow> pending_chain_state" where
  "p_set_property i v p = p\<lparr>properties := AList.update i v (properties p)\<rparr>"

definition p_store_proposal_record :: "proposal_record \<Rightarrow> pending_chain_state \<Rightarrow> pending_chain_state" where
  "p_store_proposal_record r p = p\<lparr>proposals := AList.update (pr_id r) r (proposals p)\<rparr>"

definition p_store_proposal_vote :: "proposal_vote \<Rightarrow> pending_chain_state \<Rightarrow> pending_chain_state" where
  "p_store_proposal_vote r p = p\<lparr>proposal_votes := AList.update (pv_id r) r (proposal_votes p)\<rparr>"

definition p_store_bid_record :: "market_index_key \<Rightarrow> order_record \<Rightarrow> pending_chain_state \<Rightarrow> pending_chain_state" where
  "p_store_bid_record k r p = p\<lparr>bids := market_store k r (bids p)\<rparr>"

definition p_store_ask_record :: "market_index_key \<Rightarrow> order_record \<Rightarrow> pending_chain_state \<Rightarrow> pending_chain_state" where
  "p_store_ask_record k r p = p\<lparr>asks := market_store k r (asks p)\<rparr>"

definition p_store_short_record :: "market_index_key \<Rightarrow> order_record \<Rightarrow> pending_chain_state \<Rightarrow> pending_chain_state" where
  "p_store_short_record k r p = p\<lparr>shorts := market_store k r (shorts p)\<rparr>"

definition p_store_collateral_record :: "market_index_key \<Rightarrow> collateral_record \<Rightarrow> pending_chain_state \<Rightarrow> pending_chain_state" where
  "p_store_collateral_record k r p = p\<lparr>collateral := market_store k r (collateral p)\<rparr>"

end
