(* ===== verification/Bts_Chain.thy ===== *)
theory Bts_Chain
  imports Bts_State
begin

text \<open>
  \<open>chain_interface\<close>: the virtual operations, dispatched on what the pointer points to
  (\<open>chain_database.cpp\<close> for the database, \<open>pending_chain_state.cpp\<close> for a pending state), the
  operations \<open>chain_interface.cpp\<close> implements on top of them, and the two operations of a pending
  state that involve its previous state as a whole, \<open>apply_changes\<close> and \<open>get_undo_state\<close>. Dereferencing
  a null pointer or the end of a table is the error \<open>undefined_behaviour\<close>.
\<close>

section \<open>Storing\<close>

primrec store_asset_record :: "asset_record \<Rightarrow> chain \<Rightarrow> chain" where
  "store_asset_record r No_State = No_State"
| "store_asset_record r (Database d) = Database (db_store_asset_record r d)"
| "store_asset_record r (Pending p prev) = Pending (p_store_asset_record r p) prev"

primrec store_balance_record :: "env \<Rightarrow> balance_record \<Rightarrow> chain \<Rightarrow> chain" where
  "store_balance_record e r No_State = No_State"
| "store_balance_record e r (Database d) = Database (db_store_balance_record e r d)"
| "store_balance_record e r (Pending p prev) = Pending (p_store_balance_record e r p) prev"

primrec store_account_record :: "env \<Rightarrow> account_record \<Rightarrow> chain \<Rightarrow> chain" where
  "store_account_record e r No_State = No_State"
| "store_account_record e r (Database d) = Database (db_store_account_record e r d)"
| "store_account_record e r (Pending p prev) = Pending (p_store_account_record e r p) prev"

primrec store_transaction :: "transaction_id_type \<Rightarrow> transaction_record \<Rightarrow> chain \<Rightarrow> chain" where
  "store_transaction i r No_State = No_State"
| "store_transaction i r (Database d) = Database (db_store_transaction i r d)"
| "store_transaction i r (Pending p prev) = Pending (p_store_transaction i r p) prev"

primrec set_property :: "chain_property_enum \<Rightarrow> property_value \<Rightarrow> chain \<Rightarrow> chain" where
  "set_property i v No_State = No_State"
| "set_property i v (Database d) = Database (db_set_property i v d)"
| "set_property i v (Pending p prev) = Pending (p_set_property i v p) prev"

primrec store_proposal_record :: "proposal_record \<Rightarrow> chain \<Rightarrow> chain" where
  "store_proposal_record r No_State = No_State"
| "store_proposal_record r (Database d) = Database (db_store_proposal_record r d)"
| "store_proposal_record r (Pending p prev) = Pending (p_store_proposal_record r p) prev"

primrec store_proposal_vote :: "proposal_vote \<Rightarrow> chain \<Rightarrow> chain" where
  "store_proposal_vote r No_State = No_State"
| "store_proposal_vote r (Database d) = Database (db_store_proposal_vote r d)"
| "store_proposal_vote r (Pending p prev) = Pending (p_store_proposal_vote r p) prev"

primrec store_bid_record :: "market_index_key \<Rightarrow> order_record \<Rightarrow> chain \<Rightarrow> chain" where
  "store_bid_record k r No_State = No_State"
| "store_bid_record k r (Database d) = Database (db_store_bid_record k r d)"
| "store_bid_record k r (Pending p prev) = Pending (p_store_bid_record k r p) prev"

primrec store_ask_record :: "market_index_key \<Rightarrow> order_record \<Rightarrow> chain \<Rightarrow> chain" where
  "store_ask_record k r No_State = No_State"
| "store_ask_record k r (Database d) = Database (db_store_ask_record k r d)"
| "store_ask_record k r (Pending p prev) = Pending (p_store_ask_record k r p) prev"

primrec store_short_record :: "market_index_key \<Rightarrow> order_record \<Rightarrow> chain \<Rightarrow> chain" where
  "store_short_record k r No_State = No_State"
| "store_short_record k r (Database d) = Database (db_store_short_record k r d)"
| "store_short_record k r (Pending p prev) = Pending (p_store_short_record k r p) prev"

primrec store_collateral_record :: "market_index_key \<Rightarrow> collateral_record \<Rightarrow> chain \<Rightarrow> chain" where
  "store_collateral_record k r No_State = No_State"
| "store_collateral_record k r (Database d) = Database (db_store_collateral_record k r d)"
| "store_collateral_record k r (Pending p prev) = Pending (p_store_collateral_record k r p) prev"

section \<open>Reading\<close>

primrec get_asset_record :: "chain \<Rightarrow> asset_id_type \<Rightarrow> asset_record option" where
  "get_asset_record No_State i = None"
| "get_asset_record (Database d) i = map_of (asset_db d) i"
| "get_asset_record (Pending p prev) i =
    (case map_of (assets p) i of Some r \<Rightarrow> Some r | None \<Rightarrow> get_asset_record prev i)"

primrec get_balance_record :: "chain \<Rightarrow> balance_id_type \<Rightarrow> balance_record option" where
  "get_balance_record No_State i = None"
| "get_balance_record (Database d) i = map_of (balance_db d) i"
| "get_balance_record (Pending p prev) i =
    (case map_of (balances p) i of Some r \<Rightarrow> Some r | None \<Rightarrow> get_balance_record prev i)"

primrec get_account_record :: "chain \<Rightarrow> account_id_type \<Rightarrow> account_record option" where
  "get_account_record No_State i = None"
| "get_account_record (Database d) i = map_of (account_db d) i"
| "get_account_record (Pending p prev) i =
    (case map_of (accounts p) i of Some r \<Rightarrow> Some r | None \<Rightarrow> get_account_record prev i)"

primrec get_proposal_record :: "chain \<Rightarrow> proposal_id_type \<Rightarrow> proposal_record option" where
  "get_proposal_record No_State i = None"
| "get_proposal_record (Database d) i = map_of (proposal_db d) i"
| "get_proposal_record (Pending p prev) i =
    (case map_of (proposals p) i of Some r \<Rightarrow> Some r | None \<Rightarrow> get_proposal_record prev i)"

primrec get_proposal_vote :: "chain \<Rightarrow> proposal_vote_id_type \<Rightarrow> proposal_vote option" where
  "get_proposal_vote No_State i = None"
| "get_proposal_vote (Database d) i = map_of (proposal_vote_db d) i"
| "get_proposal_vote (Pending p prev) i =
    (case map_of (proposal_votes p) i of Some r \<Rightarrow> Some r | None \<Rightarrow> get_proposal_vote prev i)"

primrec get_bid_record :: "chain \<Rightarrow> market_index_key \<Rightarrow> order_record option" where
  "get_bid_record No_State k = None"
| "get_bid_record (Database d) k = market_find k (bid_db d)"
| "get_bid_record (Pending p prev) k =
    (case market_find k (bids p) of Some r \<Rightarrow> Some r | None \<Rightarrow> get_bid_record prev k)"

primrec get_ask_record :: "chain \<Rightarrow> market_index_key \<Rightarrow> order_record option" where
  "get_ask_record No_State k = None"
| "get_ask_record (Database d) k = market_find k (ask_db d)"
| "get_ask_record (Pending p prev) k =
    (case market_find k (asks p) of Some r \<Rightarrow> Some r | None \<Rightarrow> get_ask_record prev k)"

text \<open>
  For shorts and collateral the pending state has its test the wrong way round: a key it does not hold
  makes it dereference the end of its table, one it holds makes it ask the previous state.
\<close>

primrec get_short_record :: "chain \<Rightarrow> market_index_key \<Rightarrow> chain_error + order_record option" where
  "get_short_record No_State k = Inr None"
| "get_short_record (Database d) k = Inr (market_find k (short_db d))"
| "get_short_record (Pending p prev) k =
    (case market_find k (shorts p) of None \<Rightarrow> Inl undefined_behaviour | Some r \<Rightarrow> get_short_record prev k)"

primrec get_collateral_record :: "chain \<Rightarrow> market_index_key \<Rightarrow> chain_error + collateral_record option" where
  "get_collateral_record No_State k = Inr None"
| "get_collateral_record (Database d) k = Inr (market_find k (collateral_db d))"
| "get_collateral_record (Pending p prev) k =
    (case market_find k (collateral p) of None \<Rightarrow> Inl undefined_behaviour | Some r \<Rightarrow> get_collateral_record prev k)"

text \<open>\<open>get_transaction\<close> with \<open>exact\<close> set, which is how the blockchain library calls it.\<close>

primrec get_transaction :: "chain \<Rightarrow> transaction_id_type \<Rightarrow> chain_error + transaction_record option" where
  "get_transaction No_State i = Inl undefined_behaviour"
| "get_transaction (Database d) i = Inr (map_of (transaction_db d) i)"
| "get_transaction (Pending p prev) i =
    (case map_of (transactions p) i of Some r \<Rightarrow> Inr (Some r) | None \<Rightarrow> get_transaction prev i)"

primrec get_property :: "chain \<Rightarrow> chain_property_enum \<Rightarrow> chain_error + property_value" where
  "get_property No_State i = Inr null_value"
| "get_property (Database d) i =
    (case map_of (property_db d) i of Some v \<Rightarrow> Inr v | None \<Rightarrow> Inl no_result)"
| "get_property (Pending p prev) i =
    (case map_of (properties p) i of Some v \<Rightarrow> Inr v | None \<Rightarrow> get_property prev i)"

primrec get_asset_by_symbol :: "chain \<Rightarrow> string \<Rightarrow> asset_record option" where
  "get_asset_by_symbol No_State s = None"
| "get_asset_by_symbol (Database d) s =
    (case map_of (symbol_index_db d) s of Some i \<Rightarrow> get_asset_record (Database d) i | None \<Rightarrow> None)"
| "get_asset_by_symbol (Pending p prev) s =
    (case map_of (symbol_id_index p) s of Some i \<Rightarrow> get_asset_record (Pending p prev) i
     | None \<Rightarrow> get_asset_by_symbol prev s)"

primrec get_account_by_name :: "chain \<Rightarrow> string \<Rightarrow> account_record option" where
  "get_account_by_name No_State s = None"
| "get_account_by_name (Database d) s =
    (case map_of (account_index_db d) s of Some i \<Rightarrow> get_account_record (Database d) i | None \<Rightarrow> None)"
| "get_account_by_name (Pending p prev) s =
    (case map_of (account_id_index p) s of Some i \<Rightarrow> get_account_record (Pending p prev) i
     | None \<Rightarrow> get_account_by_name prev s)"

primrec get_account_by_address :: "chain \<Rightarrow> address \<Rightarrow> chain_error + account_record option" where
  "get_account_by_address No_State a = Inl fc_assert"
| "get_account_by_address (Database d) a =
    Inr (case map_of (address_to_account_db d) a of Some i \<Rightarrow> get_account_record (Database d) i | None \<Rightarrow> None)"
| "get_account_by_address (Pending p prev) a =
    (case map_of (key_to_account p) a of Some i \<Rightarrow> Inr (get_account_record (Pending p prev) i)
     | None \<Rightarrow> get_account_by_address prev a)"

primrec get_fee_rate :: "chain \<Rightarrow> chain_error + share_type" where
  "get_fee_rate No_State = Inl fc_assert"
| "get_fee_rate (Database d) = Inr (fee_rate (head_block_header d))"
| "get_fee_rate (Pending p prev) = get_fee_rate prev"

primrec get_delegate_pay_rate :: "chain \<Rightarrow> chain_error + share_type" where
  "get_delegate_pay_rate No_State = Inl fc_assert"
| "get_delegate_pay_rate (Database d) = Inr (delegate_pay_rate (head_block_header d))"
| "get_delegate_pay_rate (Pending p prev) = get_delegate_pay_rate prev"

primrec chain_now :: "chain \<Rightarrow> chain_error + time_point_sec" where
  "chain_now No_State = Inl fc_assert"
| "chain_now (Database d) = Inr (if bh_block_num (head_block_header d) \<noteq> 0
     then bh_timestamp (head_block_header d) else wall_clock d)"
| "chain_now (Pending p prev) = chain_now prev"

primrec get_current_random_seed :: "chain \<Rightarrow> chain_error + bytes" where
  "get_current_random_seed No_State = Inr (replicate 20 0)"
| "get_current_random_seed (Database d) = res_bind (get_property (Database d) last_random_seed_id)
     (\<lambda>v. case v of hash_value h \<Rightarrow> Inr h | _ \<Rightarrow> Inl no_result)"
| "get_current_random_seed (Pending p prev) = get_current_random_seed prev"

section \<open>chain\_interface.cpp\<close>

definition BTS_BLOCKCHAIN_MAX_BLOCK_SIZE :: int where
  "BTS_BLOCKCHAIN_MAX_BLOCK_SIZE = 24 * 1024 * 1024 div (60 * 60 div 15)"

definition BTS_BLOCKCHAIN_BLOCK_REWARD :: int where
  "BTS_BLOCKCHAIN_BLOCK_REWARD = BTS_BLOCKCHAIN_MAX_BLOCK_SIZE"

definition BTS_BLOCKCHAIN_DELEGATE_REGISTRATION_FEE :: int where
  "BTS_BLOCKCHAIN_DELEGATE_REGISTRATION_FEE = BTS_BLOCKCHAIN_BLOCK_REWARD * 100"

definition BTS_BLOCKCHAIN_ASSET_REGISTRATION_FEE :: int where
  "BTS_BLOCKCHAIN_ASSET_REGISTRATION_FEE = BTS_BLOCKCHAIN_BLOCK_REWARD * 100"

text \<open>Division of \<open>int64_t\<close>, which truncates towards zero.\<close>

definition int64_div :: "share_type \<Rightarrow> share_type \<Rightarrow> share_type" where
  "int64_div x y = word_of_int (sgn (sint x) * sgn (sint y) * (\<bar>sint x\<bar> div \<bar>sint y\<bar>))"

definition get_delegate_registration_fee :: "chain \<Rightarrow> chain_error + share_type" where
  "get_delegate_registration_fee c = res_bind (get_fee_rate c)
    (\<lambda>rate. Inr (int64_div (rate * word_of_int BTS_BLOCKCHAIN_DELEGATE_REGISTRATION_FEE) 1000))"

definition get_asset_registration_fee :: "chain \<Rightarrow> chain_error + share_type" where
  "get_asset_registration_fee c = res_bind (get_fee_rate c)
    (\<lambda>rate. Inr (int64_div (rate * word_of_int BTS_BLOCKCHAIN_ASSET_REGISTRATION_FEE) 1000))"

definition in_range :: "char \<Rightarrow> char \<Rightarrow> char \<Rightarrow> bool" where
  "in_range lo hi c = ((of_char lo :: nat) \<le> of_char c \<and> (of_char c :: nat) \<le> of_char hi)"

definition is_valid_account_name :: "string \<Rightarrow> bool" where
  "is_valid_account_name str =
    (if length str < 1 then False
     else if length str > 63 then False
     else if \<not> in_range (CHR ''a'') (CHR ''z'') (str ! 0) then False
     else list_all (\<lambda>c. in_range (CHR ''a'') (CHR ''z'') c \<or> in_range (CHR ''0'') (CHR ''9'') c
                        \<or> c = CHR ''-'' \<or> c = CHR ''.'') str)"

text \<open>\<open>std::isalnum\<close> and \<open>std::isupper\<close> of the default locale.\<close>

definition is_upper :: "char \<Rightarrow> bool" where
  "is_upper c = in_range (CHR ''A'') (CHR ''Z'') c"

definition is_alnum :: "char \<Rightarrow> bool" where
  "is_alnum c = (is_upper c \<or> in_range (CHR ''a'') (CHR ''z'') c \<or> in_range (CHR ''0'') (CHR ''9'') c)"

definition is_valid_symbol_name :: "string \<Rightarrow> bool" where
  "is_valid_symbol_name name =
    (if length name > 5 then False
     else if length name < 3 then False
     else list_all (\<lambda>c. \<not> (\<not> is_alnum c \<or> \<not> is_upper c)) name)"

definition property_int :: "chain \<Rightarrow> chain_property_enum \<Rightarrow> chain_error + int" where
  "property_int c i = res_bind (get_property c i)
    (\<lambda>v. case v of int_value n \<Rightarrow> Inr n | _ \<Rightarrow> Inl no_result)"

definition new_asset_id :: "chain \<Rightarrow> chain_error + asset_id_type \<times> chain" where
  "new_asset_id c = res_bind (property_int c last_asset_id)
    (\<lambda>n. let next_id = n + 1 in Inr (next_id, set_property last_asset_id (int_value next_id) c))"

definition new_account_id :: "chain \<Rightarrow> chain_error + account_id_type \<times> chain" where
  "new_account_id c = res_bind (property_int c last_account_id)
    (\<lambda>n. let next_id = n + 1 in Inr (next_id, set_property last_account_id (int_value next_id) c))"

definition new_proposal_id :: "chain \<Rightarrow> chain_error + proposal_id_type \<times> chain" where
  "new_proposal_id c = res_bind (property_int c last_proposal_id)
    (\<lambda>n. let next_id = n + 1 in Inr (next_id, set_property last_proposal_id (int_value next_id) c))"

definition get_active_delegates :: "chain \<Rightarrow> chain_error + account_id_type list" where
  "get_active_delegates c = res_bind (get_property c active_delegate_list_id)
    (\<lambda>v. case v of ids_value l \<Rightarrow> Inr l | _ \<Rightarrow> Inl no_result)"

definition is_active_delegate :: "chain \<Rightarrow> account_id_type \<Rightarrow> chain_error + bool" where
  "is_active_delegate c i = res_bind (get_active_delegates c) (\<lambda>l. Inr (i \<in> set l))"

section \<open>Applying and undoing the changes of a pending state\<close>

definition apply_list :: "('x \<Rightarrow> chain \<Rightarrow> chain) \<Rightarrow> 'x list \<Rightarrow> chain \<Rightarrow> chain" where
  "apply_list f xs c = foldl (\<lambda>c x. f x c) c xs"

definition apply_changes :: "env \<Rightarrow> pending_chain_state \<Rightarrow> chain \<Rightarrow> chain" where
  "apply_changes e p prev_state =
    (if prev_state = No_State then No_State
     else
       let c = apply_list (\<lambda>(i, v). set_property i v) (properties p) prev_state;
           c = apply_list (\<lambda>(_, r). store_asset_record r) (assets p) c;
           c = apply_list (\<lambda>(_, r). store_account_record e r) (accounts p) c;
           c = apply_list (\<lambda>(_, r). store_balance_record e r) (balances p) c;
           c = apply_list (\<lambda>(_, r). store_proposal_record r) (proposals p) c;
           c = apply_list (\<lambda>(_, r). store_proposal_vote r) (proposal_votes p) c;
           c = apply_list (\<lambda>(_, (k, r)). store_bid_record k r) (bids p) c;
           c = apply_list (\<lambda>(_, (k, r)). store_ask_record k r) (asks p) c;
           c = apply_list (\<lambda>(_, (k, r)). store_short_record k r) (shorts p) c;
           c = apply_list (\<lambda>(_, (k, r)). store_collateral_record k r) (collateral p) c;
           c = apply_list (\<lambda>(i, r). store_transaction i r) (transactions p) c
       in c)"

text \<open>
  \<open>get_undo_state\<close>: for every entry of the pending state, what the previous state holds under its key,
  or a record that is null when it holds nothing (for a transaction, the empty record).
\<close>

definition undo_properties :: "chain \<Rightarrow> (chain_property_enum, property_value) table \<Rightarrow> pending_chain_state \<Rightarrow> chain_error + pending_chain_state" where
  "undo_properties prev = fold_res (\<lambda>(i, _) u. res_bind (get_property prev i)
     (\<lambda>v. Inr (p_set_property i v u)))"

definition undo_assets :: "chain \<Rightarrow> (asset_id_type, asset_record) table \<Rightarrow> pending_chain_state \<Rightarrow> pending_chain_state" where
  "undo_assets prev = fold (\<lambda>(i, r). p_store_asset_record
     (case get_asset_record prev i of Some old \<Rightarrow> old | None \<Rightarrow> asset_make_null r))"

definition undo_accounts :: "env \<Rightarrow> chain \<Rightarrow> (account_id_type, account_record) table \<Rightarrow> pending_chain_state \<Rightarrow> pending_chain_state" where
  "undo_accounts e prev = fold (\<lambda>(i, r). p_store_account_record e
     (case get_account_record prev i of Some old \<Rightarrow> old | None \<Rightarrow> account_make_null r))"

definition undo_proposals :: "chain \<Rightarrow> (proposal_id_type, proposal_record) table \<Rightarrow> pending_chain_state \<Rightarrow> pending_chain_state" where
  "undo_proposals prev = fold (\<lambda>(i, r). p_store_proposal_record
     (case get_proposal_record prev i of Some old \<Rightarrow> old | None \<Rightarrow> proposal_make_null r))"

definition undo_proposal_votes :: "chain \<Rightarrow> (proposal_vote_id_type, proposal_vote) table \<Rightarrow> pending_chain_state \<Rightarrow> pending_chain_state" where
  "undo_proposal_votes prev = fold (\<lambda>(i, r). p_store_proposal_vote
     (case get_proposal_vote prev i of Some old \<Rightarrow> old | None \<Rightarrow> vote_make_null r))"

definition undo_balances :: "env \<Rightarrow> chain \<Rightarrow> (balance_id_type, balance_record) table \<Rightarrow> pending_chain_state \<Rightarrow> pending_chain_state" where
  "undo_balances e prev = fold (\<lambda>(i, r). p_store_balance_record e
     (case get_balance_record prev i of Some old \<Rightarrow> old | None \<Rightarrow> balance_make_null r))"

definition undo_transactions :: "chain \<Rightarrow> (transaction_id_type, transaction_record) table \<Rightarrow> pending_chain_state \<Rightarrow> chain_error + pending_chain_state" where
  "undo_transactions prev = fold_res (\<lambda>(i, _) u. res_bind (get_transaction prev i)
     (\<lambda>t. Inr (p_store_transaction i (case t of Some old \<Rightarrow> old | None \<Rightarrow> new_transaction_record) u)))"

definition undo_bids :: "chain \<Rightarrow> order_record market_table \<Rightarrow> pending_chain_state \<Rightarrow> pending_chain_state" where
  "undo_bids prev = fold (\<lambda>(_, (k, _)). p_store_bid_record k
     (case get_bid_record prev k of Some old \<Rightarrow> old | None \<Rightarrow> new_order_record))"

definition undo_asks :: "chain \<Rightarrow> order_record market_table \<Rightarrow> pending_chain_state \<Rightarrow> pending_chain_state" where
  "undo_asks prev = fold (\<lambda>(_, (k, _)). p_store_ask_record k
     (case get_ask_record prev k of Some old \<Rightarrow> old | None \<Rightarrow> new_order_record))"

definition undo_shorts :: "chain \<Rightarrow> order_record market_table \<Rightarrow> pending_chain_state \<Rightarrow> chain_error + pending_chain_state" where
  "undo_shorts prev = fold_res (\<lambda>(_, (k, _)) u. res_bind (get_short_record prev k)
     (\<lambda>t. Inr (p_store_short_record k (case t of Some old \<Rightarrow> old | None \<Rightarrow> new_order_record) u)))"

definition undo_collateral :: "chain \<Rightarrow> collateral_record market_table \<Rightarrow> pending_chain_state \<Rightarrow> chain_error + pending_chain_state" where
  "undo_collateral prev = fold_res (\<lambda>(_, (k, _)) u. res_bind (get_collateral_record prev k)
     (\<lambda>t. Inr (p_store_collateral_record k (case t of Some old \<Rightarrow> old | None \<Rightarrow> new_collateral_record) u)))"

definition get_undo_state :: "env \<Rightarrow> pending_chain_state \<Rightarrow> chain \<Rightarrow> chain_error + pending_chain_state" where
  "get_undo_state e p prev_state =
    (if prev_state = No_State then Inl fc_assert
     else res_bind (undo_properties prev_state (properties p) new_pending_state) (\<lambda>u.
       let u = undo_assets prev_state (assets p) u;
           u = undo_accounts e prev_state (accounts p) u;
           u = undo_proposals prev_state (proposals p) u;
           u = undo_proposal_votes prev_state (proposal_votes p) u;
           u = undo_balances e prev_state (balances p) u
       in res_bind (undo_transactions prev_state (transactions p) u) (\<lambda>u.
       let u = undo_bids prev_state (bids p) u;
           u = undo_asks prev_state (asks p) u
       in res_bind (undo_shorts prev_state (shorts p) u) (\<lambda>u.
          undo_collateral prev_state (collateral p) u))))"

end
