(* ===== verification/Bts_Eval.thy ===== *)
theory Bts_Eval
  imports Bts_Chain
begin

text \<open>
  The evaluation of a transaction (\<open>transaction_evaluation_state.cpp\<close>) and of its operations
  (\<open>balance_operations.cpp\<close>, \<open>account_operations.cpp\<close>, \<open>asset_operations.cpp\<close>,
  \<open>fire_operation.cpp\<close>, \<open>proposal_operations.cpp\<close>, \<open>market_operations.cpp\<close>), with the dispatch of
  \<open>operation_factory.hpp\<close> and \<open>operations.cpp\<close>. The state the evaluation changes, the chain below
  included, is a record that is passed on; an exception is a left value. One operation contains a loop
  that need not end, so a run is an option: \<open>None\<close> is a run that does not return.
\<close>

section \<open>The evaluation state\<close>

record vote_state =
  vs_votes_for :: share_type
  vs_votes_against :: share_type

record eval_state =
  ev_trx :: signed_transaction
  signed_keys :: "address list"
  required_deposits :: "(balance_id_type, asset) table"
  provided_deposits :: "(balance_id_type, asset) table"
  deposits :: "(asset_id_type, asset) table"
  withdraws :: "(asset_id_type, asset) table"
  required_fees :: asset
  balance :: "(asset_id_type, share_type) table"
  net_delegate_votes :: "(account_id_type, vote_state) table"
  current_state :: chain
  ev_chain_id :: digest_type

definition new_eval_state :: "chain \<Rightarrow> digest_type \<Rightarrow> eval_state" where
  "new_eval_state c i = \<lparr>ev_trx = null_trx, signed_keys = [], required_deposits = [],
     provided_deposits = [], deposits = [], withdraws = [], required_fees = mk_asset 0 0,
     balance = [], net_delegate_votes = [], current_state = c, ev_chain_id = i\<rparr>"

definition reset :: "eval_state \<Rightarrow> eval_state" where
  "reset ev = ev\<lparr>signed_keys := [], balance := [], deposits := [], withdraws := [],
     net_delegate_votes := [], required_deposits := []\<rparr>"

definition check_signature :: "eval_state \<Rightarrow> address \<Rightarrow> bool" where
  "check_signature ev a = (a \<in> set (signed_keys ev))"

text \<open>
  \<open>itr = t.find( k ); if( itr == t.end() ) t[k] = amount; else itr->second += amount;\<close>, which the
  functions below do on four tables.
\<close>

definition add_entry :: "'k \<Rightarrow> asset \<Rightarrow> ('k, asset) table \<Rightarrow> chain_error + ('k, asset) table" where
  "add_entry k a t =
    (case map_of t k of
       None \<Rightarrow> Inr (AList.update k a t)
     | Some b \<Rightarrow> res_bind (asset_add b a) (\<lambda>s. Inr (AList.update k s t)))"

definition add_required_deposit :: "env \<Rightarrow> address \<Rightarrow> asset \<Rightarrow> eval_state \<Rightarrow> chain_error + eval_state" where
  "add_required_deposit e owner a ev =
    (case trx_delegate_id (ev_trx ev) of
       None \<Rightarrow> Inl fc_assert
     | Some d \<Rightarrow> res_bind (add_entry (condition_address e
           (mk_condition (withdraw_with_signature owner None) (asset_id a) d)) a (required_deposits ev))
         (\<lambda>t. Inr (ev\<lparr>required_deposits := t\<rparr>)))"

definition votes_of :: "account_id_type \<Rightarrow> (account_id_type, vote_state) table \<Rightarrow> vote_state" where
  "votes_of i t = (case map_of t i of Some v \<Rightarrow> v | None \<Rightarrow> \<lparr>vs_votes_for = 0, vs_votes_against = 0\<rparr>)"

definition add_vote :: "account_id_type \<Rightarrow> share_type \<Rightarrow> eval_state \<Rightarrow> eval_state" where
  "add_vote delegate_id x ev =
    (let i = \<bar>delegate_id\<bar>; t = net_delegate_votes ev; v = votes_of i t
     in if 0 < delegate_id then ev\<lparr>net_delegate_votes := AList.update i (v\<lparr>vs_votes_for := vs_votes_for v + x\<rparr>) t\<rparr>
        else if delegate_id < 0 then ev\<lparr>net_delegate_votes := AList.update i (v\<lparr>vs_votes_against := vs_votes_against v + x\<rparr>) t\<rparr>
        else ev)"

definition sub_vote :: "account_id_type \<Rightarrow> share_type \<Rightarrow> eval_state \<Rightarrow> eval_state" where
  "sub_vote delegate_id x ev =
    (let i = \<bar>delegate_id\<bar>; t = net_delegate_votes ev; v = votes_of i t
     in if 0 < delegate_id then ev\<lparr>net_delegate_votes := AList.update i (v\<lparr>vs_votes_for := vs_votes_for v - x\<rparr>) t\<rparr>
        else if delegate_id < 0 then ev\<lparr>net_delegate_votes := AList.update i (v\<lparr>vs_votes_against := vs_votes_against v - x\<rparr>) t\<rparr>
        else ev)"

definition get_fees :: "asset_id_type \<Rightarrow> eval_state \<Rightarrow> share_type" where
  "get_fees i ev = (case map_of (balance ev) i of Some x \<Rightarrow> x | None \<Rightarrow> 0)"

definition sub_balance :: "balance_id_type \<Rightarrow> asset \<Rightarrow> eval_state \<Rightarrow> chain_error + eval_state" where
  "sub_balance i a ev =
    res_bind (add_entry i a (provided_deposits ev)) (\<lambda>provided.
    res_bind (add_entry (asset_id a) a (deposits ev)) (\<lambda>dep.
      Inr (ev\<lparr>provided_deposits := provided, deposits := dep,
        balance := AList.update (asset_id a)
          (case map_of (balance ev) (asset_id a) of Some x \<Rightarrow> x - amount a | None \<Rightarrow> - amount a)
          (balance ev)\<rparr>)))"

definition add_balance :: "asset \<Rightarrow> eval_state \<Rightarrow> chain_error + eval_state" where
  "add_balance a ev =
    res_bind (add_entry (asset_id a) a (withdraws ev)) (\<lambda>w.
      Inr (ev\<lparr>withdraws := w,
        balance := AList.update (asset_id a)
          (case map_of (balance ev) (asset_id a) of Some x \<Rightarrow> x + amount a | None \<Rightarrow> amount a)
          (balance ev)\<rparr>))"

definition validate_asset :: "asset \<Rightarrow> eval_state \<Rightarrow> chain_error + unit" where
  "validate_asset a ev =
    (if get_asset_record (current_state ev) (asset_id a) = None then Inl unknown_asset_id else Inr ())"

definition add_required_fee :: "share_type \<Rightarrow> eval_state \<Rightarrow> chain_error + eval_state" where
  "add_required_fee x ev =
    res_bind (asset_add (required_fees ev) (mk_asset x 0)) (\<lambda>f. Inr (ev\<lparr>required_fees := f\<rparr>))"

text \<open>The writes of an operation to \<open>_current_state\<close>.\<close>

abbreviation on_chain :: "(chain \<Rightarrow> chain) \<Rightarrow> eval_state \<Rightarrow> eval_state" where
  "on_chain f ev \<equiv> ev\<lparr>current_state := f (current_state ev)\<rparr>"

section \<open>Balance operations\<close>

definition deposit_evaluate :: "env \<Rightarrow> share_type \<Rightarrow> withdraw_condition \<Rightarrow> eval_state \<Rightarrow> chain_error + eval_state" where
  "deposit_evaluate e x c ev =
    (if x <=s 0 then Inl negative_deposit
     else
       let deposit_balance_id = condition_address e c;
           st = current_state ev;
           delegate_id = \<bar>wc_delegate_id c\<bar>;
           delegate_record = get_account_record st delegate_id
       in if wc_asset_id c = 0 \<and> delegate_record = None then Inl unknown_account_id
          else if wc_asset_id c = 0 \<and> \<not> is_delegate (the delegate_record) then Inl not_a_delegate
          else res_bind (chain_now st) (\<lambda>now.
            let cur_record = (case get_balance_record st deposit_balance_id of
                    Some r \<Rightarrow> r | None \<Rightarrow> new_balance_record c);
                cur_record = cur_record\<lparr>bal_last_update := now, bal_balance := bal_balance cur_record + x\<rparr>;
                cond = bal_condition cur_record
            in res_bind (sub_balance deposit_balance_id (mk_asset x (wc_asset_id cond)) ev) (\<lambda>ev.
              let ev = (if wc_asset_id cond = 0 then add_vote (wc_delegate_id cond) x ev else ev)
              in Inr (on_chain (store_balance_record e cur_record) ev))))"

text \<open>The \<open>switch\<close> over the type of the condition in \<open>withdraw_operation::evaluate\<close>.\<close>

definition check_condition :: "env \<Rightarrow> share_type \<Rightarrow> bytes \<Rightarrow> withdraw_condition \<Rightarrow> eval_state \<Rightarrow> chain_error + eval_state" where
  "check_condition e x claim_input_data c ev =
    (case wc_data c of
       withdraw_with_signature owner _ \<Rightarrow>
         if \<not> check_signature ev owner then Inl missing_signature else Inr ev
     | withdraw_with_multi_sig required owners _ \<Rightarrow>
         let valid_signatures = (of_nat (length (filter (check_signature ev) owners)) :: u32)
         in if valid_signatures < required then Inl missing_signature else Inr ev
     | withdraw_with_password payee payor timeout password_hash _ \<Rightarrow>
         res_bind (chain_now (current_state ev)) (\<lambda>now.
           if timeout < now
           then (if \<not> check_signature ev payor then Inl missing_signature else Inr ev)
           else if \<not> check_signature ev payee then Inl missing_signature
           else if length claim_input_data < 20 then Inl invalid_claim_password
           else if password_hash \<noteq> fc_ripemd160 e claim_input_data then Inl invalid_claim_password
           else Inr ev)
     | withdraw_option optionor optionee date strike_price \<Rightarrow>
         res_bind (chain_now (current_state ev)) (\<lambda>now.
           if date < now
           then (if \<not> check_signature ev optionor then Inl missing_signature else Inr ev)
           else if \<not> check_signature ev optionee then Inl missing_signature
           else res_bind (asset_times_price (fc e) (mk_asset x (wc_asset_id c)) strike_price)
             (\<lambda>pay_amount. add_required_deposit e optionee pay_amount ev))
     | withdraw_null \<Rightarrow> Inl invalid_withdraw_condition
     | withdraw_unknown_type \<Rightarrow> Inr ev
     | withdraw_malformed \<Rightarrow> Inl no_result)"

definition withdraw_evaluate :: "env \<Rightarrow> balance_id_type \<Rightarrow> share_type \<Rightarrow> bytes \<Rightarrow> eval_state \<Rightarrow> chain_error + eval_state" where
  "withdraw_evaluate e i x claim_input_data ev =
    (if x <=s 0 then Inl negative_deposit
     else case get_balance_record (current_state ev) i of
       None \<Rightarrow> Inl unknown_balance_record
     | Some current_balance_record \<Rightarrow>
         if bal_balance current_balance_record <s x then Inl insufficient_funds
         else
           let cond = bal_condition current_balance_record
           in res_bind (check_condition e x claim_input_data cond ev) (\<lambda>ev.
              res_bind (chain_now (current_state ev)) (\<lambda>now.
              let r = current_balance_record\<lparr>bal_balance := bal_balance current_balance_record - x,
                        bal_last_update := now\<rparr>
              in res_bind (add_balance (mk_asset x (wc_asset_id cond)) ev) (\<lambda>ev.
                let ev = (if wc_asset_id cond = 0 then sub_vote (wc_delegate_id cond) x ev else ev)
                in Inr (on_chain (store_balance_record e r) ev)))))"

section \<open>Account operations\<close>

definition get_parent_account_name :: "string \<Rightarrow> string" where
  "get_parent_account_name child = drop 1 (dropWhile (\<lambda>c. c \<noteq> CHR ''.'') child)"

definition register_account_evaluate ::
  "env \<Rightarrow> string \<Rightarrow> variant \<Rightarrow> public_key_type \<Rightarrow> public_key_type \<Rightarrow> bool \<Rightarrow> variant option \<Rightarrow> eval_state \<Rightarrow> chain_error + eval_state" where
  "register_account_evaluate e nm public_data owner active as_delegate meta_data ev =
    (let st = current_state ev in
     res_bind (chain_now st) (\<lambda>now.
     if \<not> is_valid_account_name nm then Inl invalid_account_name
     else if (case get_account_by_name st nm of None \<Rightarrow> False
              | Some r \<Rightarrow> unat (ac_last_update r) + 60 * 60 * 24 * 365 < unat now)
     then Inl account_already_registered
     else
       let parent_name = get_parent_account_name nm;
           parent_record = get_account_by_name st parent_name
       in if parent_name \<noteq> [] \<and> parent_record = None then Inl unknown_account_name
          else if parent_name \<noteq> [] \<and> \<not> check_signature ev (address_of_key e (active_key (the parent_record)))
          then Inl missing_parent_account_signature
          else if parent_name \<noteq> [] \<and> is_retracted (the parent_record) then Inl parent_account_retracted
          else res_bind (get_account_by_address st (address_of_key e active)) (\<lambda>same_key.
            if same_key \<noteq> None then Inl account_key_in_use
            else res_bind (new_account_id st) (\<lambda>(new_id, st).
              let ev = ev\<lparr>current_state := st\<rparr>;
                  new_record = \<lparr>ac_id = new_id, ac_name = nm, ac_public_data = public_data,
                    owner_key = owner, active_key_history = [], ac_registration_date = now,
                    ac_last_update = now, delegate_info = None, ac_meta_data = None\<rparr>
              in res_bind (set_active_key now active new_record) (\<lambda>new_record.
                 res_bind (if as_delegate
                     then res_bind (get_delegate_registration_fee st) (\<lambda>fee. add_required_fee fee ev)
                     else Inr ev) (\<lambda>ev.
                 let new_record = new_record\<lparr>delegate_info := (if as_delegate then Some new_delegate_stats else None),
                       ac_meta_data := meta_data\<rparr>
                 in Inr (on_chain (store_account_record e new_record) ev)))))))"

definition withdraw_pay_evaluate :: "env \<Rightarrow> share_type \<Rightarrow> account_id_type \<Rightarrow> eval_state \<Rightarrow> chain_error + eval_state" where
  "withdraw_pay_evaluate e x i ev =
    (if x <=s 0 then Inl negative_withdraw
     else
       let pay_to_account_id = \<bar>i\<bar>
       in case get_account_record (current_state ev) pay_to_account_id of
         None \<Rightarrow> Inl unknown_account_id
       | Some r \<Rightarrow>
           if is_retracted r then Inl account_retracted
           else case delegate_info r of
             None \<Rightarrow> Inl not_a_delegate
           | Some d \<Rightarrow>
               if \<not> check_signature ev (address_of_key e (active_key r)) then Inl missing_signature
               else
                 let ev = sub_vote pay_to_account_id x ev
                 in if x <s pay_balance d then Inl insufficient_funds
                    else
                      let r = r\<lparr>delegate_info := Some (d\<lparr>pay_balance := pay_balance d - x\<rparr>)\<rparr>
                      in add_balance (mk_asset x 0) (on_chain (store_account_record e r) ev))"

text \<open>
  The loop \<open>while( parent_record.valid() )\<close> of \<open>update_account_operation::evaluate\<close>, which occurs in
  both of its branches: the variables of the loop are the arguments, its result is \<open>verified\<close>.
\<close>

partial_function (option) parent_loop ::
  "env \<Rightarrow> eval_state \<Rightarrow> string \<Rightarrow> account_record option \<Rightarrow> bool \<Rightarrow> (chain_error + bool) option" where
  "parent_loop e ev parent_name parent_record verified =
    (case parent_record of
       None \<Rightarrow> Some (Inr verified)
     | Some r \<Rightarrow>
         if is_retracted r then Some (Inl parent_account_retracted)
         else if check_signature ev (address_of_key e (owner_key r))
              \<or> check_signature ev (address_of_key e (active_key r))
         then parent_loop e ev parent_name parent_record True
         else
           let parent_name = get_parent_account_name parent_name
           in parent_loop e ev parent_name (get_account_by_name (current_state ev) parent_name) verified)"

text \<open>The authorisation of an update: the two branches of the code up to their \<open>missing_signature\<close>.\<close>

definition update_authorised :: "env \<Rightarrow> public_key_type option \<Rightarrow> account_record \<Rightarrow> eval_state \<Rightarrow> (chain_error + unit) option" where
  "update_authorised e new_key r ev =
    (let parent_name = get_parent_account_name (ac_name r);
         parent_record = get_account_by_name (current_state ev) parent_name;
         finish = (\<lambda>v. case v of Inl err \<Rightarrow> Inl err
                     | Inr verified \<Rightarrow> if verified then Inr () else Inl missing_signature)
     in if new_key \<noteq> None \<and> the new_key \<noteq> active_key r
        then
          if parent_name = []
          then (if \<not> check_signature ev (address_of_key e (owner_key r))
                then Some (Inl missing_signature) else Some (Inr ()))
          else if parent_record = None then Some (Inl unknown_parent_account_name)
          else map_option finish (parent_loop e ev parent_name parent_record False)
        else
          let verified = (check_signature ev (address_of_key e (active_key r))
                          \<or> check_signature ev (address_of_key e (owner_key r)))
          in if \<not> verified \<and> parent_name \<noteq> []
             then map_option finish (parent_loop e ev parent_name parent_record verified)
             else Some (finish (Inr verified)))"

text \<open>The changes of an authorised update.\<close>

definition update_account_apply ::
  "env \<Rightarrow> variant option \<Rightarrow> public_key_type option \<Rightarrow> bool \<Rightarrow> account_record \<Rightarrow> eval_state \<Rightarrow> chain_error + eval_state" where
  "update_account_apply e new_data new_key as_delegate r ev =
    (let st = current_state ev;
         r = (case new_data of Some x \<Rightarrow> r\<lparr>ac_public_data := x\<rparr> | None \<Rightarrow> r)
     in res_bind (chain_now st) (\<lambda>now.
        let r = r\<lparr>ac_last_update := now\<rparr>
        in res_bind (case new_key of
               None \<Rightarrow> Inr r
             | Some k \<Rightarrow> res_bind (set_active_key now k r) (\<lambda>r.
                 res_bind (get_account_by_address st (address_of_key e k)) (\<lambda>same_key.
                   if same_key \<noteq> None then Inl account_key_in_use else Inr r))) (\<lambda>r.
           res_bind (if \<not> is_delegate r \<and> as_delegate
               then res_bind (get_delegate_registration_fee st) (\<lambda>fee.
                    res_bind (add_required_fee fee ev) (\<lambda>ev.
                    Inr (r\<lparr>delegate_info := Some new_delegate_stats\<rparr>, ev)))
               else Inr (r, ev)) (\<lambda>(r, ev).
           Inr (on_chain (store_account_record e r) ev)))))"

definition update_account_evaluate ::
  "env \<Rightarrow> account_id_type \<Rightarrow> variant option \<Rightarrow> public_key_type option \<Rightarrow> bool \<Rightarrow> eval_state \<Rightarrow> (chain_error + eval_state) option" where
  "update_account_evaluate e i new_data new_key as_delegate ev =
    (case get_account_record (current_state ev) i of
       None \<Rightarrow> Some (Inl unknown_account_id)
     | Some r \<Rightarrow>
         if is_retracted r then Some (Inl account_retracted)
         else map_option (\<lambda>v. res_bind v (\<lambda>_. update_account_apply e new_data new_key as_delegate r ev))
           (update_authorised e new_key r ev))"

section \<open>Asset operations\<close>

definition is_power_of_ten :: "u64 \<Rightarrow> bool" where
  "is_power_of_ten n = (n \<in> set (0 # map (\<lambda>k. 10 ^ k) [0..<16]))"

definition create_asset_evaluate ::
  "env \<Rightarrow> string \<Rightarrow> string \<Rightarrow> string \<Rightarrow> variant \<Rightarrow> account_id_type \<Rightarrow> share_type \<Rightarrow> u64 \<Rightarrow> eval_state \<Rightarrow> chain_error + eval_state" where
  "create_asset_evaluate e symbol nm description public_data issuer maximum prec ev =
    (let st = current_state ev;
         issuer_record = get_account_record st issuer
     in if \<not> is_power_of_ten prec then Inl invalid_precision
        else if \<not> is_valid_symbol_name symbol then Inl invalid_asset_symbol
        else if maximum <=s 0 then Inl invalid_asset_amount
        else if get_asset_by_symbol st symbol \<noteq> None then Inl asset_symbol_in_use
        else if issuer \<noteq> market_issued_asset \<and> issuer_record = None then Inl unknown_account_id
        else if issuer \<noteq> market_issued_asset
                \<and> \<not> check_signature ev (address_of_key e (active_key (the issuer_record)))
        then Inl missing_signature
        else res_bind (get_asset_registration_fee st) (\<lambda>fee.
             res_bind (add_required_fee fee ev) (\<lambda>ev.
             res_bind (new_asset_id st) (\<lambda>(new_id, st).
             res_bind (chain_now st) (\<lambda>now.
             let new_record = \<lparr>as_id = new_id, as_symbol = symbol, as_name = nm,
                   as_description = description, as_public_data = public_data,
                   issuer_account_id = issuer, as_precision = prec, as_registration_date = now,
                   as_last_update = 0, current_share_supply = 0, maximum_share_supply = maximum,
                   collected_fees = 0\<rparr>
             in Inr (on_chain (store_asset_record new_record) (ev\<lparr>current_state := st\<rparr>)))))))"

definition update_asset_evaluate ::
  "env \<Rightarrow> asset_id_type \<Rightarrow> string \<Rightarrow> variant \<Rightarrow> account_id_type \<Rightarrow> eval_state \<Rightarrow> chain_error + eval_state" where
  "update_asset_evaluate e i description public_data issuer ev =
    (let st = current_state ev in
     case get_asset_record st i of
       None \<Rightarrow> Inl unknown_asset_id
     | Some r \<Rightarrow>
         (case get_account_record st (issuer_account_id r) of
            None \<Rightarrow> Inl unknown_account_id
          | Some issuer_record \<Rightarrow>
              if \<not> check_signature ev (address_of_key e (active_key issuer_record))
              then Inl missing_signature
              else
                let new_issuer = get_account_record st issuer
                in if issuer \<noteq> issuer_account_id r \<and> new_issuer = None then Inl unknown_account_id
                   else if issuer \<noteq> issuer_account_id r
                     \<and> \<not> check_signature ev (address_of_key e (active_key (the new_issuer)))
                   then Inl missing_signature
                   else res_bind (chain_now st) (\<lambda>now.
                     Inr (on_chain (store_asset_record (r\<lparr>as_description := description,
                       as_public_data := public_data, issuer_account_id := issuer,
                       as_last_update := now\<rparr>)) ev))))"

definition issue_asset_evaluate :: "env \<Rightarrow> asset \<Rightarrow> eval_state \<Rightarrow> chain_error + eval_state" where
  "issue_asset_evaluate e a ev =
    (if amount a <=s 0 then Inl negative_issue
     else case get_asset_record (current_state ev) (asset_id a) of
       None \<Rightarrow> Inl unknown_asset_id
     | Some r \<Rightarrow>
         (case get_account_record (current_state ev) (issuer_account_id r) of
            None \<Rightarrow> Inl unknown_account_id
          | Some issuer_record \<Rightarrow>
              if \<not> check_signature ev (address_of_key e (active_key issuer_record))
              then Inl missing_signature
              else if \<not> can_issue r a then Inl over_issue
              else
                let r = r\<lparr>current_share_supply := current_share_supply r + amount a\<rparr>
                in res_bind (add_balance a ev) (\<lambda>ev. Inr (on_chain (store_asset_record r) ev))))"

end
