(* ===== verification/Bts_Transaction.thy ===== *)
theory Bts_Transaction
  imports Bts_Eval
begin

text \<open>
  The remaining operations (\<open>fire_operation.cpp\<close>, \<open>proposal_operations.cpp\<close>,
  \<open>market_operations.cpp\<close>), the dispatch of an operation (\<open>operation_factory.hpp\<close>,
  \<open>operations.cpp\<close>) and the evaluation of a whole transaction
  (\<open>transaction_evaluation_state::evaluate\<close>).
\<close>

section \<open>Firing a delegate\<close>

text \<open>Both branches that succeed end with the same three statements.\<close>

definition fire_delegate :: "env \<Rightarrow> account_record \<Rightarrow> eval_state \<Rightarrow> chain_error + eval_state" where
  "fire_delegate e r ev =
    res_bind (votes_for r) (\<lambda>v. res_bind (adjust_votes_against v r) (\<lambda>r.
    res_bind (votes_for r) (\<lambda>v. res_bind (adjust_votes_for (- v) r) (\<lambda>r.
      Inr (on_chain (store_account_record e r) ev)))))"

definition fire_delegate_evaluate :: "env \<Rightarrow> fire_reason \<Rightarrow> account_id_type \<Rightarrow> eval_state \<Rightarrow> chain_error + eval_state" where
  "fire_delegate_evaluate e reason i ev =
    (case get_account_record (current_state ev) i of
       None \<Rightarrow> Inl unknown_account_id
     | Some r \<Rightarrow>
         if \<not> is_delegate r then Inl not_a_delegate
         else case reason of
           multiple_blocks_signed first second \<Rightarrow>
             if header_id e first = header_id e second then Inl fc_assert
             else if bh_timestamp first \<noteq> bh_timestamp second then Inl fc_assert
             else (case (header_signee e first, header_signee e second) of
                 (Some s1, Some s2) \<Rightarrow>
                   if s1 \<noteq> s2 then Inl fc_assert
                   else if s1 \<noteq> active_key r then Inl fc_assert
                   else fire_delegate e r ev
               | _ \<Rightarrow> Inl no_result)
         | invalid_testimony testimony \<Rightarrow>
             (case testimony_signee e testimony of
                None \<Rightarrow> Inl no_result
              | Some signee \<Rightarrow>
                  if signee \<notin> snd ` set (active_key_history r) then Inl not_a_delegate_signature
                  else res_bind (get_transaction (current_state ev) (dt_transaction_id testimony)) (\<lambda>trx_loc.
                    if trx_loc = None \<and> dt_valid testimony then fire_delegate e r ev
                    else Inl invalid_fire_operation))
         | malformed_reason \<Rightarrow> Inl no_result
         | other_reason \<Rightarrow> Inr ev)"

section \<open>Proposals\<close>

definition submit_proposal_evaluate ::
  "env \<Rightarrow> account_id_type \<Rightarrow> time_point_sec \<Rightarrow> string \<Rightarrow> string \<Rightarrow> string \<Rightarrow> variant \<Rightarrow> eval_state \<Rightarrow> chain_error + eval_state" where
  "submit_proposal_evaluate e i submission_date subject body proposal_type data ev =
    (case get_account_record (current_state ev) i of
       None \<Rightarrow> Inl unknown_account_id
     | Some r \<Rightarrow>
         if \<not> is_delegate r then Inl not_a_delegate
         else res_bind (new_proposal_id (current_state ev)) (\<lambda>(new_id, st).
           let ev = ev\<lparr>current_state := st\<rparr>;
               new_proposal = \<lparr>pr_id = new_id, submitting_delegate_id = i,
                 pr_submission_date = submission_date, pr_subject = subject, pr_body = body,
                 pr_proposal_type = proposal_type, pr_data = data, ratified = False\<rparr>
           in if \<not> check_signature ev (address_of_key e (active_key r)) then Inl missing_signature
              else Inr (on_chain (store_proposal_record new_proposal) ev)))"

definition vote_proposal_evaluate ::
  "env \<Rightarrow> proposal_vote_id_type \<Rightarrow> time_point_sec \<Rightarrow> vote_type \<Rightarrow> string \<Rightarrow> eval_state \<Rightarrow> chain_error + eval_state" where
  "vote_proposal_evaluate e i timestamp vote message ev =
    (if 1024 < length message then Inl invalid_vote_message_size
     else
       let (proposal_id, delegate_id) = i; st = current_state ev
       in case get_account_record st delegate_id of
         None \<Rightarrow> Inl unknown_account_id
       | Some r \<Rightarrow>
           if \<not> is_delegate r then Inl not_a_delegate
           else res_bind (is_active_delegate st delegate_id) (\<lambda>active.
             if \<not> active then Inl not_an_active_delegate
             else if \<not> check_signature ev (address_of_key e (active_key r)) then Inl missing_signature
             else if get_proposal_record st proposal_id = None then Inl unknown_proposal_id
             else Inr (on_chain (store_proposal_vote \<lparr>pv_id = i, pv_timestamp = timestamp,
                    pv_message = message, pv_vote = vote\<rparr>) ev)))"

section \<open>Market orders\<close>

text \<open>
  The common text of \<open>bid_operation::evaluate\<close> and \<open>ask_operation::evaluate\<close>, which differ in the asset
  of the order and in the table. The result is the order to store and the evaluation state.
\<close>

definition order_evaluate ::
  "share_type \<Rightarrow> market_index_key \<Rightarrow> asset_id_type \<Rightarrow> account_id_type \<Rightarrow> (chain \<Rightarrow> order_record option)
   \<Rightarrow> eval_state \<Rightarrow> chain_error + order_record \<times> eval_state" where
  "order_evaluate x k a delegate get ev =
    (if price_eq (order_price k) null_price then Inl zero_price
     else if \<not> check_signature ev (order_owner k) then Inl missing_signature
     else
       let delta_amount = mk_asset x a
       in res_bind (validate_asset delta_amount ev) (\<lambda>_.
          let current = get (current_state ev)
          in if x = 0 then Inl zero_amount
             else res_bind
               (if x <s 0
                then (case current of
                        None \<Rightarrow> Inl unknown_market_order
                      | Some r \<Rightarrow> if ord_balance r <s share_abs x then Inl insufficient_funds
                          else res_bind (add_balance (asset_uminus delta_amount) ev) (\<lambda>ev. Inr (r, ev)))
                else res_bind (sub_balance null_address delta_amount ev) (\<lambda>ev.
                       Inr (case current of None \<Rightarrow> new_order_record | Some r \<Rightarrow> r, ev)))
               (\<lambda>(r, ev).
                  let ev = (if a = 0 then sub_vote (ord_delegate_id r) x ev else ev);
                      r = r\<lparr>ord_balance := ord_balance r + x, ord_delegate_id := delegate\<rparr>;
                      ev = (if a = 0 then add_vote (ord_delegate_id r) x ev else ev)
                  in Inr (r, ev))))"

definition bid_evaluate :: "share_type \<Rightarrow> market_index_key \<Rightarrow> account_id_type \<Rightarrow> eval_state \<Rightarrow> chain_error + eval_state" where
  "bid_evaluate x k delegate ev =
    res_bind (order_evaluate x k (quote_asset_id (order_price k)) delegate (\<lambda>c. get_bid_record c k) ev)
      (\<lambda>(r, ev). Inr (on_chain (store_bid_record k r) ev))"

definition ask_evaluate :: "share_type \<Rightarrow> market_index_key \<Rightarrow> account_id_type \<Rightarrow> eval_state \<Rightarrow> chain_error + eval_state" where
  "ask_evaluate x k delegate ev =
    res_bind (order_evaluate x k (base_asset_id (order_price k)) delegate (\<lambda>c. get_ask_record c k) ev)
      (\<lambda>(r, ev). Inr (on_chain (store_ask_record k r) ev))"

section \<open>Operations\<close>

fun evaluate_operation :: "env \<Rightarrow> operation \<Rightarrow> eval_state \<Rightarrow> (chain_error + eval_state) option" where
  "evaluate_operation e (withdraw_operation i x input) ev = Some (withdraw_evaluate e i x input ev)"
| "evaluate_operation e (deposit_operation x c) ev = Some (deposit_evaluate e x c ev)"
| "evaluate_operation e (register_account_operation nm d owner active del m) ev =
     Some (register_account_evaluate e nm d owner active del m ev)"
| "evaluate_operation e (update_account_operation i d k del) ev = update_account_evaluate e i d k del ev"
| "evaluate_operation e (withdraw_pay_operation x i) ev = Some (withdraw_pay_evaluate e x i ev)"
| "evaluate_operation e (create_asset_operation s nm desc d i m p) ev =
     Some (create_asset_evaluate e s nm desc d i m p ev)"
| "evaluate_operation e (update_asset_operation i nm desc d iss) ev =
     Some (update_asset_evaluate e i desc d iss ev)"
| "evaluate_operation e (issue_asset_operation a) ev = Some (issue_asset_evaluate e a ev)"
| "evaluate_operation e (fire_delegate_operation r i) ev = Some (fire_delegate_evaluate e r i ev)"
| "evaluate_operation e (submit_proposal_operation i t s b pt d) ev =
     Some (submit_proposal_evaluate e i t s b pt d ev)"
| "evaluate_operation e (vote_proposal_operation i t v m) ev = Some (vote_proposal_evaluate e i t v m ev)"
| "evaluate_operation e (bid_operation x k d) ev = Some (bid_evaluate x k d ev)"
| "evaluate_operation e (ask_operation x k d) ev = Some (ask_evaluate x k d ev)"
| "evaluate_operation e malformed_operation ev = Some (Inl no_result)"
| "evaluate_operation e (other_operation t) ev = Some (Inl unsupported_chain_operation)"

text \<open>\<open>for( auto op : trx.operations ) evaluate_operation( op );\<close>\<close>

fun evaluate_operations :: "env \<Rightarrow> operation list \<Rightarrow> eval_state \<Rightarrow> (chain_error + eval_state) option" where
  "evaluate_operations e [] ev = Some (Inr ev)"
| "evaluate_operations e (op # ops) ev =
    (case evaluate_operation e op ev of
       None \<Rightarrow> None
     | Some (Inl err) \<Rightarrow> Some (Inl err)
     | Some (Inr ev') \<Rightarrow> evaluate_operations e ops ev')"

section \<open>The end of a transaction\<close>

text \<open>The fee rate times the size, in \<open>uint64_t\<close> as the operand types make it, per thousand.\<close>

definition size_fee :: "env \<Rightarrow> share_type \<Rightarrow> signed_transaction \<Rightarrow> share_type" where
  "size_fee e rate t = rate * trx_data_size e t div 1000"

text \<open>The body of the loop over \<open>balance\<close> in \<open>post_evaluate\<close>.\<close>

definition collect_fee :: "asset_id_type \<times> share_type \<Rightarrow> eval_state \<Rightarrow> chain_error + eval_state" where
  "collect_fee fee ev =
    (let (i, x) = fee
     in if x <s 0 then Inl negative_fee
        else if 0 <s x then
          (if i = 0 \<and> x <s amount (required_fees ev) then Inl insufficient_fee
           else case get_asset_record (current_state ev) i of
             None \<Rightarrow> Inl unknown_asset_id
           | Some r \<Rightarrow> Inr (on_chain (store_asset_record (r\<lparr>collected_fees := collected_fees r + x,
               current_share_supply := current_share_supply r - x\<rparr>)) ev))
        else Inr ev)"

definition check_deposit :: "balance_id_type \<times> asset \<Rightarrow> eval_state \<Rightarrow> chain_error + eval_state" where
  "check_deposit d ev =
    (case map_of (provided_deposits ev) (fst d) of
       None \<Rightarrow> Inl undefined_behaviour
     | Some provided \<Rightarrow> if asset_less provided (snd d) then Inl missing_deposit else Inr ev)"

definition post_evaluate :: "env \<Rightarrow> eval_state \<Rightarrow> chain_error + eval_state" where
  "post_evaluate e ev =
    res_bind (get_fee_rate (current_state ev)) (\<lambda>rate.
    res_bind (add_required_fee (size_fee e rate (ev_trx ev)) ev) (\<lambda>ev.
    res_bind (fold_res collect_fee (balance ev) ev) (\<lambda>ev.
      fold_res check_deposit (required_deposits ev) ev)))"

definition validate_required_fee :: "env \<Rightarrow> eval_state \<Rightarrow> chain_error + eval_state" where
  "validate_required_fee e ev =
    res_bind (get_fee_rate (current_state ev)) (\<lambda>rate.
      case map_of (balance ev) 0 of
        None \<Rightarrow> Inl insufficient_fee
      | Some x \<Rightarrow> if x <s size_fee e rate (ev_trx ev) then Inl insufficient_fee else Inr ev)"

definition BTS_BLOCKCHAIN_NUM_DELEGATES :: nat where
  "BTS_BLOCKCHAIN_NUM_DELEGATES = 97"

definition update_delegate_vote :: "env \<Rightarrow> share_type \<Rightarrow> account_id_type \<times> vote_state \<Rightarrow> eval_state \<Rightarrow> chain_error + eval_state" where
  "update_delegate_vote e max_votes del_vote ev =
    (case get_account_record (current_state ev) (fst del_vote) of
       None \<Rightarrow> Inl fc_assert
     | Some r \<Rightarrow>
         res_bind (adjust_votes_for (vs_votes_for (snd del_vote)) r) (\<lambda>r.
         res_bind (adjust_votes_against (vs_votes_against (snd del_vote)) r) (\<lambda>r.
         res_bind (votes_for r) (\<lambda>vf. res_bind (votes_against r) (\<lambda>va.
           if max_votes <s vf \<or> max_votes <s va then Inl delegate_vote_limit
           else Inr (on_chain (store_account_record e r) ev))))))"

definition update_delegate_votes :: "env \<Rightarrow> eval_state \<Rightarrow> chain_error + eval_state" where
  "update_delegate_votes e ev =
    (case get_asset_record (current_state ev) 0 of
       None \<Rightarrow> Inl undefined_behaviour
     | Some r \<Rightarrow>
         let max_votes = 2 * int64_div (current_share_supply r) (of_nat BTS_BLOCKCHAIN_NUM_DELEGATES)
         in fold_res (update_delegate_vote e max_votes) (net_delegate_votes ev) ev)"

section \<open>Transactions\<close>

text \<open>The addresses a signature stands for.\<close>

definition key_addresses :: "env \<Rightarrow> public_key_type \<Rightarrow> address list" where
  "key_addresses e k = [address_of_key e k, address_of_pts e (pts_address e k False 56),
     address_of_pts e (pts_address e k True 56), address_of_pts e (pts_address e k False 0),
     address_of_pts e (pts_address e k True 0)]"

definition insert_signature :: "env \<Rightarrow> digest_type \<Rightarrow> signature_type \<Rightarrow> eval_state \<Rightarrow> chain_error + eval_state" where
  "insert_signature e d sig ev =
    (case fc_recover e sig d of
       None \<Rightarrow> Inl no_result
     | Some k \<Rightarrow> Inr (ev\<lparr>signed_keys := signed_keys ev @ key_addresses e k\<rparr>))"

definition check_expiration :: "signed_transaction \<Rightarrow> eval_state \<Rightarrow> chain_error + unit" where
  "check_expiration t ev =
    (case expiration t of
       None \<Rightarrow> Inr ()
     | Some x \<Rightarrow> res_bind (chain_now (current_state ev)) (\<lambda>now.
         if x < now then Inl expired_transaction else Inr ()))"

text \<open>\<open>evaluate\<close> up to its loop over the operations.\<close>

definition begin_evaluate :: "env \<Rightarrow> signed_transaction \<Rightarrow> eval_state \<Rightarrow> chain_error + eval_state" where
  "begin_evaluate e t ev =
    (let ev = reset ev in
     res_bind (check_expiration t ev) (\<lambda>_.
     res_bind (get_transaction (current_state ev) (trx_id e t)) (\<lambda>known.
       if known \<noteq> None then Inl duplicate_transaction
       else
         let ev = ev\<lparr>ev_trx := t\<rparr>; d = trx_digest e (ev_chain_id ev) t
         in fold_res (insert_signature e d) (signatures t) ev)))"

text \<open>\<open>evaluate\<close> from the end of that loop.\<close>

definition end_evaluate :: "env \<Rightarrow> eval_state \<Rightarrow> chain_error + eval_state" where
  "end_evaluate e ev =
    res_bind (post_evaluate e ev) (\<lambda>ev.
    res_bind (validate_required_fee e ev) (\<lambda>ev.
      update_delegate_votes e ev))"

definition evaluate :: "env \<Rightarrow> signed_transaction \<Rightarrow> eval_state \<Rightarrow> (chain_error + eval_state) option" where
  "evaluate e t ev =
    (case begin_evaluate e t ev of
       Inl err \<Rightarrow> Some (Inl err)
     | Inr ev \<Rightarrow> map_option (\<lambda>r. res_bind r (end_evaluate e)) (evaluate_operations e (operations t) ev))"

text \<open>
  \<open>chain_database::evaluate_transaction\<close>: the transaction is evaluated in a pending state of its own on
  top of the state of all pending transactions, to which its changes are applied when it succeeds.
\<close>

definition evaluate_transaction :: "env \<Rightarrow> digest_type \<Rightarrow> signed_transaction \<Rightarrow> chain \<Rightarrow> (chain_error + eval_state \<times> chain) option" where
  "evaluate_transaction e i t pending_trx_state =
    map_option (\<lambda>r. res_bind r (\<lambda>ev.
        case current_state ev of
          Pending p prev \<Rightarrow> Inr (ev, apply_changes e p prev)
        | _ \<Rightarrow> Inl undefined_behaviour))
      (evaluate e t (new_eval_state (Pending new_pending_state pending_trx_state) i))"

end
