(* ===== verification/Bts_Sample.thy ===== *)
theory Bts_Sample
  imports Bts_Transaction
begin

text \<open>
  A small chain at which the theorems on transactions are instantiated: the base asset, a delegate, a
  balance of its own and a transaction that moves part of it. The hashes of the environment are the
  identity, a signature is the key it belongs to, and a signed transaction packs to a hundred bytes.
\<close>

definition sample_env :: env where
  "sample_env = \<lparr>fc = fc_reference, fc_sha256 = (\<lambda>b. b), fc_sha512 = (\<lambda>b. b), fc_ripemd160 = (\<lambda>b. b),
     fc_ecc_point = (\<lambda>b. b), fc_recover = (\<lambda>s d. Some s),
     pack_condition = (\<lambda>c. [word_of_int (wc_asset_id c), word_of_int (wc_delegate_id c)] @
       (case wc_data c of withdraw_with_signature a _ \<Rightarrow> a | _ \<Rightarrow> [])),
     pack_transaction = (\<lambda>t. []), pack_signed_transaction = (\<lambda>t. replicate 100 0),
     pack_header = (\<lambda>h. []), pack_signed_header = (\<lambda>h. []), pack_testimony = (\<lambda>t. [])\<rparr>"

definition sample_header :: signed_block_header where
  "sample_header = \<lparr>bh_previous = [], bh_block_num = 1, fee_rate = 1000, delegate_pay_rate = 10,
     bh_timestamp = 30, transaction_digest = [], bh_next_secret_hash = [], previous_secret = [],
     delegate_signature = []\<rparr>"

definition sample_asset :: asset_record where
  "sample_asset = \<lparr>as_id = 0, as_symbol = ''XTS'', as_name = ''BitShares'', as_description = [],
     as_public_data = [], issuer_account_id = 0, as_precision = 1000000, as_registration_date = 15,
     as_last_update = 0, current_share_supply = 1000000, maximum_share_supply = 1000000000,
     collected_fees = 0\<rparr>"

definition sample_delegate :: account_record where
  "sample_delegate = \<lparr>ac_id = 1, ac_name = ''alpha'', ac_public_data = [], owner_key = [1],
     active_key_history = [(15, [2])], ac_registration_date = 15, ac_last_update = 15,
     delegate_info = Some (new_delegate_stats\<lparr>ds_votes_for := 1000, pay_balance := 50\<rparr>),
     ac_meta_data = None\<rparr>"

definition sample_condition :: "u8 \<Rightarrow> withdraw_condition" where
  "sample_condition k = mk_condition (withdraw_with_signature [k] None) 0 1"

definition sample_balance :: balance_record where
  "sample_balance = \<lparr>bal_balance = 500, bal_condition = sample_condition 7, bal_last_update = 15\<rparr>"

definition sample_saving :: balance_record where
  "sample_saving = \<lparr>bal_balance = 70, bal_condition = sample_condition 8, bal_last_update = 15\<rparr>"

definition sample_db :: chain_database where
  "sample_db = \<lparr>property_db = [(last_asset_id, int_value 0), (last_account_id, int_value 1),
       (last_proposal_id, int_value 0)],
     proposal_db = [], proposal_vote_db = [], transaction_db = [], asset_db = [(0, sample_asset)],
     balance_db = [([0, 1, 7], sample_balance), ([0, 1, 8], sample_saving)], account_db = [(1, sample_delegate)],
     address_to_account_db = [([2], 1)], account_index_db = [(''alpha'', 1)],
     symbol_index_db = [(''XTS'', 0)], delegate_vote_index_db = [(1000, 1)],
     ask_db = [], bid_db = [], short_db = [], collateral_db = [],
     head_block_header = sample_header, wall_clock = 40\<rparr>"

definition sample_chain :: chain where
  "sample_chain = Pending new_pending_state (Database sample_db)"

definition sample_trx :: "operation list \<Rightarrow> signed_transaction" where
  "sample_trx ops = \<lparr>expiration = Some 60, trx_delegate_id = None, operations = ops,
     signatures = [[7]]\<rparr>"

definition sample_payment :: signed_transaction where
  "sample_payment = sample_trx [withdraw_operation [0, 1, 7] 300 [], deposit_operation 200 (sample_condition 9)]"

definition returns :: "(chain_error + 'a) option \<Rightarrow> bool" where
  "returns r = (case r of Some (Inr _) \<Rightarrow> True | _ \<Rightarrow> False)"

lemma returnsE: "returns r \<Longrightarrow> \<exists>x. r = Some (Inr x)"
  by (auto simp: returns_def split: option.splits sum.splits)

lemma sample_payment_returns: "returns (evaluate sample_env sample_payment (new_eval_state sample_chain []))"
  by code_simp

end
