(* ===== verification/Bts_Conserve.thy ===== *)
theory Bts_Conserve
  imports Bts_Sample
begin

text \<open>
  Conservation of shares. The holdings of an asset are what its balance records hold, for the base
  asset also the pay the delegates have not withdrawn; every operation other than a market order keeps
  the holdings, plus what the transaction has in hand, minus the share supply. At the end of a
  transaction what is left in hand has been taken from the supply as a fee, so the difference of
  holdings and supply is the one before the transaction: what \<open>sanity_check\<close> of
  \<open>chain_database.cpp\<close> tests. All amounts are 64-bit words, so the statement covers wrap-around.
\<close>

section \<open>Results\<close>

lemma res_bind_Inl [simp]: "res_bind (Inl e) f = Inl e"
  by (simp add: res_bind_def)

lemma res_bind_Inr [simp]: "res_bind (Inr x) f = f x"
  by (simp add: res_bind_def)

lemma res_bind_eq_Inr: "res_bind r f = Inr y \<longleftrightarrow> (\<exists>x. r = Inr x \<and> f x = Inr y)"
  by (cases r) (simp_all add: res_bind_def)

named_theorems run_simps \<open>inversion of a run that returns\<close>

lemma if_Inl_eq_Inr [run_simps]:
  "((if b then Inl e else r) = Inr y) \<longleftrightarrow> \<not> b \<and> r = Inr y"
  "((if b then r else Inl e) = Inr y) \<longleftrightarrow> b \<and> r = Inr y"
  by simp_all

lemma case_option_Inl_eq_Inr [run_simps]:
  "((case x of None \<Rightarrow> Inl e | Some z \<Rightarrow> f z) = Inr y) \<longleftrightarrow> (\<exists>z. x = Some z \<and> f z = Inr y)"
  by (cases x) simp_all

declare res_bind_eq_Inr [run_simps]

text \<open>An invariant of the body is one of the fold.\<close>

lemma fold_res_invariant:
  assumes "fold_res f xs s = Inr s'" and "P s"
    and "\<And>x s s'. x \<in> set xs \<Longrightarrow> P s \<Longrightarrow> f x s = Inr s' \<Longrightarrow> P s'"
  shows "P s'"
  using assms
proof (induction xs arbitrary: s)
  case (Cons x xs)
  then obtain t where t: "f x s = Inr t" "fold_res f xs t = Inr s'" by (auto simp: res_bind_eq_Inr)
  have "P t" using Cons.prems(2,3) t(1) by (meson list.set_intros(1))
  then show ?case using Cons.IH [OF t(2)] Cons.prems(3) by (meson list.set_intros(2))
qed simp

section \<open>Sums over a lookup function\<close>

definition at_key :: "('k \<Rightarrow> 'v option) \<Rightarrow> 'k \<Rightarrow> ('v \<Rightarrow> share_type) \<Rightarrow> share_type" where
  "at_key m k f = (case m k of None \<Rightarrow> 0 | Some x \<Rightarrow> f x)"

definition total :: "('k \<Rightarrow> 'v option) \<Rightarrow> ('v \<Rightarrow> share_type) \<Rightarrow> share_type" where
  "total m f = (\<Sum>k\<in>dom m. f (the (m k)))"

lemma total_update:
  assumes "finite (dom m)"
  shows "total (m(k \<mapsto> v)) f = total m f - at_key m k f + f v"
proof -
  have "total (m(k \<mapsto> v)) f = (\<Sum>j\<in>insert k (dom m - {k}). f (the ((m(k \<mapsto> v)) j)))"
    by (simp add: total_def insert_Diff_if)
  also have "\<dots> = f v + (\<Sum>j\<in>dom m - {k}. f (the ((m(k \<mapsto> v)) j)))"
    using assms by (subst sum.insert) simp_all
  also have "(\<Sum>j\<in>dom m - {k}. f (the ((m(k \<mapsto> v)) j))) = (\<Sum>j\<in>dom m - {k}. f (the (m j)))"
    by (intro sum.cong) auto
  also have "\<dots> = total m f - at_key m k f"
    using assms by (auto simp: total_def at_key_def sum_diff1 split: option.splits)
  finally show ?thesis by (simp only: add.commute)
qed

section \<open>What the stores do to the lookups\<close>

definition is_pending :: "chain \<Rightarrow> bool" where
  "is_pending c = (case c of Pending _ _ \<Rightarrow> True | _ \<Rightarrow> False)"

lemma is_pending_cases: "is_pending c \<Longrightarrow> (\<And>p prev. c = Pending p prev \<Longrightarrow> P) \<Longrightarrow> P"
  by (cases c) (simp_all add: is_pending_def)

named_theorems chain_simps \<open>lookups after stores\<close>

lemmas p_defs = p_store_asset_record_def p_store_balance_record_def p_store_account_record_def
  p_store_transaction_def p_set_property_def p_store_proposal_record_def p_store_proposal_vote_def
  p_store_bid_record_def p_store_ask_record_def p_store_short_record_def p_store_collateral_record_def

lemmas db_defs = db_store_asset_record_def db_store_balance_record_def db_store_account_record_def
  db_remove_account_def db_write_account_def db_store_transaction_def db_set_property_def
  db_store_proposal_record_def db_store_proposal_vote_def db_store_bid_record_def
  db_store_ask_record_def db_store_short_record_def db_store_collateral_record_def

lemma is_pending_store [chain_simps]:
  "is_pending (store_asset_record r c) = is_pending c"
  "is_pending (store_balance_record e b c) = is_pending c"
  "is_pending (store_account_record e ac c) = is_pending c"
  "is_pending (set_property i v c) = is_pending c"
  "is_pending (store_proposal_record pr c) = is_pending c"
  "is_pending (store_proposal_vote pv c) = is_pending c"
  "is_pending (store_bid_record k ord c) = is_pending c"
  "is_pending (store_ask_record k ord c) = is_pending c"
  by (cases c; simp add: is_pending_def)+

lemma get_balance_store [chain_simps]:
  "get_balance_record (store_asset_record r c) = get_balance_record c"
  "get_balance_record (store_account_record e ac c) = get_balance_record c"
  "get_balance_record (set_property i v c) = get_balance_record c"
  "get_balance_record (store_proposal_record pr c) = get_balance_record c"
  "get_balance_record (store_proposal_vote pv c) = get_balance_record c"
  "get_balance_record (store_bid_record k ord c) = get_balance_record c"
  "get_balance_record (store_ask_record k ord c) = get_balance_record c"
  "is_pending c \<Longrightarrow> get_balance_record (store_balance_record e b c)
     = (get_balance_record c)(balance_id e b \<mapsto> b)"
  by (cases c; auto simp: fun_eq_iff p_defs db_defs Let_def is_pending_def update_conv' split: option.splits)+

lemma get_account_store [chain_simps]:
  "get_account_record (store_asset_record r c) = get_account_record c"
  "get_account_record (store_balance_record e b c) = get_account_record c"
  "get_account_record (set_property i v c) = get_account_record c"
  "get_account_record (store_proposal_record pr c) = get_account_record c"
  "get_account_record (store_proposal_vote pv c) = get_account_record c"
  "get_account_record (store_bid_record k ord c) = get_account_record c"
  "get_account_record (store_ask_record k ord c) = get_account_record c"
  "is_pending c \<Longrightarrow> get_account_record (store_account_record e ac c)
     = (get_account_record c)(ac_id ac \<mapsto> ac)"
  by (cases c; auto simp: fun_eq_iff p_defs db_defs Let_def is_pending_def update_conv' split: option.splits)+

lemma get_asset_store [chain_simps]:
  "get_asset_record (store_balance_record e b c) = get_asset_record c"
  "get_asset_record (store_account_record e ac c) = get_asset_record c"
  "get_asset_record (set_property i v c) = get_asset_record c"
  "get_asset_record (store_proposal_record pr c) = get_asset_record c"
  "get_asset_record (store_proposal_vote pv c) = get_asset_record c"
  "get_asset_record (store_bid_record k ord c) = get_asset_record c"
  "get_asset_record (store_ask_record k ord c) = get_asset_record c"
  "is_pending c \<Longrightarrow> get_asset_record (store_asset_record r c)
     = (get_asset_record c)(as_id r \<mapsto> r)"
  by (cases c; auto simp: fun_eq_iff p_defs db_defs Let_def is_pending_def update_conv' split: option.splits)+

lemma get_property_store [chain_simps]:
  "get_property (store_asset_record r c) = get_property c"
  "get_property (store_balance_record e b c) = get_property c"
  "get_property (store_account_record e ac c) = get_property c"
  "get_property (store_proposal_record pr c) = get_property c"
  "get_property (store_proposal_vote pv c) = get_property c"
  "get_property (store_bid_record k ord c) = get_property c"
  "get_property (store_ask_record k ord c) = get_property c"
  "is_pending c \<Longrightarrow> get_property (set_property i v c) = (get_property c)(i := Inr v)"
  by (cases c; auto simp: fun_eq_iff p_defs db_defs Let_def is_pending_def update_conv' split: option.splits)+

lemma property_int_store [chain_simps]:
  "property_int (store_asset_record r c) = property_int c"
  "property_int (store_balance_record e b c) = property_int c"
  "property_int (store_account_record e ac c) = property_int c"
  "property_int (store_proposal_record pr c) = property_int c"
  "property_int (store_proposal_vote pv c) = property_int c"
  "property_int (store_bid_record k ord c) = property_int c"
  "property_int (store_ask_record k ord c) = property_int c"
  "is_pending c \<Longrightarrow> property_int (set_property i (int_value n) c) j
     = (if i = j then Inr n else property_int c j)"
  by (simp_all add: fun_eq_iff property_int_def chain_simps)

lemma finite_dom_get:
  "finite (dom (get_balance_record c))"
  "finite (dom (get_account_record c))"
  "finite (dom (get_asset_record c))"
proof -
  have step: "finite (dom (\<lambda>i. case map_of t i of Some r \<Rightarrow> Some r | None \<Rightarrow> m i))"
    if "finite (dom m)" for t and m :: "'a \<Rightarrow> 'b option"
    by (rule finite_subset [of _ "dom (map_of t) \<union> dom m"])
      (use that in \<open>auto simp: finite_dom_map_of split: option.splits\<close>)
  show "finite (dom (get_balance_record c))"
    by (induction c) (simp_all add: step finite_dom_map_of)
  show "finite (dom (get_account_record c))"
    by (induction c) (simp_all add: step finite_dom_map_of)
  show "finite (dom (get_asset_record c))"
    by (induction c) (simp_all add: step finite_dom_map_of)
qed

section \<open>Well-formed chains\<close>

text \<open>
  Every record is found under its own identifier, and the counters of \<open>new_account_id\<close> and
  \<open>new_asset_id\<close> are not below an identifier in use.
\<close>

definition chain_wf :: "env \<Rightarrow> chain \<Rightarrow> bool" where
  "chain_wf e c \<longleftrightarrow>
    (\<forall>i r. get_balance_record c i = Some r \<longrightarrow> balance_id e r = i) \<and>
    (\<forall>i r. get_account_record c i = Some r \<longrightarrow> ac_id r = i) \<and>
    (\<forall>i r. get_asset_record c i = Some r \<longrightarrow> as_id r = i) \<and>
    (\<forall>n i r. property_int c last_account_id = Inr n \<longrightarrow> get_account_record c i = Some r \<longrightarrow> i \<le> n) \<and>
    (\<forall>n i r. property_int c last_asset_id = Inr n \<longrightarrow> get_asset_record c i = Some r \<longrightarrow> i \<le> n)"

lemma chain_wfD:
  assumes "chain_wf e c"
  shows "get_balance_record c j = Some b \<Longrightarrow> balance_id e b = j"
    and "get_account_record c i = Some r \<Longrightarrow> ac_id r = i"
    and "get_asset_record c i = Some a \<Longrightarrow> as_id a = i"
    and "property_int c last_account_id = Inr n \<Longrightarrow> get_account_record c i = Some r \<Longrightarrow> i \<le> n"
    and "property_int c last_asset_id = Inr n \<Longrightarrow> get_asset_record c i = Some a \<Longrightarrow> i \<le> n"
  using assms by (auto simp: chain_wf_def)

definition good :: "env \<Rightarrow> eval_state \<Rightarrow> bool" where
  "good e ev \<longleftrightarrow> is_pending (current_state ev) \<and> chain_wf e (current_state ev)
     \<and> distinct (map fst (balance ev))"

section \<open>The books\<close>

definition bal_of :: "asset_id_type \<Rightarrow> balance_record \<Rightarrow> share_type" where
  "bal_of a r = (if wc_asset_id (bal_condition r) = a then bal_balance r else 0)"

definition pay_of :: "account_record \<Rightarrow> share_type" where
  "pay_of r = (case delegate_info r of None \<Rightarrow> 0 | Some d \<Rightarrow> pay_balance d)"

definition share_supply :: "chain \<Rightarrow> asset_id_type \<Rightarrow> share_type" where
  "share_supply c a = at_key (get_asset_record c) a current_share_supply"

definition holdings :: "chain \<Rightarrow> asset_id_type \<Rightarrow> share_type" where
  "holdings c a = total (get_balance_record c) (bal_of a)
     + (if a = 0 then total (get_account_record c) pay_of else 0)"

definition books :: "eval_state \<Rightarrow> asset_id_type \<Rightarrow> share_type" where
  "books ev a = holdings (current_state ev) a + get_fees a ev - share_supply (current_state ev) a"

text \<open>What every operation but the market orders does.\<close>

definition keeps_books :: "env \<Rightarrow> eval_state \<Rightarrow> eval_state \<Rightarrow> bool" where
  "keeps_books e ev ev' \<longleftrightarrow> (good e ev \<longrightarrow> good e ev' \<and> (\<forall>a. books ev' a = books ev a))"

lemma keeps_booksI: "(good e ev \<Longrightarrow> good e ev' \<and> (\<forall>a. books ev' a = books ev a)) \<Longrightarrow> keeps_books e ev ev'"
  by (simp add: keeps_books_def)

lemma keeps_books_refl: "keeps_books e ev ev"
  by (simp add: keeps_books_def)

lemma keeps_books_trans: "keeps_books e ev ev1 \<Longrightarrow> keeps_books e ev1 ev2 \<Longrightarrow> keeps_books e ev ev2"
  by (simp add: keeps_books_def)

subsection \<open>The stores\<close>

lemma holdings_store [chain_simps]:
  "holdings (store_asset_record r c) a = holdings c a"
  "holdings (set_property p v c) a = holdings c a"
  "holdings (store_proposal_record pr c) a = holdings c a"
  "holdings (store_proposal_vote pv c) a = holdings c a"
  "is_pending c \<Longrightarrow> holdings (store_balance_record e b c) a =
     holdings c a - at_key (get_balance_record c) (balance_id e b) (bal_of a) + bal_of a b"
  "is_pending c \<Longrightarrow> holdings (store_account_record e ac c) a =
     holdings c a + (if a = 0 then pay_of ac - at_key (get_account_record c) (ac_id ac) pay_of else 0)"
  by (simp_all add: holdings_def chain_simps total_update finite_dom_get)

lemma share_supply_store [chain_simps]:
  "share_supply (store_balance_record e b c) a = share_supply c a"
  "share_supply (store_account_record e ac c) a = share_supply c a"
  "share_supply (set_property p v c) a = share_supply c a"
  "share_supply (store_proposal_record pr c) a = share_supply c a"
  "share_supply (store_proposal_vote pv c) a = share_supply c a"
  "is_pending c \<Longrightarrow> share_supply (store_asset_record r c) a =
     (if as_id r = a then current_share_supply r else share_supply c a)"
  by (simp_all add: share_supply_def chain_simps at_key_def)

lemma chain_wf_store_balance:
  "is_pending c \<Longrightarrow> chain_wf e c \<Longrightarrow> chain_wf e (store_balance_record e b c)"
  by (auto simp: chain_wf_def chain_simps)

lemma chain_wf_store_account:
  "is_pending c \<Longrightarrow> chain_wf e c \<Longrightarrow> get_account_record c (ac_id r) = Some old
   \<Longrightarrow> chain_wf e (store_account_record e r c)"
  by (auto simp: chain_wf_def chain_simps)

lemma chain_wf_store_asset:
  "is_pending c \<Longrightarrow> chain_wf e c \<Longrightarrow> get_asset_record c (as_id r) = Some old
   \<Longrightarrow> chain_wf e (store_asset_record r c)"
  by (auto simp: chain_wf_def chain_simps)

lemma chain_wf_new_account:
  assumes "is_pending c" and "chain_wf e c" and "new_account_id c = Inr (i, c')" and "ac_id r = i"
  shows "chain_wf e (store_account_record e r c')" and "is_pending c'"
    and "get_account_record c i = None"
proof -
  from assms(3) obtain n where n: "property_int c last_account_id = Inr n" "i = n + 1"
    "c' = set_property last_account_id (int_value i) c"
    by (auto simp: new_account_id_def res_bind_eq_Inr Let_def)
  show "is_pending c'" using assms(1) n by (simp add: chain_simps)
  show "get_account_record c i = None"
    using chain_wfD(4) [OF assms(2) n(1), of i] n(2) by (cases "get_account_record c i") auto
  show "chain_wf e (store_account_record e r c')"
    using assms(1,2,4) n chain_wfD(4) [OF assms(2) n(1)]
    by (simp add: chain_wf_def chain_simps) (meson add_increasing2 zero_le_one)
qed

lemma chain_wf_new_asset:
  assumes "is_pending c" and "chain_wf e c" and "new_asset_id c = Inr (i, c')" and "as_id r = i"
  shows "chain_wf e (store_asset_record r c')" and "is_pending c'"
    and "get_asset_record c i = None"
proof -
  from assms(3) obtain n where n: "property_int c last_asset_id = Inr n" "i = n + 1"
    "c' = set_property last_asset_id (int_value i) c"
    by (auto simp: new_asset_id_def res_bind_eq_Inr Let_def)
  show "is_pending c'" using assms(1) n by (simp add: chain_simps)
  show "get_asset_record c i = None"
    using chain_wfD(5) [OF assms(2) n(1), of i] n(2) by (cases "get_asset_record c i") auto
  show "chain_wf e (store_asset_record r c')"
    using assms(1,2,4) n chain_wfD(5) [OF assms(2) n(1)]
    by (simp add: chain_wf_def chain_simps) (meson add_increasing2 zero_le_one)
qed

subsection \<open>The auxiliary operations\<close>

lemma get_fees_balance [simp]:
  "get_fees a (ev\<lparr>balance := AList.update k x t\<rparr>) = (if a = k then x else get_fees a (ev\<lparr>balance := t\<rparr>))"
  by (simp add: get_fees_def update_conv')

lemma get_fees_cong: "balance ev = balance ev' \<Longrightarrow> get_fees a ev = get_fees a ev'"
  by (simp add: get_fees_def)

lemma sub_balance_effect:
  assumes "sub_balance i a ev = Inr ev'"
  shows "current_state ev' = current_state ev"
    and "get_fees j ev' = get_fees j ev - (if j = asset_id a then amount a else 0)"
    and "distinct (map fst (balance ev)) \<Longrightarrow> distinct (map fst (balance ev'))"
  using assms by (auto simp: sub_balance_def res_bind_eq_Inr get_fees_def update_conv' distinct_update split: option.splits)

lemma add_balance_effect:
  assumes "add_balance a ev = Inr ev'"
  shows "current_state ev' = current_state ev"
    and "get_fees j ev' = get_fees j ev + (if j = asset_id a then amount a else 0)"
    and "distinct (map fst (balance ev)) \<Longrightarrow> distinct (map fst (balance ev'))"
  using assms by (auto simp: add_balance_def res_bind_eq_Inr get_fees_def update_conv' distinct_update split: option.splits)

text \<open>Steps that touch neither the chain nor the balance of the transaction.\<close>

definition aside :: "eval_state \<Rightarrow> eval_state \<Rightarrow> bool" where
  "aside ev ev' \<longleftrightarrow> current_state ev' = current_state ev \<and> balance ev' = balance ev"

lemma aside_fees: "aside ev ev' \<Longrightarrow> get_fees j ev' = get_fees j ev"
  by (simp add: aside_def get_fees_def)

lemma aside_intros:
  "aside ev ev" "aside ev (add_vote i x ev)" "aside ev (sub_vote i x ev)"
  "aside ev (if b then add_vote i x ev else ev)" "aside ev (if b then sub_vote i x ev else ev)"
  by (simp_all add: aside_def add_vote_def sub_vote_def Let_def)

lemma add_required_fee_aside: "add_required_fee x ev = Inr ev' \<Longrightarrow> aside ev ev'"
  by (auto simp: add_required_fee_def res_bind_eq_Inr aside_def)

lemma check_condition_aside: "check_condition e x input c ev = Inr ev' \<Longrightarrow> aside ev ev'"
  by (auto simp: check_condition_def res_bind_eq_Inr add_required_deposit_def Let_def aside_def
      split: withdraw_data.splits if_splits option.splits)

lemma eval_state_simps [simp]:
  "get_fees j (ev\<lparr>current_state := c\<rparr>) = get_fees j ev"
  "get_fees j (add_vote i x ev) = get_fees j ev" "current_state (add_vote i x ev) = current_state ev"
  "get_fees j (sub_vote i x ev) = get_fees j ev" "current_state (sub_vote i x ev) = current_state ev"
  "balance (add_vote i x ev) = balance ev" "balance (sub_vote i x ev) = balance ev"
  by (simp_all add: get_fees_def add_vote_def sub_vote_def Let_def)

subsection \<open>The operations\<close>

lemma deposit_keeps_books:
  assumes "deposit_evaluate e x c ev = Inr ev'"
  shows "keeps_books e ev ev'"
proof (rule keeps_booksI)
  assume g: "good e ev"
  define st where "st = current_state ev"
  define i where "i = condition_address e c"
  define r where "r = (case get_balance_record st i of Some r \<Rightarrow> r | None \<Rightarrow> new_balance_record c)"
  from assms obtain now ev1 where
    sub: "sub_balance i (mk_asset x (wc_asset_id (bal_condition r))) ev = Inr ev1" and
    ev': "on_chain (store_balance_record e (r\<lparr>bal_last_update := now, bal_balance := bal_balance r + x\<rparr>))
      (if wc_asset_id (bal_condition r) = 0 then add_vote (wc_delegate_id (bal_condition r)) x ev1 else ev1) = ev'"
    unfolding deposit_evaluate_def Let_def run_simps st_def [symmetric] i_def [symmetric] r_def [symmetric]
    by (simp split del: if_split cong del: if_weak_cong) blast
  have id: "balance_id e r = i"
    using g by (auto simp: r_def st_def good_def new_balance_record_def balance_id_def i_def
        dest: chain_wfD(1) split: option.split)
  have old: "at_key (get_balance_record st) i (bal_of a) = bal_of a r" for a
    by (auto simp: at_key_def r_def bal_of_def new_balance_record_def split: option.split)
  show "good e ev' \<and> (\<forall>a. books ev' a = books ev a)"
    using g id old
    by (simp add: good_def books_def ev' [symmetric] sub_balance_effect [OF sub] chain_wf_store_balance
        chain_simps balance_id_def mk_asset_def bal_of_def flip: st_def)
qed

lemma withdraw_keeps_books:
  assumes "withdraw_evaluate e i x input ev = Inr ev'"
  shows "keeps_books e ev ev'"
proof (rule keeps_booksI)
  assume g: "good e ev"
  from assms obtain r now ev1 ev2 where
    r: "get_balance_record (current_state ev) i = Some r" and
    chk: "check_condition e x input (bal_condition r) ev = Inr ev1" and
    add: "add_balance (mk_asset x (wc_asset_id (bal_condition r))) ev1 = Inr ev2" and
    ev': "on_chain (store_balance_record e (r\<lparr>bal_balance := bal_balance r - x, bal_last_update := now\<rparr>))
      (if wc_asset_id (bal_condition r) = 0 then sub_vote (wc_delegate_id (bal_condition r)) x ev2 else ev2) = ev'"
    unfolding withdraw_evaluate_def Let_def run_simps by blast
  note aside = check_condition_aside [OF chk]
  have id: "balance_id e r = i" using g r by (auto simp: good_def dest: chain_wfD(1))
  then show "good e ev' \<and> (\<forall>a. books ev' a = books ev a)"
    using g r aside
    by (simp add: good_def books_def ev' [symmetric] add_balance_effect [OF add] aside_fees [OF aside]
        aside_def chain_wf_store_balance chain_simps balance_id_def mk_asset_def bal_of_def at_key_def)
qed

lemma new_account_id_effect:
  assumes "new_account_id c = Inr (i, c')"
  shows "holdings c' a = holdings c a" "share_supply c' a = share_supply c a"
    "get_account_record c' = get_account_record c"
  using assms by (auto simp: new_account_id_def res_bind_eq_Inr Let_def chain_simps)

lemma new_asset_id_effect:
  assumes "new_asset_id c = Inr (i, c')"
  shows "holdings c' a = holdings c a" "share_supply c' a = share_supply c a"
    "get_asset_record c' = get_asset_record c"
  using assms by (auto simp: new_asset_id_def res_bind_eq_Inr Let_def chain_simps)

lemma set_active_key_effect:
  assumes "set_active_key now k r = Inr r'"
  shows "ac_id r' = ac_id r" "delegate_info r' = delegate_info r" "ac_name r' = ac_name r"
  using assms by (auto simp: set_active_key_def split: if_splits)

text \<open>A run that may pay a registration fee.\<close>

lemma required_fee_aside:
  assumes "(if b then res_bind fee (\<lambda>f. add_required_fee f ev) else Inr ev) = Inr ev'"
  shows "aside ev ev'"
  using assms by (auto simp: res_bind_eq_Inr aside_intros dest: add_required_fee_aside split: if_splits)

lemma register_account_keeps_books:
  assumes "register_account_evaluate e nm d owner active del m ev = Inr ev'"
  shows "keeps_books e ev ev'"
proof (rule keeps_booksI)
  assume g: "good e ev"
  from assms obtain now new_id st r0 r ev1 where
    new: "new_account_id (current_state ev) = Inr (new_id, st)" and
    key: "set_active_key now active r0 = Inr r" and id: "ac_id r0 = new_id" and
    fee: "aside (ev\<lparr>current_state := st\<rparr>) ev1" and
    ev': "on_chain (store_account_record e (r\<lparr>delegate_info := if del then Some new_delegate_stats else None,
        ac_meta_data := m\<rparr>)) ev1 = ev'"
    unfolding register_account_evaluate_def Let_def run_simps split_paired_Ex prod.case
    by (blast dest: required_fee_aside intro: account_record.select_convs(1))
  note aside = fee [unfolded aside_def] and wf = chain_wf_new_account [OF _ _ new, of e]
  show "good e ev' \<and> (\<forall>a. books ev' a = books ev a)"
    using g aside key id wf
    by (simp add: good_def books_def ev' [symmetric] set_active_key_effect [OF key] chain_simps
        new_account_id_effect [OF new] aside_fees [OF fee] pay_of_def new_delegate_stats_def at_key_def)
qed

lemma withdraw_pay_keeps_books:
  assumes "withdraw_pay_evaluate e x i ev = Inr ev'"
  shows "keeps_books e ev ev'"
proof (rule keeps_booksI)
  assume g: "good e ev"
  from assms obtain r d where
    r: "get_account_record (current_state ev) \<bar>i\<bar> = Some r" and d: "delegate_info r = Some d" and
    add: "add_balance (mk_asset x 0) (on_chain (store_account_record e
      (r\<lparr>delegate_info := Some (d\<lparr>pay_balance := pay_balance d - x\<rparr>)\<rparr>)) (sub_vote \<bar>i\<bar> x ev)) = Inr ev'"
    unfolding withdraw_pay_evaluate_def Let_def run_simps by blast
  have id: "ac_id r = \<bar>i\<bar>" using g r by (auto simp: good_def dest: chain_wfD(2))
  show "good e ev' \<and> (\<forall>a. books ev' a = books ev a)"
    using g r id d
    by (simp add: good_def books_def add_balance_effect [OF add] chain_wf_store_account chain_simps
        at_key_def pay_of_def mk_asset_def)
qed

text \<open>An account stored under its own identifier with its pay unchanged.\<close>

lemma store_account_keeps_books:
  assumes "get_account_record (current_state ev) (ac_id r') = Some r" and "pay_of r' = pay_of r"
    and "aside ev ev1" and "on_chain (store_account_record e r') ev1 = ev'"
  shows "keeps_books e ev ev'"
proof (rule keeps_booksI)
  assume g: "good e ev"
  then show "good e ev' \<and> (\<forall>a. books ev' a = books ev a)"
    using assms aside_fees [OF assms(3)]
    by (simp add: good_def books_def assms(4) [symmetric] aside_def chain_wf_store_account chain_simps at_key_def)
qed

lemma update_account_apply_keeps_books:
  assumes "update_account_apply e new_data new_key del r ev = Inr ev'"
    and "get_account_record (current_state ev) (ac_id r) = Some r"
  shows "keeps_books e ev ev'"
proof -
  let ?r = "(case new_data of Some x \<Rightarrow> r\<lparr>ac_public_data := x\<rparr> | None \<Rightarrow> r)"
  have r0: "ac_id ?r = ac_id r" "delegate_info ?r = delegate_info r" by (simp_all split: option.split)
  from assms(1) obtain now r1 r2 ev1 where
    r1: "(case new_key of None \<Rightarrow> Inr (?r\<lparr>ac_last_update := now\<rparr>)
        | Some k \<Rightarrow> res_bind (set_active_key now k (?r\<lparr>ac_last_update := now\<rparr>)) (\<lambda>r.
            res_bind (get_account_by_address (current_state ev) (address_of_key e k)) (\<lambda>same_key.
              if same_key \<noteq> None then Inl account_key_in_use else Inr r))) = Inr r1" and
    r2: "(if \<not> is_delegate r1 \<and> del
        then res_bind (get_delegate_registration_fee (current_state ev)) (\<lambda>fee.
             res_bind (add_required_fee fee ev) (\<lambda>ev. Inr (r1\<lparr>delegate_info := Some new_delegate_stats\<rparr>, ev)))
        else Inr (r1, ev)) = Inr (r2, ev1)" and
    ev': "on_chain (store_account_record e r2) ev1 = ev'"
    unfolding update_account_apply_def Let_def res_bind_eq_Inr [of _ _ ev'] split_paired_Ex prod.case sum.inject
    by blast
  have "ac_id r1 = ac_id r \<and> delegate_info r1 = delegate_info r"
    using r1 r0 by (auto simp: res_bind_eq_Inr set_active_key_effect split: option.splits if_splits)
  moreover have "ac_id r2 = ac_id r1 \<and> pay_of r2 = pay_of r1 \<and> aside ev ev1"
    using r2 by (auto simp: res_bind_eq_Inr aside_intros pay_of_def is_delegate_def new_delegate_stats_def
        dest: add_required_fee_aside split: if_splits)
  ultimately show ?thesis
    using assms(2) ev' by (intro store_account_keeps_books [of ev r2 r]) (simp_all add: pay_of_def)
qed

lemma update_account_keeps_books:
  assumes "update_account_evaluate e i d k del ev = Some (Inr ev')"
  shows "keeps_books e ev ev'"
proof (rule keeps_booksI)
  assume g: "good e ev"
  from assms obtain r where r: "get_account_record (current_state ev) i = Some r"
    and app: "update_account_apply e d k del r ev = Inr ev'"
    by (auto simp: update_account_evaluate_def res_bind_eq_Inr split: option.splits if_splits)
  have "ac_id r = i" using g r by (auto simp: good_def dest: chain_wfD(2))
  with r app g show "good e ev' \<and> (\<forall>a. books ev' a = books ev a)"
    using update_account_apply_keeps_books [OF app] by (simp add: keeps_books_def)
qed

text \<open>Firing a delegate moves votes, no shares.\<close>

lemma adjust_votes_effect:
  "adjust_votes_for x r = Inr r' \<Longrightarrow> ac_id r' = ac_id r \<and> pay_of r' = pay_of r"
  "adjust_votes_against x r = Inr r' \<Longrightarrow> ac_id r' = ac_id r \<and> pay_of r' = pay_of r"
  by (auto simp: adjust_votes_for_def adjust_votes_against_def pay_of_def split: option.splits)

lemma fire_delegate_keeps_books:
  assumes "fire_delegate e r ev = Inr ev'" and "get_account_record (current_state ev) (ac_id r) = Some r"
  shows "keeps_books e ev ev'"
proof -
  from assms(1) obtain v1 v2 r1 r2 where
    "adjust_votes_against v1 r = Inr r1" "adjust_votes_for v2 r1 = Inr r2"
    "on_chain (store_account_record e r2) ev = ev'"
    unfolding fire_delegate_def run_simps sum.inject by blast
  then show ?thesis
    using assms(2) by (intro store_account_keeps_books [of ev r2 r]) (auto dest!: adjust_votes_effect simp: aside_intros)
qed

lemma fire_delegate_evaluate_keeps_books:
  assumes "fire_delegate_evaluate e reason i ev = Inr ev'"
  shows "keeps_books e ev ev'"
proof (rule keeps_booksI)
  assume g: "good e ev"
  from assms obtain r where r: "get_account_record (current_state ev) i = Some r"
    and alt: "fire_delegate e r ev = Inr ev' \<or> ev' = ev"
    by (auto simp: fire_delegate_evaluate_def res_bind_eq_Inr split: option.splits if_splits fire_reason.splits)
  have "ac_id r = i" using g r by (auto simp: good_def dest: chain_wfD(2))
  with alt r g show "good e ev' \<and> (\<forall>a. books ev' a = books ev a)"
    using fire_delegate_keeps_books [of e r ev ev'] by (auto simp: keeps_books_def)
qed

text \<open>The asset operations.\<close>

lemma create_asset_keeps_books:
  assumes "create_asset_evaluate e s nm desc d i m p ev = Inr ev'"
  shows "keeps_books e ev ev'"
proof (rule keeps_booksI)
  assume g: "good e ev"
  from assms obtain fee ev1 new_id st r where
    fee: "add_required_fee fee ev = Inr ev1" and
    new: "new_asset_id (current_state ev) = Inr (new_id, st)" and
    id: "as_id r = new_id" and zero: "current_share_supply r = 0" and
    ev': "on_chain (store_asset_record r) (ev1\<lparr>current_state := st\<rparr>) = ev'"
    unfolding create_asset_evaluate_def Let_def run_simps split_paired_Ex prod.case sum.inject
    by (blast intro: asset_record.select_convs)
  note aside = add_required_fee_aside [OF fee] and wf = chain_wf_new_asset [OF _ _ new id, of e]
  show "good e ev' \<and> (\<forall>a. books ev' a = books ev a)"
    using g aside id zero wf
    by (auto simp: good_def books_def ev' [symmetric] aside_def chain_simps new_asset_id_effect [OF new]
        aside_fees [OF aside] share_supply_def at_key_def)
qed

lemma update_asset_keeps_books:
  assumes "update_asset_evaluate e i desc d iss ev = Inr ev'"
  shows "keeps_books e ev ev'"
proof (rule keeps_booksI)
  assume g: "good e ev"
  from assms obtain r now where
    r: "get_asset_record (current_state ev) i = Some r" and
    ev': "on_chain (store_asset_record (r\<lparr>as_description := desc, as_public_data := d,
       issuer_account_id := iss, as_last_update := now\<rparr>)) ev = ev'"
    unfolding update_asset_evaluate_def Let_def run_simps sum.inject by blast
  have "as_id r = i" using g r by (auto simp: good_def dest: chain_wfD(3))
  then show "good e ev' \<and> (\<forall>a. books ev' a = books ev a)"
    using g r by (auto simp: good_def books_def ev' [symmetric] chain_wf_store_asset chain_simps
        share_supply_def at_key_def)
qed

lemma issue_asset_keeps_books:
  assumes "issue_asset_evaluate e a ev = Inr ev'"
  shows "keeps_books e ev ev'"
proof (rule keeps_booksI)
  assume g: "good e ev"
  from assms obtain r ev1 where
    r: "get_asset_record (current_state ev) (asset_id a) = Some r" and
    add: "add_balance a ev = Inr ev1" and
    ev': "on_chain (store_asset_record (r\<lparr>current_share_supply := current_share_supply r + amount a\<rparr>)) ev1 = ev'"
    unfolding issue_asset_evaluate_def Let_def run_simps sum.inject by blast
  have "as_id r = asset_id a" using g r by (auto simp: good_def dest: chain_wfD(3))
  then show "good e ev' \<and> (\<forall>b. books ev' b = books ev b)"
    using g r by (auto simp: good_def books_def ev' [symmetric] chain_wf_store_asset chain_simps
        add_balance_effect [OF add] share_supply_def at_key_def)
qed

lemma submit_proposal_keeps_books:
  assumes "submit_proposal_evaluate e i t sb b pt d ev = Inr ev'"
  shows "keeps_books e ev ev'"
proof (rule keeps_booksI)
  assume g: "good e ev"
  from assms obtain n c r where
    c: "property_int (current_state ev) last_proposal_id = Inr n"
       "set_property last_proposal_id (int_value (n + 1)) (current_state ev) = c" and
    ev': "on_chain (store_proposal_record r) (ev\<lparr>current_state := c\<rparr>) = ev'"
    unfolding submit_proposal_evaluate_def new_proposal_id_def Let_def run_simps split_paired_Ex prod.case
      sum.inject prod.inject by blast
  show "good e ev' \<and> (\<forall>a. books ev' a = books ev a)"
    using g c by (auto simp: good_def books_def ev' [symmetric] chain_wf_def chain_simps)
qed

lemma vote_proposal_keeps_books:
  assumes "vote_proposal_evaluate e i t v m ev = Inr ev'"
  shows "keeps_books e ev ev'"
proof (rule keeps_booksI)
  assume g: "good e ev"
  obtain pid did where i: "i = (pid, did)" by (cases i)
  from assms obtain r where ev': "on_chain (store_proposal_vote r) ev = ev'"
    unfolding vote_proposal_evaluate_def Let_def i prod.case run_simps sum.inject by blast
  show "good e ev' \<and> (\<forall>a. books ev' a = books ev a)"
    using g by (auto simp: good_def books_def ev' [symmetric] chain_wf_def chain_simps)
qed

text \<open>A market order leaves the chain well-formed; it moves shares into and out of the order tables.\<close>

fun is_market_operation :: "operation \<Rightarrow> bool" where
  "is_market_operation (bid_operation _ _ _) = True"
| "is_market_operation (ask_operation _ _ _) = True"
| "is_market_operation _ = False"

lemma order_evaluate_good:
  assumes "order_evaluate x k a del get ev = Inr (r, ev')" and "good e ev"
  shows "good e ev'"
  using assms
  by (auto simp: order_evaluate_def res_bind_eq_Inr Let_def good_def add_balance_effect sub_balance_effect
      split: if_splits option.splits)

lemma market_operation_good:
  "bid_evaluate x k d ev = Inr ev' \<Longrightarrow> good e ev \<Longrightarrow> good e ev'"
  "ask_evaluate x k d ev = Inr ev' \<Longrightarrow> good e ev \<Longrightarrow> good e ev'"
  by (auto simp: bid_evaluate_def ask_evaluate_def res_bind_eq_Inr dest!: order_evaluate_good [where e = e])
    (auto simp: good_def chain_wf_def chain_simps)

lemma operation_keeps_books:
  assumes "evaluate_operation e op ev = Some (Inr ev')" and "\<not> is_market_operation op"
  shows "keeps_books e ev ev'"
  using assms
  by (cases op)
    (auto intro: withdraw_keeps_books deposit_keeps_books register_account_keeps_books
      update_account_keeps_books withdraw_pay_keeps_books create_asset_keeps_books
      update_asset_keeps_books issue_asset_keeps_books fire_delegate_evaluate_keeps_books
      submit_proposal_keeps_books vote_proposal_keeps_books)

lemma operation_good:
  assumes "evaluate_operation e op ev = Some (Inr ev')" and "good e ev"
  shows "good e ev'"
proof (cases "is_market_operation op")
  case True
  then show ?thesis using assms by (cases op) (auto intro: market_operation_good)
next
  case False
  then show ?thesis using operation_keeps_books [OF assms(1)] assms(2) by (simp add: keeps_books_def)
qed

lemma operations_keep_books:
  assumes "evaluate_operations e ops ev = Some (Inr ev')" and "list_all (\<lambda>op. \<not> is_market_operation op) ops"
  shows "keeps_books e ev ev'"
  using assms
proof (induction ops arbitrary: ev)
  case (Cons op ops)
  then show ?case
    by (auto split: option.splits sum.splits intro: keeps_books_trans [OF operation_keeps_books])
qed (simp add: keeps_books_refl)

lemma operations_good:
  assumes "evaluate_operations e ops ev = Some (Inr ev')" and "good e ev"
  shows "good e ev'"
  using assms by (induction ops arbitrary: ev) (auto split: option.splits sum.splits dest: operation_good)

section \<open>The end of a transaction\<close>

text \<open>The difference of holdings and supply is all that the end of a transaction preserves.\<close>

definition surplus :: "chain \<Rightarrow> asset_id_type \<Rightarrow> share_type" where
  "surplus c a = holdings c a - share_supply c a"

lemma word_not_signed_less_iff: "\<not> x <s 0 \<Longrightarrow> \<not> 0 <s x \<Longrightarrow> x = (0 :: share_type)"
  using signed.less_linear by blast

lemma collect_fee_effect:
  assumes "collect_fee (i, x) ev = Inr ev'" and "good e ev"
  shows "good e ev'" and "balance ev' = balance ev"
    and "surplus (current_state ev') a = surplus (current_state ev) a + (if a = i then x else 0)"
proof -
  have "\<not> x <s 0" using assms(1) by (auto simp: collect_fee_def)
  then have x: "0 <s x \<or> x = 0" using word_not_signed_less_iff by blast
  have "0 <s x \<Longrightarrow> \<exists>r. get_asset_record (current_state ev) i = Some r \<and>
       on_chain (store_asset_record (r\<lparr>collected_fees := collected_fees r + x,
          current_share_supply := current_share_supply r - x\<rparr>)) ev = ev'"
    using assms(1) unfolding collect_fee_def Let_def prod.case run_simps if_True sum.inject
    by (simp add: run_simps)
  moreover have "x = 0 \<Longrightarrow> ev' = ev" using assms(1) by (simp add: collect_fee_def)
  ultimately consider "x = 0" "ev' = ev"
    | r where "get_asset_record (current_state ev) i = Some r"
       "ev' = on_chain (store_asset_record (r\<lparr>collected_fees := collected_fees r + x,
          current_share_supply := current_share_supply r - x\<rparr>)) ev"
    using x by blast
  then have "good e ev' \<and> balance ev' = balance ev \<and>
    surplus (current_state ev') a = surplus (current_state ev) a + (if a = i then x else 0)"
  proof cases
    case 2
    moreover have "as_id r = i" using assms(2) 2 by (auto simp: good_def dest: chain_wfD(3))
    ultimately show ?thesis
      using assms(2)
      by (auto simp: good_def surplus_def chain_wf_store_asset chain_simps share_supply_def at_key_def)
  qed (use assms(2) in simp)
  then show "good e ev'" "balance ev' = balance ev"
    "surplus (current_state ev') a = surplus (current_state ev) a + (if a = i then x else 0)" by auto
qed

lemma collect_fees_effect:
  assumes "fold_res collect_fee xs ev = Inr ev'" and "good e ev" and "distinct (map fst xs)"
  shows "good e ev' \<and> balance ev' = balance ev \<and>
    surplus (current_state ev') a = surplus (current_state ev) a + at_key (map_of xs) a (\<lambda>x. x)"
  using assms
proof (induction xs arbitrary: ev)
  case (Cons y xs)
  obtain i x where y: "y = (i, x)" by (cases y)
  from Cons.prems(1) obtain ev1 where ev1: "collect_fee (i, x) ev = Inr ev1" "fold_res collect_fee xs ev1 = Inr ev'"
    by (auto simp: y res_bind_eq_Inr)
  note step = collect_fee_effect [OF ev1(1) Cons.prems(2)]
  show ?case
    using Cons.IH [OF ev1(2) step(1)] Cons.prems(3) step(2) step(3) [of a]
    by (auto simp: y at_key_def map_of_eq_None_iff [THEN iffD2] split: option.splits)
qed (simp add: at_key_def)

lemma check_deposits_effect: "fold_res check_deposit xs ev = Inr ev' \<Longrightarrow> ev' = ev"
  by (induction xs) (auto simp: res_bind_eq_Inr check_deposit_def split: option.splits if_splits)

lemma update_delegate_vote_effect:
  assumes "update_delegate_vote e m v ev = Inr ev'" and "good e ev"
  shows "good e ev' \<and> (\<forall>a. surplus (current_state ev') a = surplus (current_state ev) a)"
proof -
  from assms(1) obtain r r1 r2 where r: "get_account_record (current_state ev) (fst v) = Some r"
    "adjust_votes_for (vs_votes_for (snd v)) r = Inr r1"
    "adjust_votes_against (vs_votes_against (snd v)) r1 = Inr r2"
    "on_chain (store_account_record e r2) ev = ev'"
    unfolding update_delegate_vote_def run_simps sum.inject by blast
  moreover have "ac_id r = fst v" using assms(2) r(1) by (auto simp: good_def dest: chain_wfD(2))
  ultimately have "keeps_books e ev ev'"
    by (intro store_account_keeps_books [of ev r2 r]) (auto dest!: adjust_votes_effect simp: aside_intros)
  moreover have "get_fees a ev' = get_fees a ev" for a using r(4) by auto
  ultimately show ?thesis using assms(2) by (auto simp: keeps_books_def books_def surplus_def)
qed

lemma update_delegate_votes_effect:
  assumes "update_delegate_votes e ev = Inr ev'" and "good e ev"
  shows "good e ev' \<and> (\<forall>a. surplus (current_state ev') a = surplus (current_state ev) a)"
proof -
  from assms(1) obtain m where "fold_res (update_delegate_vote e m) (net_delegate_votes ev) ev = Inr ev'"
    by (auto simp: update_delegate_votes_def Let_def split: option.splits)
  then show ?thesis
    by (rule fold_res_invariant) (use assms(2) update_delegate_vote_effect in \<open>auto 4 4\<close>)
qed

lemma end_evaluate_effect:
  assumes "end_evaluate e ev = Inr ev'" and "good e ev"
  shows "good e ev' \<and> surplus (current_state ev') a = books ev a"
proof -
  from assms(1) obtain fee ev1 ev2 ev3 where
    steps: "add_required_fee fee ev = Inr ev1" "fold_res collect_fee (balance ev1) ev1 = Inr ev2"
      "fold_res check_deposit (required_deposits ev2) ev2 = Inr ev3" "update_delegate_votes e ev3 = Inr ev'"
    unfolding end_evaluate_def post_evaluate_def validate_required_fee_def run_simps sum.inject by blast
  note aside = add_required_fee_aside [OF steps(1)]
  have g1: "good e ev1" using aside assms(2) by (simp add: good_def aside_def)
  then have "distinct (map fst (balance ev1))" by (simp add: good_def)
  from collect_fees_effect [OF steps(2) g1 this, of a] check_deposits_effect [OF steps(3)]
  show ?thesis
    using update_delegate_votes_effect [OF steps(4)] aside
    by (simp add: books_def surplus_def aside_def get_fees_def at_key_def)
qed

section \<open>Transactions\<close>

lemma begin_evaluate_good:
  assumes "begin_evaluate e t ev = Inr ev'"
  shows "current_state ev' = current_state ev \<and> balance ev' = []"
proof -
  from assms obtain d where
    run: "fold_res (insert_signature e d) (signatures t) (reset ev\<lparr>ev_trx := t\<rparr>) = Inr ev'"
    by (auto simp: begin_evaluate_def Let_def res_bind_eq_Inr split: if_splits)
  show ?thesis
    by (rule fold_res_invariant [OF run]) (auto simp: reset_def insert_signature_def split: option.splits)
qed

lemma evaluate_split:
  assumes "evaluate e t (new_eval_state c i) = Some (Inr ev)"
  obtains ev1 ev2 where "current_state ev1 = c" and "balance ev1 = []"
    and "evaluate_operations e (operations t) ev1 = Some (Inr ev2)" and "end_evaluate e ev2 = Inr ev"
  using assms begin_evaluate_good [of e t "new_eval_state c i"]
  by (auto simp: evaluate_def new_eval_state_def res_bind_eq_Inr split: sum.splits option.splits)

text \<open>The two results on a whole transaction, in the form the blocks use.\<close>

lemma evaluate_surplus:
  assumes "is_pending c" and "chain_wf e c"
    and "list_all (\<lambda>op. \<not> is_market_operation op) (operations t)"
    and "evaluate e t (new_eval_state c i) = Some (Inr ev)"
  shows "surplus (current_state ev) a = surplus c a"
proof -
  from assms(4) obtain ev1 ev2 where ev: "current_state ev1 = c" "balance ev1 = []"
    "evaluate_operations e (operations t) ev1 = Some (Inr ev2)" "end_evaluate e ev2 = Inr ev"
    by (rule evaluate_split)
  have "good e ev1" using assms(1,2) ev by (simp add: good_def)
  then have "good e ev2 \<and> books ev2 a = books ev1 a"
    using operations_keep_books [OF ev(3) assms(3)] by (simp add: keeps_books_def)
  then show ?thesis
    using end_evaluate_effect [OF ev(4), of a] ev(1,2) by (simp add: surplus_def books_def get_fees_def)
qed

lemma evaluate_wf:
  assumes "is_pending c" and "chain_wf e c"
    and "evaluate e t (new_eval_state c i) = Some (Inr ev)"
  shows "is_pending (current_state ev)" and "chain_wf e (current_state ev)"
proof -
  from assms(3) obtain ev1 ev2 where ev: "current_state ev1 = c" "balance ev1 = []"
    "evaluate_operations e (operations t) ev1 = Some (Inr ev2)" "end_evaluate e ev2 = Inr ev"
    by (rule evaluate_split)
  have "good e ev1" using assms(1,2) ev by (simp add: good_def)
  then have "good e ev2" by (rule operations_good [OF ev(3)])
  then have "good e ev" using end_evaluate_effect [OF ev(4)] by blast
  then show "is_pending (current_state ev)" "chain_wf e (current_state ev)" by (simp_all add: good_def)
qed

text \<open>
  C11. A transaction without market orders conserves shares: for every asset, what the balances (and,
  for the base asset, the pay of the delegates) hold minus the share supply is the same after the
  transaction as before; in particular the equality \<open>sanity_check\<close> tests is preserved. Fees, issued
  shares and withdrawn pay are all accounted for.
\<close>

theorem transaction_conserves_shares:
  assumes "is_pending c" and "chain_wf e c"
    and "list_all (\<lambda>op. \<not> is_market_operation op) (operations t)"
    and "evaluate e t (new_eval_state c i) = Some (Inr ev)"
  shows "holdings (current_state ev) a - share_supply (current_state ev) a
    = holdings c a - share_supply c a"
  using evaluate_surplus [OF assms] by (simp add: surplus_def)

lemma sample_good: "is_pending sample_chain" "chain_wf sample_env sample_chain"
  by (auto simp: sample_chain_def is_pending_def chain_wf_def sample_db_def new_pending_state_def
      balance_id_def condition_address_def sample_env_def sample_balance_def sample_saving_def sample_condition_def
      mk_condition_def sample_delegate_def sample_asset_def property_int_def res_bind_def
      split: if_splits)

theorem transaction_conserves_shares_witness:
  "\<exists>ev. evaluate sample_env sample_payment (new_eval_state sample_chain []) = Some (Inr ev)
     \<and> holdings (current_state ev) 0 - share_supply (current_state ev) 0
       = holdings sample_chain 0 - share_supply sample_chain 0"
proof -
  obtain ev where ev: "evaluate sample_env sample_payment (new_eval_state sample_chain []) = Some (Inr ev)"
    using returnsE [OF sample_payment_returns] by blast
  then show ?thesis
    using transaction_conserves_shares [OF sample_good _ ev]
    by (simp add: sample_payment_def sample_trx_def)
qed

text \<open>
  C23. Every transaction, market orders included, leaves the chain well-formed: each record is stored
  under its own identifier, and no identifier in use is above the counter that new ones come from.
\<close>

theorem transaction_keeps_chain_wf:
  assumes "is_pending c" and "chain_wf e c"
    and "evaluate e t (new_eval_state c i) = Some (Inr ev)"
  shows "is_pending (current_state ev) \<and> chain_wf e (current_state ev)"
  using evaluate_wf [OF assms] by blast

theorem transaction_keeps_chain_wf_witness:
  "\<exists>ev. evaluate sample_env sample_payment (new_eval_state sample_chain []) = Some (Inr ev)
     \<and> chain_wf sample_env (current_state ev)"
  using returnsE [OF sample_payment_returns] transaction_keeps_chain_wf [OF sample_good] by blast

end
