(* ===== verification/Bts_Safety.thy ===== *)
theory Bts_Safety
  imports Bts_Conserve
begin

text \<open>
  Who may spend, and what a transaction costs: a balance that waits for a signature is untouched by
  every transaction without that signature; a transaction that is accepted leaves at least the fee of
  its size; a transaction that is known or expired is rejected.
\<close>

section \<open>The signatures of a transaction\<close>

definition signature_addresses :: "env \<Rightarrow> digest_type \<Rightarrow> signature_type \<Rightarrow> address list" where
  "signature_addresses e d s = (case fc_recover e s d of None \<Rightarrow> [] | Some k \<Rightarrow> key_addresses e k)"

definition signers :: "env \<Rightarrow> digest_type \<Rightarrow> signed_transaction \<Rightarrow> address list" where
  "signers e i t = concat (map (signature_addresses e (trx_digest e i t)) (signatures t))"

lemma insert_signatures_keys:
  assumes "fold_res (insert_signature e d) sigs ev = Inr ev'"
  shows "signed_keys ev' = signed_keys ev @ concat (map (signature_addresses e d) sigs)"
  using assms
proof (induction sigs arbitrary: ev)
  case (Cons s sigs)
  then obtain ev1 where step: "insert_signature e d s ev = Inr ev1"
    and rest: "fold_res (insert_signature e d) sigs ev1 = Inr ev'"
    by (auto simp only: fold_res.simps res_bind_eq_Inr)
  from step have "signed_keys ev1 = signed_keys ev @ signature_addresses e d s"
    by (auto simp: insert_signature_def signature_addresses_def split: option.splits)
  then show ?case using Cons.IH [OF rest] by simp
qed simp

lemma begin_evaluate_keys:
  assumes "begin_evaluate e t ev = Inr ev'"
  shows "signed_keys ev' = signers e (ev_chain_id ev) t"
proof -
  from assms obtain ev0 where
    run: "fold_res (insert_signature e (trx_digest e (ev_chain_id ev) t)) (signatures t) ev0 = Inr ev'"
    and "signed_keys ev0 = []"
    by (auto simp: begin_evaluate_def Let_def res_bind_eq_Inr reset_def split: if_splits)
  then show ?thesis using insert_signatures_keys [OF run] by (simp add: signers_def)
qed

section \<open>Balances\<close>

text \<open>The fee rate is that of the head block, which no store changes.\<close>

lemma get_fee_rate_store [chain_simps]:
  "get_fee_rate (store_asset_record r c) = get_fee_rate c"
  "get_fee_rate (store_balance_record e b c) = get_fee_rate c"
  "get_fee_rate (store_account_record e ac c) = get_fee_rate c"
  "get_fee_rate (set_property i v c) = get_fee_rate c"
  "get_fee_rate (store_proposal_record pr c) = get_fee_rate c"
  "get_fee_rate (store_proposal_vote pv c) = get_fee_rate c"
  "get_fee_rate (store_bid_record k ord c) = get_fee_rate c"
  "get_fee_rate (store_ask_record k ord c) = get_fee_rate c"
  by (cases c; simp add: db_defs Let_def split: option.split)+

text \<open>
  No operation changes the transaction, its signatures or the fee rate, and only deposits and
  withdrawals write balance records.
\<close>

definition same_context :: "eval_state \<Rightarrow> eval_state \<Rightarrow> bool" where
  "same_context ev ev' \<longleftrightarrow> signed_keys ev' = signed_keys ev \<and> ev_trx ev' = ev_trx ev
     \<and> get_fee_rate (current_state ev') = get_fee_rate (current_state ev)"

definition same_access :: "eval_state \<Rightarrow> eval_state \<Rightarrow> bool" where
  "same_access ev ev' \<longleftrightarrow> same_context ev ev'
     \<and> get_balance_record (current_state ev') = get_balance_record (current_state ev)"

lemma same_context_trans: "same_context ev ev1 \<Longrightarrow> same_context ev1 ev2 \<Longrightarrow> same_context ev ev2"
  by (simp add: same_context_def)

lemma signed_keys_simps [simp]:
  "signed_keys (add_vote i x ev) = signed_keys ev" "signed_keys (sub_vote i x ev) = signed_keys ev"
  "ev_trx (add_vote i x ev) = ev_trx ev" "ev_trx (sub_vote i x ev) = ev_trx ev"
  by (simp_all add: add_vote_def sub_vote_def Let_def)

lemma signed_keys_effect:
  "sub_balance i a ev = Inr ev' \<Longrightarrow> signed_keys ev' = signed_keys ev \<and> ev_trx ev' = ev_trx ev"
  "add_balance a ev = Inr ev' \<Longrightarrow> signed_keys ev' = signed_keys ev \<and> ev_trx ev' = ev_trx ev"
  "add_required_fee x ev = Inr ev' \<Longrightarrow> signed_keys ev' = signed_keys ev \<and> ev_trx ev' = ev_trx ev"
  by (auto simp: sub_balance_def add_balance_def add_required_fee_def res_bind_eq_Inr)

lemma add_required_fee_state: "add_required_fee x ev = Inr ev' \<Longrightarrow> current_state ev' = current_state ev"
  by (auto dest: add_required_fee_aside simp: aside_def)

lemma check_condition_keys:
  "check_condition e x input c ev = Inr ev' \<Longrightarrow> signed_keys ev' = signed_keys ev \<and> ev_trx ev' = ev_trx ev"
  by (auto simp: check_condition_def res_bind_eq_Inr add_required_deposit_def Let_def
      split: withdraw_data.splits if_splits option.splits)

lemmas access_simps = same_access_def same_context_def Let_def res_bind_eq_Inr chain_simps signed_keys_effect
  add_required_fee_state add_balance_effect sub_balance_effect

lemma new_id_balances:
  "new_account_id c = Inr (i, c') \<Longrightarrow>
     get_balance_record c' = get_balance_record c \<and> get_fee_rate c' = get_fee_rate c"
  "new_asset_id c = Inr (j, c') \<Longrightarrow>
     get_balance_record c' = get_balance_record c \<and> get_fee_rate c' = get_fee_rate c"
  "new_proposal_id c = Inr (p, c') \<Longrightarrow>
     get_balance_record c' = get_balance_record c \<and> get_fee_rate c' = get_fee_rate c"
  by (auto simp: new_account_id_def new_asset_id_def new_proposal_id_def res_bind_eq_Inr Let_def chain_simps)

lemma other_operation_access:
  "register_account_evaluate e nm d owner active del m ev = Inr ev' \<Longrightarrow> same_access ev ev'"
  "withdraw_pay_evaluate e x i ev = Inr ev' \<Longrightarrow> same_access ev ev'"
  "create_asset_evaluate e s nm desc d i mx p ev = Inr ev' \<Longrightarrow> same_access ev ev'"
  "update_asset_evaluate e i desc d iss ev = Inr ev' \<Longrightarrow> same_access ev ev'"
  "issue_asset_evaluate e a ev = Inr ev' \<Longrightarrow> same_access ev ev'"
  "submit_proposal_evaluate e i ts sb b pt d ev = Inr ev' \<Longrightarrow> same_access ev ev'"
  "vote_proposal_evaluate e v ts vt msg ev = Inr ev' \<Longrightarrow> same_access ev ev'"
  apply (auto simp: register_account_evaluate_def access_simps new_id_balances split: if_splits; fail)
  apply (auto simp: withdraw_pay_evaluate_def access_simps split: if_splits option.splits; fail)
  apply (auto simp: create_asset_evaluate_def access_simps new_id_balances split: if_splits; fail)
  apply (auto simp: update_asset_evaluate_def access_simps split: if_splits option.splits; fail)
  apply (auto simp: issue_asset_evaluate_def access_simps split: if_splits option.splits; fail)
  apply (auto simp: submit_proposal_evaluate_def access_simps new_id_balances split: if_splits option.splits; fail)
  apply (auto simp: vote_proposal_evaluate_def access_simps split: if_splits option.splits prod.splits; fail)
  done

lemma update_account_access:
  assumes "update_account_evaluate e i d k del ev = Some (Inr ev')"
  shows "same_access ev ev'"
proof -
  from assms obtain r where app: "update_account_apply e d k del r ev = Inr ev'"
    by (auto simp: update_account_evaluate_def res_bind_eq_Inr split: option.splits if_splits)
  then show ?thesis
    unfolding update_account_apply_def Let_def res_bind_eq_Inr [of _ _ ev'] split_paired_Ex prod.case sum.inject
    by (auto simp: access_simps split: if_splits)
qed

lemma fire_delegate_access:
  assumes "fire_delegate_evaluate e reason i ev = Inr ev'"
  shows "same_access ev ev'"
proof -
  from assms obtain r where "fire_delegate e r ev = Inr ev' \<or> ev' = ev"
    by (auto simp: fire_delegate_evaluate_def res_bind_eq_Inr split: option.splits if_splits fire_reason.splits)
  then show ?thesis by (auto simp: fire_delegate_def access_simps)
qed

lemma order_evaluate_access:
  assumes "order_evaluate x k a del get ev = Inr (r, ev')"
  shows "same_access ev ev'"
  using assms by (auto simp: order_evaluate_def access_simps split: if_splits option.splits)

lemma market_operation_access:
  "bid_evaluate x k d ev = Inr ev' \<Longrightarrow> same_access ev ev'"
  "ask_evaluate x k d ev = Inr ev' \<Longrightarrow> same_access ev ev'"
  by (auto simp: bid_evaluate_def ask_evaluate_def res_bind_eq_Inr dest!: order_evaluate_access)
    (simp_all add: same_access_def same_context_def chain_simps)

text \<open>A deposit writes the balance of its condition only.\<close>

lemma deposit_access:
  assumes "deposit_evaluate e x c ev = Inr ev'" and "good e ev"
  shows "same_context ev ev'"
    and "i \<noteq> condition_address e c \<Longrightarrow>
      get_balance_record (current_state ev') i = get_balance_record (current_state ev) i"
proof -
  define st where "st = current_state ev"
  define j where "j = condition_address e c"
  define r where "r = (case get_balance_record st j of Some r \<Rightarrow> r | None \<Rightarrow> new_balance_record c)"
  from assms(1) obtain now ev1 where
    sub: "sub_balance j (mk_asset x (wc_asset_id (bal_condition r))) ev = Inr ev1" and
    ev': "on_chain (store_balance_record e (r\<lparr>bal_last_update := now, bal_balance := bal_balance r + x\<rparr>))
      (if wc_asset_id (bal_condition r) = 0 then add_vote (wc_delegate_id (bal_condition r)) x ev1 else ev1) = ev'"
    unfolding deposit_evaluate_def Let_def run_simps st_def [symmetric] j_def [symmetric] r_def [symmetric]
    by (simp split del: if_split cong del: if_weak_cong) blast
  have id: "balance_id e r = j"
    using assms(2) by (auto simp: r_def st_def good_def new_balance_record_def balance_id_def j_def
        dest: chain_wfD(1) split: option.split)
  show "same_context ev ev'"
    using signed_keys_effect(1) [OF sub] sub_balance_effect(1) [OF sub]
    by (auto simp: same_context_def chain_simps simp flip: ev')
  show "get_balance_record (current_state ev') i = get_balance_record (current_state ev) i"
    if "i \<noteq> condition_address e c"
    using that id assms(2) sub_balance_effect(1) [OF sub]
    by (auto simp: ev' [symmetric] chain_simps good_def balance_id_def simp flip: j_def)
qed

text \<open>A withdrawal writes the balance it names, when its condition lets it.\<close>

lemma withdraw_access:
  assumes "withdraw_evaluate e j x input ev = Inr ev'" and "good e ev"
  shows "same_context ev ev'"
    and "get_balance_record (current_state ev) i = Some r
      \<Longrightarrow> wc_data (bal_condition r) = withdraw_with_signature owner memo
      \<Longrightarrow> owner \<notin> set (signed_keys ev)
      \<Longrightarrow> get_balance_record (current_state ev') i = Some r"
proof -
  from assms(1) obtain rj now ev1 ev2 where
    rj: "get_balance_record (current_state ev) j = Some rj" and
    chk: "check_condition e x input (bal_condition rj) ev = Inr ev1" and
    add: "add_balance (mk_asset x (wc_asset_id (bal_condition rj))) ev1 = Inr ev2" and
    ev': "on_chain (store_balance_record e (rj\<lparr>bal_balance := bal_balance rj - x, bal_last_update := now\<rparr>))
      (if wc_asset_id (bal_condition rj) = 0 then sub_vote (wc_delegate_id (bal_condition rj)) x ev2 else ev2) = ev'"
    unfolding withdraw_evaluate_def Let_def run_simps by blast
  have id: "balance_id e rj = j" using assms(2) rj by (auto simp: good_def dest: chain_wfD(1))
  show "same_context ev ev'"
    using signed_keys_effect(2) [OF add] check_condition_keys [OF chk] add_balance_effect(1) [OF add]
      check_condition_aside [OF chk]
    by (auto simp: same_context_def aside_def chain_simps simp flip: ev')
  show "get_balance_record (current_state ev') i = Some r"
    if r: "get_balance_record (current_state ev) i = Some r"
      "wc_data (bal_condition r) = withdraw_with_signature owner memo" "owner \<notin> set (signed_keys ev)"
  proof -
    have "j \<noteq> i" using r rj chk by (auto simp: check_condition_def check_signature_def split: if_splits)
    then show ?thesis
      using r(1) id assms(2) add_balance_effect(1) [OF add] check_condition_aside [OF chk]
      by (auto simp: ev' [symmetric] chain_simps good_def balance_id_def aside_def)
  qed
qed

section \<open>Transactions\<close>

lemma operation_context:
  assumes "evaluate_operation e op ev = Some (Inr ev')" and "good e ev"
  shows "same_context ev ev'"
  using assms
  by (cases op)
    (auto dest: withdraw_access(1) deposit_access(1) other_operation_access update_account_access
      fire_delegate_access market_operation_access simp: same_access_def)

lemma operations_context:
  assumes "evaluate_operations e ops ev = Some (Inr ev')" and "good e ev"
  shows "same_context ev ev'"
  using assms
proof (induction ops arbitrary: ev)
  case (Cons op ops)
  then show ?case
    by (auto split: option.splits sum.splits
        intro: same_context_trans [OF operation_context] dest: operation_good)
qed (simp add: same_context_def)

lemma operation_access:
  assumes "evaluate_operation e op ev = Some (Inr ev')" and "good e ev"
    and "get_balance_record (current_state ev) i = Some r"
    and "wc_data (bal_condition r) = withdraw_with_signature owner memo"
    and "owner \<notin> set (signed_keys ev)"
    and "\<And>x cond. op = deposit_operation x cond \<Longrightarrow> condition_address e cond \<noteq> i"
  shows "get_balance_record (current_state ev') i = Some r"
  using assms
  by (cases op)
    (auto dest: withdraw_access(2) deposit_access(2) [of _ _ _ _ _ i] other_operation_access
      update_account_access fire_delegate_access market_operation_access simp: same_access_def)

lemma operations_access:
  assumes "evaluate_operations e ops ev = Some (Inr ev')" and "good e ev"
    and "get_balance_record (current_state ev) i = Some r"
    and "wc_data (bal_condition r) = withdraw_with_signature owner memo"
    and "owner \<notin> set (signed_keys ev)"
    and "\<And>x cond. deposit_operation x cond \<in> set ops \<Longrightarrow> condition_address e cond \<noteq> i"
  shows "get_balance_record (current_state ev') i = Some r"
  using assms
proof (induction ops arbitrary: ev)
  case (Cons op ops)
  then obtain ev1 where ev1: "evaluate_operation e op ev = Some (Inr ev1)"
    "evaluate_operations e ops ev1 = Some (Inr ev')" by (auto split: option.splits sum.splits)
  have "get_balance_record (current_state ev1) i = Some r"
    using operation_access [OF ev1(1) Cons.prems(2-5)] Cons.prems(6) by auto
  moreover have "signed_keys ev1 = signed_keys ev"
    using operation_context [OF ev1(1) Cons.prems(2)] by (simp add: same_context_def)
  ultimately show ?case
    using Cons.IH [OF ev1(2) operation_good [OF ev1(1) Cons.prems(2)]] Cons.prems(4-6) by auto
qed simp

lemma end_evaluate_balances:
  assumes "end_evaluate e ev = Inr ev'"
  shows "get_balance_record (current_state ev') = get_balance_record (current_state ev)"
proof -
  from assms obtain fee ev1 ev2 ev3 where
    steps: "add_required_fee fee ev = Inr ev1" "fold_res collect_fee (balance ev1) ev1 = Inr ev2"
      "fold_res check_deposit (required_deposits ev2) ev2 = Inr ev3" "update_delegate_votes e ev3 = Inr ev'"
    unfolding end_evaluate_def post_evaluate_def validate_required_fee_def run_simps sum.inject by blast
  have "get_balance_record (current_state ev2) = get_balance_record (current_state ev1)"
    by (rule fold_res_invariant [OF steps(2)])
      (auto simp: collect_fee_def Let_def chain_simps split: prod.splits if_splits option.splits)
  moreover from steps(4) obtain m where
    "fold_res (update_delegate_vote e m) (net_delegate_votes ev3) ev3 = Inr ev'"
    by (auto simp: update_delegate_votes_def Let_def split: option.splits)
  then have "get_balance_record (current_state ev') = get_balance_record (current_state ev3)"
    by (rule fold_res_invariant)
      (auto simp: update_delegate_vote_def res_bind_eq_Inr chain_simps split: if_splits option.splits)
  ultimately show ?thesis
    using check_deposits_effect [OF steps(3)] add_required_fee_state [OF steps(1)] by simp
qed

text \<open>
  C12. Only a signature spends: a balance that waits for the signature of an address is the same after
  every transaction that does not carry a signature of that address, as long as the transaction does
  not pay into it. The addresses of a signature are the five that \<open>evaluate\<close> derives from the key.
\<close>

theorem unsigned_balance_untouched:
  assumes "is_pending c" and "chain_wf e c"
    and "evaluate e t (new_eval_state c d) = Some (Inr ev)"
    and "get_balance_record c i = Some r"
    and "wc_data (bal_condition r) = withdraw_with_signature owner memo"
    and "owner \<notin> set (signers e d t)"
    and "\<And>x cond. deposit_operation x cond \<in> set (operations t) \<Longrightarrow> condition_address e cond \<noteq> i"
  shows "get_balance_record (current_state ev) i = Some r"
proof -
  from assms(3) obtain ev1 ev2 where
    ev1: "begin_evaluate e t (new_eval_state c d) = Inr ev1" and
    ev2: "evaluate_operations e (operations t) ev1 = Some (Inr ev2)" and
    fin: "end_evaluate e ev2 = Inr ev"
    by (auto simp: evaluate_def res_bind_eq_Inr split: sum.splits option.splits)
  have st: "current_state ev1 = c" "balance ev1 = []"
    using begin_evaluate_good [OF ev1] by (simp_all add: new_eval_state_def)
  have keys: "owner \<notin> set (signed_keys ev1)"
    using begin_evaluate_keys [OF ev1] assms(6) by (simp add: new_eval_state_def)
  have "good e ev1" using assms(1,2) st by (simp add: good_def)
  then show ?thesis
    using operations_access [OF ev2 _ _ assms(5) keys assms(7)] end_evaluate_balances [OF fin] assms(4) st
    by simp
qed

theorem unsigned_balance_untouched_witness:
  "\<exists>ev. evaluate sample_env sample_payment (new_eval_state sample_chain []) = Some (Inr ev)
     \<and> get_balance_record (current_state ev) [0, 1, 8] = Some sample_saving"
proof -
  obtain ev where ev: "evaluate sample_env sample_payment (new_eval_state sample_chain []) = Some (Inr ev)"
    using returnsE [OF sample_payment_returns] by blast
  have "get_balance_record sample_chain [0, 1, 8] = Some sample_saving"
    "wc_data (bal_condition sample_saving) = withdraw_with_signature [8] None"
    "[8] \<notin> set (signers sample_env [] sample_payment)"
    by code_simp+
  then show ?thesis
    using unsigned_balance_untouched [OF sample_good ev] ev
    by (auto simp: sample_payment_def sample_trx_def condition_address_def sample_env_def
        sample_condition_def mk_condition_def)
qed

section \<open>What a transaction must satisfy\<close>

definition is_expired :: "time_point_sec \<Rightarrow> signed_transaction \<Rightarrow> bool" where
  "is_expired now t = (case expiration t of Some x \<Rightarrow> x < now | None \<Rightarrow> False)"

definition is_known :: "env \<Rightarrow> chain \<Rightarrow> signed_transaction \<Rightarrow> bool" where
  "is_known e c t = (case get_transaction c (trx_id e t) of Inr (Some _) \<Rightarrow> True | _ \<Rightarrow> False)"

lemma begin_evaluate_cases:
  assumes "chain_now c = Inr now"
  shows "is_expired now t \<Longrightarrow> begin_evaluate e t (new_eval_state c d) = Inl expired_transaction"
    and "\<not> is_expired now t \<Longrightarrow> is_known e c t
      \<Longrightarrow> begin_evaluate e t (new_eval_state c d) = Inl duplicate_transaction"
    and "begin_evaluate e t (new_eval_state c d) = Inr ev \<Longrightarrow>
      \<not> is_expired now t \<and> \<not> is_known e c t"
  using assms
  by (auto simp: begin_evaluate_def Let_def reset_def new_eval_state_def is_expired_def is_known_def
      check_expiration_def res_bind_def split: option.splits sum.splits if_splits)

lemma begin_evaluate_trx:
  assumes "begin_evaluate e t (new_eval_state c d) = Inr ev"
  shows "ev_trx ev = t"
proof -
  define ev0 where "ev0 = reset (new_eval_state c d)\<lparr>ev_trx := t\<rparr>"
  have "fold_res (insert_signature e (trx_digest e d t)) (signatures t) ev0 = Inr ev"
    using assms unfolding begin_evaluate_def Let_def res_bind_eq_Inr if_Inl_eq_Inr
    by (auto simp: reset_def new_eval_state_def ev0_def)
  then show ?thesis
    by (rule fold_res_invariant) (auto simp: ev0_def insert_signature_def split: option.splits)
qed

lemma collect_fees_positive:
  assumes "fold_res collect_fee xs ev = Inr ev'" and "(a, x) \<in> set xs"
  shows "\<not> x <s 0" and "a = 0 \<Longrightarrow> 0 <s x \<Longrightarrow> \<not> x <s amount (required_fees ev)"
proof -
  have "\<not> x <s 0 \<and> (a = 0 \<longrightarrow> 0 <s x \<longrightarrow> \<not> x <s amount (required_fees ev))"
    using assms
  proof (induction xs arbitrary: ev)
    case (Cons y xs)
    then obtain ev1 where ev1: "collect_fee y ev = Inr ev1" "fold_res collect_fee xs ev1 = Inr ev'"
      by (auto simp: res_bind_eq_Inr)
    then have "required_fees ev1 = required_fees ev"
      by (auto simp: collect_fee_def Let_def split: prod.splits if_splits option.splits)
    then show ?case using Cons.IH [OF ev1(2)] Cons.prems(2) ev1(1)
      by (auto simp: collect_fee_def split: if_splits)
  qed simp
  then show "\<not> x <s 0" and "a = 0 \<Longrightarrow> 0 <s x \<Longrightarrow> \<not> x <s amount (required_fees ev)" by auto
qed

lemma end_evaluate_fees:
  assumes "end_evaluate e ev = Inr ev'"
  shows "\<exists>rate. get_fee_rate (current_state ev) = Inr rate
      \<and> (\<exists>x. map_of (balance ev) 0 = Some x \<and> \<not> x <s size_fee e rate (ev_trx ev))"
    and "map_of (balance ev) a = Some x \<Longrightarrow> \<not> x <s 0"
    and "balance ev' = balance ev"
proof -
  from assms obtain rate ev1 ev2 ev3 where
    steps: "get_fee_rate (current_state ev) = Inr rate"
      "add_required_fee (size_fee e rate (ev_trx ev)) ev = Inr ev1"
      "fold_res collect_fee (balance ev1) ev1 = Inr ev2"
      "fold_res check_deposit (required_deposits ev2) ev2 = Inr ev3" 
      "validate_required_fee e ev3 = Inr ev3" "update_delegate_votes e ev3 = Inr ev'"
    unfolding end_evaluate_def post_evaluate_def validate_required_fee_def run_simps sum.inject by blast
  have ev1: "balance ev1 = balance ev" "ev_trx ev1 = ev_trx ev" "current_state ev1 = current_state ev"
    using add_required_fee_aside [OF steps(2)] signed_keys_effect(3) [OF steps(2)] by (auto simp: aside_def)
  have "balance ev2 = balance ev1 \<and> ev_trx ev2 = ev_trx ev1
      \<and> get_fee_rate (current_state ev2) = get_fee_rate (current_state ev1)"
    by (rule fold_res_invariant [OF steps(3)])
      (auto simp: collect_fee_def Let_def chain_simps split: prod.splits if_splits option.splits)
  then have ev3: "balance ev3 = balance ev" "ev_trx ev3 = ev_trx ev"
    "get_fee_rate (current_state ev3) = Inr rate"
    using ev1 steps(1) check_deposits_effect [OF steps(4)] by auto
  show "\<exists>rate. get_fee_rate (current_state ev) = Inr rate
      \<and> (\<exists>x. map_of (balance ev) 0 = Some x \<and> \<not> x <s size_fee e rate (ev_trx ev))"
    using steps(1,5) ev3 by (auto simp: validate_required_fee_def split: option.splits if_splits)
  show "\<not> x <s 0" if "map_of (balance ev) a = Some x"
    using collect_fees_positive(1) [OF steps(3)] map_of_SomeD [OF that] ev1 by metis
  from steps(6) obtain m where
    "fold_res (update_delegate_vote e m) (net_delegate_votes ev3) ev3 = Inr ev'"
    by (auto simp: update_delegate_votes_def Let_def split: option.splits)
  then have "balance ev' = balance ev3"
    by (rule fold_res_invariant)
      (auto simp: update_delegate_vote_def res_bind_eq_Inr split: if_splits option.splits)
  then show "balance ev' = balance ev" using ev3 by simp
qed

text \<open>
  C22. What \<open>evaluate\<close> accepts. A transaction that has expired is rejected as expired, one whose
  identifier the chain knows as a duplicate; one that is accepted is neither, leaves no negative
  amount of any asset, and leaves of the base asset at least the fee of its own size at the fee rate
  of the head block.
\<close>

theorem transaction_admission:
  assumes "is_pending c" and "chain_wf e c" and "chain_now c = Inr now"
    and "evaluate e t (new_eval_state c d) = Some r"
  shows "(is_expired now t \<longrightarrow> r = Inl expired_transaction)
    \<and> (\<not> is_expired now t \<and> is_known e c t \<longrightarrow> r = Inl duplicate_transaction)
    \<and> (\<forall>ev. r = Inr ev \<longrightarrow> \<not> is_expired now t \<and> \<not> is_known e c t \<and> (\<forall>a. \<not> get_fees a ev <s 0)
      \<and> (\<exists>rate. get_fee_rate c = Inr rate \<and> \<not> get_fees 0 ev <s size_fee e rate t))"
proof (intro conjI)
  show "is_expired now t \<longrightarrow> r = Inl expired_transaction"
    "\<not> is_expired now t \<and> is_known e c t \<longrightarrow> r = Inl duplicate_transaction"
    using assms(4) begin_evaluate_cases(1,2) [OF assms(3)] by (auto simp: evaluate_def)
  have "\<not> is_expired now t \<and> \<not> is_known e c t \<and> (\<forall>a. \<not> get_fees a ev <s 0)
      \<and> (\<exists>rate. get_fee_rate c = Inr rate \<and> \<not> get_fees 0 ev <s size_fee e rate t)" if "r = Inr ev" for ev
  proof -
    from that assms(4) obtain ev1 ev2 where
      ev1: "begin_evaluate e t (new_eval_state c d) = Inr ev1" and
      ev2: "evaluate_operations e (operations t) ev1 = Some (Inr ev2)" and
      fin: "end_evaluate e ev2 = Inr ev"
      by (auto simp: evaluate_def res_bind_eq_Inr split: sum.splits option.splits)
    have st: "current_state ev1 = c" "balance ev1 = []"
      using begin_evaluate_good [OF ev1] by (simp_all add: new_eval_state_def)
    then have "good e ev1" using assms(1,2) by (simp add: good_def)
    then have "same_context ev1 ev2" by (rule operations_context [OF ev2])
    then have same: "get_fee_rate (current_state ev2) = get_fee_rate c" "ev_trx ev2 = t"
      using st begin_evaluate_trx [OF ev1] by (simp_all add: same_context_def)
    show ?thesis
      using end_evaluate_fees [OF fin] begin_evaluate_cases(3) [OF assms(3) ev1] same
      by (auto simp: get_fees_def split: option.splits)
  qed
  then show "\<forall>ev. r = Inr ev \<longrightarrow> \<not> is_expired now t \<and> \<not> is_known e c t \<and> (\<forall>a. \<not> get_fees a ev <s 0)
      \<and> (\<exists>rate. get_fee_rate c = Inr rate \<and> \<not> get_fees 0 ev <s size_fee e rate t)" by blast
qed

theorem transaction_admission_witness:
  "\<exists>ev. evaluate sample_env sample_payment (new_eval_state sample_chain []) = Some (Inr ev)
     \<and> \<not> get_fees 0 ev <s size_fee sample_env 1000 sample_payment"
proof -
  obtain ev where ev: "evaluate sample_env sample_payment (new_eval_state sample_chain []) = Some (Inr ev)"
    using returnsE [OF sample_payment_returns] by blast
  have "chain_now sample_chain = Inr 30" "get_fee_rate sample_chain = Inr 1000"
    by (simp_all add: sample_chain_def sample_db_def sample_header_def)
  then show ?thesis
    using transaction_admission [OF sample_good _ ev] ev by auto
qed

end
