(* ===== verification/Bts_Account.thy ===== *)
theory Bts_Account
  imports Bts_Conserve
begin

text \<open>
  The update of an account: when \<open>update_account_operation::evaluate\<close> returns and who can authorise an
  update. Its loops over the parent accounts do not move on once a parent has signed, so a signed
  parent is where the evaluation stays for ever, and no parent ever authorises anything.
\<close>

section \<open>The parents of an account\<close>

text \<open>The names the loop visits: each parent, until the name is empty.\<close>

lemma get_parent_account_name_shorter:
  assumes "nm \<noteq> []"
  shows "length (get_parent_account_name nm) < length nm"
proof -
  have "length (dropWhile (\<lambda>c. c \<noteq> CHR ''.'') nm) \<le> length nm" and "0 < length nm"
    using assms by (simp_all add: length_dropWhile_le)
  then show ?thesis unfolding get_parent_account_name_def length_drop by linarith
qed

function ancestors :: "string \<Rightarrow> string list" where
  "ancestors nm = (if nm = [] then [] else nm # ancestors (get_parent_account_name nm))"
  by pat_completeness auto
termination by (relation "measure length") (simp_all add: get_parent_account_name_shorter)

declare ancestors.simps [simp del]

definition signed_by :: "env \<Rightarrow> eval_state \<Rightarrow> account_record \<Rightarrow> bool" where
  "signed_by e ev r =
    (check_signature ev (address_of_key e (owner_key r)) \<or> check_signature ev (address_of_key e (active_key r)))"

text \<open>
  What the walk over a list of names ends in: a name that is no account, a retracted account, or an
  account that has signed.
\<close>

datatype walk_end = no_more_parents | retracted_parent | signed_parent

fun walk :: "env \<Rightarrow> eval_state \<Rightarrow> string list \<Rightarrow> walk_end" where
  "walk e ev [] = no_more_parents"
| "walk e ev (nm # nms) =
    (case get_account_by_name (current_state ev) nm of
       None \<Rightarrow> no_more_parents
     | Some r \<Rightarrow> if is_retracted r then retracted_parent
         else if signed_by e ev r then signed_parent
         else walk e ev nms)"

section \<open>The loop\<close>

lemma parent_loop_stuck:
  assumes "\<not> is_retracted r" and "signed_by e ev r"
  shows "parent_loop e ev nm (Some r) v = None"
proof -
  have "rec \<noteq> Some r" if "parent_loop e ev nm rec v = Some res" for rec v res
  proof (rule parent_loop.raw_induct [where P = "\<lambda>e' ev' nm' rec' v' res'.
        e' = e \<longrightarrow> ev' = ev \<longrightarrow> rec' \<noteq> Some r", OF _ that, THEN mp, THEN mp])
    fix loop e' ev' nm' rec' v' res'
    assume IH: "\<And>e1 ev1 nm1 rec1 v1 res1. loop e1 ev1 nm1 rec1 v1 = Some res1
        \<Longrightarrow> e1 = e \<longrightarrow> ev1 = ev \<longrightarrow> rec1 \<noteq> Some r"
      and body: "(case rec' of None \<Rightarrow> Some (Inr v')
        | Some r \<Rightarrow> if is_retracted r then Some (Inl parent_account_retracted)
          else if check_signature ev' (address_of_key e' (owner_key r))
            \<or> check_signature ev' (address_of_key e' (active_key r)) then loop e' ev' nm' rec' True
          else let nm' = get_parent_account_name nm'
            in loop e' ev' nm' (get_account_by_name (current_state ev') nm') v') = Some res'"
    show "e' = e \<longrightarrow> ev' = ev \<longrightarrow> rec' \<noteq> Some r"
    proof (intro impI notI)
      assume "e' = e" "ev' = ev" "rec' = Some r"
      then have "loop e ev nm' (Some r) True = Some res'"
        using body assms \<open>e' = e\<close> \<open>ev' = ev\<close> by (simp add: signed_by_def)
      then show False using IH by blast
    qed
  qed simp_all
  then show ?thesis by (cases "parent_loop e ev nm (Some r) v") auto
qed

lemma parent_loop_walk:
  assumes "get_account_by_name (current_state ev) [] = None"
  shows "parent_loop e ev nm (get_account_by_name (current_state ev) nm) v =
    (case walk e ev (ancestors nm) of
       no_more_parents \<Rightarrow> Some (Inr v)
     | retracted_parent \<Rightarrow> Some (Inl parent_account_retracted)
     | signed_parent \<Rightarrow> None)"
proof (induction nm rule: ancestors.induct)
  case (1 nm)
  show ?case
  proof (cases "nm = []")
    case True
    then show ?thesis using assms by (simp add: ancestors.simps parent_loop.simps)
  next
    case False
    note IH = 1 [OF False]
    show ?thesis
    proof (cases "get_account_by_name (current_state ev) nm")
      case None
      then show ?thesis using False by (simp add: ancestors.simps [of nm] parent_loop.simps)
    next
      case (Some r)
      consider "is_retracted r" | "\<not> is_retracted r" "signed_by e ev r"
        | "\<not> is_retracted r" "\<not> signed_by e ev r" by blast
      then show ?thesis
      proof cases
        case 2
        then show ?thesis using Some False
          by (simp add: ancestors.simps [of nm] parent_loop_stuck)
      next
        case 3
        then have "parent_loop e ev nm (Some r) v = parent_loop e ev (get_parent_account_name nm)
            (get_account_by_name (current_state ev) (get_parent_account_name nm)) v"
          by (subst parent_loop.simps) (simp add: signed_by_def Let_def)
        then show ?thesis using Some False IH 3 by (simp add: ancestors.simps [of nm])
      qed (use Some False in \<open>simp_all add: ancestors.simps [of nm] parent_loop.simps [of e ev nm "Some r" v]\<close>)
    qed
  qed
qed

section \<open>The update of an account\<close>

abbreviation parent_of :: "account_record \<Rightarrow> string" where
  "parent_of r \<equiv> get_parent_account_name (ac_name r)"

definition changes_key :: "public_key_type option \<Rightarrow> account_record \<Rightarrow> bool" where
  "changes_key k r = (k \<noteq> None \<and> the k \<noteq> active_key r)"

lemma update_authorised_cases:
  assumes "get_account_by_name (current_state ev) [] = None"
  shows "update_authorised e k r ev =
    (if parent_of r = []
     then Some (if (if changes_key k r then check_signature ev (address_of_key e (owner_key r)) else signed_by e ev r)
       then Inr () else Inl missing_signature)
     else if \<not> changes_key k r \<and> signed_by e ev r then Some (Inr ())
     else case get_account_by_name (current_state ev) (parent_of r) of
       None \<Rightarrow> Some (Inl (if changes_key k r then unknown_parent_account_name else missing_signature))
     | Some _ \<Rightarrow> (case walk e ev (ancestors (parent_of r)) of
         no_more_parents \<Rightarrow> Some (Inl missing_signature)
       | retracted_parent \<Rightarrow> Some (Inl parent_account_retracted)
       | signed_parent \<Rightarrow> None))"
  unfolding update_authorised_def Let_def parent_loop_walk [OF assms]
  by (auto simp: changes_key_def signed_by_def ancestors.simps [of "parent_of r"]
      split: walk_end.splits option.splits)

text \<open>
  C21. When the update of an account returns. It does not exactly when the account is live and has a
  parent, the update changes its key or is not signed for it, and the walk over its parents comes to
  one that has signed before it comes to the end of the parents or to a retracted one: the owner of a
  parent account who authorises an update, as the code intends, keeps the evaluation in the loop.
\<close>

theorem update_account_termination:
  assumes "get_account_by_name (current_state ev) [] = None"
  shows "update_account_evaluate e i d k del ev = None \<longleftrightarrow>
    (\<exists>r. get_account_record (current_state ev) i = Some r \<and> \<not> is_retracted r
      \<and> parent_of r \<noteq> [] \<and> (changes_key k r \<or> \<not> signed_by e ev r)
      \<and> walk e ev (ancestors (parent_of r)) = signed_parent)"
proof -
  have "get_account_by_name (current_state ev) nm \<noteq> None"
    if "walk e ev (ancestors nm) = signed_parent" for nm
    using that by (cases "nm = []") (auto simp: ancestors.simps [of nm] ancestors.simps [of "[]"] split: option.splits)
  then show ?thesis
    unfolding update_account_evaluate_def update_authorised_cases [OF assms]
    by (force split: option.split walk_end.split)
qed

text \<open>An account below that of the delegate of the sample chain.\<close>

definition sample_child :: account_record where
  "sample_child = \<lparr>ac_id = 2, ac_name = ''b.alpha'', ac_public_data = [], owner_key = [3],
     active_key_history = [(15, [4])], ac_registration_date = 15, ac_last_update = 15,
     delegate_info = None, ac_meta_data = None\<rparr>"

definition sample_family :: "address list \<Rightarrow> eval_state" where
  "sample_family keys = (new_eval_state (Pending (new_pending_state\<lparr>accounts := [(2, sample_child)],
     account_id_index := [(''b.alpha'', 2)]\<rparr>) (Database sample_db)) [])\<lparr>signed_keys := keys\<rparr>"

lemma sample_family_no_empty_name:
  "get_account_by_name (current_state (sample_family keys)) [] = None"
  by (simp add: sample_family_def new_eval_state_def new_pending_state_def sample_db_def)

theorem update_account_termination_witness:
  "update_account_evaluate sample_env 2 None (Some [5]) False (sample_family [[1]]) = None
   \<and> update_account_evaluate sample_env 2 None (Some [5]) False (sample_family [[3]]) \<noteq> None"
proof -
  have "get_account_record (current_state (sample_family keys)) 2 = Some sample_child" for keys
    by (simp add: sample_family_def new_eval_state_def)
  moreover have "walk sample_env (sample_family [[1]]) (ancestors (parent_of sample_child)) = signed_parent"
    "walk sample_env (sample_family [[3]]) (ancestors (parent_of sample_child)) = no_more_parents"
    "\<not> is_retracted sample_child" "parent_of sample_child \<noteq> []" "changes_key (Some [5]) sample_child"
    by code_simp+
  ultimately show ?thesis
    by (simp add: update_account_termination [OF sample_family_no_empty_name])
qed

text \<open>
  C25. Who can update an account: an update that goes through is signed for by the account itself,
  with its owner key when it changes the active key, and the active key of an account that has a
  parent never changes. No signature of a parent makes an update go through.
\<close>

theorem update_account_authorisation:
  assumes "get_account_by_name (current_state ev) [] = None"
    and "update_account_evaluate e i d k del ev = Some (Inr ev')"
  shows "\<exists>r. get_account_record (current_state ev) i = Some r \<and> \<not> is_retracted r
    \<and> (if changes_key k r then parent_of r = [] \<and> check_signature ev (address_of_key e (owner_key r))
       else signed_by e ev r)"
proof -
  from assms(2) obtain r where "get_account_record (current_state ev) i = Some r" "\<not> is_retracted r"
    and auth: "update_authorised e k r ev = Some (Inr ())"
    by (auto simp: update_account_evaluate_def res_bind_eq_Inr split: option.splits if_splits)
  then show ?thesis
    using auth unfolding update_authorised_cases [OF assms(1)]
    by (auto split: if_splits option.splits walk_end.splits)
qed

theorem update_account_authorisation_witness:
  "\<exists>ev'. update_account_evaluate sample_env 2 (Some ''x'') None False (sample_family [[4]]) = Some (Inr ev')
   \<and> (\<exists>r. get_account_record (current_state (sample_family [[4]])) 2 = Some r
      \<and> signed_by sample_env (sample_family [[4]]) r)"
proof -
  have "returns (update_account_evaluate sample_env 2 (Some ''x'') None False (sample_family [[4]]))"
    by code_simp
  then obtain ev' where
    ev': "update_account_evaluate sample_env 2 (Some ''x'') None False (sample_family [[4]]) = Some (Inr ev')"
    by (auto dest: returnsE)
  then show ?thesis
    using update_account_authorisation [OF sample_family_no_empty_name ev'] by (auto simp: changes_key_def)
qed

section \<open>Transactions\<close>

fun is_account_update :: "operation \<Rightarrow> bool" where
  "is_account_update (update_account_operation _ _ _ _) = True"
| "is_account_update _ = False"

lemma operation_returns: "\<not> is_account_update op \<Longrightarrow> evaluate_operation e op ev \<noteq> None"
  by (cases op) auto

lemma operations_return:
  "list_all (\<lambda>op. \<not> is_account_update op) ops \<Longrightarrow> evaluate_operations e ops ev \<noteq> None"
  by (induction ops arbitrary: ev) (auto split: option.split sum.split dest: operation_returns)

lemma evaluate_operations_append:
  "evaluate_operations e ops ev = Some (Inr ev') \<Longrightarrow>
   evaluate_operations e (ops @ rest) ev = evaluate_operations e rest ev'"
  by (induction ops arbitrary: ev) (auto split: option.splits sum.splits)

text \<open>
  C26. When the evaluation of a transaction returns: without an update of an account always, whatever
  the state. It does not when it comes to an update that changes the key of an account and meets a
  signed parent, although the transaction is neither expired nor known and everything before the
  update succeeds: a node that is sent such a transaction stops there.
\<close>

theorem transaction_liveness:
  assumes "begin_evaluate e t ev = Inr ev1"
  shows "(list_all (\<lambda>op. \<not> is_account_update op) (operations t) \<longrightarrow> evaluate e t ev \<noteq> None) \<and>
    (\<forall>ops i d k del rest ev2 r. operations t = ops @ update_account_operation i d k del # rest
      \<and> evaluate_operations e ops ev1 = Some (Inr ev2)
      \<and> get_account_by_name (current_state ev2) [] = None
      \<and> get_account_record (current_state ev2) i = Some r \<and> \<not> is_retracted r
      \<and> parent_of r \<noteq> [] \<and> changes_key k r
      \<and> walk e ev2 (ancestors (parent_of r)) = signed_parent
      \<longrightarrow> evaluate e t ev = None)"
proof (intro conjI impI allI)
  assume "list_all (\<lambda>op. \<not> is_account_update op) (operations t)"
  then show "evaluate e t ev \<noteq> None"
    using operations_return [of "operations t" e ev1] assms by (simp add: evaluate_def)
next
  fix ops i d k del rest ev2 r
  assume stuck: "operations t = ops @ update_account_operation i d k del # rest
      \<and> evaluate_operations e ops ev1 = Some (Inr ev2)
      \<and> get_account_by_name (current_state ev2) [] = None
      \<and> get_account_record (current_state ev2) i = Some r \<and> \<not> is_retracted r
      \<and> parent_of r \<noteq> [] \<and> changes_key k r
      \<and> walk e ev2 (ancestors (parent_of r)) = signed_parent"
  then have "update_authorised e k r ev2 = None"
    by (auto simp: update_authorised_cases ancestors.simps [of "parent_of r"] split: option.splits)
  then show "evaluate e t ev = None"
    using stuck assms by (simp add: evaluate_def update_account_evaluate_def evaluate_operations_append)
qed

text \<open>The owner of \<open>alpha\<close> signs an update of \<open>b.alpha\<close>.\<close>

definition sample_update :: signed_transaction where
  "sample_update = (sample_trx [update_account_operation 2 None (Some [5]) False])\<lparr>signatures := [[1]]\<rparr>"

theorem transaction_liveness_witness:
  "evaluate sample_env sample_update (sample_family []) = None"
proof -
  have "returns (Some (begin_evaluate sample_env sample_update (sample_family [])))" by code_simp
  then obtain ev1 where ev1: "begin_evaluate sample_env sample_update (sample_family []) = Inr ev1"
    by (auto dest: returnsE)
  have "case begin_evaluate sample_env sample_update (sample_family []) of Inl _ \<Rightarrow> False
    | Inr ev1 \<Rightarrow> get_account_by_name (current_state ev1) [] = None
      \<and> get_account_record (current_state ev1) 2 = Some sample_child
      \<and> walk sample_env ev1 (ancestors (parent_of sample_child)) = signed_parent
      \<and> \<not> is_retracted sample_child \<and> parent_of sample_child \<noteq> [] \<and> changes_key (Some [5]) sample_child"
    by code_simp
  moreover have "operations sample_update = [] @ update_account_operation 2 None (Some [5]) False # []"
    by (simp add: sample_update_def sample_trx_def)
  moreover have "evaluate_operations sample_env [] ev1 = Some (Inr ev1)" by simp
  ultimately show ?thesis
    using transaction_liveness [OF ev1, THEN conjunct2, rule_format, of "[]" 2 None "Some [5]" False "[]" ev1 sample_child] ev1
    by simp
qed

end
