(* ===== verification/Bts_Undo.thy ===== *)
theory Bts_Undo
  imports Bts_Safety
begin

text \<open>
  Applying a pending state to the database and undoing it, as \<open>extend_chain\<close> and \<open>pop_block\<close> of
  \<open>chain_database.cpp\<close> do with the state of a block. The contract of a table of the database is a
  locale: what a lookup returns after a store. It is proved for the nine tables of the model that an
  undo restores, and the effect of a list of stores and of its undo follow from it once.
\<close>

section \<open>Tables\<close>

definition table_ok :: "('k \<Rightarrow> 'v \<Rightarrow> bool) \<Rightarrow> ('k, 'v) table \<Rightarrow> bool" where
  "table_ok own t \<longleftrightarrow> distinct (map fst t) \<and> (\<forall>(k, v)\<in>set t. own k v)"

lemma table_ok_Nil [simp]: "table_ok own []"
  by (simp add: table_ok_def)

lemma table_ok_own: "table_ok own t \<Longrightarrow> (k, v) \<in> set t \<Longrightarrow> own k v"
  by (auto simp: table_ok_def)

lemma table_ok_update:
  assumes "table_ok own t" and "own k v"
  shows "table_ok own (AList.update k v t)"
proof -
  have "own j w" if "(j, w) \<in> set (AList.update k v t)" for j w
  proof -
    have d: "distinct (map fst (AList.update k v t))"
      using assms(1) by (simp add: table_ok_def distinct_update)
    have "map_of (AList.update k v t) j = Some w" using that d by (simp add: map_of_eq_Some_iff)
    then have "(if j = k then Some v else map_of t j) = Some w" by (simp add: update_conv')
    then show ?thesis using assms by (auto simp: table_ok_def dest: map_of_SomeD split: if_splits)
  qed
  then show ?thesis using assms(1) by (auto simp: table_ok_def distinct_update)
qed

lemma update_fresh: "k \<notin> fst ` set t \<Longrightarrow> AList.update k v t = t @ [(k, v)]"
  by (induction t) auto

text \<open>Replacing the values of a table, and what is found when the new values are stored after the old ones.\<close>

abbreviation replace_with :: "('k \<Rightarrow> 'v \<Rightarrow> 'v) \<Rightarrow> ('k, 'v) table \<Rightarrow> ('k, 'v) table" where
  "replace_with f \<equiv> map (\<lambda>(k, v). (k, f k v))"

lemma map_of_replace: "map_of (replace_with f t) k = map_option (f k) (map_of t k)"
  by (induction t) auto

lemma table_ok_replace:
  "table_ok own t \<Longrightarrow> (\<And>k v. (k, v) \<in> set t \<Longrightarrow> own k (f k v)) \<Longrightarrow> table_ok own (replace_with f t)"
  by (auto simp: table_ok_def case_prod_beta comp_def)

lemma replaced_value:
  assumes "\<And>k. m1 k = (case map_of t k of None \<Rightarrow> m k | Some v \<Rightarrow> kept v)"
    and "\<And>k. m2 k = (case map_of (replace_with f t) k of None \<Rightarrow> m1 k | Some v \<Rightarrow> kept v)"
    and "\<And>k v. (k, v) \<in> set t \<Longrightarrow> kept (f k v) = m k"
  shows "m2 = m"
  using assms(3) by (auto simp: fun_eq_iff assms(1,2) map_of_replace dest: map_of_SomeD split: option.split)

text \<open>A fold that stores new keys into one field of a record, and one that leaves a field alone.\<close>

lemma field_fold:
  assumes "\<And>k v s. (k, v) \<in> set t \<Longrightarrow> k \<notin> fst ` set (field s)
      \<Longrightarrow> field (upd (k, v) s) = field s @ [(k, f k v)]"
    and "distinct (map fst (field s @ t))"
  shows "field (fold upd t s) = field s @ replace_with f t"
  using assms
proof (induction t arbitrary: s)
  case (Cons a t)
  obtain k v where a: "a = (k, v)" by (cases a)
  have "field (upd (k, v) s) = field s @ [(k, f k v)]" using Cons.prems by (auto simp: a)
  then show ?case using Cons.IH [of "upd (k, v) s"] Cons.prems by (auto simp: a)
qed simp

lemma fold_same:
  assumes "\<And>x s. field (f x s) = field s"
  shows "field (fold f t s) = field s"
  using assms by (induction t arbitrary: s) auto

lemma apply_list_same:
  assumes "\<And>x c. x \<in> set xs \<Longrightarrow> get (f x c) = get c"
  shows "get (apply_list f xs c) = get c"
  using assms unfolding apply_list_def by (induction xs arbitrary: c) auto

definition is_database :: "chain \<Rightarrow> bool" where
  "is_database c = (case c of Database _ \<Rightarrow> True | _ \<Rightarrow> False)"

section \<open>The contract of a table\<close>

locale chain_table =
  fixes get :: "chain \<Rightarrow> 'k \<Rightarrow> 'w option"
    and put :: "'k \<Rightarrow> 'v \<Rightarrow> chain \<Rightarrow> chain"
    and own :: "'k \<Rightarrow> 'v \<Rightarrow> bool"
    and kept :: "'v \<Rightarrow> 'w option"
  assumes get_put: "is_database c \<Longrightarrow> own k v \<Longrightarrow> get (put k v c) = (get c)(k := kept v)"
    and is_database_put: "is_database (put k v c) = is_database c"
begin

lemma is_database_apply: "is_database (apply_list (\<lambda>(k, v). put k v) t c) = is_database c"
  by (rule apply_list_same) (auto simp: is_database_put)

lemma get_apply:
  assumes "is_database c" and "table_ok own t"
  shows "get (apply_list (\<lambda>(k, v). put k v) t c) k
    = (case map_of t k of None \<Rightarrow> get c k | Some v \<Rightarrow> kept v)"
  using assms
proof (induction t arbitrary: c)
  case (Cons a t)
  obtain j v where a: "a = (j, v)" by (cases a)
  have ok: "table_ok own t" "own j v" "j \<notin> fst ` set t" using Cons.prems(2) by (auto simp: a table_ok_def)
  then have "map_of t j = None" by (simp add: map_of_eq_None_iff)
  then show ?case
    using Cons.IH [of "put j v c"] Cons.prems(1) ok
    by (auto simp: a apply_list_def is_database_put get_put split: option.split)
qed (simp add: apply_list_def)

end

section \<open>The tables of the database\<close>

named_theorems table_simps \<open>lookups after stores of other tables\<close>

lemma is_database_store [table_simps]:
  "is_database (store_asset_record r c) = is_database c"
  "is_database (store_balance_record e b c) = is_database c"
  "is_database (store_account_record e ac c) = is_database c"
  "is_database (set_property i v c) = is_database c"
  "is_database (store_proposal_record pr c) = is_database c"
  "is_database (store_proposal_vote pv c) = is_database c"
  "is_database (store_bid_record k ord c) = is_database c"
  "is_database (store_ask_record k ord c) = is_database c"
  "is_database (store_short_record k ord c) = is_database c"
  "is_database (store_collateral_record k col c) = is_database c"
  "is_database (store_transaction ti tr c) = is_database c"
  by (cases c; simp add: is_database_def)+

text \<open>The key a lookup of a market order depends on, and a key that stands for it.\<close>

definition market_rep :: "uint128 \<times> address \<Rightarrow> market_index_key" where
  "market_rep m = \<lparr>order_price = \<lparr>ratio = fst m, base_asset_id = 0, quote_asset_id = 0\<rparr>, order_owner = snd m\<rparr>"

lemma market_key_rep [simp]: "market_key (market_rep m) = m"
  by (simp add: market_rep_def market_key_def)

definition get_bid_at :: "chain \<Rightarrow> uint128 \<times> address \<Rightarrow> order_record option" where
  "get_bid_at c m = get_bid_record c (market_rep m)"

definition get_ask_at :: "chain \<Rightarrow> uint128 \<times> address \<Rightarrow> order_record option" where
  "get_ask_at c m = get_ask_record c (market_rep m)"

lemma get_bid_at: "get_bid_record c k = get_bid_at c (market_key k)"
  unfolding get_bid_at_def by (induction c) (simp_all add: market_find_def split: option.split)

lemma get_ask_at: "get_ask_record c k = get_ask_at c (market_key k)"
  unfolding get_ask_at_def by (induction c) (simp_all add: market_find_def split: option.split)

definition get_property_at :: "chain \<Rightarrow> chain_property_enum \<Rightarrow> property_value option" where
  "get_property_at c i = (case get_property c i of Inl _ \<Rightarrow> None | Inr v \<Rightarrow> Some v)"

definition get_transaction_at :: "chain \<Rightarrow> transaction_id_type \<Rightarrow> transaction_record option" where
  "get_transaction_at c i = (case get_transaction c i of Inl _ \<Rightarrow> None | Inr t \<Rightarrow> t)"

lemmas at_defs = get_bid_at_def get_ask_at_def get_property_at_def get_transaction_at_def

lemma property_untouched [table_simps]:
  "get_property_at (store_asset_record r c) = get_property_at c"
  "get_property_at (store_account_record e ac c) = get_property_at c"
  "get_property_at (store_balance_record e b c) = get_property_at c"
  "get_property_at (store_proposal_record pr c) = get_property_at c"
  "get_property_at (store_proposal_vote pv c) = get_property_at c"
  "get_property_at (store_bid_record k ord c) = get_property_at c"
  "get_property_at (store_ask_record k ord c) = get_property_at c"
  "get_property_at (store_short_record k ord c) = get_property_at c"
  "get_property_at (store_collateral_record k col c) = get_property_at c"
  "get_property_at (store_transaction ti tr c) = get_property_at c"
  by (cases c; simp add: fun_eq_iff at_defs p_defs db_defs Let_def cong: option.case_cong
      split del: if_split; auto split: if_splits option.splits)+

lemma asset_untouched [table_simps]:
  "get_asset_record (set_property i v c) = get_asset_record c"
  "get_asset_record (store_account_record e ac c) = get_asset_record c"
  "get_asset_record (store_balance_record e b c) = get_asset_record c"
  "get_asset_record (store_proposal_record pr c) = get_asset_record c"
  "get_asset_record (store_proposal_vote pv c) = get_asset_record c"
  "get_asset_record (store_bid_record k ord c) = get_asset_record c"
  "get_asset_record (store_ask_record k ord c) = get_asset_record c"
  "get_asset_record (store_short_record k ord c) = get_asset_record c"
  "get_asset_record (store_collateral_record k col c) = get_asset_record c"
  "get_asset_record (store_transaction ti tr c) = get_asset_record c"
  by (cases c; simp add: fun_eq_iff at_defs p_defs db_defs Let_def cong: option.case_cong
      split del: if_split; auto split: if_splits option.splits)+

lemma account_untouched [table_simps]:
  "get_account_record (set_property i v c) = get_account_record c"
  "get_account_record (store_asset_record r c) = get_account_record c"
  "get_account_record (store_balance_record e b c) = get_account_record c"
  "get_account_record (store_proposal_record pr c) = get_account_record c"
  "get_account_record (store_proposal_vote pv c) = get_account_record c"
  "get_account_record (store_bid_record k ord c) = get_account_record c"
  "get_account_record (store_ask_record k ord c) = get_account_record c"
  "get_account_record (store_short_record k ord c) = get_account_record c"
  "get_account_record (store_collateral_record k col c) = get_account_record c"
  "get_account_record (store_transaction ti tr c) = get_account_record c"
  by (cases c; simp add: fun_eq_iff at_defs p_defs db_defs Let_def cong: option.case_cong
      split del: if_split; auto split: if_splits option.splits)+

lemma balance_untouched [table_simps]:
  "get_balance_record (set_property i v c) = get_balance_record c"
  "get_balance_record (store_asset_record r c) = get_balance_record c"
  "get_balance_record (store_account_record e ac c) = get_balance_record c"
  "get_balance_record (store_proposal_record pr c) = get_balance_record c"
  "get_balance_record (store_proposal_vote pv c) = get_balance_record c"
  "get_balance_record (store_bid_record k ord c) = get_balance_record c"
  "get_balance_record (store_ask_record k ord c) = get_balance_record c"
  "get_balance_record (store_short_record k ord c) = get_balance_record c"
  "get_balance_record (store_collateral_record k col c) = get_balance_record c"
  "get_balance_record (store_transaction ti tr c) = get_balance_record c"
  by (cases c; simp add: fun_eq_iff at_defs p_defs db_defs Let_def cong: option.case_cong
      split del: if_split; auto split: if_splits option.splits)+

lemma proposal_untouched [table_simps]:
  "get_proposal_record (set_property i v c) = get_proposal_record c"
  "get_proposal_record (store_asset_record r c) = get_proposal_record c"
  "get_proposal_record (store_account_record e ac c) = get_proposal_record c"
  "get_proposal_record (store_balance_record e b c) = get_proposal_record c"
  "get_proposal_record (store_proposal_vote pv c) = get_proposal_record c"
  "get_proposal_record (store_bid_record k ord c) = get_proposal_record c"
  "get_proposal_record (store_ask_record k ord c) = get_proposal_record c"
  "get_proposal_record (store_short_record k ord c) = get_proposal_record c"
  "get_proposal_record (store_collateral_record k col c) = get_proposal_record c"
  "get_proposal_record (store_transaction ti tr c) = get_proposal_record c"
  by (cases c; simp add: fun_eq_iff at_defs p_defs db_defs Let_def cong: option.case_cong
      split del: if_split; auto split: if_splits option.splits)+

lemma vote_untouched [table_simps]:
  "get_proposal_vote (set_property i v c) = get_proposal_vote c"
  "get_proposal_vote (store_asset_record r c) = get_proposal_vote c"
  "get_proposal_vote (store_account_record e ac c) = get_proposal_vote c"
  "get_proposal_vote (store_balance_record e b c) = get_proposal_vote c"
  "get_proposal_vote (store_proposal_record pr c) = get_proposal_vote c"
  "get_proposal_vote (store_bid_record k ord c) = get_proposal_vote c"
  "get_proposal_vote (store_ask_record k ord c) = get_proposal_vote c"
  "get_proposal_vote (store_short_record k ord c) = get_proposal_vote c"
  "get_proposal_vote (store_collateral_record k col c) = get_proposal_vote c"
  "get_proposal_vote (store_transaction ti tr c) = get_proposal_vote c"
  by (cases c; simp add: fun_eq_iff at_defs p_defs db_defs Let_def cong: option.case_cong
      split del: if_split; auto split: if_splits option.splits)+

lemma bid_untouched [table_simps]:
  "get_bid_at (set_property i v c) = get_bid_at c"
  "get_bid_at (store_asset_record r c) = get_bid_at c"
  "get_bid_at (store_account_record e ac c) = get_bid_at c"
  "get_bid_at (store_balance_record e b c) = get_bid_at c"
  "get_bid_at (store_proposal_record pr c) = get_bid_at c"
  "get_bid_at (store_proposal_vote pv c) = get_bid_at c"
  "get_bid_at (store_ask_record k ord c) = get_bid_at c"
  "get_bid_at (store_short_record k ord c) = get_bid_at c"
  "get_bid_at (store_collateral_record k col c) = get_bid_at c"
  "get_bid_at (store_transaction ti tr c) = get_bid_at c"
  by (cases c; simp add: fun_eq_iff at_defs p_defs db_defs Let_def cong: option.case_cong
      split del: if_split; auto split: if_splits option.splits)+

lemma ask_untouched [table_simps]:
  "get_ask_at (set_property i v c) = get_ask_at c"
  "get_ask_at (store_asset_record r c) = get_ask_at c"
  "get_ask_at (store_account_record e ac c) = get_ask_at c"
  "get_ask_at (store_balance_record e b c) = get_ask_at c"
  "get_ask_at (store_proposal_record pr c) = get_ask_at c"
  "get_ask_at (store_proposal_vote pv c) = get_ask_at c"
  "get_ask_at (store_bid_record k ord c) = get_ask_at c"
  "get_ask_at (store_short_record k ord c) = get_ask_at c"
  "get_ask_at (store_collateral_record k col c) = get_ask_at c"
  "get_ask_at (store_transaction ti tr c) = get_ask_at c"
  by (cases c; simp add: fun_eq_iff at_defs p_defs db_defs Let_def cong: option.case_cong
      split del: if_split; auto split: if_splits option.splits)+

lemma transaction_untouched [table_simps]:
  "get_transaction_at (set_property i v c) = get_transaction_at c"
  "get_transaction_at (store_asset_record r c) = get_transaction_at c"
  "get_transaction_at (store_account_record e ac c) = get_transaction_at c"
  "get_transaction_at (store_balance_record e b c) = get_transaction_at c"
  "get_transaction_at (store_proposal_record pr c) = get_transaction_at c"
  "get_transaction_at (store_proposal_vote pv c) = get_transaction_at c"
  "get_transaction_at (store_bid_record k ord c) = get_transaction_at c"
  "get_transaction_at (store_ask_record k ord c) = get_transaction_at c"
  "get_transaction_at (store_short_record k ord c) = get_transaction_at c"
  "get_transaction_at (store_collateral_record k col c) = get_transaction_at c"
  by (cases c; simp add: fun_eq_iff at_defs p_defs db_defs Let_def cong: option.case_cong
      split del: if_split; auto split: if_splits option.splits)+

section \<open>The contract holds\<close>

text \<open>Each table by the laws of its lookup: what is null is removed, everything else is kept.\<close>

interpretation asset_table: chain_table get_asset_record "\<lambda>_. store_asset_record"
  "\<lambda>i r. as_id r = i" "\<lambda>r. if asset_is_null r then None else Some r"
  by unfold_locales
    (auto simp: table_simps db_defs fun_eq_iff update_conv' delete_conv' is_database_def split: chain.splits)

interpretation balance_table: chain_table get_balance_record "\<lambda>_. store_balance_record e"
  "\<lambda>i r. balance_id e r = i" "\<lambda>r. if balance_is_null r then None else Some r" for e
  by unfold_locales
    (auto simp: table_simps db_defs fun_eq_iff update_conv' delete_conv' is_database_def split: chain.splits)

interpretation account_table: chain_table get_account_record "\<lambda>_. store_account_record e"
  "\<lambda>i r. ac_id r = i" "\<lambda>r. if account_is_null r then None else Some r" for e
  by unfold_locales
    (auto simp: table_simps db_defs Let_def fun_eq_iff update_conv' delete_conv' is_database_def
      split: chain.splits option.splits)

interpretation proposal_table: chain_table get_proposal_record "\<lambda>_. store_proposal_record"
  "\<lambda>i r. pr_id r = i" "\<lambda>r. if proposal_is_null r then None else Some r"
  by unfold_locales
    (auto simp: table_simps db_defs fun_eq_iff update_conv' delete_conv' is_database_def split: chain.splits)

interpretation vote_table: chain_table get_proposal_vote "\<lambda>_. store_proposal_vote"
  "\<lambda>i r. pv_id r = i" "\<lambda>r. if vote_is_null r then None else Some r"
  by unfold_locales
    (auto simp: table_simps db_defs fun_eq_iff update_conv' delete_conv' is_database_def split: chain.splits)

interpretation bid_table: chain_table get_bid_at "\<lambda>_ (k, r). store_bid_record k r"
  "\<lambda>m (k, _). market_key k = m" "\<lambda>(_, r). if order_is_null r then None else Some r"
  by unfold_locales
    (auto simp: table_simps db_defs fun_eq_iff update_conv' delete_conv' is_database_def get_bid_at_def
      market_find_def market_put_def market_remove_def split: chain.splits if_splits)

interpretation ask_table: chain_table get_ask_at "\<lambda>_ (k, r). store_ask_record k r"
  "\<lambda>m (k, _). market_key k = m" "\<lambda>(_, r). if order_is_null r then None else Some r"
  by unfold_locales
    (auto simp: table_simps db_defs fun_eq_iff update_conv' delete_conv' is_database_def get_ask_at_def
      market_find_def market_put_def market_remove_def split: chain.splits if_splits)

interpretation property_table: chain_table get_property_at set_property
  "\<lambda>_ _. True" "\<lambda>v. if v = null_value then None else Some v"
  by unfold_locales
    (auto simp: table_simps db_defs fun_eq_iff update_conv' delete_conv' is_database_def get_property_at_def
      split: chain.splits option.splits)

interpretation transaction_table: chain_table get_transaction_at store_transaction "\<lambda>_ _. True" Some
  by unfold_locales
    (auto simp: table_simps db_defs fun_eq_iff update_conv' is_database_def get_transaction_at_def
      split: chain.splits)

section \<open>Applying a pending state\<close>

text \<open>
  The tables of a pending state are maps and hold every record under its own key. The empty state is
  of this kind, and every store keeps it.
\<close>

definition pending_ok :: "env \<Rightarrow> pending_chain_state \<Rightarrow> bool" where
  "pending_ok e p \<longleftrightarrow>
    table_ok (\<lambda>i r. as_id r = i) (assets p) \<and>
    table_ok (\<lambda>i r. ac_id r = i) (accounts p) \<and>
    table_ok (\<lambda>i r. balance_id e r = i) (balances p) \<and>
    table_ok (\<lambda>i r. pr_id r = i) (proposals p) \<and>
    table_ok (\<lambda>i r. pv_id r = i) (proposal_votes p) \<and>
    table_ok (\<lambda>m (k, _). market_key k = m) (bids p) \<and>
    table_ok (\<lambda>m (k, _). market_key k = m) (asks p) \<and>
    table_ok (\<lambda>_ _. True) (properties p) \<and>
    table_ok (\<lambda>_ _. True) (transactions p)"

lemma pending_ok_new: "pending_ok e new_pending_state"
  by (simp add: pending_ok_def new_pending_state_def)

lemma pending_ok_store:
  assumes "pending_ok e p"
  shows "pending_ok e (p_store_asset_record r p)" "pending_ok e (p_store_balance_record e b p)"
    "pending_ok e (p_store_account_record e ac p)" "pending_ok e (p_store_transaction ti tr p)"
    "pending_ok e (p_set_property i v p)" "pending_ok e (p_store_proposal_record pr p)"
    "pending_ok e (p_store_proposal_vote pv p)" "pending_ok e (p_store_bid_record k ord p)"
    "pending_ok e (p_store_ask_record k ord p)"
  using assms
proof -
  have market: "table_ok (\<lambda>m (k, _). market_key k = m) (market_store k x t)"
    if "table_ok (\<lambda>m (k, _). market_key k = m) t" for k and x :: order_record and t
    unfolding market_store_def
    by (rule table_ok_update [OF that]) (use that in \<open>auto simp: table_ok_def dest!: map_of_SomeD split: option.split\<close>)
  show "pending_ok e (p_store_asset_record r p)" "pending_ok e (p_store_balance_record e b p)"
    "pending_ok e (p_store_account_record e ac p)" "pending_ok e (p_store_transaction ti tr p)"
    "pending_ok e (p_set_property i v p)" "pending_ok e (p_store_proposal_record pr p)"
    "pending_ok e (p_store_proposal_vote pv p)" "pending_ok e (p_store_bid_record k ord p)"
    "pending_ok e (p_store_ask_record k ord p)"
    using assms by (simp_all add: pending_ok_def p_defs market table_ok_update)
qed

lemma is_database_apply_changes: "is_database c \<Longrightarrow> is_database (apply_changes e p c)"
  unfolding apply_changes_def Let_def
  by (cases "c = No_State") (simp_all add: apply_list_same [where get = is_database] table_simps case_prod_beta)

lemma get_apply_changes:
  assumes "is_database c" and "pending_ok e p"
  shows
    "get_asset_record (apply_changes e p c) i1 =
      (case map_of (assets p) i1 of None \<Rightarrow> get_asset_record c i1 | Some v \<Rightarrow> (\<lambda>r. if asset_is_null r then None else Some r) v)"
    "get_account_record (apply_changes e p c) i2 =
      (case map_of (accounts p) i2 of None \<Rightarrow> get_account_record c i2 | Some v \<Rightarrow> (\<lambda>r. if account_is_null r then None else Some r) v)"
    "get_balance_record (apply_changes e p c) i3 =
      (case map_of (balances p) i3 of None \<Rightarrow> get_balance_record c i3 | Some v \<Rightarrow> (\<lambda>r. if balance_is_null r then None else Some r) v)"
    "get_proposal_record (apply_changes e p c) i4 =
      (case map_of (proposals p) i4 of None \<Rightarrow> get_proposal_record c i4 | Some v \<Rightarrow> (\<lambda>r. if proposal_is_null r then None else Some r) v)"
    "get_proposal_vote (apply_changes e p c) i5 =
      (case map_of (proposal_votes p) i5 of None \<Rightarrow> get_proposal_vote c i5 | Some v \<Rightarrow> (\<lambda>r. if vote_is_null r then None else Some r) v)"
    "get_bid_at (apply_changes e p c) i6 =
      (case map_of (bids p) i6 of None \<Rightarrow> get_bid_at c i6 | Some v \<Rightarrow> (\<lambda>(_, r). if order_is_null r then None else Some r) v)"
    "get_ask_at (apply_changes e p c) i7 =
      (case map_of (asks p) i7 of None \<Rightarrow> get_ask_at c i7 | Some v \<Rightarrow> (\<lambda>(_, r). if order_is_null r then None else Some r) v)"
    "get_property_at (apply_changes e p c) i8 =
      (case map_of (properties p) i8 of None \<Rightarrow> get_property_at c i8 | Some v \<Rightarrow> (\<lambda>v. if v = null_value then None else Some v) v)"
    "get_transaction_at (apply_changes e p c) i9 =
      (case map_of (transactions p) i9 of None \<Rightarrow> get_transaction_at c i9 | Some v \<Rightarrow> (Some) v)"
proof -
  have c: "c \<noteq> No_State" using assms(1) by (auto simp: is_database_def)
  note ok = assms(2) [unfolded pending_ok_def]
  show "get_asset_record (apply_changes e p c) i1 =
      (case map_of (assets p) i1 of None \<Rightarrow> get_asset_record c i1 | Some v \<Rightarrow> (\<lambda>r. if asset_is_null r then None else Some r) v)"
    unfolding apply_changes_def Let_def
    using c ok
    by (simp add: apply_list_same [where get = get_asset_record] apply_list_same [where get = is_database]
        table_simps case_prod_beta assms(1) asset_table.get_apply cong: option.case_cong)
  show "get_account_record (apply_changes e p c) i2 =
      (case map_of (accounts p) i2 of None \<Rightarrow> get_account_record c i2 | Some v \<Rightarrow> (\<lambda>r. if account_is_null r then None else Some r) v)"
    unfolding apply_changes_def Let_def
    using c ok
    by (simp add: apply_list_same [where get = get_account_record] apply_list_same [where get = is_database]
        table_simps case_prod_beta assms(1) account_table.get_apply cong: option.case_cong)
  show "get_balance_record (apply_changes e p c) i3 =
      (case map_of (balances p) i3 of None \<Rightarrow> get_balance_record c i3 | Some v \<Rightarrow> (\<lambda>r. if balance_is_null r then None else Some r) v)"
    unfolding apply_changes_def Let_def
    using c ok
    by (simp add: apply_list_same [where get = get_balance_record] apply_list_same [where get = is_database]
        table_simps case_prod_beta assms(1) balance_table.get_apply cong: option.case_cong)
  show "get_proposal_record (apply_changes e p c) i4 =
      (case map_of (proposals p) i4 of None \<Rightarrow> get_proposal_record c i4 | Some v \<Rightarrow> (\<lambda>r. if proposal_is_null r then None else Some r) v)"
    unfolding apply_changes_def Let_def
    using c ok
    by (simp add: apply_list_same [where get = get_proposal_record] apply_list_same [where get = is_database]
        table_simps case_prod_beta assms(1) proposal_table.get_apply cong: option.case_cong)
  show "get_proposal_vote (apply_changes e p c) i5 =
      (case map_of (proposal_votes p) i5 of None \<Rightarrow> get_proposal_vote c i5 | Some v \<Rightarrow> (\<lambda>r. if vote_is_null r then None else Some r) v)"
    unfolding apply_changes_def Let_def
    using c ok
    by (simp add: apply_list_same [where get = get_proposal_vote] apply_list_same [where get = is_database]
        table_simps case_prod_beta assms(1) vote_table.get_apply cong: option.case_cong)
  show "get_bid_at (apply_changes e p c) i6 =
      (case map_of (bids p) i6 of None \<Rightarrow> get_bid_at c i6 | Some v \<Rightarrow> (\<lambda>(_, r). if order_is_null r then None else Some r) v)"
    unfolding apply_changes_def Let_def
    using c ok
    by (simp add: apply_list_same [where get = get_bid_at] apply_list_same [where get = is_database]
        table_simps case_prod_beta assms(1) bid_table.get_apply cong: option.case_cong)
  show "get_ask_at (apply_changes e p c) i7 =
      (case map_of (asks p) i7 of None \<Rightarrow> get_ask_at c i7 | Some v \<Rightarrow> (\<lambda>(_, r). if order_is_null r then None else Some r) v)"
    unfolding apply_changes_def Let_def
    using c ok
    by (simp add: apply_list_same [where get = get_ask_at] apply_list_same [where get = is_database]
        table_simps case_prod_beta assms(1) ask_table.get_apply cong: option.case_cong)
  show "get_property_at (apply_changes e p c) i8 =
      (case map_of (properties p) i8 of None \<Rightarrow> get_property_at c i8 | Some v \<Rightarrow> (\<lambda>v. if v = null_value then None else Some v) v)"
    unfolding apply_changes_def Let_def
    using c ok
    by (simp add: apply_list_same [where get = get_property_at] apply_list_same [where get = is_database]
        table_simps case_prod_beta assms(1) property_table.get_apply cong: option.case_cong)
  show "get_transaction_at (apply_changes e p c) i9 =
      (case map_of (transactions p) i9 of None \<Rightarrow> get_transaction_at c i9 | Some v \<Rightarrow> (Some) v)"
    unfolding apply_changes_def Let_def
    using c ok
    by (simp add: apply_list_same [where get = get_transaction_at] apply_list_same [where get = is_database]
        table_simps case_prod_beta assms(1) transaction_table.get_apply cong: option.case_cong)
qed


section \<open>The undo state\<close>

text \<open>A fold whose steps look something up and store it.\<close>

lemma fold_res_lookups:
  assumes "fold_res f t s = Inr s'" and "\<And>x s. f x s = res_bind (g x) (\<lambda>v. Inr (upd x v s))"
  shows "s' = fold (\<lambda>x. upd x (projr (g x))) t s" and "x \<in> set t \<Longrightarrow> \<exists>v. g x = Inr v"
  using assms(1)
  by (induction t arbitrary: s) (auto simp: assms(2) res_bind_eq_Inr)

text \<open>
  A database holds no null record, and every record under its own key; what \<open>get_put\<close> of the tables
  says of every store.
\<close>

definition db_ok :: "env \<Rightarrow> chain \<Rightarrow> bool" where
  "db_ok e c \<longleftrightarrow> is_database c
    \<and> (\<forall>i r. get_asset_record c i = Some r \<longrightarrow> as_id r = i \<and> \<not> asset_is_null r)
    \<and> (\<forall>i r. get_account_record c i = Some r \<longrightarrow> ac_id r = i \<and> \<not> account_is_null r)
    \<and> (\<forall>i r. get_balance_record c i = Some r \<longrightarrow> balance_id e r = i \<and> \<not> balance_is_null r)
    \<and> (\<forall>i r. get_proposal_record c i = Some r \<longrightarrow> pr_id r = i \<and> \<not> proposal_is_null r)
    \<and> (\<forall>i r. get_proposal_vote c i = Some r \<longrightarrow> pv_id r = i \<and> \<not> vote_is_null r)
    \<and> (\<forall>k r. get_bid_record c k = Some r \<longrightarrow> \<not> order_is_null r)
    \<and> (\<forall>k r. get_ask_record c k = Some r \<longrightarrow> \<not> order_is_null r)
    \<and> (\<forall>i. get_property c i \<noteq> Inr null_value)"

lemmas undo_defs = undo_assets_def undo_accounts_def undo_proposals_def undo_proposal_votes_def
  undo_balances_def undo_bids_def undo_asks_def

text \<open>The tables of the undo state.\<close>

definition is_undo_of :: "env \<Rightarrow> chain \<Rightarrow> pending_chain_state \<Rightarrow> pending_chain_state \<Rightarrow> bool" where
  "is_undo_of e c p u \<longleftrightarrow>
    assets u = replace_with (\<lambda>i r. case get_asset_record c i of Some old \<Rightarrow> old | None \<Rightarrow> asset_make_null r) (assets p)
  \<and> accounts u = replace_with (\<lambda>i r. case get_account_record c i of Some old \<Rightarrow> old | None \<Rightarrow> account_make_null r) (accounts p)
  \<and> balances u = replace_with (\<lambda>i r. case get_balance_record c i of Some old \<Rightarrow> old | None \<Rightarrow> balance_make_null r) (balances p)
  \<and> proposals u = replace_with (\<lambda>i r. case get_proposal_record c i of Some old \<Rightarrow> old | None \<Rightarrow> proposal_make_null r) (proposals p)
  \<and> proposal_votes u = replace_with (\<lambda>i r. case get_proposal_vote c i of Some old \<Rightarrow> old | None \<Rightarrow> vote_make_null r) (proposal_votes p)
  \<and> bids u = replace_with (\<lambda>m v. (fst v, case get_bid_record c (fst v) of Some old \<Rightarrow> old | None \<Rightarrow> new_order_record)) (bids p)
  \<and> asks u = replace_with (\<lambda>m v. (fst v, case get_ask_record c (fst v) of Some old \<Rightarrow> old | None \<Rightarrow> new_order_record)) (asks p)
  \<and> properties u = replace_with (\<lambda>i v. projr (get_property c i)) (properties p)
  \<and> transactions u = replace_with (\<lambda>i r. case projr (get_transaction c i) of Some old \<Rightarrow> old | None \<Rightarrow> new_transaction_record) (transactions p)
  \<and> (\<forall>i\<in>fst ` set (properties p). \<exists>v. get_property c i = Inr v)"

named_theorems undo_simps \<open>the tables of the undo state\<close>

lemma undo_assets_same [undo_simps]:
  "accounts (undo_assets c t u) = accounts u"
  "balances (undo_assets c t u) = balances u"
  "proposals (undo_assets c t u) = proposals u"
  "proposal_votes (undo_assets c t u) = proposal_votes u"
  "bids (undo_assets c t u) = bids u"
  "asks (undo_assets c t u) = asks u"
  "properties (undo_assets c t u) = properties u"
  "transactions (undo_assets c t u) = transactions u"
  "shorts (undo_assets c t u) = shorts u"
  "collateral (undo_assets c t u) = collateral u"
  by (simp_all add: undo_assets_def p_defs case_prod_beta fold_same [where field = accounts]
    fold_same [where field = balances]
    fold_same [where field = proposals]
    fold_same [where field = proposal_votes]
    fold_same [where field = bids]
    fold_same [where field = asks]
    fold_same [where field = properties]
    fold_same [where field = transactions]
    fold_same [where field = shorts]
    fold_same [where field = collateral])

lemma undo_accounts_same [undo_simps]:
  "assets (undo_accounts e c t u) = assets u"
  "balances (undo_accounts e c t u) = balances u"
  "proposals (undo_accounts e c t u) = proposals u"
  "proposal_votes (undo_accounts e c t u) = proposal_votes u"
  "bids (undo_accounts e c t u) = bids u"
  "asks (undo_accounts e c t u) = asks u"
  "properties (undo_accounts e c t u) = properties u"
  "transactions (undo_accounts e c t u) = transactions u"
  "shorts (undo_accounts e c t u) = shorts u"
  "collateral (undo_accounts e c t u) = collateral u"
  by (simp_all add: undo_accounts_def p_defs case_prod_beta fold_same [where field = assets]
    fold_same [where field = balances]
    fold_same [where field = proposals]
    fold_same [where field = proposal_votes]
    fold_same [where field = bids]
    fold_same [where field = asks]
    fold_same [where field = properties]
    fold_same [where field = transactions]
    fold_same [where field = shorts]
    fold_same [where field = collateral])

lemma undo_balances_same [undo_simps]:
  "assets (undo_balances e c t u) = assets u"
  "accounts (undo_balances e c t u) = accounts u"
  "proposals (undo_balances e c t u) = proposals u"
  "proposal_votes (undo_balances e c t u) = proposal_votes u"
  "bids (undo_balances e c t u) = bids u"
  "asks (undo_balances e c t u) = asks u"
  "properties (undo_balances e c t u) = properties u"
  "transactions (undo_balances e c t u) = transactions u"
  "shorts (undo_balances e c t u) = shorts u"
  "collateral (undo_balances e c t u) = collateral u"
  by (simp_all add: undo_balances_def p_defs case_prod_beta fold_same [where field = assets]
    fold_same [where field = accounts]
    fold_same [where field = proposals]
    fold_same [where field = proposal_votes]
    fold_same [where field = bids]
    fold_same [where field = asks]
    fold_same [where field = properties]
    fold_same [where field = transactions]
    fold_same [where field = shorts]
    fold_same [where field = collateral])

lemma undo_proposals_same [undo_simps]:
  "assets (undo_proposals c t u) = assets u"
  "accounts (undo_proposals c t u) = accounts u"
  "balances (undo_proposals c t u) = balances u"
  "proposal_votes (undo_proposals c t u) = proposal_votes u"
  "bids (undo_proposals c t u) = bids u"
  "asks (undo_proposals c t u) = asks u"
  "properties (undo_proposals c t u) = properties u"
  "transactions (undo_proposals c t u) = transactions u"
  "shorts (undo_proposals c t u) = shorts u"
  "collateral (undo_proposals c t u) = collateral u"
  by (simp_all add: undo_proposals_def p_defs case_prod_beta fold_same [where field = assets]
    fold_same [where field = accounts]
    fold_same [where field = balances]
    fold_same [where field = proposal_votes]
    fold_same [where field = bids]
    fold_same [where field = asks]
    fold_same [where field = properties]
    fold_same [where field = transactions]
    fold_same [where field = shorts]
    fold_same [where field = collateral])

lemma undo_proposal_votes_same [undo_simps]:
  "assets (undo_proposal_votes c t u) = assets u"
  "accounts (undo_proposal_votes c t u) = accounts u"
  "balances (undo_proposal_votes c t u) = balances u"
  "proposals (undo_proposal_votes c t u) = proposals u"
  "bids (undo_proposal_votes c t u) = bids u"
  "asks (undo_proposal_votes c t u) = asks u"
  "properties (undo_proposal_votes c t u) = properties u"
  "transactions (undo_proposal_votes c t u) = transactions u"
  "shorts (undo_proposal_votes c t u) = shorts u"
  "collateral (undo_proposal_votes c t u) = collateral u"
  by (simp_all add: undo_proposal_votes_def p_defs case_prod_beta fold_same [where field = assets]
    fold_same [where field = accounts]
    fold_same [where field = balances]
    fold_same [where field = proposals]
    fold_same [where field = bids]
    fold_same [where field = asks]
    fold_same [where field = properties]
    fold_same [where field = transactions]
    fold_same [where field = shorts]
    fold_same [where field = collateral])

lemma undo_bids_same [undo_simps]:
  "assets (undo_bids c t u) = assets u"
  "accounts (undo_bids c t u) = accounts u"
  "balances (undo_bids c t u) = balances u"
  "proposals (undo_bids c t u) = proposals u"
  "proposal_votes (undo_bids c t u) = proposal_votes u"
  "asks (undo_bids c t u) = asks u"
  "properties (undo_bids c t u) = properties u"
  "transactions (undo_bids c t u) = transactions u"
  "shorts (undo_bids c t u) = shorts u"
  "collateral (undo_bids c t u) = collateral u"
  by (simp_all add: undo_bids_def p_defs case_prod_beta fold_same [where field = assets]
    fold_same [where field = accounts]
    fold_same [where field = balances]
    fold_same [where field = proposals]
    fold_same [where field = proposal_votes]
    fold_same [where field = asks]
    fold_same [where field = properties]
    fold_same [where field = transactions]
    fold_same [where field = shorts]
    fold_same [where field = collateral])

lemma undo_asks_same [undo_simps]:
  "assets (undo_asks c t u) = assets u"
  "accounts (undo_asks c t u) = accounts u"
  "balances (undo_asks c t u) = balances u"
  "proposals (undo_asks c t u) = proposals u"
  "proposal_votes (undo_asks c t u) = proposal_votes u"
  "bids (undo_asks c t u) = bids u"
  "properties (undo_asks c t u) = properties u"
  "transactions (undo_asks c t u) = transactions u"
  "shorts (undo_asks c t u) = shorts u"
  "collateral (undo_asks c t u) = collateral u"
  by (simp_all add: undo_asks_def p_defs case_prod_beta fold_same [where field = assets]
    fold_same [where field = accounts]
    fold_same [where field = balances]
    fold_same [where field = proposals]
    fold_same [where field = proposal_votes]
    fold_same [where field = bids]
    fold_same [where field = properties]
    fold_same [where field = transactions]
    fold_same [where field = shorts]
    fold_same [where field = collateral])

lemma undo_properties_same [undo_simps]:
  "assets (fold (\<lambda>x. p_set_property (fst x) (h x)) t u) = assets u"
  "accounts (fold (\<lambda>x. p_set_property (fst x) (h x)) t u) = accounts u"
  "balances (fold (\<lambda>x. p_set_property (fst x) (h x)) t u) = balances u"
  "proposals (fold (\<lambda>x. p_set_property (fst x) (h x)) t u) = proposals u"
  "proposal_votes (fold (\<lambda>x. p_set_property (fst x) (h x)) t u) = proposal_votes u"
  "bids (fold (\<lambda>x. p_set_property (fst x) (h x)) t u) = bids u"
  "asks (fold (\<lambda>x. p_set_property (fst x) (h x)) t u) = asks u"
  "transactions (fold (\<lambda>x. p_set_property (fst x) (h x)) t u) = transactions u"
  "shorts (fold (\<lambda>x. p_set_property (fst x) (h x)) t u) = shorts u"
  "collateral (fold (\<lambda>x. p_set_property (fst x) (h x)) t u) = collateral u"
  by (simp_all add: p_defs case_prod_beta fold_same [where field = assets]
    fold_same [where field = accounts]
    fold_same [where field = balances]
    fold_same [where field = proposals]
    fold_same [where field = proposal_votes]
    fold_same [where field = bids]
    fold_same [where field = asks]
    fold_same [where field = transactions]
    fold_same [where field = shorts]
    fold_same [where field = collateral])

lemma undo_transactions_same [undo_simps]:
  "assets (fold (\<lambda>x. p_store_transaction (fst x) (h x)) t u) = assets u"
  "accounts (fold (\<lambda>x. p_store_transaction (fst x) (h x)) t u) = accounts u"
  "balances (fold (\<lambda>x. p_store_transaction (fst x) (h x)) t u) = balances u"
  "proposals (fold (\<lambda>x. p_store_transaction (fst x) (h x)) t u) = proposals u"
  "proposal_votes (fold (\<lambda>x. p_store_transaction (fst x) (h x)) t u) = proposal_votes u"
  "bids (fold (\<lambda>x. p_store_transaction (fst x) (h x)) t u) = bids u"
  "asks (fold (\<lambda>x. p_store_transaction (fst x) (h x)) t u) = asks u"
  "properties (fold (\<lambda>x. p_store_transaction (fst x) (h x)) t u) = properties u"
  "shorts (fold (\<lambda>x. p_store_transaction (fst x) (h x)) t u) = shorts u"
  "collateral (fold (\<lambda>x. p_store_transaction (fst x) (h x)) t u) = collateral u"
  by (simp_all add: p_defs case_prod_beta fold_same [where field = assets]
    fold_same [where field = accounts]
    fold_same [where field = balances]
    fold_same [where field = proposals]
    fold_same [where field = proposal_votes]
    fold_same [where field = bids]
    fold_same [where field = asks]
    fold_same [where field = properties]
    fold_same [where field = shorts]
    fold_same [where field = collateral])

text \<open>The records of the undo state have the keys of those they replace.\<close>

lemma undo_assets_id:
  assumes "db_ok e c" and "table_ok (\<lambda>i r. as_id r = i) t" and "(i, r) \<in> set t"
  shows "as_id (case get_asset_record c i of Some old \<Rightarrow> old | None \<Rightarrow> asset_make_null r) = i"
  using assms by (auto simp: db_ok_def table_ok_def asset_make_null_def split: option.split)

lemma undo_accounts_id:
  assumes "db_ok e c" and "table_ok (\<lambda>i r. ac_id r = i) t" and "(i, r) \<in> set t"
  shows "ac_id (case get_account_record c i of Some old \<Rightarrow> old | None \<Rightarrow> account_make_null r) = i"
  using assms by (auto simp: db_ok_def table_ok_def account_make_null_def split: option.split)

lemma undo_balances_id:
  assumes "db_ok e c" and "table_ok (\<lambda>i r. balance_id e r = i) t" and "(i, r) \<in> set t"
  shows "balance_id e (case get_balance_record c i of Some old \<Rightarrow> old | None \<Rightarrow> balance_make_null r) = i"
  using assms by (auto simp: db_ok_def table_ok_def balance_make_null_def balance_id_def split: option.split)

lemma undo_proposals_id:
  assumes "db_ok e c" and "table_ok (\<lambda>i r. pr_id r = i) t" and "(i, r) \<in> set t"
  shows "pr_id (case get_proposal_record c i of Some old \<Rightarrow> old | None \<Rightarrow> proposal_make_null r) = i"
  using assms by (auto simp: db_ok_def table_ok_def proposal_make_null_def split: option.split)

lemma undo_proposal_votes_id:
  assumes "db_ok e c" and "table_ok (\<lambda>i r. pv_id r = i) t" and "(i, r) \<in> set t"
  shows "pv_id (case get_proposal_vote c i of Some old \<Rightarrow> old | None \<Rightarrow> vote_make_null r) = i"
  using assms by (cases i) (auto simp: db_ok_def table_ok_def vote_make_null_def split: option.split)

text \<open>Each undo function fills the table of its own.\<close>

lemma undo_assets_fills:
  assumes "db_ok e c" and "table_ok (\<lambda>i r. as_id r = i) t" and "assets u = []"
  shows "assets (undo_assets c t u) =
    replace_with (\<lambda>i r. case get_asset_record c i of Some old \<Rightarrow> old | None \<Rightarrow> asset_make_null r) t"
proof -
  have "assets (undo_assets c t u) = assets u @
    replace_with (\<lambda>i r. case get_asset_record c i of Some old \<Rightarrow> old | None \<Rightarrow> asset_make_null r) t"
    unfolding undo_assets_def
    by (rule field_fold)
      (use undo_assets_id [OF assms(1,2)] assms(2,3) in \<open>simp_all add: p_defs update_fresh table_ok_def\<close>)
  then show ?thesis using assms(3) by simp
qed

lemma undo_accounts_fills:
  assumes "db_ok e c" and "table_ok (\<lambda>i r. ac_id r = i) t" and "accounts u = []"
  shows "accounts (undo_accounts e c t u) =
    replace_with (\<lambda>i r. case get_account_record c i of Some old \<Rightarrow> old | None \<Rightarrow> account_make_null r) t"
proof -
  have "accounts (undo_accounts e c t u) = accounts u @
    replace_with (\<lambda>i r. case get_account_record c i of Some old \<Rightarrow> old | None \<Rightarrow> account_make_null r) t"
    unfolding undo_accounts_def
    by (rule field_fold)
      (use undo_accounts_id [OF assms(1,2)] assms(2,3) in \<open>simp_all add: p_defs update_fresh table_ok_def\<close>)
  then show ?thesis using assms(3) by simp
qed

lemma undo_balances_fills:
  assumes "db_ok e c" and "table_ok (\<lambda>i r. balance_id e r = i) t" and "balances u = []"
  shows "balances (undo_balances e c t u) =
    replace_with (\<lambda>i r. case get_balance_record c i of Some old \<Rightarrow> old | None \<Rightarrow> balance_make_null r) t"
proof -
  have "balances (undo_balances e c t u) = balances u @
    replace_with (\<lambda>i r. case get_balance_record c i of Some old \<Rightarrow> old | None \<Rightarrow> balance_make_null r) t"
    unfolding undo_balances_def
    by (rule field_fold)
      (use undo_balances_id [OF assms(1,2)] assms(2,3) in \<open>simp_all add: p_defs update_fresh table_ok_def\<close>)
  then show ?thesis using assms(3) by simp
qed

lemma undo_proposals_fills:
  assumes "db_ok e c" and "table_ok (\<lambda>i r. pr_id r = i) t" and "proposals u = []"
  shows "proposals (undo_proposals c t u) =
    replace_with (\<lambda>i r. case get_proposal_record c i of Some old \<Rightarrow> old | None \<Rightarrow> proposal_make_null r) t"
proof -
  have "proposals (undo_proposals c t u) = proposals u @
    replace_with (\<lambda>i r. case get_proposal_record c i of Some old \<Rightarrow> old | None \<Rightarrow> proposal_make_null r) t"
    unfolding undo_proposals_def
    by (rule field_fold)
      (use undo_proposals_id [OF assms(1,2)] assms(2,3) in \<open>simp_all add: p_defs update_fresh table_ok_def\<close>)
  then show ?thesis using assms(3) by simp
qed

lemma undo_proposal_votes_fills:
  assumes "db_ok e c" and "table_ok (\<lambda>i r. pv_id r = i) t" and "proposal_votes u = []"
  shows "proposal_votes (undo_proposal_votes c t u) =
    replace_with (\<lambda>i r. case get_proposal_vote c i of Some old \<Rightarrow> old | None \<Rightarrow> vote_make_null r) t"
proof -
  have "proposal_votes (undo_proposal_votes c t u) = proposal_votes u @
    replace_with (\<lambda>i r. case get_proposal_vote c i of Some old \<Rightarrow> old | None \<Rightarrow> vote_make_null r) t"
    unfolding undo_proposal_votes_def
    by (rule field_fold)
      (use undo_proposal_votes_id [OF assms(1,2)] assms(2,3) in \<open>simp_all add: p_defs update_fresh table_ok_def\<close>)
  then show ?thesis using assms(3) by simp
qed

lemma undo_bids_fills:
  assumes "table_ok (\<lambda>m (k, _). market_key k = m) t" and "bids u = []"
  shows "bids (undo_bids c t u) =
    replace_with (\<lambda>m v. (fst v, case get_bid_record c (fst v) of Some old \<Rightarrow> old | None \<Rightarrow> new_order_record)) t"
proof -
  have "bids (undo_bids c t u) = bids u @
    replace_with (\<lambda>m v. (fst v, case get_bid_record c (fst v) of Some old \<Rightarrow> old | None \<Rightarrow> new_order_record)) t"
    unfolding undo_bids_def
    by (rule field_fold)
      (use assms in \<open>auto simp: p_defs update_fresh table_ok_def market_store_def map_of_eq_None_iff [THEN iffD2]\<close>)
  then show ?thesis using assms(2) by simp
qed

lemma undo_asks_fills:
  assumes "table_ok (\<lambda>m (k, _). market_key k = m) t" and "asks u = []"
  shows "asks (undo_asks c t u) =
    replace_with (\<lambda>m v. (fst v, case get_ask_record c (fst v) of Some old \<Rightarrow> old | None \<Rightarrow> new_order_record)) t"
proof -
  have "asks (undo_asks c t u) = asks u @
    replace_with (\<lambda>m v. (fst v, case get_ask_record c (fst v) of Some old \<Rightarrow> old | None \<Rightarrow> new_order_record)) t"
    unfolding undo_asks_def
    by (rule field_fold)
      (use assms in \<open>auto simp: p_defs update_fresh table_ok_def market_store_def map_of_eq_None_iff [THEN iffD2]\<close>)
  then show ?thesis using assms(2) by simp
qed

lemma undo_properties_fills:
  assumes "distinct (map fst t)" and "properties u = []"
  shows "properties (fold (\<lambda>x. p_set_property (fst x) (h x)) t u) = replace_with (\<lambda>k v. h (k, v)) t"
proof -
  have "properties (fold (\<lambda>x. p_set_property (fst x) (h x)) t u) = properties u @ replace_with (\<lambda>k v. h (k, v)) t"
    by (rule field_fold) (use assms in \<open>simp_all add: p_defs update_fresh\<close>)
  then show ?thesis using assms(2) by simp
qed

lemma undo_transactions_fills:
  assumes "distinct (map fst t)" and "transactions u = []"
  shows "transactions (fold (\<lambda>x. p_store_transaction (fst x) (h x)) t u) = replace_with (\<lambda>k v. h (k, v)) t"
proof -
  have "transactions (fold (\<lambda>x. p_store_transaction (fst x) (h x)) t u) = transactions u @ replace_with (\<lambda>k v. h (k, v)) t"
    by (rule field_fold) (use assms in \<open>simp_all add: p_defs update_fresh\<close>)
  then show ?thesis using assms(2) by simp
qed

lemma get_undo_state_is_undo:
  assumes "db_ok e c" and "pending_ok e p" and "shorts p = []" and "collateral p = []"
    and "get_undo_state e p c = Inr u"
  shows "is_undo_of e c p u"
proof -
  note ok = assms(2) [unfolded pending_ok_def]
  from assms(5) obtain u1 u2 u3 where
    u1: "undo_properties c (properties p) new_pending_state = Inr u1" and
    u3: "u3 = undo_balances e c (balances p) (undo_proposal_votes c (proposal_votes p)
      (undo_proposals c (proposals p) (undo_accounts e c (accounts p) (undo_assets c (assets p) u1))))" and
    u2: "undo_transactions c (transactions p) u3 = Inr u2" and
    u: "u = undo_asks c (asks p) (undo_bids c (bids p) u2)"
    unfolding get_undo_state_def Let_def run_simps assms(3,4) undo_shorts_def undo_collateral_def
      fold_res.simps sum.inject by blast
  note u1 = fold_res_lookups [OF u1 [unfolded undo_properties_def],
      where g = "\<lambda>x. get_property c (fst x)" and upd = "\<lambda>x. p_set_property (fst x)", simplified case_prod_beta, OF refl]
  note u2 = fold_res_lookups [OF u2 [unfolded undo_transactions_def],
      where g = "\<lambda>x. get_transaction c (fst x)" and upd = "\<lambda>x t. p_store_transaction (fst x)
        (case t of Some old \<Rightarrow> old | None \<Rightarrow> new_transaction_record)", simplified case_prod_beta, OF refl]
  show ?thesis
    unfolding is_undo_of_def u u2(1) u3 u1(1)
    using ok u1(2) assms(1)
    by (auto simp: undo_simps undo_assets_fills undo_accounts_fills undo_balances_fills undo_proposals_fills
        undo_proposal_votes_fills undo_bids_fills undo_asks_fills undo_properties_fills undo_transactions_fills
        new_pending_state_def table_ok_def)
qed

section \<open>Undoing a block\<close>

lemmas null_defs = asset_is_null_def asset_make_null_def account_is_null_def account_make_null_def
  balance_is_null_def balance_make_null_def proposal_is_null_def proposal_make_null_def
  vote_is_null_def vote_make_null_def order_is_null_def new_order_record_def

lemma is_undo_of_ok:
  assumes "db_ok e c" and "pending_ok e p" and "is_undo_of e c p u"
  shows "pending_ok e u"
proof -
  note ok = assms(2) [unfolded pending_ok_def]
  note und = assms(3) [unfolded is_undo_of_def]
  from und have tables:
    "assets u = replace_with (\<lambda>i r. case get_asset_record c i of Some old \<Rightarrow> old | None \<Rightarrow> asset_make_null r) (assets p)"
    "accounts u = replace_with (\<lambda>i r. case get_account_record c i of Some old \<Rightarrow> old | None \<Rightarrow> account_make_null r) (accounts p)"
    "balances u = replace_with (\<lambda>i r. case get_balance_record c i of Some old \<Rightarrow> old | None \<Rightarrow> balance_make_null r) (balances p)"
    "proposals u = replace_with (\<lambda>i r. case get_proposal_record c i of Some old \<Rightarrow> old | None \<Rightarrow> proposal_make_null r) (proposals p)"
    "proposal_votes u = replace_with (\<lambda>i r. case get_proposal_vote c i of Some old \<Rightarrow> old | None \<Rightarrow> vote_make_null r) (proposal_votes p)"
    "bids u = replace_with (\<lambda>m v. (fst v, case get_bid_record c (fst v) of Some old \<Rightarrow> old | None \<Rightarrow> new_order_record)) (bids p)"
    "asks u = replace_with (\<lambda>m v. (fst v, case get_ask_record c (fst v) of Some old \<Rightarrow> old | None \<Rightarrow> new_order_record)) (asks p)"
    "properties u = replace_with (\<lambda>i v. projr (get_property c i)) (properties p)"
    "transactions u = replace_with (\<lambda>i r. case projr (get_transaction c i) of Some old \<Rightarrow> old | None \<Rightarrow> new_transaction_record) (transactions p)"
    by simp_all
  show ?thesis
    unfolding pending_ok_def
  proof (intro conjI)
    show "table_ok (\<lambda>i r. as_id r = i) (assets u)"
      unfolding tables(1) by (rule table_ok_replace) (use ok undo_assets_id [OF assms(1)] in blast)+
    show "table_ok (\<lambda>i r. ac_id r = i) (accounts u)"
      unfolding tables(2) by (rule table_ok_replace) (use ok undo_accounts_id [OF assms(1)] in blast)+
    show "table_ok (\<lambda>i r. balance_id e r = i) (balances u)"
      unfolding tables(3) by (rule table_ok_replace) (use ok undo_balances_id [OF assms(1)] in blast)+
    show "table_ok (\<lambda>i r. pr_id r = i) (proposals u)"
      unfolding tables(4) by (rule table_ok_replace) (use ok undo_proposals_id [OF assms(1)] in blast)+
    show "table_ok (\<lambda>i r. pv_id r = i) (proposal_votes u)"
      unfolding tables(5) by (rule table_ok_replace) (use ok undo_proposal_votes_id [OF assms(1)] in blast)+
    show "table_ok (\<lambda>m (k, _). market_key k = m) (bids u)"
      unfolding tables(6) by (rule table_ok_replace) (use ok in \<open>auto dest: table_ok_own\<close>)
    show "table_ok (\<lambda>m (k, _). market_key k = m) (asks u)"
      unfolding tables(7) by (rule table_ok_replace) (use ok in \<open>auto dest: table_ok_own\<close>)
    show "table_ok (\<lambda>_ _. True) (properties u)" "table_ok (\<lambda>_ _. True) (transactions u)"
      unfolding tables(8,9) by (rule table_ok_replace; use ok in simp)+
  qed
qed

text \<open>No store moves the head block, so the time of the chain stays.\<close>

lemma chain_now_store [table_simps]:
  "chain_now (store_asset_record r c) = chain_now c"
  "chain_now (store_balance_record e b c) = chain_now c"
  "chain_now (store_account_record e ac c) = chain_now c"
  "chain_now (set_property i v c) = chain_now c"
  "chain_now (store_proposal_record pr c) = chain_now c"
  "chain_now (store_proposal_vote pv c) = chain_now c"
  "chain_now (store_bid_record k ord c) = chain_now c"
  "chain_now (store_ask_record k ord c) = chain_now c"
  "chain_now (store_short_record k ord c) = chain_now c"
  "chain_now (store_collateral_record k col c) = chain_now c"
  "chain_now (store_transaction ti tr c) = chain_now c"
  by (cases c; simp add: db_defs Let_def split: option.split)+

lemma chain_now_apply: "chain_now (apply_changes e p c) = chain_now c"
  unfolding apply_changes_def Let_def
  by (simp add: apply_list_same [where get = chain_now] table_simps case_prod_beta)

lemma undo_restores:
  assumes "db_ok e c" and "pending_ok e p" and "is_undo_of e c p u"
  shows "get_asset_record (apply_changes e u (apply_changes e p c)) = get_asset_record c"
    and "get_account_record (apply_changes e u (apply_changes e p c)) = get_account_record c"
    and "get_balance_record (apply_changes e u (apply_changes e p c)) = get_balance_record c"
    and "get_proposal_record (apply_changes e u (apply_changes e p c)) = get_proposal_record c"
    and "get_proposal_vote (apply_changes e u (apply_changes e p c)) = get_proposal_vote c"
    and "get_bid_at (apply_changes e u (apply_changes e p c)) = get_bid_at c"
    and "get_ask_at (apply_changes e u (apply_changes e p c)) = get_ask_at c"
    and "get_property_at (apply_changes e u (apply_changes e p c)) = get_property_at c"
    and "get_transaction_at (apply_changes e u (apply_changes e p c)) i =
      (if i \<in> fst ` set (transactions p) \<and> get_transaction_at c i = None
       then Some new_transaction_record else get_transaction_at c i)"
proof -
  have db: "is_database c" using assms(1) by (simp add: db_ok_def)
  note ok = assms(2) is_undo_of_ok [OF assms]
  note last = get_apply_changes [OF is_database_apply_changes [OF db] ok(2), of e p]
  note first = get_apply_changes [OF db ok(1)]
  note dbs = assms(1) [unfolded db_ok_def] and und = assms(3) [unfolded is_undo_of_def]
  from und have tables:
    "assets u = replace_with (\<lambda>i r. case get_asset_record c i of Some old \<Rightarrow> old | None \<Rightarrow> asset_make_null r) (assets p)"
    "accounts u = replace_with (\<lambda>i r. case get_account_record c i of Some old \<Rightarrow> old | None \<Rightarrow> account_make_null r) (accounts p)"
    "balances u = replace_with (\<lambda>i r. case get_balance_record c i of Some old \<Rightarrow> old | None \<Rightarrow> balance_make_null r) (balances p)"
    "proposals u = replace_with (\<lambda>i r. case get_proposal_record c i of Some old \<Rightarrow> old | None \<Rightarrow> proposal_make_null r) (proposals p)"
    "proposal_votes u = replace_with (\<lambda>i r. case get_proposal_vote c i of Some old \<Rightarrow> old | None \<Rightarrow> vote_make_null r) (proposal_votes p)"
    "bids u = replace_with (\<lambda>m v. (fst v, case get_bid_record c (fst v) of Some old \<Rightarrow> old | None \<Rightarrow> new_order_record)) (bids p)"
    "asks u = replace_with (\<lambda>m v. (fst v, case get_ask_record c (fst v) of Some old \<Rightarrow> old | None \<Rightarrow> new_order_record)) (asks p)"
    "properties u = replace_with (\<lambda>i v. projr (get_property c i)) (properties p)"
    "transactions u = replace_with (\<lambda>i r. case projr (get_transaction c i) of Some old \<Rightarrow> old | None \<Rightarrow> new_transaction_record) (transactions p)"
    by simp_all
  show "get_asset_record (apply_changes e u (apply_changes e p c)) = get_asset_record c"
    by (rule replaced_value [OF first(1) last(1) [unfolded tables(1)]])
      (use dbs und  in \<open>auto simp: null_defs split: option.split\<close>)
  show "get_account_record (apply_changes e u (apply_changes e p c)) = get_account_record c"
    by (rule replaced_value [OF first(2) last(2) [unfolded tables(2)]])
      (use dbs und  in \<open>auto simp: null_defs split: option.split\<close>)
  show "get_balance_record (apply_changes e u (apply_changes e p c)) = get_balance_record c"
    by (rule replaced_value [OF first(3) last(3) [unfolded tables(3)]])
      (use dbs und  in \<open>auto simp: null_defs split: option.split\<close>)
  show "get_proposal_record (apply_changes e u (apply_changes e p c)) = get_proposal_record c"
    by (rule replaced_value [OF first(4) last(4) [unfolded tables(4)]])
      (use dbs und  in \<open>auto simp: null_defs split: option.split\<close>)
  show "get_proposal_vote (apply_changes e u (apply_changes e p c)) = get_proposal_vote c"
    by (rule replaced_value [OF first(5) last(5) [unfolded tables(5)]])
      (use dbs und  in \<open>auto simp: null_defs split: option.split\<close>)
  show "get_bid_at (apply_changes e u (apply_changes e p c)) = get_bid_at c"
    by (rule replaced_value [OF first(6) last(6) [unfolded tables(6)]])
      (use dbs und ok(1) [unfolded pending_ok_def] in \<open>auto simp: null_defs get_bid_at get_ask_at dest!: table_ok_own [of _ "bids p"] split: option.split\<close>)
  show "get_ask_at (apply_changes e u (apply_changes e p c)) = get_ask_at c"
    by (rule replaced_value [OF first(7) last(7) [unfolded tables(7)]])
      (use dbs und ok(1) [unfolded pending_ok_def] in \<open>auto simp: null_defs get_bid_at get_ask_at dest!: table_ok_own [of _ "asks p"] split: option.split\<close>)
  show "get_property_at (apply_changes e u (apply_changes e p c)) = get_property_at c"
    by (rule replaced_value [OF first(8) last(8) [unfolded tables(8)]])
      (use dbs und  in \<open>auto simp: get_property_at_def split: option.split\<close>)
  obtain t where t: "get_transaction c i = Inr t" using db by (cases c) (simp_all add: is_database_def)
  show "get_transaction_at (apply_changes e u (apply_changes e p c)) i =
      (if i \<in> fst ` set (transactions p) \<and> get_transaction_at c i = None
       then Some new_transaction_record else get_transaction_at c i)"
  proof (cases "map_of (transactions p) i")
    case None
    then show ?thesis using map_of_eq_None_iff [of "transactions p" i]
      by (simp add: first(9) last(9) tables(9) map_of_replace)
  next
    case (Some r)
    then have "i \<in> fst ` set (transactions p)" by (metis map_of_eq_None_iff option.distinct(1))
    moreover have "get_transaction_at c i = t" using t by (simp add: get_transaction_at_def)
    ultimately show ?thesis using Some t
      by (simp add: last(9) tables(9) map_of_replace split: option.split)
  qed
qed

text \<open>
  C20. Popping a block: the undo state that is computed before the changes of a block are applied to
  the database puts back every asset, account, balance, proposal, vote, order and property when it is
  applied after them, but not the transactions: one the block brought in is still there, as an empty
  record.
\<close>

theorem block_undo_restores:
  assumes "db_ok e c" and "pending_ok e p" and "shorts p = []" and "collateral p = []"
    and "get_undo_state e p c = Inr u"
  shows "get_asset_record (apply_changes e u (apply_changes e p c)) = get_asset_record c
    \<and> get_account_record (apply_changes e u (apply_changes e p c)) = get_account_record c
    \<and> get_balance_record (apply_changes e u (apply_changes e p c)) = get_balance_record c
    \<and> get_proposal_record (apply_changes e u (apply_changes e p c)) = get_proposal_record c
    \<and> get_proposal_vote (apply_changes e u (apply_changes e p c)) = get_proposal_vote c
    \<and> get_bid_record (apply_changes e u (apply_changes e p c)) = get_bid_record c
    \<and> get_ask_record (apply_changes e u (apply_changes e p c)) = get_ask_record c
    \<and> get_property_at (apply_changes e u (apply_changes e p c)) = get_property_at c
    \<and> get_transaction_at (apply_changes e u (apply_changes e p c)) = (\<lambda>i.
        if i \<in> fst ` set (transactions p) \<and> get_transaction_at c i = None
        then Some new_transaction_record else get_transaction_at c i)"
proof -
  note same = undo_restores [OF assms(1,2) get_undo_state_is_undo [OF assms]]
  have "get_bid_record (apply_changes e u (apply_changes e p c)) = get_bid_record c"
    "get_ask_record (apply_changes e u (apply_changes e p c)) = get_ask_record c"
    by (rule ext, simp add: get_bid_at get_ask_at same)+
  moreover have "get_transaction_at (apply_changes e u (apply_changes e p c)) = (\<lambda>i.
        if i \<in> fst ` set (transactions p) \<and> get_transaction_at c i = None
        then Some new_transaction_record else get_transaction_at c i)"
    by (rule ext) (rule same(9))
  ultimately show ?thesis using same(1-5,8) by simp
qed

text \<open>A block that spends a balance of the sample chain, with its undo state.\<close>

definition sample_block_state :: pending_chain_state where
  "sample_block_state = p_store_transaction (trx_id sample_env sample_payment) new_transaction_record
     (p_store_balance_record sample_env (sample_balance\<lparr>bal_balance := 200\<rparr>)
     (p_store_balance_record sample_env (sample_balance\<lparr>bal_condition := sample_condition 9\<rparr>) new_pending_state))"

lemma sample_db_ok: "db_ok sample_env (Database sample_db)"
proof -
  have "\<not> account_is_null sample_delegate" by code_simp
  then show ?thesis
    by (auto simp: db_ok_def is_database_def sample_db_def asset_is_null_def balance_is_null_def sample_asset_def
        sample_delegate_def sample_balance_def sample_saving_def sample_condition_def mk_condition_def
        balance_id_def condition_address_def sample_env_def market_find_def split: if_splits option.splits)
qed

lemma sample_block_ok:
  "pending_ok sample_env sample_block_state" "shorts sample_block_state = []" "collateral sample_block_state = []"
proof -
  show "pending_ok sample_env sample_block_state"
    unfolding sample_block_state_def by (intro pending_ok_store pending_ok_new)
qed (simp_all add: sample_block_state_def p_defs new_pending_state_def)

lemma sample_block_undo: "\<exists>u. get_undo_state sample_env sample_block_state (Database sample_db) = Inr u"
proof -
  have "returns (Some (get_undo_state sample_env sample_block_state (Database sample_db)))" by code_simp
  then show ?thesis by (auto dest: returnsE)
qed

theorem block_undo_restores_witness:
  "\<exists>u. get_undo_state sample_env sample_block_state (Database sample_db) = Inr u
    \<and> get_balance_record (apply_changes sample_env u
        (apply_changes sample_env sample_block_state (Database sample_db)))
      = get_balance_record (Database sample_db)"
  using sample_block_undo block_undo_restores [OF sample_db_ok sample_block_ok] by blast

text \<open>
  C27. A transaction of a popped block is lost: once the block is undone, the same transaction is
  rejected as a duplicate, in a new block as in the pending state, although the chain does not
  contain it any more.
\<close>

theorem undone_transaction_is_duplicate:
  assumes "db_ok e c" and "pending_ok e p" and "shorts p = []" and "collateral p = []"
    and "get_undo_state e p c = Inr u"
    and "c' = Pending new_pending_state (apply_changes e u (apply_changes e p c))"
    and "trx_id e t \<in> fst ` set (transactions p)"
    and "chain_now c' = Inr now" and "\<not> is_expired now t"
  shows "evaluate e t (new_eval_state c' d) = Some (Inl duplicate_transaction)"
proof -
  have "get_transaction_at (apply_changes e u (apply_changes e p c)) (trx_id e t) \<noteq> None"
    using undo_restores(9) [OF assms(1,2) get_undo_state_is_undo [OF assms(1-5)], of "trx_id e t"] assms(7)
    by simp
  then have "is_known e c' t"
    by (auto simp: assms(6) is_known_def new_pending_state_def get_transaction_at_def split: sum.splits)
  then show ?thesis
    using begin_evaluate_cases(2) [OF assms(8,9)] by (simp add: evaluate_def)
qed

theorem undone_transaction_is_duplicate_witness:
  "\<exists>u. get_undo_state sample_env sample_block_state (Database sample_db) = Inr u
    \<and> evaluate sample_env sample_payment (new_eval_state (Pending new_pending_state
        (apply_changes sample_env u (apply_changes sample_env sample_block_state (Database sample_db)))) [])
      = Some (Inl duplicate_transaction)"
proof -
  obtain u where u: "get_undo_state sample_env sample_block_state (Database sample_db) = Inr u"
    using sample_block_undo by blast
  have "chain_now (Pending new_pending_state
        (apply_changes sample_env u (apply_changes sample_env sample_block_state (Database sample_db)))) = Inr 30"
    unfolding chain_now.simps chain_now_apply
    by (simp add: sample_db_def sample_header_def)
  moreover have "trx_id sample_env sample_payment \<in> fst ` set (transactions sample_block_state)"
    by (simp add: sample_block_state_def p_defs new_pending_state_def)
  moreover have "\<not> is_expired 30 sample_payment"
    by (simp add: is_expired_def sample_payment_def sample_trx_def)
  ultimately show ?thesis
    using undone_transaction_is_duplicate [OF sample_db_ok sample_block_ok u refl] u by blast
qed

end
