(* ===== verification/Momentum.thy ===== *)
theory Momentum
  imports Sha2_Big
begin

text \<open>
  The momentum proof of work (\<open>fast_momentum.cpp\<close>, \<open>hashtable.hpp\<close>): a search for two nonces whose
  birthdays, 50 bits of a SHA-512, agree, and its verification. The search hashes with \<open>sph_sha512\<close>,
  eight birthdays at a time, in several threads that share one hash table without a lock; the
  verification hashes with OpenSSL, one birthday at a time. A step of a thread contains at most one
  access to a field of the shared table, so that two calls of \<open>store\<close> interleave access by access; a run
  is a schedule, the list of the threads in the order of their steps; a search that is cancelled is a
  schedule that stops early. The accesses themselves are taken to happen one after the other and whole,
  which is more than C++ promises for data that several threads write without synchronisation.
\<close>

section \<open>The hash tables\<close>

text \<open>What \<open>store\<close> returns for a key that was not there.\<close>

definition not_found :: u32 where
  "not_found = - 1"

text \<open>The table of \<open>hashtable.hpp\<close>, as a function from slots.\<close>

type_synonym slots = "nat \<Rightarrow> u64 \<times> u32"

definition TABLE_SIZE :: nat where
  "TABLE_SIZE = 100663296"

definition empty_slots :: slots where
  "empty_slots = (\<lambda>_. (0, 0))"

definition table_reset :: "slots \<Rightarrow> slots" where
  "table_reset table = empty_slots"

definition slot :: "u64 \<Rightarrow> nat" where
  "slot key = unat key mod TABLE_SIZE"

text \<open>
  \<open>store\<close> is a sequence of accesses to the fields of one slot: it compares the key, and then either reads
  the value or writes the key and the value. \<open>store_access\<close> is the next access of a call.
\<close>

datatype store_pc = Comparing | Reading | Writing_key | Writing_value | Returned u32

fun store_access :: "u64 \<Rightarrow> u32 \<Rightarrow> store_pc \<Rightarrow> slots \<Rightarrow> store_pc \<times> slots" where
  "store_access key v Comparing table = ((if fst (table (slot key)) = key then Reading else Writing_key), table)"
| "store_access key v Reading table = (Returned (snd (table (slot key))), table)"
| "store_access key v Writing_key table =
    (Writing_value, table(slot key := (key, snd (table (slot key)))))"
| "store_access key v Writing_value table =
    (Returned not_found, table(slot key := (fst (table (slot key)), v)))"
| "store_access key v (Returned w) table = (Returned w, table)"

text \<open>A call that nothing interrupts.\<close>

definition table_store :: "u64 \<Rightarrow> u32 \<Rightarrow> slots \<Rightarrow> u32 \<times> slots" where
  "table_store key v table =
    (let index = unat key mod TABLE_SIZE
     in if fst (table index) = key then (snd (table index), table)
        else (not_found, table(index := (key, v))))"

text \<open>The variant for Windows, with two smaller tables; its \<open>reset\<close> clears the first one twice.\<close>

record win_table =
  win_first :: slots
  win_second :: slots

definition WIN_TABLE_SIZE :: nat where
  "WIN_TABLE_SIZE = 2 ^ 25"

definition win_reset :: "win_table \<Rightarrow> win_table" where
  "win_reset t = t\<lparr>win_first := empty_slots\<rparr>\<lparr>win_first := empty_slots\<rparr>"

definition win_store :: "u64 \<Rightarrow> u32 \<Rightarrow> win_table \<Rightarrow> u32 \<times> win_table" where
  "win_store key v t =
    (let index = unat key mod WIN_TABLE_SIZE
     in if fst (win_first t index) \<noteq> 0
        then (if fst (win_first t index) = key then (snd (win_first t index), t)
              else if fst (win_second t index) = key then (snd (win_second t index), t)
              else (not_found, t\<lparr>win_second := (win_second t)(index := (key, v))\<rparr>))
        else (not_found, t\<lparr>win_first := (win_first t)(index := (key, v))\<rparr>))"

section \<open>The search\<close>

definition MAX_MOMENTUM_NONCE :: u32 where
  "MAX_MOMENTUM_NONCE = 2 ^ 26"

text \<open>
  The platform, the number of threads, the uninitialised context and the addresses on the stack of a
  thread, and the SHA-512 of OpenSSL.
\<close>

record miner =
  platform_of :: platform
  thread_count :: u64
  stack_context :: sha384_context
  at_i :: u64
  at_head :: u64
  at_result :: u64
  openssl_sha512 :: "bytes \<Rightarrow> bytes"

definition host :: "miner \<Rightarrow> arch" where
  "host m = arch_of (platform_of m)"

text \<open>The digest of a block of eight nonces (lines 47-52).\<close>

definition nonce_digest :: "miner \<Rightarrow> bytes \<Rightarrow> u32 \<Rightarrow> bytes option" where
  "nonce_digest m head i = do {
     let context = sph_sha512_init (stack_context m);
     context \<leftarrow> sph_sha512 (host m) (at_i m) (store32 (host m) i) context;
     context \<leftarrow> sph_sha512 (host m) (at_head m) head context;
     Some (fst (sph_sha512_close (host m) (at_result m) context))
   }"

text \<open>\<open>result._hash[x]\<close>, in the byte order of the machine.\<close>

definition hash_word :: "miner \<Rightarrow> bytes \<Rightarrow> nat \<Rightarrow> u64" where
  "hash_word m result x = load64 (host m) (take 8 (drop (8 * x) result))"

text \<open>
  A thread is at the test of its loop, or in the loop over the words of a digest, there before or within
  the call of \<open>store\<close> for the word \<open>x\<close>.
\<close>

datatype thread_state = Outer u32 | Inner u32 nat bytes store_pc

record search_state =
  found :: slots
  threads :: "nat \<Rightarrow> thread_state"
  results :: "nat \<Rightarrow> (u32 \<times> u32) list"

definition set_thread :: "nat \<Rightarrow> thread_state \<Rightarrow> search_state \<Rightarrow> search_state" where
  "set_thread t s st = st\<lparr>threads := (threads st)(t := s)\<rparr>"

text \<open>The birthday and the nonce of the word \<open>x\<close> of the digest \<open>result\<close> (lines 66 and 69).\<close>

definition birthday_at :: "miner \<Rightarrow> bytes \<Rightarrow> nat \<Rightarrow> u64" where
  "birthday_at m result x = drop_bit 14 (hash_word m result x)"

definition nonce_at :: "u32 \<Rightarrow> nat \<Rightarrow> u32" where
  "nonce_at i x = i + of_nat x"

text \<open>
  A step in the body of the inner loop (lines 66-76), for the thread \<open>t\<close>: the next access of the call of
  \<open>store\<close>, and what follows it when the call returns.
\<close>

definition store_birthday ::
  "miner \<Rightarrow> nat \<Rightarrow> u32 \<Rightarrow> nat \<Rightarrow> bytes \<Rightarrow> store_pc \<Rightarrow> search_state \<Rightarrow> search_state" where
  "store_birthday m t i x result pc st =
    (let birthday = birthday_at m result x;
         nonce = nonce_at i x
     in if birthday \<noteq> 0
        then
          (case store_access birthday nonce pc (found st) of
             (Returned cur, table) \<Rightarrow>
               let st = set_thread t (Inner i (x + 1) result Comparing) (st\<lparr>found := table\<rparr>)
               in if cur \<noteq> not_found
                  then st\<lparr>results := (results st)(t := results st t @ [(cur, nonce), (nonce, cur)])\<rparr>
                  else st
           | (pc, table) \<Rightarrow> set_thread t (Inner i x result pc) (st\<lparr>found := table\<rparr>))
        else set_thread t (Inner i (x + 1) result Comparing) st)"

definition search_step :: "miner \<Rightarrow> bytes \<Rightarrow> nat \<Rightarrow> search_state \<Rightarrow> search_state option" where
  "search_step m head t st =
    (case threads st t of
       Outer i \<Rightarrow>
         if i < MAX_MOMENTUM_NONCE
         then do { result \<leftarrow> nonce_digest m head i; Some (set_thread t (Inner i 0 result Comparing) st) }
         else Some st
     | Inner i x result pc \<Rightarrow>
         if x < 8
         then Some (store_birthday m t i x result pc st)
         else Some (set_thread t (Outer (ucast (ucast i + 8 * thread_count m))) st))"

fun run_schedule :: "miner \<Rightarrow> bytes \<Rightarrow> nat list \<Rightarrow> search_state \<Rightarrow> search_state option" where
  "run_schedule m head [] st = Some st"
| "run_schedule m head (t # ts) st = do {
     st \<leftarrow> search_step m head t st;
     run_schedule m head ts st
   }"

definition start_search :: "slots \<Rightarrow> search_state" where
  "start_search tab =
    \<lparr>found = table_reset tab, threads = (\<lambda>t. Outer (of_nat t * 8)), results = (\<lambda>_. [])\<rparr>"

text \<open>\<open>momentum_search\<close>: the pairs the threads found, one thread after the other.\<close>

definition collect_results :: "miner \<Rightarrow> search_state \<Rightarrow> (u32 \<times> u32) list" where
  "collect_results m st = concat (map (results st) [0..<unat (thread_count m)])"

definition momentum_search :: "miner \<Rightarrow> bytes \<Rightarrow> nat list \<Rightarrow> slots \<Rightarrow> (u32 \<times> u32) list option" where
  "momentum_search m head sched tab =
    map_option (collect_results m) (run_schedule m head sched (start_search tab))"

section \<open>The verification\<close>

definition getBirthdayHash :: "miner \<Rightarrow> bytes \<Rightarrow> u32 \<Rightarrow> u64" where
  "getBirthdayHash m midHash a =
    (let index = a - a mod 8;
         result_hash = openssl_sha512 m (store32 (host m) index @ midHash)
     in drop_bit (64 - 50) (hash_word m result_hash (unat (a mod 8))))"

definition momentum_verify :: "miner \<Rightarrow> bytes \<Rightarrow> u32 \<Rightarrow> u32 \<Rightarrow> bool" where
  "momentum_verify m head a b =
    (if a = b then False
     else if a = 0 then False
     else if b = 0 then False
     else if MAX_MOMENTUM_NONCE < a then False
     else if MAX_MOMENTUM_NONCE < b then False
     else getBirthdayHash m head a = getBirthdayHash m head b)"

section \<open>Calls that share the table\<close>

text \<open>
  Several calls of \<open>store\<close>: the accesses of the calls in the order of a schedule. A call that
  nothing interrupts is \<open>table_store\<close>.
\<close>

fun run_stores :: "(nat \<Rightarrow> u64 \<times> u32) \<Rightarrow> nat list \<Rightarrow> (nat \<Rightarrow> store_pc) \<Rightarrow> slots \<Rightarrow> (nat \<Rightarrow> store_pc) \<times> slots" where
  "run_stores call [] pcs table = (pcs, table)"
| "run_stores call (c # cs) pcs table =
    (let (pc, table) = store_access (fst (call c)) (snd (call c)) (pcs c) table
     in run_stores call cs (pcs(c := pc)) table)"

lemma uninterrupted_store:
  assumes "table_store (fst (call c)) (snd (call c)) table = (w, table')"
  shows "run_stores call [c, c, c] (\<lambda>_. Comparing) table = ((\<lambda>_. Comparing)(c := Returned w), table')"
  using assms by (auto simp: table_store_def slot_def Let_def fun_eq_iff split: if_splits)

text \<open>
  Two calls for different keys of one slot can leave the key of one of them with the value of the other,
  and the next call for that key returns that value.
\<close>

lemma store_race:
  assumes "k1 \<noteq> k2" and "slot k1 = slot k2" and "fst (table (slot k1)) \<noteq> k1" and "fst (table (slot k1)) \<noteq> k2"
    and "call 0 = (k1, v1)" and "call 1 = (k2, v2)"
  shows "\<exists>cs. count_list cs 0 = 3 \<and> count_list cs 1 = 3
    \<and> snd (run_stores call cs (\<lambda>_. Comparing) table) (slot k1) = (k2, v1)
    \<and> fst (table_store k2 v3 (snd (run_stores call cs (\<lambda>_. Comparing) table))) = v1"
  using assms by (intro exI [of _ "[0, 1, 0, 1, 1, 0]"]) (auto simp: table_store_def slot_def Let_def)

section \<open>Birthdays\<close>

text \<open>What the search and the verification both compute for a nonce.\<close>

definition digest_of :: "miner \<Rightarrow> bytes \<Rightarrow> u32 \<Rightarrow> bytes" where
  "digest_of m head i = fips_sha512 H512 8 0 0 (store32 (host m) i @ head)"

definition birthday_of :: "miner \<Rightarrow> bytes \<Rightarrow> u32 \<Rightarrow> u64" where
  "birthday_of m head a = drop_bit 14 (hash_word m (digest_of m head (a - a mod 8)) (unat (a mod 8)))"

text \<open>
  A miner as the program sets it up: a context of the size the header declares, at most as many
  threads as \<open>momentum_search\<close> has room for, and OpenSSL's SHA-512 as documented.
\<close>

definition miner_ok :: "miner \<Rightarrow> bool" where
  "miner_ok m \<longleftrightarrow> length (buf (stack_context m)) = 128 \<and> 0 < thread_count m \<and> thread_count m \<le> 32
     \<and> (\<forall>b. length b < 2 ^ 64 \<longrightarrow> openssl_sha512 m b = fips_sha512 H512 8 0 0 b)"

lemma length_store32 [simp]: "length (store32 a v) = 4"
  by (simp add: store32_def Let_def)

lemma nonce_digest_of:
  assumes "miner_ok m" and "length head = 32"
  shows "nonce_digest m head i = Some (digest_of m head i)"
proof -
  let ?ps = "[(at_i m, store32 (host m) i), (at_head m, head)]"
  have "length (buf (stack_context m)) = 128" "length (pieces ?ps) < 2 ^ 64"
    using assms by (simp_all add: miner_ok_def)
  then obtain c where
    "feed (sph_sha512 (host m)) ?ps (sph_sha512_init (stack_context m)) = Some c"
    "fst (sph_sha512_close (host m) (at_result m) c) = fips_sha512 H512 8 0 0 (pieces ?ps)"
    using sha512.inc.digest_of_pieces [of "stack_context m" "platform_of m" ?ps "at_result m"]
    by (auto simp: sha512_interface sha512_hash_of length_H host_def)
  then show ?thesis
    by (auto simp: nonce_digest_def digest_of_def split: Option.bind_splits)
qed

lemma getBirthdayHash_birthday:
  assumes "miner_ok m" and "length head = 32"
  shows "getBirthdayHash m head a = birthday_of m head a"
  using assms by (simp add: getBirthdayHash_def birthday_of_def digest_of_def miner_ok_def Let_def)

text \<open>The arithmetic of the nonces: thread \<open>t\<close> takes the blocks whose number is \<open>t\<close> modulo the threads.\<close>

lemma block_nonce:
  assumes "unat i mod 8 = 0" and "unat i < 2 ^ 26" and "x < 8"
  shows "unat (i + of_nat x :: u32) = unat i + x" and "(i + of_nat x) mod 8 = (of_nat x :: u32)"
    and "(i + of_nat x :: u32) - (i + of_nat x) mod 8 = i"
proof -
  have x: "unat (of_nat x :: u32) = x" using assms(3) by (simp add: unat_of_nat)
  show u: "unat (i + of_nat x :: u32) = unat i + x"
    using assms x by (subst unat_add_lem [THEN iffD1]) auto
  have "unat ((i + of_nat x) mod 8 :: u32) = x"
    using assms u by (simp add: unat_mod mod_add_eq [symmetric, of "unat i"])
  then show "(i + of_nat x) mod 8 = (of_nat x :: u32)" by (simp add: x word_unat_eq_iff)
  then show "(i + of_nat x :: u32) - (i + of_nat x) mod 8 = i" by simp
qed

lemma next_block:
  assumes "miner_ok m" and "unat i < 2 ^ 26"
  shows "unat (ucast (ucast (i :: u32) + 8 * thread_count m) :: u32) = unat i + 8 * unat (thread_count m)"
proof -
  have t: "unat (thread_count m) \<le> 32" using assms(1) by (simp add: miner_ok_def word_le_nat_alt)
  then have "unat (8 * thread_count m) = 8 * unat (thread_count m)"
    by (subst unat_mult_lem [THEN iffD1]) auto
  moreover have "take_bit 64 (unat i) = unat i" using assms(2) by (simp add: take_bit_nat_eq_self_iff)
  ultimately have "unat (ucast i + 8 * thread_count m) = unat i + 8 * unat (thread_count m)"
    using t assms(2) by (subst unat_add_lem [THEN iffD1]) (auto simp: unsigned_ucast_eq take_bit_word_eq_self)
  then show ?thesis
    using t assms(2) by (simp add: unsigned_ucast_eq unsigned_take_bit_eq take_bit_eq_mod)
qed

section \<open>The invariant of the search\<close>

definition position :: "thread_state \<Rightarrow> nat" where
  "position s = (case s of Outer i \<Rightarrow> unat i | Inner i x _ _ \<Rightarrow> unat i + x)"

definition thread_ok :: "miner \<Rightarrow> bytes \<Rightarrow> nat \<Rightarrow> thread_state \<Rightarrow> bool" where
  "thread_ok m head t s \<longleftrightarrow>
    (case s of
       Outer i \<Rightarrow> unat i mod 8 = 0 \<and> unat i div 8 mod unat (thread_count m) = t
     | Inner i x result pc \<Rightarrow> unat i mod 8 = 0 \<and> unat i div 8 mod unat (thread_count m) = t
         \<and> unat i < 2 ^ 26 \<and> x \<le> 8 \<and> result = digest_of m head i \<and> (\<forall>w. pc \<noteq> Returned w)
         \<and> (pc \<noteq> Comparing \<longrightarrow> x < 8 \<and> birthday_at m result x \<noteq> 0))"

text \<open>The nonces a thread has stored.\<close>

definition passed :: "miner \<Rightarrow> search_state \<Rightarrow> u32 \<Rightarrow> bool" where
  "passed m st v \<longleftrightarrow> unat v < 2 ^ 26 \<and> unat v < position (threads st (unat v div 8 mod unat (thread_count m)))"

text \<open>
  What holds whatever the order of the accesses: a value is one that was written to its slot, hence the
  nonce of a birthday of that slot.
\<close>

definition slot_pair :: "miner \<Rightarrow> bytes \<Rightarrow> u32 \<Rightarrow> u32 \<Rightarrow> bool" where
  "slot_pair m head a b \<longleftrightarrow> a = 0 \<or> b = 0 \<or>
     a \<noteq> b \<and> unat a < 2 ^ 26 \<and> unat b < 2 ^ 26 \<and> slot (birthday_of m head a) = slot (birthday_of m head b)"

definition search_inv :: "miner \<Rightarrow> bytes \<Rightarrow> search_state \<Rightarrow> bool" where
  "search_inv m head st \<longleftrightarrow>
    (\<forall>t < unat (thread_count m). thread_ok m head t (threads st t)) \<and>
    (\<forall>j. snd (found st j) = 0 \<or> passed m st (snd (found st j)) \<and> slot (birthday_of m head (snd (found st j))) = j) \<and>
    (\<forall>t. \<forall>(a, b)\<in>set (results st t). slot_pair m head a b)"

lemma start_search_inv:
  assumes "miner_ok m"
  shows "search_inv m head (start_search tab)"
proof -
  have T: "unat (thread_count m) \<le> 32" using assms by (simp add: miner_ok_def word_le_nat_alt)
  have "unat (of_nat t * 8 :: u32) = t * 8" if "t < unat (thread_count m)" for t
    using that T by (subst unat_mult_lem [THEN iffD1]) (auto simp: unat_of_nat)
  then show ?thesis
    by (auto simp: search_inv_def start_search_def thread_ok_def table_reset_def empty_slots_def)
qed

text \<open>The nonce and the birthday of a thread in the inner loop.\<close>

lemma inner_nonce:
  assumes "thread_ok m head t (Inner i x result pc)" and "x < 8"
  shows "unat (nonce_at i x) = unat i + x" and "unat (nonce_at i x) < 2 ^ 26"
    and "unat (nonce_at i x) div 8 mod unat (thread_count m) = t"
    and "birthday_of m head (nonce_at i x) = birthday_at m result x"
proof -
  have ok: "unat i mod 8 = 0" "unat i div 8 mod unat (thread_count m) = t" "unat i < 2 ^ 26" "result = digest_of m head i"
    using assms(1) by (auto simp: thread_ok_def)
  note n = block_nonce [OF ok(1,3) assms(2)]
  show "unat (nonce_at i x) = unat i + x" using n(1) by (simp add: nonce_at_def)
  then show "unat (nonce_at i x) < 2 ^ 26" "unat (nonce_at i x) div 8 mod unat (thread_count m) = t"
    using ok assms(2) by auto
  show "birthday_of m head (nonce_at i x) = birthday_at m result x"
    using assms(2) by (simp add: nonce_at_def birthday_of_def birthday_at_def n(2,3) ok(4) unat_of_nat)
qed


lemma set_thread_simps [simp]:
  "threads (set_thread t s st) = (threads st)(t := s)"
  "found (set_thread t s st) = found st" "results (set_thread t s st) = results st"
  by (simp_all add: set_thread_def)

lemma passed_mono:
  assumes "passed m st v" and "\<And>u. position (threads st u) \<le> position (threads st' u)"
  shows "passed m st' v"
  using assms less_le_trans by (auto simp: passed_def)

lemma passed_cong:
  assumes "threads st' = threads st"
  shows "passed m st' v = passed m st v"
  using assms by (simp add: passed_def)

text \<open>A step that changes neither the values of the table nor the results.\<close>

lemma search_inv_moved:
  assumes "search_inv m head st" and "thread_ok m head t s" and "position (threads st t) \<le> position s"
    and "threads st' = (threads st)(t := s)" and "\<And>j. snd (found st' j) = snd (found st j)"
    and "results st' = results st"
  shows "search_inv m head st'"
proof -
  have "passed m st' v" if "passed m st v" for v
    by (rule passed_mono [OF that]) (use assms(3,4) in simp)
  then show ?thesis using assms by (auto simp: search_inv_def)
qed

text \<open>What a call reads from the table is a pair with its own nonce.\<close>

lemma read_slot_pair:
  assumes "search_inv m head st" and "threads st t = Inner i x result pc" and "x < 8"
    and "thread_ok m head t (Inner i x result pc)"
    and "cur = snd (found st (slot (birthday_at m result x)))"
  shows "slot_pair m head cur (nonce_at i x) \<and> slot_pair m head (nonce_at i x) cur"
proof -
  note n = inner_nonce [OF assms(4,3)]
  have "cur = 0 \<or> passed m st cur \<and> slot (birthday_of m head cur) = slot (birthday_at m result x)"
    using assms(1) unfolding search_inv_def assms(5) by blast
  moreover have "cur \<noteq> nonce_at i x" if "passed m st cur"
    using that n assms(2) by (auto simp: passed_def position_def)
  ultimately show ?thesis using n by (auto simp: slot_pair_def passed_def)
qed

lemma store_birthday_inv:
  assumes inv: "search_inv m head st" and t: "t < unat (thread_count m)"
    and at: "threads st t = Inner i x result pc" and x: "x < 8"
  shows "search_inv m head (store_birthday m t i x result pc st)"
proof -
  have ok: "thread_ok m head t (Inner i x result pc)" using inv t at by (auto simp: search_inv_def)
  note n = inner_nonce [OF ok x]
  let ?b = "birthday_at m result x" and ?next = "Inner i (x + 1) result Comparing"
  have nxt: "thread_ok m head t ?next" "position (threads st t) \<le> position ?next"
    using ok x at by (auto simp: thread_ok_def position_def)
  have same: "thread_ok m head t (Inner i x result p)" "position (threads st t) \<le> position (Inner i x result p)"
    if "?b \<noteq> 0" "\<And>w. p \<noteq> Returned w" for p
    using ok x at that by (auto simp: thread_ok_def position_def)
  show ?thesis
  proof (cases "?b = 0")
    case True
    then show ?thesis
      by (intro search_inv_moved [OF inv nxt]) (simp_all add: store_birthday_def)
  next
    case b: False
    show ?thesis
    proof (cases pc)
      case Comparing
      then show ?thesis using b
        by (intro search_inv_moved [OF inv same [OF b, of "if fst (found st (slot ?b)) = ?b then Reading else Writing_key"]])
          (auto simp: store_birthday_def Let_def split: if_splits)
    next
      case Reading
      let ?cur = "snd (found st (slot ?b))"
      have new: "slot_pair m head ?cur (nonce_at i x) \<and> slot_pair m head (nonce_at i x) ?cur"
        using read_slot_pair [OF inv at x ok] by simp
      have "search_inv m head (set_thread t ?next st)"
        by (intro search_inv_moved [OF inv nxt]) simp_all
      then show ?thesis using b Reading new
        by (auto simp: store_birthday_def Let_def search_inv_def passed_def)
    next
      case Writing_key
      then show ?thesis using b
        by (intro search_inv_moved [OF inv same [OF b, of Writing_value]])
          (auto simp: store_birthday_def Let_def)
    next
      case Writing_value
      have "search_inv m head (set_thread t ?next st)"
        by (intro search_inv_moved [OF inv nxt]) simp_all
      moreover have "passed m (set_thread t ?next st) (nonce_at i x)"
        using n by (simp add: passed_def position_def)
      ultimately show ?thesis using b Writing_value n(4)
        by (auto simp: store_birthday_def Let_def search_inv_def passed_def)
    next
      case (Returned w)
      then show ?thesis using ok by (simp add: thread_ok_def)
    qed
  qed
qed

lemma search_step_cases:
  assumes "thread_ok m head t (threads st t)" and "miner_ok m" and "length head = 32"
  obtains (finished) i where "threads st t = Outer i" "\<not> i < MAX_MOMENTUM_NONCE" "search_step m head t st = Some st"
  | (hash) i where "threads st t = Outer i" "i < MAX_MOMENTUM_NONCE"
      "search_step m head t st = Some (set_thread t (Inner i 0 (digest_of m head i) Comparing) st)"
      "thread_ok m head t (Inner i 0 (digest_of m head i) Comparing)"
  | (store) i x result pc where "threads st t = Inner i x result pc" "x < 8"
      "search_step m head t st = Some (store_birthday m t i x result pc st)"
  | (advance) i result pc j where "threads st t = Inner i 8 result pc" "pc = Comparing"
      "search_step m head t st = Some (set_thread t (Outer j) st)"
      "thread_ok m head t (Outer j)" "unat j = unat i + 8 * unat (thread_count m)"
proof (cases "threads st t")
  case (Outer i)
  show ?thesis
  proof (cases "i < MAX_MOMENTUM_NONCE")
    case True
    then have "thread_ok m head t (Inner i 0 (digest_of m head i) Comparing)"
      using assms(1) Outer by (simp add: thread_ok_def MAX_MOMENTUM_NONCE_def word_less_nat_alt)
    then show ?thesis using hash True Outer nonce_digest_of [OF assms(2,3)] by (simp add: search_step_def)
  qed (use finished Outer in \<open>simp add: search_step_def\<close>)
next
  case (Inner i x result pc)
  show ?thesis
  proof (cases "x < 8")
    case True
    then show ?thesis using store Inner by (simp add: search_step_def)
  next
    case False
    let ?T = "unat (thread_count m)" and ?j = "ucast (ucast i + 8 * thread_count m) :: u32"
    have x: "x = 8" and i: "unat i mod 8 = 0" "unat i div 8 mod ?T = t" "unat i < 2 ^ 26" and pc: "pc = Comparing"
      using assms(1) Inner False by (auto simp: thread_ok_def)
    have T: "0 < ?T" using assms(2) by (simp add: miner_ok_def word_gt_0 unat_gt_0)
    note nb = next_block [OF assms(2) i(3)]
    have "(unat i + 8 * ?T) div 8 mod ?T = t" using i(2) by (simp add: div_mult_self2)
    then have "thread_ok m head t (Outer ?j)" using i T by (simp add: thread_ok_def nb)
    then show ?thesis using advance [of i result pc ?j] Inner x nb pc by (simp add: search_step_def)
  qed
qed

lemma search_step_inv:
  assumes "search_inv m head st" and "t < unat (thread_count m)" and "miner_ok m" and "length head = 32"
  shows "\<exists>st'. search_step m head t st = Some st' \<and> search_inv m head st'"
proof -
  have ok: "thread_ok m head t (threads st t)" using assms(1,2) by (simp add: search_inv_def)
  from ok assms(3,4) show ?thesis
  proof (cases rule: search_step_cases)
    case finished
    then show ?thesis using assms(1) by simp
  next
    case (hash i)
    then have "search_inv m head (set_thread t (Inner i 0 (digest_of m head i) Comparing) st)"
      by (intro search_inv_moved [OF assms(1) hash(4)]) (simp_all add: position_def)
    then show ?thesis using hash by simp
  next
    case store
    then show ?thesis using store_birthday_inv [OF assms(1,2)] by simp
  next
    case (advance i result pc j)
    have "0 < unat (thread_count m)" using assms(3) by (simp add: miner_ok_def word_gt_0 unat_gt_0)
    then have "search_inv m head (set_thread t (Outer j) st)"
      using advance(1,5) by (intro search_inv_moved [OF assms(1) advance(4)]) (simp_all add: position_def)
    then show ?thesis using advance by simp
  qed
qed

lemma run_schedule_inv:
  assumes "search_inv m head st" and "list_all (\<lambda>t. t < unat (thread_count m)) ts"
    and "miner_ok m" and "length head = 32"
  shows "\<exists>st'. run_schedule m head ts st = Some st' \<and> search_inv m head st'"
  using assms(1,2)
proof (induction ts arbitrary: st)
  case (Cons t ts)
  then obtain st1 where st1: "search_step m head t st = Some st1" "search_inv m head st1"
    using search_step_inv [OF Cons.prems(1) _ assms(3,4), of t] by auto
  then show ?case using Cons.IH [OF st1(2)] Cons.prems(2) by simp
qed simp


section \<open>Calls that do not interfere\<close>

text \<open>
  The slot of the call a thread is in the middle of, and the slot its next step accesses. A schedule is
  \<open>exclusive\<close> when no thread accesses a slot in the middle of another thread's call for it, as with a lock
  held during \<open>store\<close>.
\<close>

definition call_slot :: "miner \<Rightarrow> thread_state \<Rightarrow> nat option" where
  "call_slot m s =
    (case s of
       Outer _ \<Rightarrow> None
     | Inner i x result pc \<Rightarrow> if pc = Comparing then None else Some (slot (birthday_at m result x)))"

definition next_slot :: "miner \<Rightarrow> thread_state \<Rightarrow> nat option" where
  "next_slot m s =
    (case s of
       Outer _ \<Rightarrow> None
     | Inner i x result pc \<Rightarrow>
         if x < 8 \<and> birthday_at m result x \<noteq> 0 then Some (slot (birthday_at m result x)) else None)"

definition alone :: "miner \<Rightarrow> nat \<Rightarrow> search_state \<Rightarrow> bool" where
  "alone m t st \<longleftrightarrow>
    (\<forall>u < unat (thread_count m). u \<noteq> t \<longrightarrow>
       call_slot m (threads st u) = None \<or> call_slot m (threads st u) \<noteq> next_slot m (threads st t))"

fun exclusive :: "miner \<Rightarrow> bytes \<Rightarrow> nat list \<Rightarrow> search_state \<Rightarrow> bool" where
  "exclusive m head [] st \<longleftrightarrow> True"
| "exclusive m head (t # ts) st \<longleftrightarrow> alone m t st
     \<and> (case search_step m head t st of None \<Rightarrow> True | Some st' \<Rightarrow> exclusive m head ts st')"

text \<open>The search with one thread is exclusive.\<close>

lemma exclusive_single:
  assumes "thread_count m = 1" and "list_all (\<lambda>t. t < unat (thread_count m)) ts"
  shows "exclusive m head ts st"
  using assms(2) by (induction ts arbitrary: st) (auto simp: alone_def assms(1) split: option.split)

text \<open>The pairs a verification accepts, but for the nonce 0.\<close>

definition good_pair :: "miner \<Rightarrow> bytes \<Rightarrow> u32 \<Rightarrow> u32 \<Rightarrow> bool" where
  "good_pair m head a b \<longleftrightarrow> a \<noteq> b \<and> unat a < 2 ^ 26 \<and> unat b < 2 ^ 26
     \<and> birthday_of m head a = birthday_of m head b"

lemma good_pair_verifies:
  assumes "good_pair m head a b" and "miner_ok m" and "length head = 32"
  shows "momentum_verify m head a b \<longleftrightarrow> a \<noteq> 0 \<and> b \<noteq> 0"
  using assms
  by (auto simp: good_pair_def momentum_verify_def getBirthdayHash_birthday MAX_MOMENTUM_NONCE_def
      word_less_nat_alt)

text \<open>
  A thread that is about to read or to write a value finds its own key in the slot; a slot that no call is
  about to write holds a nonce for its key.
\<close>

definition holds_key :: "miner \<Rightarrow> slots \<Rightarrow> thread_state \<Rightarrow> bool" where
  "holds_key m table s \<longleftrightarrow>
    (case s of
       Outer _ \<Rightarrow> True
     | Inner i x result pc \<Rightarrow> pc = Reading \<or> pc = Writing_value \<longrightarrow>
         fst (table (slot (birthday_at m result x))) = birthday_at m result x)"

definition writes :: "thread_state \<Rightarrow> bool" where
  "writes s = (case s of Outer _ \<Rightarrow> False | Inner _ _ _ pc \<Rightarrow> pc = Writing_value)"

definition entry_ok :: "miner \<Rightarrow> bytes \<Rightarrow> search_state \<Rightarrow> nat \<Rightarrow> bool" where
  "entry_ok m head st j \<longleftrightarrow> fst (found st j) = 0
     \<or> passed m st (snd (found st j)) \<and> birthday_of m head (snd (found st j)) = fst (found st j)"

definition exclusive_inv :: "miner \<Rightarrow> bytes \<Rightarrow> search_state \<Rightarrow> bool" where
  "exclusive_inv m head st \<longleftrightarrow>
    (\<forall>t < unat (thread_count m). thread_ok m head t (threads st t) \<and> holds_key m (found st) (threads st t)) \<and>
    (\<forall>t < unat (thread_count m). \<forall>u < unat (thread_count m). t \<noteq> u \<longrightarrow>
       call_slot m (threads st t) = None \<or> call_slot m (threads st t) \<noteq> call_slot m (threads st u)) \<and>
    (\<forall>j. (\<exists>t < unat (thread_count m). writes (threads st t) \<and> call_slot m (threads st t) = Some j)
       \<or> entry_ok m head st j) \<and>
    (\<forall>t. \<forall>(a, b)\<in>set (results st t). good_pair m head a b)"

lemma start_exclusive_inv:
  assumes "miner_ok m"
  shows "exclusive_inv m head (start_search tab)"
  using start_search_inv [OF assms, of head tab]
  by (auto simp: exclusive_inv_def search_inv_def start_search_def call_slot_def writes_def entry_ok_def
      holds_key_def table_reset_def empty_slots_def)

text \<open>
  A step of the thread \<open>t\<close> that leaves the slots other than \<open>j\<close> alone and has no other call for \<open>j\<close> beside
  it: what is left to show is about \<open>t\<close> and \<open>j\<close>.
\<close>

lemma exclusive_step:
  assumes inv: "exclusive_inv m head st"
    and thr: "threads st' = (threads st)(t := s)" "position (threads st t) \<le> position s" "thread_ok m head t s"
    and fnd: "\<And>i. found st' i = found st i \<or> Some i = J"
    and J: "call_slot m (threads st t) = None \<or> call_slot m (threads st t) = J" "call_slot m s = None \<or> call_slot m s = J"
    and others: "\<And>u. u < unat (thread_count m) \<Longrightarrow> u \<noteq> t \<Longrightarrow> call_slot m (threads st u) = None \<or> call_slot m (threads st u) \<noteq> J"
    and key: "holds_key m (found st') s"
    and entry: "\<And>j. J = Some j \<Longrightarrow> writes s \<and> call_slot m s = J \<and> t < unat (thread_count m) \<or> entry_ok m head st' j"
    and res: "\<forall>u. \<forall>(a, b)\<in>set (results st' u). good_pair m head a b"
  shows "exclusive_inv m head st'"
proof -
  let ?T = "unat (thread_count m)"
  have p: "passed m st' v" if "passed m st v" for v
    by (rule passed_mono [OF that]) (use thr(1,2) in simp)
  have key': "holds_key m (found st') (threads st u)" if "u < ?T" "u \<noteq> t" for u
  proof -
    have "holds_key m (found st) (threads st u)" using inv that by (simp add: exclusive_inv_def)
    moreover have "found st' i = found st i" if "call_slot m (threads st u) = Some i" for i
      using fnd [of i] others [OF \<open>u < ?T\<close> \<open>u \<noteq> t\<close>] that by auto
    ultimately show ?thesis
      by (auto simp: holds_key_def call_slot_def split: thread_state.splits if_splits)
  qed
  have apart: "call_slot m (threads st u) = None \<or> call_slot m (threads st u) \<noteq> call_slot m s"
    if "u < ?T" "u \<noteq> t" for u
    using others [OF that] J(2) by auto
  have ent: "(\<exists>u < ?T. writes (threads st' u) \<and> call_slot m (threads st' u) = Some j) \<or> entry_ok m head st' j" for j
  proof (cases "J = Some j")
    case True
    then show ?thesis using entry [OF True] thr(1) by auto
  next
    case False
    then have f: "found st' j = found st j" using fnd [of j] by auto
    from inv have "(\<exists>u < ?T. writes (threads st u) \<and> call_slot m (threads st u) = Some j) \<or> entry_ok m head st j"
      by (auto simp: exclusive_inv_def)
    then show ?thesis
    proof
      assume "\<exists>u < ?T. writes (threads st u) \<and> call_slot m (threads st u) = Some j"
      then obtain u where u: "u < ?T" "writes (threads st u)" "call_slot m (threads st u) = Some j" by blast
      then have "u \<noteq> t" using J(1) False by auto
      then show ?thesis using u thr(1) by (intro disjI1 exI [of _ u]) simp
    next
      assume "entry_ok m head st j"
      then show ?thesis using p f by (auto simp: entry_ok_def)
    qed
  qed
  have ok: "\<forall>u < ?T. thread_ok m head u (threads st' u) \<and> holds_key m (found st') (threads st' u)"
    using inv thr key key' by (auto simp: exclusive_inv_def)
  have two: "\<forall>u < ?T. \<forall>v < ?T. u \<noteq> v \<longrightarrow>
       call_slot m (threads st' u) = None \<or> call_slot m (threads st' u) \<noteq> call_slot m (threads st' v)"
  proof (intro allI impI)
    fix u v
    assume uv: "u < ?T" "v < ?T" "u \<noteq> v"
    have "call_slot m (threads st u) = None \<or> call_slot m (threads st u) \<noteq> call_slot m (threads st v)"
      using inv uv by (simp add: exclusive_inv_def)
    then show "call_slot m (threads st' u) = None \<or> call_slot m (threads st' u) \<noteq> call_slot m (threads st' v)"
      using thr(1) apart [of u] apart [of v] uv by (cases "u = t"; cases "v = t") auto
  qed
  show ?thesis unfolding exclusive_inv_def using ok two ent res by blast
qed

lemma store_birthday_exclusive:
  assumes inv: "exclusive_inv m head st" and t: "t < unat (thread_count m)"
    and at: "threads st t = Inner i x result pc" and x: "x < 8" and al: "alone m t st"
  shows "exclusive_inv m head (store_birthday m t i x result pc st)"
proof -
  have ok: "thread_ok m head t (Inner i x result pc)" and hk: "holds_key m (found st) (Inner i x result pc)"
    using inv t at [symmetric] by (simp_all add: exclusive_inv_def)
  note n = inner_nonce [OF ok x]
  let ?b = "birthday_at m result x" and ?next = "Inner i (x + 1) result Comparing"
  let ?j = "slot ?b"
  have nxt: "thread_ok m head t ?next" "position (threads st t) \<le> position ?next" "call_slot m ?next = None"
    "holds_key m tab ?next" "\<not> writes ?next" for tab
    using ok x at by (auto simp: thread_ok_def position_def call_slot_def holds_key_def writes_def)
  have res: "\<forall>u. \<forall>(a, b)\<in>set (results st u). good_pair m head a b" using inv by (simp add: exclusive_inv_def)
  show ?thesis
  proof (cases "?b = 0")
    case True
    then have "pc = Comparing" using ok by (simp add: thread_ok_def)
    then show ?thesis using True res at nxt
      by (intro exclusive_step [OF inv, where t = t and s = ?next and J = None])
        (auto simp: store_birthday_def call_slot_def)
  next
    case b: False
    have others: "call_slot m (threads st u) = None \<or> call_slot m (threads st u) \<noteq> Some ?j"
      if "u < unat (thread_count m)" "u \<noteq> t" for u
      using al that at b x by (auto simp: alone_def next_slot_def)
    have mine: "call_slot m (threads st t) = None \<or> call_slot m (threads st t) = Some ?j"
      using at by (simp add: call_slot_def)
    have same: "thread_ok m head t (Inner i x result p)" "position (threads st t) \<le> position (Inner i x result p)"
      "call_slot m (Inner i x result p) = None \<or> call_slot m (Inner i x result p) = Some ?j"
      if "\<And>w. p \<noteq> Returned w" for p
      using ok x at that b by (auto simp: thread_ok_def position_def call_slot_def)
    have quiet: "entry_ok m head st ?j" if "pc \<noteq> Writing_value"
    proof -
      have "(\<exists>u < unat (thread_count m). writes (threads st u) \<and> call_slot m (threads st u) = Some ?j)
        \<or> entry_ok m head st ?j" using inv by (simp add: exclusive_inv_def)
      moreover have "\<not> (writes (threads st u) \<and> call_slot m (threads st u) = Some ?j)"
        if "u < unat (thread_count m)" for u
        using others [OF that] \<open>pc \<noteq> Writing_value\<close> at by (cases "u = t") (auto simp: writes_def)
      ultimately show ?thesis by blast
    qed
    have p: "passed m (set_thread t s st') v"
      if "passed m st v" "threads st' = threads st" "position (threads st t) \<le> position s" for v s st'
      using that by (intro passed_mono [OF that(1)]) simp
    note step = exclusive_step [OF inv, where t = t and J = "Some ?j"]
    show ?thesis
    proof (cases pc)
      case Comparing
      let ?p = "if fst (found st ?j) = ?b then Reading else Writing_key"
      have s: "?p \<noteq> Returned w" for w by simp
      have "holds_key m (found st) (Inner i x result ?p)" by (simp add: holds_key_def)
      moreover have "entry_ok m head (set_thread t (Inner i x result ?p) st) ?j"
        using quiet Comparing p [OF _ _ same(2) [OF s]] by (auto simp: entry_ok_def)
      moreover have "store_birthday m t i x result pc st = set_thread t (Inner i x result ?p) st"
        using b Comparing by (simp add: store_birthday_def)
      ultimately show ?thesis
        using same [OF s] others mine res
        by (intro step [where s = "Inner i x result ?p"]) auto
    next
      case Reading
      let ?cur = "snd (found st ?j)"
      have "passed m st ?cur \<and> birthday_of m head ?cur = ?b"
        using quiet hk b Reading by (auto simp: entry_ok_def holds_key_def)
      then have new: "good_pair m head ?cur (nonce_at i x) \<and> good_pair m head (nonce_at i x) ?cur"
        using n at by (auto simp: good_pair_def passed_def position_def)
      have "entry_ok m head st' ?j" if "found st' = found st" "threads st' = (threads st)(t := ?next)" for st'
        using quiet Reading passed_mono [of m st _ st'] nxt(2) that by (auto simp: entry_ok_def)
      then show ?thesis using b Reading new nxt others mine res
        by (intro step [where s = ?next]) (auto simp: store_birthday_def Let_def)
    next
      case Writing_key
      have s: "Writing_value \<noteq> Returned w" for w by simp
      show ?thesis using b Writing_key same [OF s] others mine res t
        by (intro step [where s = "Inner i x result Writing_value"])
          (auto simp: store_birthday_def Let_def holds_key_def writes_def call_slot_def)
    next
      case Writing_value
      have "fst (found st ?j) = ?b" using hk Writing_value by (simp add: holds_key_def)
      then have "entry_ok m head (store_birthday m t i x result pc st) ?j"
        using b Writing_value n by (simp add: store_birthday_def Let_def entry_ok_def passed_def position_def)
      then show ?thesis using b Writing_value nxt others mine res
        by (intro step [where s = ?next]) (auto simp: store_birthday_def Let_def)
    next
      case (Returned w)
      then show ?thesis using ok by (simp add: thread_ok_def)
    qed
  qed
qed

lemma search_step_exclusive:
  assumes "exclusive_inv m head st" and "t < unat (thread_count m)" and "alone m t st"
    and "miner_ok m" and "length head = 32"
  shows "\<exists>st'. search_step m head t st = Some st' \<and> exclusive_inv m head st'"
proof -
  have ok: "thread_ok m head t (threads st t)" and res: "\<forall>u. \<forall>(a, b)\<in>set (results st u). good_pair m head a b"
    using assms(1,2) by (simp_all add: exclusive_inv_def)
  have moved: "exclusive_inv m head (set_thread t s st)"
    if "thread_ok m head t s" "position (threads st t) \<le> position s" "call_slot m (threads st t) = None"
      "call_slot m s = None" "holds_key m (found st) s" for s
    using that res by (intro exclusive_step [OF assms(1), where t = t and s = s and J = None]) auto
  from ok assms(4,5) show ?thesis
  proof (cases rule: search_step_cases)
    case finished
    then show ?thesis using assms(1) by simp
  next
    case (hash i)
    then have "exclusive_inv m head (set_thread t (Inner i 0 (digest_of m head i) Comparing) st)"
      by (intro moved) (simp_all add: position_def call_slot_def holds_key_def)
    then show ?thesis using hash by simp
  next
    case store
    then show ?thesis using store_birthday_exclusive [OF assms(1,2) _ _ assms(3)] by simp
  next
    case (advance i result pc j)
    have "0 < unat (thread_count m)" using assms(4) by (simp add: miner_ok_def word_gt_0 unat_gt_0)
    then have "exclusive_inv m head (set_thread t (Outer j) st)"
      using advance(1,2,4,5) by (intro moved) (simp_all add: position_def call_slot_def holds_key_def)
    then show ?thesis using advance by simp
  qed
qed

lemma run_schedule_exclusive:
  assumes "exclusive_inv m head st" and "list_all (\<lambda>t. t < unat (thread_count m)) ts"
    and "exclusive m head ts st" and "miner_ok m" and "length head = 32"
  shows "\<exists>st'. run_schedule m head ts st = Some st' \<and> exclusive_inv m head st'"
  using assms(1,2,3)
proof (induction ts arbitrary: st)
  case (Cons t ts)
  then obtain st1 where st1: "search_step m head t st = Some st1" "exclusive_inv m head st1"
    using search_step_exclusive [OF Cons.prems(1) _ _ assms(4,5), of t] by auto
  then show ?case using Cons.IH [OF st1(2)] Cons.prems(2,3) by simp
qed simp

section \<open>Properties\<close>

text \<open>
  C33. What the search returns, for every seed, number of threads and interleaving of the accesses to the
  shared table, also when it is cancelled: of each pair, both nonces are in range and different and have
  birthdays of one slot of the table, unless one of them is 0. When no thread accesses a slot in the middle
  of another thread's call of \<open>store\<close> for it, as with one thread or with a lock, the search is sound:
  \<open>momentum_verify\<close> accepts every pair, except for those with the nonce 0, which the search tries and the
  verification rejects. The search computes birthdays with \<open>sph_sha512\<close>, eight at a time, the verification
  with OpenSSL, one at a time; the threads start from a table that holds the entries of an earlier search.
\<close>

theorem momentum_search_sound:
  assumes "miner_ok m" and "length head = 32" and "list_all (\<lambda>t. t < unat (thread_count m)) ts"
  shows "\<exists>res. momentum_search m head ts tab = Some res
    \<and> (\<forall>(a, b)\<in>set res. a = 0 \<or> b = 0 \<or> a \<noteq> b \<and> a < MAX_MOMENTUM_NONCE \<and> b < MAX_MOMENTUM_NONCE
         \<and> unat (getBirthdayHash m head a) mod TABLE_SIZE = unat (getBirthdayHash m head b) mod TABLE_SIZE)
    \<and> (thread_count m = 1 \<or> exclusive m head ts (start_search tab) \<longrightarrow>
         (\<forall>(a, b)\<in>set res. momentum_verify m head a b \<longleftrightarrow> a \<noteq> 0 \<and> b \<noteq> 0))"
proof -
  obtain st where st: "run_schedule m head ts (start_search tab) = Some st" "search_inv m head st"
    using run_schedule_inv [OF start_search_inv [OF assms(1)] assms(3,1,2)] by blast
  let ?res = "collect_results m st"
  have res: "momentum_search m head ts tab = Some ?res" using st(1) by (simp add: momentum_search_def)
  have pairs: "slot_pair m head a b" if "(a, b) \<in> set ?res" for a b
    using st(2) that by (auto simp: search_inv_def collect_results_def)
  have good: "momentum_verify m head a b \<longleftrightarrow> a \<noteq> 0 \<and> b \<noteq> 0"
    if "thread_count m = 1 \<or> exclusive m head ts (start_search tab)" "(a, b) \<in> set ?res" for a b
  proof -
    have "exclusive m head ts (start_search tab)" using that(1) exclusive_single assms(3) by blast
    then have "exclusive_inv m head st"
      using run_schedule_exclusive [OF start_exclusive_inv [OF assms(1)] assms(3) _ assms(1,2), of tab] st(1) by auto
    then have "good_pair m head a b" using that(2) by (auto simp: exclusive_inv_def collect_results_def)
    then show ?thesis using good_pair_verifies assms(1,2) by blast
  qed
  have "a = 0 \<or> b = 0 \<or> a \<noteq> b \<and> a < MAX_MOMENTUM_NONCE \<and> b < MAX_MOMENTUM_NONCE
      \<and> unat (getBirthdayHash m head a) mod TABLE_SIZE = unat (getBirthdayHash m head b) mod TABLE_SIZE"
    if "(a, b) \<in> set ?res" for a b
    using pairs [OF that] getBirthdayHash_birthday [OF assms(1,2)]
    by (auto simp: slot_pair_def slot_def MAX_MOMENTUM_NONCE_def word_less_nat_alt)
  then show ?thesis using res good by blast
qed

text \<open>A miner with two threads on a PC.\<close>

definition sample_miner :: miner where
  "sample_miner = \<lparr>platform_of = AMD64, thread_count = 2,
     stack_context = \<lparr>buf = replicate 128 0, val = [], count = 0\<rparr>, at_i = 16, at_head = 32,
     at_result = 64, openssl_sha512 = fips_sha512 H512 8 0 0\<rparr>"

lemma sample_miner_ok: "miner_ok sample_miner"
  by (simp add: miner_ok_def sample_miner_def)

theorem momentum_search_sound_witness:
  "\<exists>res. momentum_search sample_miner (replicate 32 5) [0, 1, 0, 0, 1, 1, 0] empty_slots = Some res
    \<and> (\<forall>(a, b)\<in>set res. a = 0 \<or> b = 0 \<or> a \<noteq> b \<and> a < MAX_MOMENTUM_NONCE \<and> b < MAX_MOMENTUM_NONCE
         \<and> unat (getBirthdayHash sample_miner (replicate 32 5) a) mod TABLE_SIZE
           = unat (getBirthdayHash sample_miner (replicate 32 5) b) mod TABLE_SIZE)
    \<and> (thread_count sample_miner = 1 \<or> exclusive sample_miner (replicate 32 5) [0, 1, 0, 0, 1, 1, 0] (start_search empty_slots) \<longrightarrow>
         (\<forall>(a, b)\<in>set res. momentum_verify sample_miner (replicate 32 5) a b \<longleftrightarrow> a \<noteq> 0 \<and> b \<noteq> 0))"
  by (rule momentum_search_sound [OF sample_miner_ok]) (simp_all add: sample_miner_def)


section \<open>Termination\<close>

text \<open>The steps a thread has left: 26 for each block, at most three of them for a nonce.\<close>

definition steps_left :: "thread_state \<Rightarrow> nat" where
  "steps_left s =
    (case s of
       Outer i \<Rightarrow> 26 * ((2 ^ 26 - unat i + 7) div 8)
     | Inner i x _ pc \<Rightarrow> 26 * ((2 ^ 26 - unat i + 7) div 8) - 1 - 3 * x
         - (case pc of Writing_key \<Rightarrow> 1 | Reading \<Rightarrow> 2 | Writing_value \<Rightarrow> 2 | _ \<Rightarrow> 0))"

definition finished :: "thread_state \<Rightarrow> bool" where
  "finished s = (case s of Outer i \<Rightarrow> \<not> i < MAX_MOMENTUM_NONCE | Inner _ _ _ _ \<Rightarrow> False)"

lemma blocks_left:
  assumes "unat (i :: u32) < 2 ^ 26"
  shows "1 \<le> (2 ^ 26 - unat i + 7) div 8"
  using assms by simp

lemma store_birthday_steps:
  assumes "thread_ok m head t (Inner i x result pc)" and "x < 8" and "threads st t = Inner i x result pc"
  shows "steps_left (threads (store_birthday m t i x result pc st) t) \<le> steps_left (threads st t) - 1"
    and "u \<noteq> t \<Longrightarrow> threads (store_birthday m t i x result pc st) u = threads st u"
proof -
  let ?B = "(2 ^ 26 - unat i + 7) div 8"
  have "1 \<le> ?B" using assms(1) by (intro blocks_left) (simp add: thread_ok_def)
  then show "steps_left (threads (store_birthday m t i x result pc st) t) \<le> steps_left (threads st t) - 1"
    using assms by (cases pc) (auto simp: store_birthday_def Let_def steps_left_def thread_ok_def)
  show "u \<noteq> t \<Longrightarrow> threads (store_birthday m t i x result pc st) u = threads st u"
    by (auto simp: store_birthday_def Let_def split: prod.split store_pc.split)
qed

lemma search_step_steps:
  assumes "search_step m head t st = Some st'" and "thread_ok m head t (threads st t)"
    and "miner_ok m" and "length head = 32"
  shows "steps_left (threads st' t) \<le> steps_left (threads st t) - 1"
    and "u \<noteq> t \<Longrightarrow> threads st' u = threads st u"
proof -
  from assms(2,3,4)
  have "steps_left (threads st' t) \<le> steps_left (threads st t) - 1 \<and> (u \<noteq> t \<longrightarrow> threads st' u = threads st u)"
  proof (cases rule: search_step_cases)
    case (finished i)
    then have "2 ^ 26 \<le> unat i" by (simp add: MAX_MOMENTUM_NONCE_def word_less_nat_alt)
    then show ?thesis using assms(1) finished by (auto simp: steps_left_def)
  next
    case (hash i)
    then show ?thesis using assms(1) by (auto simp: steps_left_def)
  next
    case (store i x result pc)
    then show ?thesis using store_birthday_steps [of m head t i x result pc st] assms(1,2) by auto
  next
    case (advance i result pc j)
    have T: "0 < unat (thread_count m)" using assms(3) by (simp add: miner_ok_def word_gt_0 unat_gt_0)
    have "unat i < 2 ^ 26" using assms(2) advance(1) by (simp add: thread_ok_def)
    then have "(2 ^ 26 - (unat i + 8 * unat (thread_count m)) + 7) div 8 \<le> (2 ^ 26 - unat i + 7) div 8 - (1::nat)"
      using T by (cases "unat i + 8 * unat (thread_count m) \<le> 2 ^ 26") auto
    from mult_le_mono2 [OF this, of 26]
    have "26 * ((2 ^ 26 - (unat i + 8 * unat (thread_count m)) + 7) div 8) \<le> 26 * ((2 ^ 26 - unat i + 7) div 8) - (26::nat)"
      by (simp only: diff_mult_distrib2 mult_1_right)
    then show ?thesis using assms(1) advance by (auto simp: steps_left_def)
  qed
  then show "steps_left (threads st' t) \<le> steps_left (threads st t) - 1"
    and "u \<noteq> t \<Longrightarrow> threads st' u = threads st u" by auto
qed

lemma steps_left_0:
  assumes "thread_ok m head t s" and "steps_left s = 0"
  shows "finished s"
proof (cases s)
  case (Outer i)
  then show ?thesis
    using assms by (auto simp: steps_left_def finished_def MAX_MOMENTUM_NONCE_def word_less_nat_alt)
next
  case (Inner i x result pc)
  then have "unat i < 2 ^ 26" using assms(1) by (simp add: thread_ok_def)
  note blocks_left [OF this]
  then show ?thesis
    using assms Inner by (cases pc) (auto simp: steps_left_def thread_ok_def)
qed

lemma run_schedule_steps:
  assumes "search_inv m head st" and "list_all (\<lambda>t. t < unat (thread_count m)) ts"
    and "miner_ok m" and "length head = 32" and "run_schedule m head ts st = Some st'"
    and "u < unat (thread_count m)"
  shows "steps_left (threads st' u) \<le> steps_left (threads st u) - count_list ts u"
  using assms(1,2,5)
proof (induction ts arbitrary: st)
  case (Cons t ts)
  then obtain st1 where st1: "search_step m head t st = Some st1" "search_inv m head st1"
    using search_step_inv [OF Cons.prems(1) _ assms(3,4), of t] by auto
  have "thread_ok m head t (threads st t)" using Cons.prems(1,2) by (simp add: search_inv_def)
  note step = search_step_steps [OF st1(1) this assms(3,4)]
  have "steps_left (threads st' u) \<le> steps_left (threads st1 u) - count_list ts u"
    using Cons.IH [OF st1(2)] Cons.prems(2,3) st1(1) by simp
  then show ?case using step by (cases "u = t") auto
qed simp

text \<open>
  C34. The search ends: once every thread has taken 26 steps for each of the \<open>2\<^sup>2\<^sup>3\<close> blocks of
  nonces, in whatever order, all of them have left their loops. The counter of a thread does not wrap
  around although it is added to in 64 bits and kept in 32.
\<close>

theorem momentum_search_terminates:
  assumes "miner_ok m" and "length head = 32" and "list_all (\<lambda>t. t < unat (thread_count m)) ts"
    and "\<And>t. t < unat (thread_count m) \<Longrightarrow> 26 * 2 ^ 23 \<le> count_list ts t"
  shows "\<exists>st. run_schedule m head ts (start_search tab) = Some st
    \<and> (\<forall>t < unat (thread_count m). finished (threads st t))"
proof -
  note start = start_search_inv [OF assms(1), of head tab]
  obtain st where st: "run_schedule m head ts (start_search tab) = Some st"
    "search_inv m head st"
    using run_schedule_inv [OF start assms(3,1,2)] by blast
  have "finished (threads st t)" if t: "t < unat (thread_count m)" for t
  proof -
    have "steps_left (threads (start_search tab) t) \<le> 26 * 2 ^ 23"
      by (simp add: start_search_def steps_left_def)
    then have "steps_left (threads st t) = 0"
      using run_schedule_steps [OF start assms(3,1,2) st(1) t] assms(4) [OF t] by simp
    then show ?thesis using steps_left_0 st(2) t by (auto simp: search_inv_def)
  qed
  then show ?thesis using st(1) by blast
qed

theorem momentum_search_terminates_witness:
  "\<exists>st. run_schedule sample_miner (replicate 32 5)
      (replicate (26 * 2 ^ 23) 0 @ replicate (26 * 2 ^ 23) 1) (start_search empty_slots) = Some st
    \<and> (\<forall>t < unat (thread_count sample_miner). finished (threads st t))"
proof (rule momentum_search_terminates [OF sample_miner_ok])
  have count: "count_list (replicate n x) y = (if x = y then n else 0)" for n and x y :: nat
    by (induction n) auto
  show "26 * 2 ^ 23 \<le> count_list (replicate (26 * 2 ^ 23) 0 @ replicate (26 * 2 ^ 23) 1) t"
    if "t < unat (thread_count sample_miner)" for t
    using that by (auto simp: sample_miner_def count simp del: replicate.simps)
qed (simp_all add: sample_miner_def list_all_iff del: replicate.simps)

text \<open>
  C35. The table for Windows is not empty after its \<open>reset\<close>, which never clears the second of its two
  arrays: a key that came to lie there in one search is found in the next one, with the nonce it had
  for the old seed, as soon as another key of its slot has been stored, although the new search has
  not stored it.
\<close>

theorem win_reset_stale:
  assumes "k1 \<noteq> 0" and "k2 \<noteq> 0" and "k3 \<noteq> 0" and "k1 \<noteq> k2" and "k3 \<noteq> k2"
    and "unat k1 mod WIN_TABLE_SIZE = unat k2 mod WIN_TABLE_SIZE"
    and "unat k3 mod WIN_TABLE_SIZE = unat k2 mod WIN_TABLE_SIZE"
    and "win_first t = empty_slots" and "win_second t = empty_slots"
  shows "fst (win_store k2 v2' (snd (win_store k3 v3 (win_reset
      (snd (win_store k2 v2 (snd (win_store k1 v1 t)))))))) = v2"
  using assms by (auto simp: win_store_def win_reset_def Let_def empty_slots_def)

theorem win_reset_stale_witness:
  "fst (win_store (1 + 2 ^ 25) 40 (snd (win_store 1 30 (win_reset
      (snd (win_store (1 + 2 ^ 25) 20 (snd (win_store 1 10 \<lparr>win_first = empty_slots, win_second = empty_slots\<rparr>)))))))) = 20"
  by (rule win_reset_stale) (simp_all add: WIN_TABLE_SIZE_def)

end
