(* ===== verification/Bts_Block.thy ===== *)
theory Bts_Block
  imports Bts_Transaction
begin

text \<open>
  What a block does to the state of the chain (\<open>block.cpp\<close> and the part of \<open>chain_database.cpp\<close> that
  works on the pending state of a block): the checks of the header, the delegate whose turn it is, the
  count of produced and missed blocks, the transactions, the pay of the delegate, the shuffle of the
  delegates and the random seed. All of it reads the database below as it was before the block. The
  blocks themselves, the forks and the undo states are in \<open>Bts_Fork\<close>.
\<close>

section \<open>Blocks\<close>

record full_block =
  fb_header :: signed_block_header
  user_transactions :: "signed_transaction list"

record digest_block =
  db_header :: signed_block_header
  user_transaction_ids :: "transaction_id_type list"

text \<open>The serialiser of the \<open>fc\<close> library for the two types the record \<open>env\<close> does not have.\<close>

record node =
  base :: env
  pack_full_block :: "full_block \<Rightarrow> bytes"
  pack_transaction_ids :: "transaction_id_type list \<Rightarrow> bytes"

definition block_size :: "node \<Rightarrow> full_block \<Rightarrow> u64" where
  "block_size n b = of_nat (length (pack_full_block n b))"

definition to_digest_block :: "node \<Rightarrow> full_block \<Rightarrow> digest_block" where
  "to_digest_block n b = \<lparr>db_header = fb_header b,
     user_transaction_ids = map (trx_id (base n)) (user_transactions b)\<rparr>"

definition calculate_transaction_digest :: "node \<Rightarrow> digest_block \<Rightarrow> digest_type" where
  "calculate_transaction_digest n b =
    fc_sha256 (base n) (fc_sha512 (base n) (pack_transaction_ids n (user_transaction_ids b)))"

definition validate_digest :: "node \<Rightarrow> digest_block \<Rightarrow> bool" where
  "validate_digest n b = (calculate_transaction_digest n b = transaction_digest (db_header b))"

fun validate_ids :: "transaction_id_type list \<Rightarrow> transaction_id_type list \<Rightarrow> bool" where
  "validate_ids trx_ids [] = True"
| "validate_ids trx_ids (i # ids) = (if i \<in> set trx_ids then False else validate_ids (i # trx_ids) ids)"

definition validate_unique :: "digest_block \<Rightarrow> bool" where
  "validate_unique b = validate_ids [] (user_transaction_ids b)"

section \<open>The fee and the pay of the next block\<close>

definition BTS_BLOCKCHAIN_BLOCK_INTERVAL_SEC :: nat where
  "BTS_BLOCKCHAIN_BLOCK_INTERVAL_SEC = 15"

definition BTS_BLOCKCHAIN_TARGET_BLOCK_SIZE :: int where
  "BTS_BLOCKCHAIN_TARGET_BLOCK_SIZE = BTS_BLOCKCHAIN_MAX_BLOCK_SIZE div 2"

definition BTS_BLOCKCHAIN_BLOCKS_PER_DAY :: int where
  "BTS_BLOCKCHAIN_BLOCKS_PER_DAY = 60 * 60 div 15 * 24"

definition BTS_BLOCKCHAIN_MIN_FEE :: u64 where
  "BTS_BLOCKCHAIN_MIN_FEE = 1000"

text \<open>The size is unsigned, which makes both divisions unsigned; those of the pay are signed.\<close>

definition next_fee :: "share_type \<Rightarrow> u64 \<Rightarrow> share_type" where
  "next_fee current_fee blk_size =
    (let next_fee_base = blk_size * current_fee div word_of_int BTS_BLOCKCHAIN_TARGET_BLOCK_SIZE;
         next_fee = (word_of_int (BTS_BLOCKCHAIN_BLOCKS_PER_DAY - 1) * current_fee + next_fee_base)
           div word_of_int BTS_BLOCKCHAIN_BLOCKS_PER_DAY
     in max next_fee BTS_BLOCKCHAIN_MIN_FEE)"

definition next_delegate_pay :: "share_type \<Rightarrow> share_type \<Rightarrow> share_type" where
  "next_delegate_pay current_pay block_fees =
    int64_div (word_of_int (BTS_BLOCKCHAIN_BLOCKS_PER_DAY - 1) * current_pay + block_fees)
      (word_of_int BTS_BLOCKCHAIN_BLOCKS_PER_DAY)"

section \<open>Delegates\<close>

text \<open>A \<open>time_point_sec\<close> is a \<open>uint32_t\<close>, and so is the sum with a number of seconds.\<close>

definition get_signing_delegate_id :: "chain_database \<Rightarrow> time_point_sec \<Rightarrow> chain_error + account_id_type" where
  "get_signing_delegate_id d sec =
    (if sec + 3600 < bh_timestamp (head_block_header d) then Inl fc_assert
     else
       let interval_number = unat sec div BTS_BLOCKCHAIN_BLOCK_INTERVAL_SEC;
           delegate_pos = interval_number mod BTS_BLOCKCHAIN_NUM_DELEGATES
       in res_bind (get_active_delegates (Database d)) (\<lambda>sorted_delegates.
            if delegate_pos < length sorted_delegates then Inr (sorted_delegates ! delegate_pos)
            else Inl fc_assert))"

definition get_signing_delegate_key :: "chain_database \<Rightarrow> time_point_sec \<Rightarrow> chain_error + public_key_type" where
  "get_signing_delegate_key d sec =
    res_bind (get_signing_delegate_id d sec) (\<lambda>i.
      case get_account_record (Database d) i of
        None \<Rightarrow> Inl fc_assert
      | Some delegate_record \<Rightarrow> Inr (active_key delegate_record))"

text \<open>\<open>get_delegates_by_vote\<close>: the index is kept in its order.\<close>

definition get_delegates_by_vote :: "chain_database \<Rightarrow> nat \<Rightarrow> nat \<Rightarrow> account_id_type list" where
  "get_delegates_by_vote d first count = take count (drop first (map snd (delegate_vote_index_db d)))"

definition next_round_active_delegates :: "chain_database \<Rightarrow> account_id_type list" where
  "next_round_active_delegates d = get_delegates_by_vote d 0 BTS_BLOCKCHAIN_NUM_DELEGATES"

section \<open>The header\<close>

definition validate_signee :: "env \<Rightarrow> signed_block_header \<Rightarrow> public_key_type \<Rightarrow> chain_error + bool" where
  "validate_signee e h expected_signee =
    (case header_signee e h of None \<Rightarrow> Inl no_result | Some k \<Rightarrow> Inr (k = expected_signee))"

definition verify_header :: "node \<Rightarrow> block_id_type \<Rightarrow> chain_database \<Rightarrow> full_block \<Rightarrow> chain_error + unit" where
  "verify_header n head_id d b =
    (let h = fb_header b; head = head_block_header d
     in if bh_block_num h \<noteq> bh_block_num head + 1 then Inl block_numbers_not_sequential
        else if bh_previous h \<noteq> head_id then Inl invalid_previous_block_id
        else if unat (bh_timestamp h) mod BTS_BLOCKCHAIN_BLOCK_INTERVAL_SEC \<noteq> 0 then Inl invalid_block_time
        else if bh_timestamp h \<le> bh_timestamp head then Inl time_in_past
        else if \<not> bh_timestamp h \<le> wall_clock d + of_nat (BTS_BLOCKCHAIN_BLOCK_INTERVAL_SEC div 2) then Inl fc_assert
        else if fee_rate h \<noteq> next_fee (fee_rate head) (block_size n b) then Inl fc_assert
        else
          let digest_data = to_digest_block n b
          in if \<not> validate_digest n digest_data then Inl fc_assert
             else if \<not> validate_unique digest_data then Inl fc_assert
             else res_bind (get_signing_delegate_id d (bh_timestamp h)) (\<lambda>_.
               res_bind (get_signing_delegate_key d (bh_timestamp h)) (\<lambda>k.
               res_bind (validate_signee (base n) h k) (\<lambda>ok. if \<not> ok then Inl fc_assert else Inr ()))))"

section \<open>Produced and missed blocks\<close>

definition with_stats :: "(delegate_stats \<Rightarrow> delegate_stats) \<Rightarrow> account_record \<Rightarrow> account_record" where
  "with_stats f r = r\<lparr>delegate_info := map_option f (delegate_info r)\<rparr>"

text \<open>The record and the statistics the code dereferences without a test.\<close>

definition deref_delegate :: "chain \<Rightarrow> account_id_type \<Rightarrow> chain_error + account_record \<times> delegate_stats" where
  "deref_delegate c i =
    (case get_account_record c i of
       None \<Rightarrow> Inl undefined_behaviour
     | Some r \<Rightarrow> (case delegate_info r of None \<Rightarrow> Inl undefined_behaviour | Some s \<Rightarrow> Inr (r, s)))"

definition validate_secret :: "env \<Rightarrow> chain_database \<Rightarrow> signed_block_header \<Rightarrow> chain \<Rightarrow> chain_error + chain" where
  "validate_secret e d h pending_state =
    res_bind (get_signing_delegate_id d (bh_timestamp h)) (\<lambda>delegate_id.
    res_bind (deref_delegate pending_state delegate_id) (\<lambda>(delegate_rec, stats).
      if 0 < blocks_produced stats \<and> fc_ripemd160 e (previous_secret h) \<noteq> next_secret_hash stats
      then Inl fc_assert
      else Inr (store_account_record e (with_stats (\<lambda>s. s\<lparr>next_secret_hash := bh_next_secret_hash h,
             last_block_num_produced := bh_block_num h\<rparr>) delegate_rec) pending_state)))"

text \<open>The body of the loop over the slots since the head block, for the slot at \<open>headblock_timestamp\<close>.\<close>

definition production_slot ::
  "env \<Rightarrow> chain_database \<Rightarrow> time_point_sec \<Rightarrow> time_point_sec \<Rightarrow> share_type \<Rightarrow> chain \<Rightarrow> chain_error + share_type \<times> chain" where
  "production_slot e d produced headblock_timestamp required_confirmations pending_state =
    res_bind (get_signing_delegate_id d headblock_timestamp) (\<lambda>delegate_id.
    res_bind (deref_delegate pending_state delegate_id) (\<lambda>(delegate_rec, _).
      if headblock_timestamp \<noteq> produced
      then Inr (required_confirmations + 2, store_account_record e
             (with_stats (\<lambda>s. s\<lparr>blocks_missed := blocks_missed s + 1\<rparr>) delegate_rec) pending_state)
      else Inr (required_confirmations, store_account_record e
             (with_stats (\<lambda>s. s\<lparr>blocks_produced := blocks_produced s + 1\<rparr>) delegate_rec) pending_state)))"

partial_function (option) production_loop ::
  "env \<Rightarrow> chain_database \<Rightarrow> time_point_sec \<Rightarrow> time_point_sec \<Rightarrow> share_type \<Rightarrow> chain \<Rightarrow> (chain_error + share_type \<times> chain) option" where
  "production_loop e d produced headblock_timestamp required_confirmations pending_state =
    (let ts = headblock_timestamp + of_nat BTS_BLOCKCHAIN_BLOCK_INTERVAL_SEC
     in case production_slot e d produced ts required_confirmations pending_state of
          Inl err \<Rightarrow> Some (Inl err)
        | Inr (rc, c) \<Rightarrow> if ts < produced then production_loop e d produced ts rc c else Some (Inr (rc, c)))"

definition clamp_confirmations :: "share_type \<Rightarrow> share_type" where
  "clamp_confirmations required_confirmations =
    (let rc = required_confirmations - 1;
         rc = (if rc <s 1 then 1 else rc)
     in if of_nat (BTS_BLOCKCHAIN_NUM_DELEGATES * 3) <s rc then of_nat (3 * BTS_BLOCKCHAIN_NUM_DELEGATES) else rc)"

definition update_delegate_production_info ::
  "env \<Rightarrow> chain_database \<Rightarrow> signed_block_header \<Rightarrow> chain \<Rightarrow> (chain_error + chain) option" where
  "update_delegate_production_info e d h pending_state =
    (case validate_secret e d h pending_state of
       Inl err \<Rightarrow> Some (Inl err)
     | Inr c \<Rightarrow>
         let head = head_block_header d;
             headblock_timestamp = (if bh_block_num head = 0
               then bh_timestamp h - of_nat BTS_BLOCKCHAIN_BLOCK_INTERVAL_SEC else bh_timestamp head)
         in case property_int c confirmation_requirement of
              Inl err \<Rightarrow> Some (Inl err)
            | Inr rc \<Rightarrow> map_option (\<lambda>r. res_bind r (\<lambda>(rc, c).
                  Inr (set_property confirmation_requirement (int_value (sint (clamp_confirmations rc))) c)))
                (production_loop e d (bh_timestamp h) headblock_timestamp (word_of_int rc) c))"

section \<open>Transactions and pay\<close>

fun apply_transactions ::
  "env \<Rightarrow> digest_type \<Rightarrow> u32 \<Rightarrow> u32 \<Rightarrow> signed_transaction list \<Rightarrow> chain \<Rightarrow> (chain_error + chain) option" where
  "apply_transactions e i block_num trx_num [] pending_state = Some (Inr pending_state)"
| "apply_transactions e i block_num trx_num (trx # trxs) pending_state =
    (case evaluate e trx (new_eval_state pending_state i) of
       None \<Rightarrow> None
     | Some (Inl err) \<Rightarrow> Some (Inl err)
     | Some (Inr ev) \<Rightarrow> apply_transactions e i block_num (trx_num + 1) trxs
         (store_transaction (trx_id e trx)
           \<lparr>loc_block_num = block_num, loc_trx_num = trx_num, rec_trx = trx\<rparr> (current_state ev)))"

definition pay_delegate :: "env \<Rightarrow> chain_database \<Rightarrow> time_point_sec \<Rightarrow> share_type \<Rightarrow> chain \<Rightarrow> chain_error + chain" where
  "pay_delegate e d time_slot x pending_state =
    res_bind (get_signing_delegate_id d time_slot) (\<lambda>i.
      case get_account_record pending_state i of
        None \<Rightarrow> Inl fc_assert
      | Some delegate_record \<Rightarrow>
          if \<not> is_delegate delegate_record then Inl fc_assert
          else
            let c = store_account_record e (with_stats (\<lambda>s. s\<lparr>pay_balance := pay_balance s + x,
                      ds_votes_for := ds_votes_for s + x\<rparr>) delegate_record) pending_state
            in (case get_asset_record c 0 of
                  None \<Rightarrow> Inl fc_assert
                | Some base_asset_record \<Rightarrow> Inr (store_asset_record (base_asset_record\<lparr>
                    current_share_supply := current_share_supply base_asset_record + x\<rparr>) c)))"

section \<open>The delegates of the next round and the random seed\<close>

text \<open>
  The words \<open>_hash[x]\<close> of an \<open>fc::sha256\<close>, as a little-endian machine reads them.
\<close>

definition sha256_word :: "bytes \<Rightarrow> nat \<Rightarrow> nat" where
  "sha256_word seed x = unat (word_rcat (rev (take 8 (drop (8 * x) seed))) :: u64)"

definition swap_at :: "nat \<Rightarrow> nat \<Rightarrow> 'a list \<Rightarrow> 'a list" where
  "swap_at i j xs = xs[i := xs ! j, j := xs ! i]"

text \<open>The inner loop, from \<open>x\<close> on: both counters go up.\<close>

function shuffle_four :: "bytes \<Rightarrow> nat \<Rightarrow> nat \<Rightarrow> 'a list \<Rightarrow> nat \<times> 'a list" where
  "shuffle_four rand_seed x i active_del =
    (if x < 4 \<and> i < length active_del
     then shuffle_four rand_seed (x + 1) (i + 1)
       (swap_at i (sha256_word rand_seed x mod length active_del) active_del)
     else (i, active_del))"
  by pat_completeness auto
termination by (relation "measure (\<lambda>(_, x, _, _). 4 - x)") auto

declare shuffle_four.simps [simp del]

text \<open>The outer loop, whose own increment comes on top of those of the inner loop.\<close>

lemma shuffle_four_grows: "i \<le> fst (shuffle_four rand_seed x i xs)"
proof (induction rand_seed x i xs rule: shuffle_four.induct)
  case (1 rand_seed x i xs)
  then show ?case by (subst shuffle_four.simps) auto
qed

function shuffle :: "env \<Rightarrow> bytes \<Rightarrow> nat \<Rightarrow> nat \<Rightarrow> 'a list \<Rightarrow> 'a list" where
  "shuffle e rand_seed i num_del active_del =
    (if i < num_del
     then
       let (i', active_del) = shuffle_four rand_seed 0 i active_del
       in shuffle e (fc_sha256 e rand_seed) (i' + 1) num_del active_del
     else active_del)"
  by pat_completeness auto
termination
  by (relation "measure (\<lambda>(_, _, i, num_del, _). num_del - i)")
    (simp_all add: shuffle_four_grows diff_less_mono2 less_Suc_eq_le, metis fst_conv diff_less_mono2 le_imp_less_Suc shuffle_four_grows)

declare shuffle.simps [simp del]

definition update_active_delegate_list :: "env \<Rightarrow> chain_database \<Rightarrow> signed_block_header \<Rightarrow> chain \<Rightarrow> chain_error + chain" where
  "update_active_delegate_list e d h pending_state =
    (if unat (bh_block_num h) mod BTS_BLOCKCHAIN_NUM_DELEGATES = 0
     then
       let active_del = next_round_active_delegates d
       in res_bind (get_current_random_seed (Database d)) (\<lambda>seed.
            Inr (set_property active_delegate_list_id
              (ids_value (shuffle e (fc_sha256 e seed) 0 (length active_del) active_del)) pending_state))
     else Inr pending_state)"

definition update_random_seed :: "env \<Rightarrow> bytes \<Rightarrow> chain \<Rightarrow> chain_error + chain" where
  "update_random_seed e new_secret pending_state =
    res_bind (get_current_random_seed pending_state) (\<lambda>current_seed.
      Inr (set_property last_random_seed_id
        (hash_value (fc_ripemd160 e (fc_sha512 e (new_secret @ current_seed)))) pending_state))"

section \<open>The pending state of a block\<close>

text \<open>\<open>extend_chain\<close> between the check of the header and the undo state.\<close>

definition block_state ::
  "env \<Rightarrow> digest_type \<Rightarrow> chain_database \<Rightarrow> full_block \<Rightarrow> (chain_error + chain) option" where
  "block_state e i d b =
    (let h = fb_header b; pending_state = Pending new_pending_state (Database d)
     in case update_delegate_production_info e d h pending_state of
          None \<Rightarrow> None
        | Some (Inl err) \<Rightarrow> Some (Inl err)
        | Some (Inr c) \<Rightarrow>
            map_option (\<lambda>r. res_bind r (\<lambda>c.
                res_bind (pay_delegate e d (bh_timestamp h) (delegate_pay_rate h) c) (\<lambda>c.
                res_bind (update_active_delegate_list e d h c) (\<lambda>c.
                  update_random_seed e (previous_secret h) c))))
              (apply_transactions e i (bh_block_num h) 0 (user_transactions b) c))"

end
