(* ===== verification/Bts_Fork.thy ===== *)
theory Bts_Fork
  imports Bts_Block
begin

text \<open>
  The block tree and the chain that is built from it (\<open>chain_database.cpp\<close>): \<open>store_and_index\<close>, the
  marking of the blocks, \<open>extend_chain\<close>, \<open>pop_block\<close>, \<open>switch_to_fork\<close>, \<open>push_block\<close>, the transactions
  that wait for a block and \<open>generate_block\<close>. An operation that throws keeps what it has changed so
  far, so a run here gives the state also with an error. Loops that need not end make a run an option:
  \<open>None\<close> is a run that does not return. The observers that are called after a block are not part of
  the state.
\<close>

section \<open>The state\<close>

record block_fork_data =
  next_blocks :: "block_id_type list"
  is_linked :: bool
  is_valid :: "bool option"
  is_included :: bool
  is_known_data :: bool

definition new_fork_data :: block_fork_data where
  "new_fork_data = \<lparr>next_blocks = [], is_linked = False, is_valid = None, is_included = False,
     is_known_data = False\<rparr>"

definition fork_invalid :: "block_fork_data \<Rightarrow> bool" where
  "fork_invalid f = (case is_valid f of Some v \<Rightarrow> \<not> v | None \<Rightarrow> False)"

definition can_link :: "block_fork_data \<Rightarrow> bool" where
  "can_link f = (is_linked f \<and> \<not> fork_invalid f)"

record block_record =
  br_digest_block :: digest_block
  br_block_size :: u64
  br_random_seed :: bytes

type_synonym fee_index = "share_type \<times> transaction_id_type"

record chain_database_impl =
  tables :: chain_database
  db_chain_id :: digest_type
  head_block_id :: block_id_type
  fork_number_db :: "(u32, block_id_type list) table"
  fork_db :: "(block_id_type, block_fork_data) table"
  undo_state_db :: "(block_id_type, pending_chain_state) table"
  block_num_to_id_db :: "(u32, block_id_type) table"
  block_id_to_block_record_db :: "(block_id_type, block_record) table"
  pending_transaction_db :: "(transaction_id_type, signed_transaction) table"
  pending_fee_index :: "(fee_index \<times> eval_state) list"
  pending_trx_state :: "pending_chain_state option"

definition null_block_id :: block_id_type where
  "null_block_id = replicate 20 0"

text \<open>The database a \<open>chain\<close> that is one points to.\<close>

definition database_of :: "chain_database \<Rightarrow> chain \<Rightarrow> chain_database" where
  "database_of d c = (case c of Database d' \<Rightarrow> d' | _ \<Rightarrow> d)"

type_synonym 'a run = "((chain_error + 'a) \<times> chain_database_impl) option"

definition run_bind :: "'a run \<Rightarrow> ('a \<Rightarrow> chain_database_impl \<Rightarrow> 'b run) \<Rightarrow> 'b run" where
  "run_bind r f = (case r of
       None \<Rightarrow> None
     | Some (Inl err, st) \<Rightarrow> Some (Inl err, st)
     | Some (Inr x, st) \<Rightarrow> f x st)"

text \<open>A block with the record of the database about it.\<close>

definition block_id :: "node \<Rightarrow> full_block \<Rightarrow> block_id_type" where
  "block_id n b = header_id (base n) (fb_header b)"

definition make_block_record :: "node \<Rightarrow> full_block \<Rightarrow> chain_database_impl \<Rightarrow> chain_error + block_record" where
  "make_block_record n b st = res_bind (get_current_random_seed (Database (tables st)))
     (\<lambda>seed. Inr \<lparr>br_digest_block = to_digest_block n b, br_block_size = block_size n b,
        br_random_seed = seed\<rparr>)"

section \<open>The block tree\<close>

definition fetch_blocks_at_number :: "u32 \<Rightarrow> chain_database_impl \<Rightarrow> block_id_type list" where
  "fetch_blocks_at_number block_num st = (case map_of (fork_number_db st) block_num of Some l \<Rightarrow> l | None \<Rightarrow> [])"

text \<open>One round of the loop of \<open>recursive_mark_as_X\<close>, where \<open>mark\<close> changes a record.\<close>

type_synonym fork_table = "(block_id_type, block_fork_data) table"

fun mark_level :: "(block_fork_data \<Rightarrow> block_fork_data) \<Rightarrow> block_id_type list \<Rightarrow> block_id_type list
    \<Rightarrow> fork_table \<Rightarrow> (chain_error + block_id_type list) \<times> fork_table" where
  "mark_level mark [] pending t = (Inr pending, t)"
| "mark_level mark (item # ids) pending t =
    (case map_of t item of
       None \<Rightarrow> (Inl no_result, t)
     | Some r \<Rightarrow>
         let r = mark r
         in mark_level mark ids (fold List.insert (next_blocks r) pending) (AList.update item r t))"

partial_function (option) recursive_mark :: "(block_fork_data \<Rightarrow> block_fork_data) \<Rightarrow> block_id_type list
    \<Rightarrow> fork_table \<Rightarrow> ((chain_error + unit) \<times> fork_table) option" where
  "recursive_mark mark next_ids t =
    (if next_ids = [] then Some (Inr (), t)
     else case mark_level mark next_ids [] t of
       (Inl err, t') \<Rightarrow> Some (Inl err, t')
     | (Inr pending, t') \<Rightarrow> recursive_mark mark pending t')"

definition recursive_mark_as_linked :: "block_id_type list \<Rightarrow> fork_table \<Rightarrow> ((chain_error + unit) \<times> fork_table) option" where
  "recursive_mark_as_linked = recursive_mark (\<lambda>r. r\<lparr>is_linked := True\<rparr>)"

definition recursive_mark_as_invalid :: "block_id_type list \<Rightarrow> fork_table \<Rightarrow> ((chain_error + unit) \<times> fork_table) option" where
  "recursive_mark_as_invalid = recursive_mark (\<lambda>r. r\<lparr>is_valid := Some False\<rparr>)"

definition on_fork_db :: "((chain_error + unit) \<times> fork_table) option \<Rightarrow> chain_database_impl \<Rightarrow> unit run" where
  "on_fork_db r st = map_option (\<lambda>(x, t). (x, st\<lparr>fork_db := t\<rparr>)) r"

text \<open>\<open>store_and_index\<close>: the entry of the previous block, then the entry of the block itself.\<close>

definition link_to_previous :: "block_id_type \<Rightarrow> block_id_type \<Rightarrow> fork_table \<Rightarrow> block_fork_data \<times> fork_table" where
  "link_to_previous previous i t =
    (let prev_fork_data = (case map_of t previous of
           Some r \<Rightarrow> r\<lparr>next_blocks := List.insert i (next_blocks r)\<rparr>
         | None \<Rightarrow> new_fork_data\<lparr>next_blocks := [i], is_linked := (previous = null_block_id)\<rparr>)
     in (prev_fork_data, AList.update previous prev_fork_data t))"

definition index_block :: "block_id_type \<Rightarrow> block_fork_data \<Rightarrow> fork_table
    \<Rightarrow> ((chain_error + block_fork_data) \<times> fork_table) option" where
  "index_block i prev_fork_data t =
    (case map_of t i of
       Some current_fork \<Rightarrow>
         if \<not> is_linked current_fork \<and> is_linked prev_fork_data
         then
           let current_fork = current_fork\<lparr>is_linked := True\<rparr>
           in (case recursive_mark_as_linked (next_blocks current_fork) t of
                 None \<Rightarrow> None
               | Some (Inl err, t) \<Rightarrow> Some (Inl err, t)
               | Some (Inr _, t) \<Rightarrow> Some (Inr current_fork, AList.update i current_fork t))
         else Some (Inr current_fork, AList.update i current_fork t)
     | None \<Rightarrow>
         let current_fork = new_fork_data\<lparr>is_known_data := True, is_linked := is_linked prev_fork_data\<rparr>
         in Some (Inr current_fork, AList.update i current_fork t))"

definition store_and_index :: "node \<Rightarrow> block_id_type \<Rightarrow> full_block \<Rightarrow> chain_database_impl \<Rightarrow> block_fork_data run" where
  "store_and_index n i b st =
    (case make_block_record n b st of
       Inl err \<Rightarrow> Some (Inl err, st)
     | Inr r \<Rightarrow>
         let st = st\<lparr>block_id_to_block_record_db := AList.update i r (block_id_to_block_record_db st)\<rparr>;
             block_num = bh_block_num (fb_header b);
             parallel_blocks = fetch_blocks_at_number block_num st;
             st = (if i \<notin> set parallel_blocks
               then st\<lparr>fork_number_db := AList.update block_num (parallel_blocks @ [i]) (fork_number_db st)\<rparr>
               else st);
             (prev_fork_data, t) = link_to_previous (bh_previous (fb_header b)) i (fork_db st)
         in map_option (\<lambda>(r, t). (r, st\<lparr>fork_db := t\<rparr>)) (index_block i prev_fork_data t))"

definition mark_invalid :: "block_id_type \<Rightarrow> chain_database_impl \<Rightarrow> unit run" where
  "mark_invalid i st =
    (case map_of (fork_db st) i of
       None \<Rightarrow> Some (Inl no_result, st)
     | Some fork_data \<Rightarrow>
         let fork_data = fork_data\<lparr>is_valid := Some False\<rparr>;
             t = AList.update i fork_data (fork_db st)
         in on_fork_db (recursive_mark_as_invalid (next_blocks fork_data) t) st)"

definition mark_included :: "block_id_type \<Rightarrow> bool \<Rightarrow> chain_database_impl \<Rightarrow> unit run" where
  "mark_included i included st =
    (case map_of (fork_db st) i of
       None \<Rightarrow> Some (Inl no_result, st)
     | Some fork_data \<Rightarrow>
         let fork_data = fork_data\<lparr>is_included := included\<rparr>;
             fork_data = (if included then fork_data\<lparr>is_valid := Some True\<rparr> else fork_data)
         in Some (Inr (), st\<lparr>fork_db := AList.update i fork_data (fork_db st)\<rparr>))"

section \<open>The transactions that wait for a block\<close>

text \<open>The order of \<open>fee_index\<close>: the highest fee first, then the lowest identifier.\<close>

fun bytes_less :: "bytes \<Rightarrow> bytes \<Rightarrow> bool" where
  "bytes_less [] ys = (ys \<noteq> [])"
| "bytes_less (x # xs) [] = False"
| "bytes_less (x # xs) (y # ys) = (x < y \<or> x = y \<and> bytes_less xs ys)"

definition fee_index_less :: "fee_index \<Rightarrow> fee_index \<Rightarrow> bool" where
  "fee_index_less a b = (if fst a = fst b then bytes_less (snd a) (snd b) else fst b <s fst a)"

fun fee_index_store :: "fee_index \<Rightarrow> 'v \<Rightarrow> (fee_index \<times> 'v) list \<Rightarrow> (fee_index \<times> 'v) list" where
  "fee_index_store k v [] = [(k, v)]"
| "fee_index_store k v ((k', v') # xs) =
    (if fee_index_less k k' then (k, v) # (k', v') # xs
     else if fee_index_less k' k then (k', v') # fee_index_store k v xs
     else (k', v) # xs)"

text \<open>\<open>evaluate_transaction\<close>, with the pending state it makes when there is none.\<close>

definition evaluate_pending :: "node \<Rightarrow> signed_transaction \<Rightarrow> chain_database_impl \<Rightarrow> eval_state run" where
  "evaluate_pending n t st =
    (let p = (case pending_trx_state st of None \<Rightarrow> new_pending_state | Some p \<Rightarrow> p);
         st = st\<lparr>pending_trx_state := Some p\<rparr>
     in map_option (\<lambda>r. case r of
            Inl err \<Rightarrow> (Inl err, st)
          | Inr (ev, c) \<Rightarrow> (Inr ev, st\<lparr>pending_trx_state := (case c of Pending p' _ \<Rightarrow> Some p' | _ \<Rightarrow> None)\<rparr>))
        (evaluate_transaction (base n) (db_chain_id st) t (Pending p (Database (tables st)))))"

definition index_pending :: "node \<Rightarrow> signed_transaction \<Rightarrow> eval_state \<Rightarrow> chain_database_impl \<Rightarrow> chain_database_impl" where
  "index_pending n t ev st =
    (let i = trx_id (base n) t
     in st\<lparr>pending_fee_index := fee_index_store (get_fees 0 ev, i) ev (pending_fee_index st),
           pending_transaction_db := AList.update i t (pending_transaction_db st)\<rparr>)"

definition store_pending_transaction :: "node \<Rightarrow> signed_transaction \<Rightarrow> chain_database_impl \<Rightarrow> eval_state option run" where
  "store_pending_transaction n t st =
    (if map_of (pending_transaction_db st) (trx_id (base n) t) \<noteq> None then Some (Inr None, st)
     else run_bind (evaluate_pending n t st) (\<lambda>ev st. Some (Inr (Some ev), index_pending n t ev st)))"

text \<open>The loop of \<open>clear_pending\<close>, with the transactions to discard.\<close>

fun reevaluate :: "node \<Rightarrow> signed_transaction list \<Rightarrow> transaction_id_type list \<Rightarrow> chain_database_impl
    \<Rightarrow> (transaction_id_type list \<times> chain_database_impl) option" where
  "reevaluate n [] trx_to_discard st = Some (trx_to_discard, st)"
| "reevaluate n (t # ts) trx_to_discard st =
    (case evaluate_pending n t st of
       None \<Rightarrow> None
     | Some (Inl _, st) \<Rightarrow> reevaluate n ts (trx_to_discard @ [trx_id (base n) t]) st
     | Some (Inr ev, st) \<Rightarrow> reevaluate n ts trx_to_discard (index_pending n t ev st))"

definition remove_pending :: "transaction_id_type list \<Rightarrow> chain_database_impl \<Rightarrow> chain_database_impl" where
  "remove_pending ids st = st\<lparr>pending_transaction_db :=
     fold AList.delete ids (pending_transaction_db st)\<rparr>"

definition clear_pending :: "node \<Rightarrow> full_block \<Rightarrow> chain_database_impl \<Rightarrow> chain_database_impl option" where
  "clear_pending n b st =
    (let st = remove_pending (map (trx_id (base n)) (user_transactions b)) st;
         st = st\<lparr>pending_fee_index := [], pending_trx_state := Some new_pending_state\<rparr>
     in map_option (\<lambda>(trx_to_discard, st). remove_pending trx_to_discard st)
          (reevaluate n (map snd (pending_transaction_db st)) [] st))"

section \<open>Extending the chain and popping its head\<close>

text \<open>\<open>update_head_block\<close>.\<close>

definition update_head_block :: "node \<Rightarrow> full_block \<Rightarrow> chain_database_impl \<Rightarrow> unit run" where
  "update_head_block n b st =
    (let st = st\<lparr>tables := (tables st)\<lparr>head_block_header := fb_header b\<rparr>, head_block_id := block_id n b\<rparr>
     in case make_block_record n b st of
          Inl err \<Rightarrow> Some (Inl err, st)
        | Inr r \<Rightarrow> Some (Inr (), st\<lparr>block_id_to_block_record_db :=
            AList.update (block_id n b) r (block_id_to_block_record_db st)\<rparr>))"

text \<open>The part of \<open>extend_chain\<close> after the undo state has been computed.\<close>

definition commit_block :: "node \<Rightarrow> full_block \<Rightarrow> pending_chain_state \<Rightarrow> pending_chain_state
    \<Rightarrow> chain_database_impl \<Rightarrow> unit run" where
  "commit_block n b pending_state undo_state st =
    (let i = block_id n b; d = tables st;
         st = st\<lparr>undo_state_db := AList.update i undo_state (undo_state_db st)\<rparr>;
         st = st\<lparr>tables := database_of d (apply_changes (base n) pending_state (Database d))\<rparr>
     in run_bind (mark_included i True st) (\<lambda>_ st.
        run_bind (update_head_block n b st) (\<lambda>_ st.
        map_option (\<lambda>st. (Inr (), st\<lparr>block_num_to_id_db :=
            AList.update (bh_block_num (fb_header b)) i (block_num_to_id_db st)\<rparr>))
          (clear_pending n b st))))"

definition try_extend_chain :: "node \<Rightarrow> full_block \<Rightarrow> chain_database_impl \<Rightarrow> unit run" where
  "try_extend_chain n b st =
    (case verify_header n (head_block_id st) (tables st) b of
       Inl err \<Rightarrow> Some (Inl err, st)
     | Inr _ \<Rightarrow> (case block_state (base n) (db_chain_id st) (tables st) b of
         None \<Rightarrow> None
       | Some (Inl err) \<Rightarrow> Some (Inl err, st)
       | Some (Inr c) \<Rightarrow> (case c of
           Pending p prev \<Rightarrow> (case get_undo_state (base n) p prev of
               Inl err \<Rightarrow> Some (Inl err, st)
             | Inr u \<Rightarrow> commit_block n b p u st)
         | _ \<Rightarrow> Some (Inl undefined_behaviour, st))))"

definition extend_chain :: "node \<Rightarrow> full_block \<Rightarrow> chain_database_impl \<Rightarrow> unit run" where
  "extend_chain n b st =
    (case try_extend_chain n b st of
       None \<Rightarrow> None
     | Some (Inr _, st) \<Rightarrow> Some (Inr (), st)
     | Some (Inl err, st) \<Rightarrow> run_bind (mark_invalid (block_id n b) st) (\<lambda>_ st. Some (Inl err, st)))"

definition get_block_header :: "block_id_type \<Rightarrow> chain_database_impl \<Rightarrow> chain_error + signed_block_header" where
  "get_block_header i st =
    (case map_of (block_id_to_block_record_db st) i of
       None \<Rightarrow> Inl undefined_behaviour
     | Some r \<Rightarrow> Inr (db_header (br_digest_block r)))"

definition pop_block :: "node \<Rightarrow> chain_database_impl \<Rightarrow> unit run" where
  "pop_block n st =
    (if \<not> 0 < bh_block_num (head_block_header (tables st)) then Some (Inl fc_assert, st)
     else run_bind (mark_included (head_block_id st) False st) (\<lambda>_ st.
       let head = head_block_header (tables st);
           st = st\<lparr>block_num_to_id_db := AList.delete (bh_block_num head) (block_num_to_id_db st)\<rparr>;
           previous_block_id = bh_previous head
       in case map_of (undo_state_db st) (head_block_id st) of
            None \<Rightarrow> Some (Inl no_result, st)
          | Some undo_state \<Rightarrow>
              let d = tables st;
                  st = st\<lparr>tables := database_of d (apply_changes (base n) undo_state (Database d)),
                          head_block_id := previous_block_id\<rparr>
              in (case get_block_header previous_block_id st of
                    Inl err \<Rightarrow> Some (Inl err, st)
                  | Inr h \<Rightarrow> Some (Inr (), st\<lparr>tables := (tables st)\<lparr>head_block_header := h\<rparr>\<rparr>))))"

section \<open>Forks\<close>

text \<open>The blocks of a fork, from its tip down to the first block that is included in the chain.\<close>

partial_function (option) fork_history_loop ::
  "chain_database_impl \<Rightarrow> block_id_type \<Rightarrow> block_id_type list \<Rightarrow> (chain_error + block_id_type list) option" where
  "fork_history_loop st next_id history =
    (case get_block_header next_id st of
       Inl err \<Rightarrow> Some (Inl err)
     | Inr header \<Rightarrow>
         let previous = bh_previous header; history = history @ [previous]
         in if previous = null_block_id then Some (Inr history)
            else (case map_of (fork_db st) previous of
                None \<Rightarrow> Some (Inl no_result)
              | Some prev_fork_data \<Rightarrow>
                  if \<not> is_linked prev_fork_data then Some (Inl fc_assert)
                  else if is_included prev_fork_data then Some (Inr history)
                  else fork_history_loop st previous history))"

definition get_fork_history :: "block_id_type \<Rightarrow> chain_database_impl \<Rightarrow> (chain_error + block_id_type list) option" where
  "get_fork_history i st = fork_history_loop st i [i]"

fun fetch_transactions :: "chain_database \<Rightarrow> transaction_id_type list \<Rightarrow> chain_error + signed_transaction list" where
  "fetch_transactions d [] = Inr []"
| "fetch_transactions d (i # ids) =
    (case map_of (transaction_db d) i of
       None \<Rightarrow> Inl unknown_transaction
     | Some r \<Rightarrow> res_bind (fetch_transactions d ids) (\<lambda>ts. Inr (rec_trx r # ts)))"

definition get_block :: "block_id_type \<Rightarrow> chain_database_impl \<Rightarrow> chain_error + full_block" where
  "get_block i st =
    (case map_of (block_id_to_block_record_db st) i of
       None \<Rightarrow> Inl no_result
     | Some r \<Rightarrow> res_bind (fetch_transactions (tables st) (user_transaction_ids (br_digest_block r)))
         (\<lambda>ts. Inr \<lparr>fb_header = db_header (br_digest_block r), user_transactions = ts\<rparr>))"

partial_function (option) pop_until :: "node \<Rightarrow> block_id_type \<Rightarrow> chain_database_impl \<Rightarrow> unit run" where
  "pop_until n i st =
    (if head_block_id st = i then Some (Inr (), st)
     else case pop_block n st of
       None \<Rightarrow> None
     | Some (Inl err, st) \<Rightarrow> Some (Inl err, st)
     | Some (Inr _, st) \<Rightarrow> pop_until n i st)"

fun extend_all :: "node \<Rightarrow> block_id_type list \<Rightarrow> chain_database_impl \<Rightarrow> unit run" where
  "extend_all n [] st = Some (Inr (), st)"
| "extend_all n (i # ids) st =
    (case get_block i st of
       Inl err \<Rightarrow> Some (Inl err, st)
     | Inr b \<Rightarrow> run_bind (extend_chain n b st) (\<lambda>_ st. extend_all n ids st))"

definition switch_to_fork :: "node \<Rightarrow> block_id_type \<Rightarrow> chain_database_impl \<Rightarrow> unit run" where
  "switch_to_fork n i st =
    (case get_fork_history i st of
       None \<Rightarrow> None
     | Some (Inl err) \<Rightarrow> Some (Inl err, st)
     | Some (Inr history) \<Rightarrow>
         if history = [] then Some (Inl fc_assert, st)
         else run_bind (pop_until n (last history) st) (\<lambda>_ st. extend_all n (rev (butlast history)) st))"

definition get_new_fork_data :: "block_id_type \<Rightarrow> chain_database_impl \<Rightarrow> block_fork_data run" where
  "get_new_fork_data i st = Some (case map_of (fork_db st) i of None \<Rightarrow> Inl fc_assert | Some f \<Rightarrow> Inr f, st)"

definition push_block :: "node \<Rightarrow> full_block \<Rightarrow> chain_database_impl \<Rightarrow> block_fork_data run" where
  "push_block n b st =
    (let i = block_id n b; current_head_id = head_block_id st
     in run_bind (store_and_index n i b st) (\<lambda>fork st.
        if bh_previous (fb_header b) = current_head_id
        then run_bind (extend_chain n b st) (\<lambda>_ st. get_new_fork_data i st)
        else if can_link fork \<and> bh_block_num (head_block_header (tables st)) < bh_block_num (fb_header b)
        then (case run_bind (switch_to_fork n i st) (\<lambda>_ st. get_new_fork_data i st) of
                Some (Inl _, st) \<Rightarrow> run_bind (switch_to_fork n current_head_id st) (\<lambda>_ st. Some (Inr fork, st))
              | r \<Rightarrow> r)
        else Some (Inr fork, st)))"

section \<open>Making a block\<close>

text \<open>The loop of \<open>generate_block\<close> over the waiting transactions, best fee first.\<close>

fun select_transactions ::
  "node \<Rightarrow> digest_type \<Rightarrow> signed_transaction list \<Rightarrow> u64 \<Rightarrow> signed_transaction list \<Rightarrow> chain
    \<Rightarrow> (u64 \<times> signed_transaction list) option" where
  "select_transactions n i [] sz chosen c = Some (sz, chosen)"
| "select_transactions n i (t # ts) sz chosen c =
    (let trx_size = trx_data_size (base n) t
     in if word_of_int BTS_BLOCKCHAIN_MAX_BLOCK_SIZE < sz + trx_size then Some (sz, chosen)
        else (case evaluate_transaction (base n) i t c of
            None \<Rightarrow> None
          | Some (Inl _) \<Rightarrow> select_transactions n i ts (sz + trx_size) chosen c
          | Some (Inr (_, c)) \<Rightarrow> select_transactions n i ts (sz + trx_size) (chosen @ [t]) c))"

definition generate_block :: "node \<Rightarrow> time_point_sec \<Rightarrow> signature_type \<Rightarrow> chain_database_impl \<Rightarrow> full_block option" where
  "generate_block n timestamp no_signature st =
    map_option (\<lambda>(sz, chosen).
        let head = head_block_header (tables st);
            h = \<lparr>bh_previous = head_block_id st, bh_block_num = bh_block_num head + 1,
                 fee_rate = next_fee (fee_rate head) sz,
                 delegate_pay_rate = next_delegate_pay (delegate_pay_rate head) (word_of_int BTS_BLOCKCHAIN_BLOCK_REWARD),
                 bh_timestamp = timestamp,
                 transaction_digest = calculate_transaction_digest n
                   \<lparr>db_header = head, user_transaction_ids = map (trx_id (base n)) chosen\<rparr>,
                 bh_next_secret_hash = replicate 20 0, previous_secret = replicate 20 0,
                 delegate_signature = no_signature\<rparr>
        in \<lparr>fb_header = h, user_transactions = chosen\<rparr>)
      (select_transactions n (db_chain_id st) (map (ev_trx \<circ> snd) (pending_fee_index st)) 0 []
        (Pending new_pending_state (Database (tables st))))"

end
