(* ===== verification/Bts_Production.thy ===== *)
theory Bts_Production
  imports Bts_Block Bts_Conserve "HOL-Library.Multiset"
begin

text \<open>
  What a block does to the statistics of the delegates: the loop over the slots since the head block
  ends and charges each missed slot to the delegate whose turn it was, the confirmation requirement
  stays within its bounds, the list of the next round is a permutation of the delegates with the most
  votes, and the fee rate follows the size of the blocks.
\<close>

section \<open>Statistics\<close>

definition stat :: "(delegate_stats \<Rightarrow> u32) \<Rightarrow> chain \<Rightarrow> account_id_type \<Rightarrow> u32" where
  "stat f c i = (case get_account_record c i of
     None \<Rightarrow> 0 | Some r \<Rightarrow> (case delegate_info r of None \<Rightarrow> 0 | Some s \<Rightarrow> f s))"

lemma with_stats_simps [simp]:
  "ac_id (with_stats f r) = ac_id r" "ac_name (with_stats f r) = ac_name r"
  "delegate_info (with_stats f r) = map_option f (delegate_info r)"
  "owner_key (with_stats f r) = owner_key r"
  by (simp_all add: with_stats_def)

lemma deref_delegate_Inr:
  "deref_delegate c i = Inr (r, s) \<longleftrightarrow> get_account_record c i = Some r \<and> delegate_info r = Some s"
  by (auto simp: deref_delegate_def split: option.splits)

text \<open>Storing a delegate with changed statistics.\<close>

lemma store_stats:
  assumes "is_pending c" and "chain_wf e c" and "deref_delegate c i = Inr (r, s)"
    and "c' = store_account_record e (with_stats g r) c"
  shows "is_pending c'" and "chain_wf e c'"
    and "stat f c' j = (if j = i then f (g s) else stat f c j)"
    and "stat f c i = f s"
    and "get_property c' p = get_property c p"
proof -
  have r: "get_account_record c i = Some r" "delegate_info r = Some s"
    using assms(3) by (simp_all add: deref_delegate_Inr)
  then have id: "ac_id r = i" using chain_wfD(2) [OF assms(2)] by blast
  show "is_pending c'" using assms(1) by (simp add: assms(4) chain_simps)
  show "chain_wf e c'"
    unfolding assms(4) by (rule chain_wf_store_account [OF assms(1,2)]) (simp add: id r)
  show "stat f c' j = (if j = i then f (g s) else stat f c j)"
    using assms(1) r by (simp add: assms(4) stat_def chain_simps id)
  show "stat f c i = f s" using r by (simp add: stat_def)
  show "get_property c' p = get_property c p" by (simp add: assms(4) chain_simps)
qed

section \<open>The loop over the slots\<close>

text \<open>How often it was the turn of delegate \<open>i\<close> in the first \<open>n\<close> slots after \<open>t\<close>.\<close>

definition turns :: "chain_database \<Rightarrow> account_id_type \<Rightarrow> time_point_sec \<Rightarrow> nat \<Rightarrow> nat" where
  "turns d i t n = length (filter (\<lambda>k. get_signing_delegate_id d (t + 15 * of_nat k) = Inr i) [1..<Suc n])"

lemma turns_0 [simp]: "turns d i t 0 = 0"
  by (simp add: turns_def)

lemma upt_2: "[2..<Suc (Suc n)] = map Suc [1..<Suc n]"
  by (simp only: map_Suc_upt numeral_2_eq_2 One_nat_def)

lemma turns_Suc:
  "turns d i t (Suc n) = (if get_signing_delegate_id d (t + 15) = Inr i then 1 else 0) + turns d i (t + 15) n"
proof -
  have shift: "(\<lambda>k. get_signing_delegate_id d (t + 15 * of_nat k) = Inr i) \<circ> Suc
    = (\<lambda>k. get_signing_delegate_id d (t + 15 + 15 * of_nat k) = Inr i)"
    by (simp add: fun_eq_iff algebra_simps)
  have "[1..<Suc (Suc n)] = 1 # map Suc [1..<Suc n]"
    using upt_2 [of n] by (simp add: upt_conv_Cons numeral_2_eq_2 del: upt_Suc)
  then show ?thesis
    by (simp add: turns_def filter_map shift del: upt_Suc)
qed

text \<open>What a run over \<open>n + 1\<close> slots does.\<close>

definition counted :: "env \<Rightarrow> chain_database \<Rightarrow> time_point_sec \<Rightarrow> nat \<Rightarrow> chain \<Rightarrow> chain \<Rightarrow> bool" where
  "counted e d t n c c' \<longleftrightarrow> is_pending c' \<and> chain_wf e c'
     \<and> (\<forall>i. stat blocks_missed c' i = stat blocks_missed c i + of_nat (turns d i t n))
     \<and> (\<forall>i. stat blocks_produced c' i = stat blocks_produced c i
          + (if get_signing_delegate_id d (t + 15 * of_nat (Suc n)) = Inr i then 1 else 0))"

lemma production_slot_effect:
  assumes "production_slot e d produced ts rc c = Inr (rc', c')" and "is_pending c" and "chain_wf e c"
  shows "\<exists>i. get_signing_delegate_id d ts = Inr i \<and> is_pending c' \<and> chain_wf e c'
    \<and> rc' = (if ts = produced then rc else rc + 2)
    \<and> (\<forall>j. stat blocks_missed c' j = stat blocks_missed c j + (if ts \<noteq> produced \<and> j = i then 1 else 0))
    \<and> (\<forall>j. stat blocks_produced c' j = stat blocks_produced c j + (if ts = produced \<and> j = i then 1 else 0))"
proof -
  from assms(1) obtain i r s where i: "get_signing_delegate_id d ts = Inr i"
    and r: "deref_delegate c i = Inr (r, s)"
    and rest: "rc' = (if ts = produced then rc else rc + 2)"
      "c' = store_account_record e (with_stats (if ts = produced
         then (\<lambda>s. s\<lparr>blocks_produced := blocks_produced s + 1\<rparr>)
         else (\<lambda>s. s\<lparr>blocks_missed := blocks_missed s + 1\<rparr>)) r) c"
    by (auto simp: production_slot_def res_bind_eq_Inr split: if_splits)
  note st = store_stats [OF assms(2,3) r rest(2)]
  show ?thesis
    by (rule exI [of _ i]) (use i rest(1) st in \<open>auto split: if_splits\<close>)
qed

lemma unat_32: "unat x < 4294967296" for x :: u32
proof -
  have "unat x < 2 ^ LENGTH(32)" by (rule unsigned_less)
  then show ?thesis by simp
qed

lemma production_loop_counts:
  assumes "unat produced = unat t + 15 * Suc n" and "is_pending c" and "chain_wf e c"
  shows "\<exists>r. production_loop e d produced t rc c = Some r
    \<and> (\<forall>rc' c'. r = Inr (rc', c') \<longrightarrow> rc' = rc + 2 * of_nat n \<and> counted e d t n c c')"
  using assms
proof (induction n arbitrary: t rc c)
  case 0
  then have ts: "t + 15 = produced"
    using unat_32 [of produced] by (simp add: word_unat_eq_iff unat_word_ariths)
  show ?case
  proof (cases "production_slot e d produced (t + 15) rc c")
    case (Inl err)
    then show ?thesis by (subst production_loop.simps) (simp add: BTS_BLOCKCHAIN_BLOCK_INTERVAL_SEC_def)
  next
    case (Inr p)
    obtain rc' c' where p: "p = (rc', c')" by (cases p)
    show ?thesis
      using production_slot_effect [OF Inr [unfolded p] 0(2,3)] Inr ts
      by (subst production_loop.simps) (auto simp: BTS_BLOCKCHAIN_BLOCK_INTERVAL_SEC_def p counted_def)
  qed
next
  case (Suc n)
  have less: "t + 15 < produced" and next_t: "unat produced = unat (t + 15) + 15 * Suc n"
    using Suc.prems(1) unat_32 [of produced] by (simp_all add: word_less_nat_alt unat_word_ariths)
  show ?case
  proof (cases "production_slot e d produced (t + 15) rc c")
    case (Inl err)
    then show ?thesis by (subst production_loop.simps) (simp add: BTS_BLOCKCHAIN_BLOCK_INTERVAL_SEC_def)
  next
    case (Inr p)
    obtain rc1 c1 where p: "p = (rc1, c1)" by (cases p)
    have neq: "t + 15 \<noteq> produced" using less by simp
    from production_slot_effect [OF Inr [unfolded p] Suc.prems(2,3)] obtain i where
      i: "get_signing_delegate_id d (t + 15) = Inr i" and wf: "is_pending c1" "chain_wf e c1"
      and rc1: "rc1 = rc + 2"
      and m: "\<And>j. stat blocks_missed c1 j = stat blocks_missed c j + (if j = i then 1 else 0)"
      and b: "\<And>j. stat blocks_produced c1 j = stat blocks_produced c j"
      by (auto simp: neq)
    have "counted e d t (Suc n) c c'" if "counted e d (t + 15) n c1 c'" for c'
      using that i m b by (auto simp: counted_def turns_Suc algebra_simps)
    moreover have "production_loop e d produced t rc c = production_loop e d produced (t + 15) rc1 c1"
      using Inr less by (subst production_loop.simps) (simp add: BTS_BLOCKCHAIN_BLOCK_INTERVAL_SEC_def p)
    ultimately show ?thesis
      using Suc.IH [OF next_t wf, of rc1] by (auto simp: rc1 algebra_simps)
  qed
qed


text \<open>Where the loop starts: at the head block, or one slot before the block for the first one.\<close>

definition loop_start :: "chain_database \<Rightarrow> signed_block_header \<Rightarrow> time_point_sec" where
  "loop_start d h = (if bh_block_num (head_block_header d) = 0 then bh_timestamp h - 15
     else bh_timestamp (head_block_header d))"

text \<open>The other updates do not touch the counts.\<close>

lemma validate_secret_effect:
  assumes "validate_secret e d h c = Inr c'" and "is_pending c" and "chain_wf e c"
  shows "is_pending c'" and "chain_wf e c'"
    and "stat blocks_missed c' = stat blocks_missed c"
    and "stat blocks_produced c' = stat blocks_produced c"
    and "get_property c' = get_property c"
proof -
  from assms(1) obtain i r s where r: "deref_delegate c i = Inr (r, s)"
    and c': "c' = store_account_record e (with_stats (\<lambda>s. s\<lparr>next_secret_hash := bh_next_secret_hash h,
             last_block_num_produced := bh_block_num h\<rparr>) r) c"
    by (auto simp: validate_secret_def res_bind_eq_Inr split: if_splits)
  note st = store_stats [OF assms(2,3) r c']
  show "is_pending c'" "chain_wf e c'" by (rule st(1), rule st(2))
  show "stat blocks_missed c' = stat blocks_missed c" "stat blocks_produced c' = stat blocks_produced c"
    by (auto simp: fun_eq_iff st(3) st(4))
  show "get_property c' = get_property c" by (rule ext) (rule st(5))
qed

lemma set_property_effect:
  assumes "is_pending c"
  shows "is_pending (set_property p v c)" and "stat f (set_property p v c) = stat f c"
    and "get_property (set_property p v c) p = Inr v"
  using assms by (auto simp: stat_def chain_simps fun_eq_iff elim!: is_pending_cases simp: p_set_property_def)

lemma get_property_set:
  "is_pending c \<Longrightarrow> get_property (set_property p v c) q = (if q = p then Inr v else get_property c q)"
  by (auto elim!: is_pending_cases simp: p_set_property_def update_conv')

lemma production_info_effect:
  assumes "is_pending c" and "chain_wf e c"
    and "unat (bh_timestamp h) = unat (loop_start d h) + 15 * Suc n"
  shows "\<exists>r. update_delegate_production_info e d h c = Some r \<and> (\<forall>c'. r = Inr c' \<longrightarrow>
      (\<exists>rc c0. counted e d (loop_start d h) n c c0
        \<and> c' = set_property confirmation_requirement (int_value (sint (clamp_confirmations rc))) c0))"
proof (cases "validate_secret e d h c")
  case (Inl err)
  then show ?thesis by (simp add: update_delegate_production_info_def)
next
  case (Inr c1)
  note c1 = validate_secret_effect [OF Inr assms(1,2)]
  show ?thesis
  proof (cases "property_int c1 confirmation_requirement")
    case Inl': (Inl err)
    then show ?thesis by (simp add: update_delegate_production_info_def Inr)
  next
    case Inr': (Inr rc)
    obtain r where r: "production_loop e d (bh_timestamp h) (loop_start d h) (word_of_int rc) c1 = Some r"
      and counts: "\<And>rc' c'. r = Inr (rc', c') \<Longrightarrow> counted e d (loop_start d h) n c1 c'"
      using production_loop_counts [OF assms(3) c1(1,2)] by blast
    have "counted e d (loop_start d h) n c c0 = counted e d (loop_start d h) n c1 c0" for c0
      by (simp add: counted_def c1(3,4))
    moreover have "update_delegate_production_info e d h c = Some (res_bind r (\<lambda>(rc, c).
        Inr (set_property confirmation_requirement (int_value (sint (clamp_confirmations rc))) c)))"
      using r unfolding loop_start_def
      by (cases "bh_block_num (head_block_header d) = 0")
        (simp_all add: update_delegate_production_info_def Inr Inr' BTS_BLOCKCHAIN_BLOCK_INTERVAL_SEC_def)
    ultimately show ?thesis using counts by (auto simp: res_bind_eq_Inr) blast
  qed
qed

lemma clamp_bounds: "1 \<le> sint (clamp_confirmations rc) \<and> sint (clamp_confirmations rc) \<le> 291"
  by (auto simp: clamp_confirmations_def BTS_BLOCKCHAIN_NUM_DELEGATES_def word_sless_alt Let_def)

lemma chain_wf_set_confirmation:
  "is_pending c \<Longrightarrow> chain_wf e c \<Longrightarrow> chain_wf e (set_property confirmation_requirement v c)"
  by (auto simp: chain_wf_def chain_simps property_int_def get_property_set)

section \<open>The delegates of the next round\<close>

lemma swap_at_perm: "i < length xs \<Longrightarrow> j < length xs \<Longrightarrow> mset (swap_at i j xs) = mset xs"
  by (simp add: swap_at_def mset_swap)

lemma length_swap_at [simp]: "length (swap_at i j xs) = length xs"
  by (simp add: swap_at_def)

lemma shuffle_four_perm:
  "mset (snd (shuffle_four rand_seed x i xs)) = mset xs"
proof (induction rand_seed x i xs rule: shuffle_four.induct)
  case (1 rand_seed x i xs)
  show ?case
  proof (cases "x < 4 \<and> i < length xs")
    case True
    then have "mset (swap_at i (sha256_word rand_seed x mod length xs) xs) = mset xs"
      by (intro swap_at_perm) (auto intro: mod_less_divisor)
    then show ?thesis using 1 [OF True] by (subst shuffle_four.simps) (simp add: True)
  next
    case False
    show ?thesis unfolding shuffle_four.simps [of rand_seed x i xs] if_not_P [OF False] by simp
  qed
qed

lemma shuffle_perm: "mset (shuffle e rand_seed i n xs) = mset xs"
proof (induction e rand_seed i n xs rule: shuffle.induct)
  case (1 e rand_seed i n xs)
  show ?case
  proof (cases "i < n")
    case True
    obtain i' ys where ys: "shuffle_four rand_seed 0 i xs = (i', ys)"
      by (cases "shuffle_four rand_seed 0 i xs")
    have "mset ys = mset xs" using shuffle_four_perm [of rand_seed 0 i xs] by (simp add: ys)
    then show ?thesis using 1 [OF True ys [symmetric] refl] by (subst shuffle.simps) (simp add: True ys)
  next
    case False
    then show ?thesis by (subst shuffle.simps) simp
  qed
qed

section \<open>The fee rate\<close>

lemma unat_64: "unat x < 18446744073709551616" for x :: u64
proof -
  have "unat x < 2 ^ LENGTH(64)" by (rule unsigned_less)
  then show ?thesis by simp
qed

lemma unat_linear:
  fixes c x :: u64
  assumes "5759 * unat c + unat x < 2 ^ 64"
  shows "unat (5759 * c + x) = 5759 * unat c + unat x"
  using assms by (simp add: unat_word_ariths)

lemma next_fee_value:
  assumes "unat current_fee * unat blk_size < 2 ^ 64" and "5760 * unat current_fee < 2 ^ 63"
    and "unat blk_size \<le> 52428 * 5760"
  shows "unat (next_fee current_fee blk_size) =
    max ((5759 * unat current_fee + unat blk_size * unat current_fee div 52428) div 5760) 1000"
proof -
  have base: "unat (blk_size * current_fee div 52428) = unat blk_size * unat current_fee div 52428"
    using assms(1) by (simp add: unat_div unat_word_ariths mult.commute)
  have "unat blk_size * unat current_fee div 52428 \<le> 5760 * unat current_fee * 52428 div 52428"
    using mult_le_mono1 [OF assms(3), of "unat current_fee"] by (intro div_le_mono) simp
  then have small: "unat blk_size * unat current_fee div 52428 \<le> 5760 * unat current_fee"
    by (simp only: nonzero_mult_div_cancel_right)
  have "5759 * unat current_fee + unat (blk_size * current_fee div 52428) < 2 ^ 64"
    using small assms(2) by (simp add: base)
  note sum = unat_linear [OF this, unfolded base]
  show ?thesis
    by (simp add: next_fee_def BTS_BLOCKCHAIN_TARGET_BLOCK_SIZE_def BTS_BLOCKCHAIN_MAX_BLOCK_SIZE_def
        BTS_BLOCKCHAIN_BLOCKS_PER_DAY_def BTS_BLOCKCHAIN_MIN_FEE_def max_def word_le_nat_alt unat_div sum)
qed

section \<open>A sample\<close>

text \<open>The sample chain with one delegate on every slot, and a block two slots late.\<close>

definition sample_round_db :: chain_database where
  "sample_round_db = sample_db\<lparr>property_db :=
     [(active_delegate_list_id, ids_value (replicate 97 1)), (confirmation_requirement, int_value 194),
      (last_random_seed_id, hash_value [7])] @ property_db sample_db\<rparr>"

definition sample_block_header :: signed_block_header where
  "sample_block_header = sample_header\<lparr>bh_block_num := 2, bh_timestamp := 75\<rparr>"

definition sample_round :: chain where
  "sample_round = Pending new_pending_state (Database sample_round_db)"

lemma sample_round_good: "is_pending sample_round" "chain_wf sample_env sample_round"
proof -
  have get: "get_balance_record sample_round = get_balance_record sample_chain"
    "get_account_record sample_round = get_account_record sample_chain"
    "get_asset_record sample_round = get_asset_record sample_chain"
    by (rule ext, simp add: sample_round_def sample_chain_def sample_round_db_def split: option.split)+
  have "property_int sample_round p = property_int sample_chain p"
    if "p = last_account_id \<or> p = last_asset_id" for p
    using that by (auto simp: property_int_def sample_round_def sample_chain_def sample_round_db_def
        new_pending_state_def)
  then show "chain_wf sample_env sample_round"
    using sample_good(2) by (simp add: chain_wf_def get)
  show "is_pending sample_round" by (simp add: sample_round_def is_pending_def)
qed

lemma sample_round_start: "loop_start sample_round_db sample_block_header = 30"
  by (simp add: loop_start_def sample_round_db_def sample_db_def sample_block_header_def sample_header_def)

text \<open>The loop with the number of its rounds given, to evaluate it.\<close>

primrec production_rounds ::
  "nat \<Rightarrow> env \<Rightarrow> chain_database \<Rightarrow> time_point_sec \<Rightarrow> time_point_sec \<Rightarrow> share_type \<Rightarrow> chain \<Rightarrow> (chain_error + share_type \<times> chain) option" where
  "production_rounds 0 e d produced t rc c = None"
| "production_rounds (Suc n) e d produced t rc c =
    (case production_slot e d produced (t + 15) rc c of
       Inl err \<Rightarrow> Some (Inl err)
     | Inr (rc, c) \<Rightarrow> if t + 15 < produced then production_rounds n e d produced (t + 15) rc c else Some (Inr (rc, c)))"

lemma production_rounds_loop:
  "production_rounds n e d produced t rc c = Some r \<Longrightarrow> production_loop e d produced t rc c = Some r"
proof (induction n arbitrary: t rc c)
  case (Suc n)
  then show ?case
    by (cases "production_slot e d produced (t + 15) rc c"; subst production_loop.simps)
      (auto simp: BTS_BLOCKCHAIN_BLOCK_INTERVAL_SEC_def split: if_splits)
qed simp

definition info_returns_within :: "nat \<Rightarrow> env \<Rightarrow> chain_database \<Rightarrow> signed_block_header \<Rightarrow> chain \<Rightarrow> bool" where
  "info_returns_within n e d h c =
    (case validate_secret e d h c of Inl _ \<Rightarrow> False
     | Inr c \<Rightarrow> (case property_int c confirmation_requirement of Inl _ \<Rightarrow> False
       | Inr rc \<Rightarrow> returns (production_rounds n e d (bh_timestamp h)
           (if bh_block_num (head_block_header d) = 0 then bh_timestamp h - 15 else bh_timestamp (head_block_header d))
           (word_of_int rc) c)))"

lemma info_returns:
  assumes "info_returns_within n e d h c"
  shows "returns (update_delegate_production_info e d h c)"
proof -
  from assms obtain c1 rc where c1: "validate_secret e d h c = Inr c1"
    and rc: "property_int c1 confirmation_requirement = Inr rc"
    and run: "returns (production_rounds n e d (bh_timestamp h) (loop_start d h) (word_of_int rc) c1)"
    by (auto simp: info_returns_within_def loop_start_def split: sum.splits)
  obtain x where "production_rounds n e d (bh_timestamp h) (loop_start d h) (word_of_int rc) c1 = Some (Inr x)"
    using returnsE [OF run] by blast
  from production_rounds_loop [OF this] show ?thesis
    unfolding loop_start_def
    by (cases "bh_block_num (head_block_header d) = 0"; cases x)
      (simp_all add: update_delegate_production_info_def c1 rc returns_def BTS_BLOCKCHAIN_BLOCK_INTERVAL_SEC_def)
qed

lemma sample_info_returns:
  "returns (update_delegate_production_info sample_env sample_round_db sample_block_header sample_round)"
  by (rule info_returns [of 3]) code_simp

lemma sample_slots: "unat (bh_timestamp sample_block_header)
    = unat (loop_start sample_round_db sample_block_header) + 15 * Suc 2"
  unfolding sample_round_start by (simp add: sample_block_header_def)

section \<open>Properties\<close>

text \<open>
  C31. The count of missed blocks ends and is exact. For a block whose time is a later slot than that
  of the head block, \<open>update_delegate_production_info\<close> returns: its loop visits every slot in between
  once, whatever the wrap-around of the 32-bit time. When it does not throw, the missed count of each
  delegate has grown by the number of slots between the two blocks in which it was its turn, and the
  produced count by one for the delegate of the slot of the block alone.
\<close>

theorem production_info_exact:
  assumes "is_pending c" and "chain_wf e c"
    and "unat (bh_timestamp h) = unat (loop_start d h) + 15 * Suc n"
  shows "\<exists>r. update_delegate_production_info e d h c = Some r \<and> (\<forall>c'. r = Inr c' \<longrightarrow>
      (\<forall>i. stat blocks_missed c' i = stat blocks_missed c i + of_nat (turns d i (loop_start d h) n)
        \<and> stat blocks_produced c' i = stat blocks_produced c i
          + (if get_signing_delegate_id d (bh_timestamp h) = Inr i then 1 else 0)))"
proof -
  have slot: "loop_start d h + 15 * of_nat (Suc n) = bh_timestamp h"
    using arg_cong [OF assms(3), of "of_nat :: nat \<Rightarrow> u32"] by simp
  show ?thesis
    using production_info_effect [OF assms] slot
    by (auto simp: counted_def set_property_effect(2))
qed

theorem production_info_exact_witness:
  "\<exists>c'. update_delegate_production_info sample_env sample_round_db sample_block_header sample_round = Some (Inr c')
    \<and> stat blocks_missed c' 1 = stat blocks_missed sample_round 1 + 2
    \<and> stat blocks_produced c' 1 = stat blocks_produced sample_round 1 + 1"
proof -
  have turns: "turns sample_round_db 1 30 2 = 2"
    "get_signing_delegate_id sample_round_db (bh_timestamp sample_block_header) = Inr 1"
    by code_simp+
  obtain c' where c': "update_delegate_production_info sample_env sample_round_db sample_block_header sample_round
      = Some (Inr c')"
    using returnsE [OF sample_info_returns] by blast
  then show ?thesis
    using production_info_exact [OF sample_round_good sample_slots] turns by (auto simp: sample_round_start)
qed

text \<open>
  Whatever the blocks missed, the confirmation requirement a block leaves is between 1 and three times the
  number of delegates, also when the counter was out of this range before. (The comment of
  \<open>chain_interface.hpp\<close> says that it ranges from 0 to twice that number.)
\<close>

lemma confirmations_bounded:
  assumes "is_pending c" and "chain_wf e c"
    and "unat (bh_timestamp h) = unat (loop_start d h) + 15 * Suc n"
    and "update_delegate_production_info e d h c = Some (Inr c')"
  shows "\<exists>k. get_property c' confirmation_requirement = Inr (int_value k)
    \<and> 1 \<le> k \<and> k \<le> 3 * int BTS_BLOCKCHAIN_NUM_DELEGATES"
proof -
  from production_info_effect [OF assms(1-3)] assms(4) obtain rc c0
    where "is_pending c0"
      and "c' = set_property confirmation_requirement (int_value (sint (clamp_confirmations rc))) c0"
    by (auto simp: counted_def)
  then show ?thesis
    using clamp_bounds [of rc] by (simp add: set_property_effect BTS_BLOCKCHAIN_NUM_DELEGATES_def)
qed

lemma confirmations_bounded_witness:
  "\<exists>c' k. update_delegate_production_info sample_env sample_round_db sample_block_header sample_round = Some (Inr c')
    \<and> get_property c' confirmation_requirement = Inr (int_value k) \<and> 1 \<le> k \<and> k \<le> 3 * int BTS_BLOCKCHAIN_NUM_DELEGATES"
  using returnsE [OF sample_info_returns] confirmations_bounded [OF sample_round_good sample_slots] by blast

text \<open>
  C32. The delegates of a round are those with the most votes at its start, each once: at a block whose
  number is a multiple of the number of delegates the new list is a permutation of the first entries
  of the vote index, whatever the random seed and the hash function; at every other block the list
  stays as it is.
\<close>

theorem active_delegates_permuted:
  assumes "is_pending c"
    and "distinct (map snd (delegate_vote_index_db d))"
    and "update_active_delegate_list e d h c = Inr c'"
  shows "if unat (bh_block_num h) mod BTS_BLOCKCHAIN_NUM_DELEGATES = 0
    then \<exists>l. get_property c' active_delegate_list_id = Inr (ids_value l) \<and> distinct l
      \<and> set l = set (take BTS_BLOCKCHAIN_NUM_DELEGATES (map snd (delegate_vote_index_db d)))
    else c' = c"
proof (cases "unat (bh_block_num h) mod BTS_BLOCKCHAIN_NUM_DELEGATES = 0")
  case True
  let ?top = "next_round_active_delegates d"
  from assms(3) True obtain seed where c': "c' = set_property active_delegate_list_id
      (ids_value (shuffle e seed 0 (length ?top) ?top)) c"
    by (auto simp: update_active_delegate_list_def res_bind_eq_Inr Let_def)
  have top: "?top = take BTS_BLOCKCHAIN_NUM_DELEGATES (map snd (delegate_vote_index_db d))"
    by (simp add: next_round_active_delegates_def get_delegates_by_vote_def)
  have perm: "mset (shuffle e seed 0 (length ?top) ?top) = mset ?top" by (rule shuffle_perm)
  have "distinct ?top" using assms(2) by (simp add: top)
  then have "distinct (shuffle e seed 0 (length ?top) ?top)"
    using perm mset_eq_imp_distinct_iff by blast
  moreover have "set (shuffle e seed 0 (length ?top) ?top) = set ?top"
    using perm by (rule mset_eq_setD)
  ultimately show ?thesis
    using True by (simp add: c' set_property_effect [OF assms(1)] top)
next
  case False
  then show ?thesis using assms(3) by (simp add: update_active_delegate_list_def)
qed

theorem active_delegates_permuted_witness:
  "\<exists>c' l. update_active_delegate_list sample_env sample_round_db
       (sample_block_header\<lparr>bh_block_num := 97\<rparr>) sample_round = Inr c'
    \<and> get_property c' active_delegate_list_id = Inr (ids_value l) \<and> distinct l \<and> set l = {1}"
proof -
  have seed: "get_current_random_seed (Database sample_round_db) = Inr [7]"
    by (simp add: sample_round_db_def)
  have index: "map snd (delegate_vote_index_db sample_round_db) = [1]"
    by (simp add: sample_round_db_def sample_db_def)
  obtain c' where c': "update_active_delegate_list sample_env sample_round_db
       (sample_block_header\<lparr>bh_block_num := 97\<rparr>) sample_round = Inr c'"
    by (simp add: update_active_delegate_list_def seed BTS_BLOCKCHAIN_NUM_DELEGATES_def Let_def
        del: get_current_random_seed.simps)
  show ?thesis
    using active_delegates_permuted [OF sample_round_good(1) _ c'] c'
    by (simp add: index BTS_BLOCKCHAIN_NUM_DELEGATES_def)
qed

text \<open>
  The fee rate follows the size of the blocks and never falls below its minimum: in the range in
  which the 64-bit products do not overflow a block of at most the target size does not raise a rate
  above the minimum, and a larger one raises it by at most one part in a day per multiple of the target.
\<close>

theorem next_fee_follows_size:
  assumes "unat current_fee * unat blk_size < 2 ^ 64" and "5760 * unat current_fee < 2 ^ 63"
    and "unat blk_size \<le> 52428 * 5760"
  shows "1000 \<le> unat (next_fee current_fee blk_size)
    \<and> (unat blk_size \<le> 52428 \<longrightarrow> unat (next_fee current_fee blk_size) \<le> max (unat current_fee) 1000)
    \<and> unat (next_fee current_fee blk_size)
      \<le> max (unat current_fee + unat blk_size * unat current_fee div 52428 div 5760) 1000"
proof -
  define c x where "c = unat current_fee" and "x = unat blk_size * unat current_fee div 52428"
  have fee: "unat (next_fee current_fee blk_size) = max ((5759 * c + x) div 5760) 1000"
    by (simp add: next_fee_value [OF assms] c_def x_def)
  have "(5759 * c + x) div 5760 \<le> (5760 * c + x) div 5760" by (intro div_le_mono) simp
  also have "\<dots> = c + x div 5760" by simp
  finally have le: "(5759 * c + x) div 5760 \<le> c + x div 5760" .
  have "(5759 * c + x) div 5760 \<le> c" if "unat blk_size \<le> 52428"
  proof -
    have "x \<le> c * 52428 div 52428"
      unfolding x_def c_def using mult_le_mono1 [OF that, of "unat current_fee"]
      by (intro div_le_mono) simp
    then have "x \<le> c" by (simp only: nonzero_mult_div_cancel_right)
    then have "(5759 * c + x) div 5760 \<le> (c * 5760) div 5760" by (intro div_le_mono) simp
    then show ?thesis by simp
  qed
  then show ?thesis using le unfolding fee by (auto simp: c_def x_def max_def)
qed

theorem next_fee_follows_size_witness:
  "unat (next_fee 2000 50000) \<le> max (unat (2000 :: u64)) 1000"
  using next_fee_follows_size [of 2000 50000] by simp

end
