(* ===== verification/Bts_Books.thy ===== *)
theory Bts_Books
  imports Bts_Production
begin

text \<open>
  Conservation of shares by a whole block: the statistics, the transactions, the pay of the delegate,
  the shuffle and the seed. The pay adds the same amount to what the delegates hold and to the share
  supply; which amount that is, the header says and nothing checks.
\<close>

section \<open>Steps that keep the surplus\<close>

definition balanced :: "env \<Rightarrow> chain \<Rightarrow> chain \<Rightarrow> bool" where
  "balanced e c c' \<longleftrightarrow> (is_pending c \<and> chain_wf e c
     \<longrightarrow> is_pending c' \<and> chain_wf e c' \<and> (\<forall>a. surplus c' a = surplus c a))"

lemma balanced_refl: "balanced e c c"
  by (simp add: balanced_def)

lemma balanced_trans: "balanced e c c1 \<Longrightarrow> balanced e c1 c2 \<Longrightarrow> balanced e c c2"
  by (simp add: balanced_def)

lemma balanced_set_property:
  assumes "p \<noteq> last_account_id" and "p \<noteq> last_asset_id"
  shows "balanced e c (set_property p v c)"
proof -
  have "property_int (set_property p v c) q = property_int c q"
    if "is_pending c" "q \<noteq> p" for q
    using that by (simp add: property_int_def get_property_set)
  then show ?thesis
    using assms by (auto simp: balanced_def surplus_def chain_wf_def chain_simps)
qed

lemma store_transaction_effect [simp]:
  "get_balance_record (store_transaction i r c) = get_balance_record c"
  "get_account_record (store_transaction i r c) = get_account_record c"
  "get_asset_record (store_transaction i r c) = get_asset_record c"
  "get_property (store_transaction i r c) = get_property c"
  "is_pending (store_transaction i r c) = is_pending c"
  by (cases c; simp add: fun_eq_iff is_pending_def p_defs db_defs split: option.split)+

lemma balanced_store_transaction: "balanced e c (store_transaction i r c)"
  by (simp add: balanced_def chain_wf_def surplus_def holdings_def share_supply_def property_int_def)

lemma balanced_store_stats:
  assumes "deref_delegate c i = Inr (r, s)" and "pay_balance (g s) = pay_balance s"
  shows "balanced e c (store_account_record e (with_stats g r) c)"
proof -
  have "surplus (store_account_record e (with_stats g r) c) a = surplus c a"
    if wf: "is_pending c" "chain_wf e c" for a
  proof -
    have r: "get_account_record c i = Some r" "delegate_info r = Some s" "ac_id r = i"
      using assms(1) chain_wfD(2) [OF wf(2)] by (auto simp: deref_delegate_Inr)
    then show ?thesis
      using wf(1) assms(2) by (simp add: surplus_def chain_simps at_key_def pay_of_def)
  qed
  then show ?thesis
    using store_stats(1,2) [OF _ _ assms(1) refl] by (simp add: balanced_def)
qed

lemma validate_secret_balanced:
  "validate_secret e d h c = Inr c' \<Longrightarrow> balanced e c c'"
  by (auto simp: validate_secret_def res_bind_eq_Inr intro!: balanced_store_stats split: if_splits)

lemma production_slot_balanced:
  "production_slot e d produced ts rc c = Inr (rc', c') \<Longrightarrow> balanced e c c'"
  by (auto simp: production_slot_def res_bind_eq_Inr intro!: balanced_store_stats split: if_splits)

text \<open>What every slot keeps, the loop keeps.\<close>

lemma production_loop_invariant:
  assumes "production_loop e d produced t rc c = Some (Inr (rc', c'))" and "P c"
    and slot: "\<And>ts rc c rc' c'. production_slot e d produced ts rc c = Inr (rc', c') \<Longrightarrow> P c \<Longrightarrow> P c'"
  shows "P c'"
proof -
  have "e1 = e \<and> d1 = d \<and> p1 = produced \<and> P c1 \<longrightarrow> (\<forall>rc' c'. r = Inr (rc', c') \<longrightarrow> P c')"
    if "production_loop e1 d1 p1 t1 rc1 c1 = Some r" for e1 d1 p1 t1 rc1 c1 r
  proof (rule production_loop.raw_induct [where P = "\<lambda>e1 d1 p1 t1 rc1 c1 r.
        e1 = e \<and> d1 = d \<and> p1 = produced \<and> P c1 \<longrightarrow> (\<forall>rc' c'. r = Inr (rc', c') \<longrightarrow> P c')", OF _ that])
    fix loop e1 d1 p1 t1 rc1 c1 r
    assume IH: "\<And>e1 d1 p1 t1 rc1 c1 r. loop e1 d1 p1 t1 rc1 c1 = Some r
        \<Longrightarrow> e1 = e \<and> d1 = d \<and> p1 = produced \<and> P c1 \<longrightarrow> (\<forall>rc' c'. r = Inr (rc', c') \<longrightarrow> P c')"
      and body: "(let ts = t1 + of_nat BTS_BLOCKCHAIN_BLOCK_INTERVAL_SEC
        in case production_slot e1 d1 p1 ts rc1 c1 of Inl err \<Rightarrow> Some (Inl err)
           | Inr (rc, c) \<Rightarrow> if ts < p1 then loop e1 d1 p1 ts rc c else Some (Inr (rc, c))) = Some r"
    show "e1 = e \<and> d1 = d \<and> p1 = produced \<and> P c1 \<longrightarrow> (\<forall>rc' c'. r = Inr (rc', c') \<longrightarrow> P c')"
    proof (intro impI allI, elim conjE)
      fix rc' c'
      assume r: "r = Inr (rc', c')" and eq: "e1 = e" "d1 = d" "p1 = produced" and "P c1"
      let ?ts = "t1 + of_nat BTS_BLOCKCHAIN_BLOCK_INTERVAL_SEC"
      from body r eq obtain rc2 c2 where step: "production_slot e d produced ?ts rc1 c1 = Inr (rc2, c2)"
        and rest: "(if ?ts < produced then loop e d produced ?ts rc2 c2 else Some (Inr (rc2, c2))) = Some (Inr (rc', c'))"
        by (auto simp: Let_def split: sum.splits)
      have "P c2" by (rule slot [OF step \<open>P c1\<close>])
      then show "P c'" using rest IH by (auto split: if_splits)
    qed
  qed
  then show ?thesis using assms(1,2) by blast
qed

lemma production_loop_balanced:
  assumes "production_loop e d produced t rc c = Some (Inr (rc', c'))"
  shows "balanced e c c'"
  by (rule production_loop_invariant [OF assms balanced_refl])
    (blast intro: balanced_trans production_slot_balanced)

lemma production_info_steps:
  assumes "update_delegate_production_info e d h c = Some (Inr c')"
  obtains c1 rc t rc2 c2 where "validate_secret e d h c = Inr c1"
    and "production_loop e d (bh_timestamp h) t (word_of_int rc) c1 = Some (Inr (rc2, c2))"
    and "c' = set_property confirmation_requirement (int_value (sint (clamp_confirmations rc2))) c2"
  using assms by (auto simp: update_delegate_production_info_def Let_def res_bind_eq_Inr split: sum.splits)

lemma production_info_balanced:
  assumes "update_delegate_production_info e d h c = Some (Inr c')"
  shows "balanced e c c'"
proof -
  obtain c1 rc t rc2 c2 where secret: "validate_secret e d h c = Inr c1"
    and loop: "production_loop e d (bh_timestamp h) t (word_of_int rc) c1 = Some (Inr (rc2, c2))"
    and c': "c' = set_property confirmation_requirement (int_value (sint (clamp_confirmations rc2))) c2"
    by (rule production_info_steps [OF assms])
  have "balanced e c2 c'" by (simp add: c' balanced_set_property)
  then show ?thesis
    using validate_secret_balanced [OF secret] production_loop_balanced [OF loop] balanced_trans by blast
qed

definition no_market_orders :: "signed_transaction \<Rightarrow> bool" where
  "no_market_orders t \<longleftrightarrow> list_all (\<lambda>op. \<not> is_market_operation op) (operations t)"

lemma apply_transactions_balanced:
  assumes "apply_transactions e i num k ts c = Some (Inr c')" and "list_all no_market_orders ts"
  shows "balanced e c c'"
  using assms
proof (induction e i num k ts c rule: apply_transactions.induct)
  case (1 e i num k c)
  then show ?case by (simp add: balanced_refl)
next
  case (2 e i num k t ts c)
  from 2(2) obtain ev where ev: "evaluate e t (new_eval_state c i) = Some (Inr ev)"
    by (auto split: option.splits sum.splits)
  let ?c = "store_transaction (trx_id e t) \<lparr>loc_block_num = num, loc_trx_num = k, rec_trx = t\<rparr> (current_state ev)"
  have "balanced e c (current_state ev)"
    using evaluate_surplus [OF _ _ _ ev] evaluate_wf [OF _ _ ev] 2(3)
    by (simp add: balanced_def no_market_orders_def)
  moreover have "balanced e (current_state ev) ?c" by (rule balanced_store_transaction)
  moreover have "balanced e ?c c'" using 2(1) [OF ev refl] 2(2,3) ev by simp
  ultimately show ?case using balanced_trans by blast
qed

lemma pay_delegate_steps:
  assumes "pay_delegate e d t x c = Inr c'"
  obtains i r s b where "get_account_record c i = Some r" "delegate_info r = Some s"
    and "get_asset_record c 0 = Some b"
    and "c' = store_asset_record (b\<lparr>current_share_supply := current_share_supply b + x\<rparr>)
      (store_account_record e (with_stats (\<lambda>s. s\<lparr>pay_balance := pay_balance s + x,
        ds_votes_for := ds_votes_for s + x\<rparr>) r) c)"
  using assms unfolding pay_delegate_def Let_def run_simps sum.inject is_delegate_def chain_simps not_not
  by auto

lemma pay_delegate_effect:
  assumes "pay_delegate e d t x c = Inr c'" and "is_pending c" and "chain_wf e c"
  shows "is_pending c'" and "chain_wf e c'"
    and "holdings c' a = holdings c a + (if a = 0 then x else 0)"
    and "share_supply c' a = share_supply c a + (if a = 0 then x else 0)"
proof -
  obtain i r s b where r: "get_account_record c i = Some r" "delegate_info r = Some s"
    and b: "get_asset_record c 0 = Some b"
    and c': "c' = store_asset_record (b\<lparr>current_share_supply := current_share_supply b + x\<rparr>)
      (store_account_record e (with_stats (\<lambda>s. s\<lparr>pay_balance := pay_balance s + x,
        ds_votes_for := ds_votes_for s + x\<rparr>) r) c)"
    by (rule pay_delegate_steps [OF assms(1)])
  have id: "ac_id r = i" "as_id b = 0" using chain_wfD(2,3) [OF assms(3)] r(1) b by blast+
  show "is_pending c'" using assms(2) by (simp add: c' chain_simps)
  show "chain_wf e c'"
    unfolding c' using assms(2,3) r(1) b id
    by (intro chain_wf_store_asset chain_wf_store_account) (simp_all add: chain_simps)
  show "holdings c' a = holdings c a + (if a = 0 then x else 0)"
    using assms(2) r id by (simp add: c' chain_simps at_key_def pay_of_def)
  show "share_supply c' a = share_supply c a + (if a = 0 then x else 0)"
    using assms(2) b id by (simp add: c' chain_simps share_supply_def at_key_def)
qed

lemma block_state_steps:
  assumes "block_state e i d b = Some (Inr c)"
  obtains c1 c2 c3 c4 where
    "update_delegate_production_info e d (fb_header b) (Pending new_pending_state (Database d)) = Some (Inr c1)"
    and "apply_transactions e i (bh_block_num (fb_header b)) 0 (user_transactions b) c1 = Some (Inr c2)"
    and "pay_delegate e d (bh_timestamp (fb_header b)) (delegate_pay_rate (fb_header b)) c2 = Inr c3"
    and "update_active_delegate_list e d (fb_header b) c3 = Inr c4"
    and "update_random_seed e (previous_secret (fb_header b)) c4 = Inr c"
  using assms by (auto simp: block_state_def Let_def res_bind_eq_Inr split: option.splits sum.splits)

lemma block_state_balanced:
  assumes "block_state e i d b = Some (Inr c)" and "list_all no_market_orders (user_transactions b)"
  shows "balanced e (Pending new_pending_state (Database d)) c"
proof -
  let ?h = "fb_header b"
  obtain c1 c2 c3 c4 where
    info: "update_delegate_production_info e d ?h (Pending new_pending_state (Database d)) = Some (Inr c1)"
    and trx: "apply_transactions e i (bh_block_num ?h) 0 (user_transactions b) c1 = Some (Inr c2)"
    and pay: "pay_delegate e d (bh_timestamp ?h) (delegate_pay_rate ?h) c2 = Inr c3"
    and list: "update_active_delegate_list e d ?h c3 = Inr c4"
    and seed: "update_random_seed e (previous_secret ?h) c4 = Inr c"
    by (rule block_state_steps [OF assms(1)])
  have "balanced e c2 c3"
    using pay_delegate_effect [OF pay] by (simp add: balanced_def surplus_def)
  moreover have "balanced e c3 c4"
    using list by (auto simp: update_active_delegate_list_def res_bind_eq_Inr Let_def balanced_refl
        intro: balanced_set_property split: if_splits)
  moreover have "balanced e c4 c"
    using seed by (auto simp: update_random_seed_def res_bind_eq_Inr intro: balanced_set_property)
  ultimately show ?thesis
    using production_info_balanced [OF info] apply_transactions_balanced [OF trx assms(2)] balanced_trans
    by blast
qed

end
