(* ===== verification/Bts_Clean.thy ===== *)
theory Bts_Clean
  imports Bts_Books Bts_Undo
begin

text \<open>
  The shape of the pending state of a block: every operation of a transaction leaves a pending state
  directly on the database it started from, with its entries under their own keys, and, when the
  transaction registers no account with the null key and gives no asset to the account of the null
  asset, without null records among the accounts and the assets. Such a state can be applied and
  undone (\<open>Bts_Undo\<close>), and applying it keeps the surplus of every asset.
\<close>

section \<open>Plain transactions\<close>

text \<open>The operations that could store a null record, and the transactions the shares of which add up.\<close>

fun makes_null :: "operation \<Rightarrow> bool" where
  "makes_null (register_account_operation nm d owner active del m) = (owner = null_key)"
| "makes_null (create_asset_operation s nm desc d i m p) = (i = - 1)"
| "makes_null (update_asset_operation i nm desc d iss) = (iss = - 1)"
| "makes_null _ = False"

definition tidy :: "signed_transaction \<Rightarrow> bool" where
  "tidy t \<longleftrightarrow> list_all (\<lambda>op. \<not> makes_null op) (operations t)"

text \<open>The transactions that keep the books: those of them that have no market orders.\<close>

definition plain :: "signed_transaction \<Rightarrow> bool" where
  "plain t \<longleftrightarrow> no_market_orders t \<and> tidy t"

lemma plain_tidy: "list_all plain ts \<Longrightarrow> list_all tidy ts"
  by (auto simp: list_all_iff plain_def)

section \<open>Pending states on a database\<close>

type_synonym trx_table = "(transaction_id_type, transaction_record) table"

definition clean :: "env \<Rightarrow> chain_database \<Rightarrow> trx_table \<Rightarrow> chain \<Rightarrow> bool" where
  "clean e d T c \<longleftrightarrow> (\<exists>p. c = Pending p (Database d) \<and> pending_ok e p \<and> transactions p = T \<and> shorts p = [] \<and> collateral p = []
     \<and> (\<forall>i r. get_account_record c i = Some r \<longrightarrow> \<not> account_is_null r)
     \<and> (\<forall>i r. get_asset_record c i = Some r \<longrightarrow> \<not> asset_is_null r))"

lemma cleanE:
  assumes "clean e d T c"
  obtains p where "c = Pending p (Database d)" "pending_ok e p" "shorts p = []" "collateral p = []"
    and "\<And>i r. get_account_record c i = Some r \<Longrightarrow> \<not> account_is_null r"
    and "\<And>i r. get_asset_record c i = Some r \<Longrightarrow> \<not> asset_is_null r"
    and "transactions p = T"
  using assms by (auto simp: clean_def)

lemma clean_pending: "clean e d T c \<Longrightarrow> is_pending c"
  by (auto simp: clean_def is_pending_def)

lemma clean_account: "clean e d T c \<Longrightarrow> get_account_record c i = Some r \<Longrightarrow> \<not> account_is_null r"
  by (auto simp: clean_def)

lemma clean_asset: "clean e d T c \<Longrightarrow> get_asset_record c i = Some r \<Longrightarrow> \<not> asset_is_null r"
  by (auto simp: clean_def)

lemma clean_start:
  assumes "db_ok e (Database d)"
  shows "clean e d [] (Pending new_pending_state (Database d))"
  using assms by (auto simp: clean_def db_ok_def pending_ok_new) (simp_all add: new_pending_state_def)

named_theorems clean_intros \<open>stores keep a clean state\<close>

lemma clean_store [clean_intros]:
  assumes "clean e d T c"
  shows "clean e d T (store_balance_record e b c)"
    and "clean e d T (set_property p v c)"
    and "clean e d T (store_proposal_record pr c)"
    and "clean e d T (store_proposal_vote pv c)"
    and "clean e d T (store_bid_record k ord c)"
    and "clean e d T (store_ask_record k ord c)"
    and "clean e d (AList.update ti tr T) (store_transaction ti tr c)"
    and "\<not> account_is_null r \<Longrightarrow> clean e d T (store_account_record e r c)"
    and "\<not> asset_is_null a \<Longrightarrow> clean e d T (store_asset_record a c)"
proof -
  from assms obtain p0 where c: "c = Pending p0 (Database d)" and ok: "pending_ok e p0"
    and empty: "shorts p0 = []" "collateral p0 = []"
    and live: "\<And>i r. get_account_record c i = Some r \<Longrightarrow> \<not> account_is_null r"
      "\<And>i r. get_asset_record c i = Some r \<Longrightarrow> \<not> asset_is_null r"
    and trx: "transactions p0 = T"
    by (rule cleanE) blast
  note pend = clean_pending [OF assms]
  have step: "clean e d T' c'" if "c' = Pending p' (Database d)" "pending_ok e p'"
    "shorts p' = shorts p0" "collateral p' = collateral p0"
    "\<And>i r. get_account_record c' i = Some r \<Longrightarrow> \<not> account_is_null r"
    "\<And>i r. get_asset_record c' i = Some r \<Longrightarrow> \<not> asset_is_null r"
    "transactions p' = T'" for c' p' T'
    using that empty by (auto simp: clean_def)
  note ok' = pending_ok_store [OF ok]
  show "clean e d T (store_balance_record e b c)"
    by (rule step [of _ "p_store_balance_record e b p0"])
      (use ok' live trx pend in \<open>simp_all add: c chain_simps, simp_all add: p_defs\<close>)
  show "clean e d T (set_property p v c)"
    by (rule step [of _ "p_set_property p v p0"])
      (use ok' live trx pend in \<open>simp_all add: c chain_simps, simp_all add: p_defs\<close>)
  show "clean e d T (store_proposal_record pr c)"
    by (rule step [of _ "p_store_proposal_record pr p0"])
      (use ok' live trx pend in \<open>simp_all add: c chain_simps, simp_all add: p_defs\<close>)
  show "clean e d T (store_proposal_vote pv c)"
    by (rule step [of _ "p_store_proposal_vote pv p0"])
      (use ok' live trx pend in \<open>simp_all add: c chain_simps, simp_all add: p_defs\<close>)
  show "clean e d T (store_bid_record k ord c)"
    by (rule step [of _ "p_store_bid_record k ord p0"])
      (use ok' live trx pend in \<open>simp_all add: c chain_simps, simp_all add: p_defs\<close>)
  show "clean e d T (store_ask_record k ord c)"
    by (rule step [of _ "p_store_ask_record k ord p0"])
      (use ok' live trx pend in \<open>simp_all add: c chain_simps, simp_all add: p_defs\<close>)
  show "clean e d (AList.update ti tr T) (store_transaction ti tr c)"
    by (rule step [of _ "p_store_transaction ti tr p0"])
      (use ok' live trx in \<open>simp_all add: c p_defs\<close>)
  show "clean e d T (store_account_record e r c)" if "\<not> account_is_null r"
  proof (rule step)
    show "store_account_record e r c = Pending (p_store_account_record e r p0) (Database d)" by (simp add: c)
  qed (use that live trx pend ok' in \<open>simp_all add: chain_simps p_defs split: if_splits\<close>)
  show "clean e d T (store_asset_record a c)" if "\<not> asset_is_null a"
  proof (rule step)
    show "store_asset_record a c = Pending (p_store_asset_record a p0) (Database d)" by (simp add: c)
  qed (use that live trx pend ok' in \<open>simp_all add: chain_simps p_defs split: if_splits\<close>)
qed

section \<open>The operations\<close>

lemma account_null_simps [simp]:
  "account_is_null (r\<lparr>delegate_info := x\<rparr>) = account_is_null r"
  "account_is_null (r\<lparr>ac_meta_data := m\<rparr>) = account_is_null r"
  "account_is_null (r\<lparr>ac_public_data := v\<rparr>) = account_is_null r"
  "account_is_null (r\<lparr>ac_last_update := t\<rparr>) = account_is_null r"
  "account_is_null (r\<lparr>active_key_history := h\<rparr>) = account_is_null r"
  by (simp_all add: account_is_null_def)

lemma asset_null_simps [simp]:
  "asset_is_null (a\<lparr>current_share_supply := x\<rparr>) = asset_is_null a"
  "asset_is_null (a\<lparr>collected_fees := x\<rparr>) = asset_is_null a"
  "asset_is_null (a\<lparr>as_description := s\<rparr>) = asset_is_null a"
  "asset_is_null (a\<lparr>as_public_data := v\<rparr>) = asset_is_null a"
  "asset_is_null (a\<lparr>as_last_update := t\<rparr>) = asset_is_null a"
  by (simp_all add: asset_is_null_def)

lemma record_null_effect:
  "set_active_key now k r = Inr r' \<Longrightarrow> account_is_null r' = account_is_null r"
  "adjust_votes_for x r = Inr r' \<Longrightarrow> account_is_null r' = account_is_null r"
  "adjust_votes_against x r = Inr r' \<Longrightarrow> account_is_null r' = account_is_null r"
  by (auto simp: set_active_key_def adjust_votes_for_def adjust_votes_against_def split: if_splits option.splits)

lemma new_id_clean:
  "new_account_id c = Inr (i, c') \<Longrightarrow> clean e d T c \<Longrightarrow> clean e d T c'"
  "new_asset_id c = Inr (j, c') \<Longrightarrow> clean e d T c \<Longrightarrow> clean e d T c'"
  "new_proposal_id c = Inr (p, c') \<Longrightarrow> clean e d T c \<Longrightarrow> clean e d T c'"
  by (auto simp: new_account_id_def new_asset_id_def new_proposal_id_def res_bind_eq_Inr Let_def clean_intros)

lemmas clean_simps = Let_def res_bind_eq_Inr add_required_fee_state add_balance_effect sub_balance_effect

abbreviation ev_clean :: "env \<Rightarrow> chain_database \<Rightarrow> trx_table \<Rightarrow> eval_state \<Rightarrow> bool" where
  "ev_clean e d T ev \<equiv> clean e d T (current_state ev)"

lemma check_condition_state: "check_condition e x input c ev = Inr ev' \<Longrightarrow> current_state ev' = current_state ev"
  by (auto dest: check_condition_aside simp: aside_def)

lemma deposit_clean: "deposit_evaluate e x c ev = Inr ev' \<Longrightarrow> ev_clean e d T ev \<Longrightarrow> ev_clean e d T ev'"
  by (auto simp: deposit_evaluate_def clean_simps intro!: clean_intros split: if_splits option.splits)

lemma withdraw_clean: "withdraw_evaluate e i x input ev = Inr ev' \<Longrightarrow> ev_clean e d T ev \<Longrightarrow> ev_clean e d T ev'"
  by (auto simp: withdraw_evaluate_def clean_simps check_condition_state intro!: clean_intros
      split: if_splits option.splits)

lemma register_account_clean:
  assumes "register_account_evaluate e nm v owner active del m ev = Inr ev'" and "ev_clean e d T ev"
    and "owner \<noteq> null_key"
  shows "ev_clean e d T ev'"
proof -
  from assms(1) obtain now new_id st r0 r ev1 where
    new: "new_account_id (current_state ev) = Inr (new_id, st)" and
    key: "set_active_key now active r0 = Inr r" and owner: "owner_key r0 = owner" and
    fee: "aside (ev\<lparr>current_state := st\<rparr>) ev1" and
    ev': "on_chain (store_account_record e (r\<lparr>delegate_info := if del then Some new_delegate_stats else None,
        ac_meta_data := m\<rparr>)) ev1 = ev'"
    unfolding register_account_evaluate_def Let_def run_simps split_paired_Ex prod.case
    by (blast dest: required_fee_aside intro: account_record.select_convs(4))
  have "\<not> account_is_null r"
    using assms(3) record_null_effect(1) [OF key] by (simp add: owner account_is_null_def)
  moreover have "clean e d T (current_state ev1)"
    using fee new_id_clean(1) [OF new assms(2)] by (simp add: aside_def)
  ultimately show ?thesis by (simp add: ev' [symmetric] clean_intros)
qed

lemma withdraw_pay_clean: "withdraw_pay_evaluate e x i ev = Inr ev' \<Longrightarrow> ev_clean e d T ev \<Longrightarrow> ev_clean e d T ev'"
  by (auto simp: withdraw_pay_evaluate_def clean_simps intro!: clean_intros dest: clean_account
      split: if_splits option.splits)

lemma create_asset_clean:
  "create_asset_evaluate e s nm desc v i mx p ev = Inr ev' \<Longrightarrow> ev_clean e d T ev \<Longrightarrow> i \<noteq> - 1 \<Longrightarrow> ev_clean e d T ev'"
  by (auto simp: create_asset_evaluate_def clean_simps asset_is_null_def intro!: clean_intros
      dest: new_id_clean(2) split: if_splits)

lemma update_asset_clean:
  "update_asset_evaluate e i desc v iss ev = Inr ev' \<Longrightarrow> ev_clean e d T ev \<Longrightarrow> iss \<noteq> - 1 \<Longrightarrow> ev_clean e d T ev'"
  by (auto simp: update_asset_evaluate_def clean_simps intro!: clean_intros dest: clean_asset
      split: if_splits option.splits) (simp_all add: asset_is_null_def)

lemma issue_asset_clean: "issue_asset_evaluate e a ev = Inr ev' \<Longrightarrow> ev_clean e d T ev \<Longrightarrow> ev_clean e d T ev'"
  by (auto simp: issue_asset_evaluate_def clean_simps intro!: clean_intros split: if_splits option.splits)
    (blast dest: clean_asset)

lemma proposal_clean:
  "submit_proposal_evaluate e i ts sb b pt v ev = Inr ev' \<Longrightarrow> ev_clean e d T ev \<Longrightarrow> ev_clean e d T ev'"
  "vote_proposal_evaluate e pv ts vt msg ev = Inr ev' \<Longrightarrow> ev_clean e d T ev \<Longrightarrow> ev_clean e d T ev'"
  by (auto simp: submit_proposal_evaluate_def vote_proposal_evaluate_def clean_simps intro!: clean_intros
      dest: new_id_clean(3) split: if_splits option.splits prod.splits)

lemma update_account_clean:
  assumes "update_account_evaluate e i v k del ev = Some (Inr ev')" and "ev_clean e d T ev"
  shows "ev_clean e d T ev'"
proof -
  from assms obtain r where r: "get_account_record (current_state ev) i = Some r"
    and app: "update_account_apply e v k del r ev = Inr ev'"
    by (auto simp: update_account_evaluate_def res_bind_eq_Inr split: option.splits if_splits)
  have live: "\<not> account_is_null r" by (rule clean_account [OF assms(2) r])
  let ?r = "(case v of Some x \<Rightarrow> r\<lparr>ac_public_data := x\<rparr> | None \<Rightarrow> r)"
  have r0: "account_is_null ?r = account_is_null r" by (simp split: option.split)
  from app obtain now r1 r2 ev1 where
    r1: "(case k of None \<Rightarrow> Inr (?r\<lparr>ac_last_update := now\<rparr>)
        | Some k \<Rightarrow> res_bind (set_active_key now k (?r\<lparr>ac_last_update := now\<rparr>)) (\<lambda>r.
            res_bind (get_account_by_address (current_state ev) (address_of_key e k)) (\<lambda>same_key.
              if same_key \<noteq> None then Inl account_key_in_use else Inr r))) = Inr r1" and
    r2: "(if \<not> is_delegate r1 \<and> del
        then res_bind (get_delegate_registration_fee (current_state ev)) (\<lambda>fee.
             res_bind (add_required_fee fee ev) (\<lambda>ev. Inr (r1\<lparr>delegate_info := Some new_delegate_stats\<rparr>, ev)))
        else Inr (r1, ev)) = Inr (r2, ev1)" and
    ev': "on_chain (store_account_record e r2) ev1 = ev'"
    unfolding update_account_apply_def Let_def res_bind_eq_Inr [of _ _ ev'] split_paired_Ex prod.case sum.inject
    by blast
  have "account_is_null r1 = account_is_null r"
    using r1 r0 by (auto simp: res_bind_eq_Inr dest: record_null_effect(1) split: option.splits if_splits)
  then have "\<not> account_is_null r2" "current_state ev1 = current_state ev"
    using r2 live by (auto simp: res_bind_eq_Inr add_required_fee_state split: if_splits)
  then show ?thesis using assms(2) by (simp add: ev' [symmetric] clean_intros)
qed

lemma fire_delegate_clean:
  assumes "fire_delegate_evaluate e reason i ev = Inr ev'" and "ev_clean e d T ev"
  shows "ev_clean e d T ev'"
proof -
  from assms(1) obtain r where r: "get_account_record (current_state ev) i = Some r"
    and ev': "fire_delegate e r ev = Inr ev' \<or> ev' = ev"
    by (auto simp: fire_delegate_evaluate_def res_bind_eq_Inr split: option.splits if_splits fire_reason.splits)
  have "\<not> account_is_null r" by (rule clean_account [OF assms(2) r])
  then show ?thesis
    using ev' assms(2) by (auto simp: fire_delegate_def res_bind_eq_Inr intro!: clean_intros dest!: record_null_effect)
qed

lemma order_evaluate_clean:
  "order_evaluate x k a del get ev = Inr (r, ev') \<Longrightarrow> ev_clean e d T ev \<Longrightarrow> ev_clean e d T ev'"
  by (auto simp: order_evaluate_def clean_simps split: if_splits option.splits)

lemma market_operation_clean:
  "bid_evaluate x k dg ev = Inr ev' \<Longrightarrow> ev_clean e d T ev \<Longrightarrow> ev_clean e d T ev'"
  "ask_evaluate x k dg ev = Inr ev' \<Longrightarrow> ev_clean e d T ev \<Longrightarrow> ev_clean e d T ev'"
  by (auto simp: bid_evaluate_def ask_evaluate_def res_bind_eq_Inr intro!: clean_intros dest: order_evaluate_clean)

lemma operation_clean:
  assumes "evaluate_operation e op ev = Some (Inr ev')" and "ev_clean e d T ev" and "\<not> makes_null op"
  shows "ev_clean e d T ev'"
  using assms
  by (cases op)
    (auto intro: deposit_clean withdraw_clean register_account_clean withdraw_pay_clean create_asset_clean
      update_asset_clean issue_asset_clean proposal_clean update_account_clean fire_delegate_clean market_operation_clean)

lemma operations_clean:
  assumes "evaluate_operations e ops ev = Some (Inr ev')" and "ev_clean e d T ev"
    and "list_all (\<lambda>op. \<not> makes_null op) ops"
  shows "ev_clean e d T ev'"
  using assms
proof (induction ops arbitrary: ev)
  case (Cons op ops)
  then show ?case by (auto dest: operation_clean split: option.splits sum.splits)
qed simp

section \<open>Transactions and blocks\<close>

lemma collect_fee_clean: "collect_fee fee ev = Inr ev' \<Longrightarrow> ev_clean e d T ev \<Longrightarrow> ev_clean e d T ev'"
  by (auto simp: collect_fee_def split: prod.splits if_splits option.splits intro!: clean_intros)
    (blast dest: clean_asset)+

lemma check_deposit_state: "check_deposit x ev = Inr ev' \<Longrightarrow> ev' = ev"
  by (auto simp: check_deposit_def split: option.splits if_splits)

lemma update_delegate_vote_clean:
  assumes "update_delegate_vote e mx x ev = Inr ev'" and "ev_clean e d T ev"
  shows "ev_clean e d T ev'"
proof -
  from assms(1) obtain r r1 r2 where r: "get_account_record (current_state ev) (fst x) = Some r"
    and votes: "adjust_votes_for (vs_votes_for (snd x)) r = Inr r1"
      "adjust_votes_against (vs_votes_against (snd x)) r1 = Inr r2"
    and ev': "ev' = on_chain (store_account_record e r2) ev"
    by (auto simp: update_delegate_vote_def res_bind_eq_Inr split: option.splits if_splits)
  have "\<not> account_is_null r2"
    using clean_account [OF assms(2) r] record_null_effect(2,3) votes by blast
  then show ?thesis using assms(2) by (simp add: ev' clean_intros)
qed

lemma end_evaluate_clean:
  assumes "end_evaluate e ev = Inr ev'" and "ev_clean e d T ev"
  shows "ev_clean e d T ev'"
proof -
  from assms(1) obtain fee ev1 ev2 ev3 where
    steps: "add_required_fee fee ev = Inr ev1" "fold_res collect_fee (balance ev1) ev1 = Inr ev2"
      "fold_res check_deposit (required_deposits ev2) ev2 = Inr ev3" "update_delegate_votes e ev3 = Inr ev'"
    unfolding end_evaluate_def post_evaluate_def validate_required_fee_def run_simps sum.inject by blast
  have "ev_clean e d T ev1" using assms(2) add_required_fee_state [OF steps(1)] by simp
  then have "ev_clean e d T ev2"
    by (rule fold_res_invariant [OF steps(2)]) (rule collect_fee_clean)
  then have c3: "ev_clean e d T ev3"
    by (rule fold_res_invariant [OF steps(3)]) (auto dest: check_deposit_state)
  from steps(4) obtain mx where "fold_res (update_delegate_vote e mx) (net_delegate_votes ev3) ev3 = Inr ev'"
    by (auto simp: update_delegate_votes_def Let_def split: option.splits)
  then show ?thesis
    by (rule fold_res_invariant [where P = "\<lambda>ev. ev_clean e d T ev", OF _ c3]) (rule update_delegate_vote_clean)
qed

lemma evaluate_clean:
  assumes "evaluate e t (new_eval_state c i) = Some (Inr ev)" and "clean e d T c" and "tidy t"
  shows "ev_clean e d T ev"
proof -
  from assms(1) obtain ev1 ev2 where ev: "current_state ev1 = c"
    "evaluate_operations e (operations t) ev1 = Some (Inr ev2)" "end_evaluate e ev2 = Inr ev"
    by (rule evaluate_split)
  have "ev_clean e d T ev2"
    using operations_clean [OF ev(2)] assms(2,3) by (simp add: ev(1) tidy_def)
  then show ?thesis by (rule end_evaluate_clean [OF ev(3)])
qed

text \<open>The transactions of a pending state after those of a block.\<close>

fun block_table :: "env \<Rightarrow> u32 \<Rightarrow> u32 \<Rightarrow> signed_transaction list \<Rightarrow> trx_table \<Rightarrow> trx_table" where
  "block_table e num k [] T = T"
| "block_table e num k (t # ts) T = block_table e num (k + 1) ts
     (AList.update (trx_id e t) \<lparr>loc_block_num = num, loc_trx_num = k, rec_trx = t\<rparr> T)"

lemma block_table_new: "map_of (block_table e num k ts T) i = None \<longleftrightarrow> map_of T i = None \<and> i \<notin> trx_id e ` set ts"
  by (induction ts arbitrary: k T) (auto simp: update_conv')

lemma block_table_plain:
  assumes "map_of (block_table e num k ts T) i = Some r" and "list_all plain ts"
    and "\<And>i r. map_of T i = Some r \<Longrightarrow> plain (rec_trx r)"
  shows "plain (rec_trx r)"
  using assms
proof (induction ts arbitrary: k T)
  case (Cons t ts)
  show ?case
    by (rule Cons.IH [OF Cons.prems(1) [unfolded block_table.simps]])
      (use Cons.prems(2,3) in \<open>auto simp: update_conv' split: if_splits\<close>)
qed simp

lemma evaluate_fresh:
  assumes "evaluate e t (new_eval_state c i) = Some (Inr ev)"
  shows "get_transaction c (trx_id e t) = Inr None"
  using assms by (auto simp: evaluate_def begin_evaluate_def reset_def new_eval_state_def Let_def res_bind_eq_Inr split: sum.splits if_splits)

lemma clean_get_transaction:
  "clean e d T c \<Longrightarrow> get_transaction c i = Inr (case map_of T i of Some r \<Rightarrow> Some r | None \<Rightarrow> map_of (transaction_db d) i)"
  by (auto simp: clean_def split: option.split)

lemma apply_transactions_clean:
  assumes "apply_transactions e i num k ts c = Some (Inr c')" and "list_all tidy ts" and "clean e d T c"
  shows "clean e d (block_table e num k ts T) c'"
    and "t \<in> set ts \<Longrightarrow> map_of (transaction_db d) (trx_id e t) = None"
  using assms
proof (induction e i num k ts c arbitrary: T rule: apply_transactions.induct)
  case (2 e i num k t' ts c)
  let ?r = "\<lparr>loc_block_num = num, loc_trx_num = k, rec_trx = t'\<rparr>"
  { case 1
    then obtain ev where ev: "evaluate e t' (new_eval_state c i) = Some (Inr ev)"
      by (auto split: option.splits sum.splits)
    have "clean e d (AList.update (trx_id e t') ?r T) (store_transaction (trx_id e t') ?r (current_state ev))"
      using evaluate_clean [OF ev] 1 by (simp add: clean_intros)
    then show ?case using 2(1) [OF ev refl] 1 ev by simp
  next
    case 2
    then obtain ev where ev: "evaluate e t' (new_eval_state c i) = Some (Inr ev)"
      by (auto split: option.splits sum.splits)
    have "clean e d (AList.update (trx_id e t') ?r T) (store_transaction (trx_id e t') ?r (current_state ev))"
      using evaluate_clean [OF ev] 2 by (simp add: clean_intros)
    moreover have "map_of (transaction_db d) (trx_id e t') = None"
      using evaluate_fresh [OF ev] clean_get_transaction [OF 2(4)] by (auto split: option.splits)
    ultimately show ?case using "2.IH" [OF ev refl] 2 ev by auto }
qed simp_all

lemma store_stats_clean:
  assumes "deref_delegate c i = Inr (r, s)" and "clean e d T c"
  shows "clean e d T (store_account_record e (with_stats g r) c)"
proof -
  have "\<not> account_is_null r" using assms clean_account by (auto simp: deref_delegate_Inr)
  then show ?thesis using assms(2) by (simp add: clean_intros account_is_null_def)
qed

lemma validate_secret_clean:
  "validate_secret e d h c = Inr c' \<Longrightarrow> clean e d T c \<Longrightarrow> clean e d T c'"
  by (auto simp: validate_secret_def res_bind_eq_Inr intro!: store_stats_clean split: if_splits)

lemma production_slot_clean:
  "production_slot e d produced ts rc c = Inr (rc', c') \<Longrightarrow> clean e d T c \<Longrightarrow> clean e d T c'"
  by (auto simp: production_slot_def res_bind_eq_Inr intro!: store_stats_clean split: if_splits)

lemma block_state_clean:
  assumes "block_state e i d b = Some (Inr c)" and "db_ok e (Database d)"
    and "list_all tidy (user_transactions b)"
  shows "clean e d (block_table e (bh_block_num (fb_header b)) 0 (user_transactions b) []) c"
    and "t \<in> set (user_transactions b) \<Longrightarrow> map_of (transaction_db d) (trx_id e t) = None"
proof -
  let ?T = "block_table e (bh_block_num (fb_header b)) 0 (user_transactions b) []"
  obtain c1 c2 c3 c4 where
    info: "update_delegate_production_info e d (fb_header b) (Pending new_pending_state (Database d)) = Some (Inr c1)"
    and trx: "apply_transactions e i (bh_block_num (fb_header b)) 0 (user_transactions b) c1 = Some (Inr c2)"
    and pay: "pay_delegate e d (bh_timestamp (fb_header b)) (delegate_pay_rate (fb_header b)) c2 = Inr c3"
    and list: "update_active_delegate_list e d (fb_header b) c3 = Inr c4"
    and seed: "update_random_seed e (previous_secret (fb_header b)) c4 = Inr c"
    by (rule block_state_steps [OF assms(1)])
  obtain k1 rc t0 rc2 k2 where secret: "validate_secret e d (fb_header b) (Pending new_pending_state (Database d)) = Inr k1"
    and loop: "production_loop e d (bh_timestamp (fb_header b)) t0 (word_of_int rc) k1 = Some (Inr (rc2, k2))"
    and c1: "c1 = set_property confirmation_requirement (int_value (sint (clamp_confirmations rc2))) k2"
    by (rule production_info_steps [OF info])
  have "clean e d [] k1" by (rule validate_secret_clean [OF secret clean_start [OF assms(2)]])
  then have "clean e d [] k2" by (rule production_loop_invariant [OF loop]) (rule production_slot_clean)
  then have c1': "clean e d [] c1" by (simp add: c1 clean_intros)
  then have c2: "clean e d ?T c2" by (rule apply_transactions_clean(1) [OF trx assms(3)])
  show "t \<in> set (user_transactions b) \<Longrightarrow> map_of (transaction_db d) (trx_id e t) = None"
    by (rule apply_transactions_clean(2) [OF trx assms(3) c1'])
  obtain j r s a where r: "get_account_record c2 j = Some r" "delegate_info r = Some s"
    and a: "get_asset_record c2 0 = Some a"
    and c3: "c3 = store_asset_record (a\<lparr>current_share_supply := current_share_supply a + delegate_pay_rate (fb_header b)\<rparr>)
      (store_account_record e (with_stats (\<lambda>s. s\<lparr>pay_balance := pay_balance s + delegate_pay_rate (fb_header b),
        ds_votes_for := ds_votes_for s + delegate_pay_rate (fb_header b)\<rparr>) r) c2)"
    by (rule pay_delegate_steps [OF pay])
  have "clean e d ?T c3"
    unfolding c3 using clean_asset [OF c2 a] r c2
    by (intro clean_intros store_stats_clean) (auto simp: deref_delegate_Inr)
  then have "clean e d ?T c4"
    using list by (auto simp: update_active_delegate_list_def res_bind_eq_Inr Let_def
        intro!: clean_intros split: if_splits)
  then show "clean e d ?T c"
    using seed by (auto simp: update_random_seed_def res_bind_eq_Inr intro!: clean_intros)
qed

section \<open>The surplus of an applied state\<close>

lemma total_drop_zero:
  assumes "\<And>k. m' k = (case m k of None \<Rightarrow> None | Some v \<Rightarrow> if null v then None else Some v)"
    and "\<And>v. null v \<Longrightarrow> f v = 0" and "finite (dom m)"
  shows "total m' f = total m f"
proof -
  have sub: "dom m' \<subseteq> dom m" by (auto simp: assms(1) split: option.splits)
  have val: "f (the (m' k)) = f (the (m k))" if "k \<in> dom m'" for k
    using that by (auto simp: assms(1) split: option.splits if_splits)
  have zero: "f (the (m k)) = 0" if "k \<in> dom m - dom m'" for k
    using that assms(2) by (auto simp: assms(1) split: option.splits if_splits)
  have "total m' f = (\<Sum>k\<in>dom m'. f (the (m k)))"
    unfolding total_def by (rule sum.cong) (simp_all add: val)
  also have "\<dots> = total m f"
    unfolding total_def by (rule sum.mono_neutral_left [OF assms(3) sub]) (use zero in blast)
  finally show ?thesis .
qed

lemma surplus_cong:
  assumes "get_account_record c' = get_account_record c" and "get_asset_record c' = get_asset_record c"
    and "\<And>a. total (get_balance_record c') (bal_of a) = total (get_balance_record c) (bal_of a)"
  shows "surplus c' a = surplus c a"
  by (simp add: surplus_def holdings_def share_supply_def assms)

lemma apply_changes_records:
  assumes "clean e d T (Pending p (Database d))"
  shows "get_account_record (apply_changes e p (Database d)) = get_account_record (Pending p (Database d))"
    and "get_asset_record (apply_changes e p (Database d)) = get_asset_record (Pending p (Database d))"
proof -
  have ok: "pending_ok e p" using assms by (auto elim: cleanE)
  note get = get_apply_changes [OF _ ok, of "Database d"]
  have db: "is_database (Database d)" by (simp add: is_database_def)
  have live: "map_of (accounts p) i = Some r \<Longrightarrow> \<not> account_is_null r"
    "map_of (assets p) i = Some s \<Longrightarrow> \<not> asset_is_null s" for i r s
    using clean_account [OF assms, of i r] clean_asset [OF assms, of i s] by simp_all
  show "get_account_record (apply_changes e p (Database d)) = get_account_record (Pending p (Database d))"
    by (rule ext) (use live(1) in \<open>auto simp add: get(2) [OF db] split: option.splits\<close>)
  show "get_asset_record (apply_changes e p (Database d)) = get_asset_record (Pending p (Database d))"
    by (rule ext) (use live(2) in \<open>auto simp add: get(1) [OF db] split: option.splits\<close>)
qed

lemma apply_changes_surplus:
  assumes "clean e d T (Pending p (Database d))" and "db_ok e (Database d)"
  shows "surplus (apply_changes e p (Database d)) a = surplus (Pending p (Database d)) a"
proof (rule surplus_cong)
  have ok: "pending_ok e p" using assms(1) by (auto elim: cleanE)
  note get = get_apply_changes [OF _ ok, of "Database d"]
  have db: "is_database (Database d)" by (simp add: is_database_def)
  show "total (get_balance_record (apply_changes e p (Database d))) (bal_of a)
      = total (get_balance_record (Pending p (Database d))) (bal_of a)" for a
  proof (rule total_drop_zero [where null = balance_is_null])
    show "get_balance_record (apply_changes e p (Database d)) k =
        (case get_balance_record (Pending p (Database d)) k of None \<Rightarrow> None
         | Some v \<Rightarrow> if balance_is_null v then None else Some v)" for k
      using assms(2) by (auto simp: get(3) [OF db] db_ok_def split: option.splits)
    show "bal_of a v = 0" if "balance_is_null v" for v
      using that by (simp add: bal_of_def balance_is_null_def)
  qed (rule finite_dom_get)
qed (rule apply_changes_records [OF assms(1)])+

end
