(* ===== verification/Bts_Ledger.thy ===== *)
theory Bts_Ledger
  imports Bts_Fork Bts_Clean
begin

text \<open>
  The history of a chain state: the blocks that led to it, each with the undo state that takes it
  back. Two states agree when every lookup but that of transactions gives the same; a state that
  agrees with one of a history has the same history, so popping a block leads back along it.
\<close>

section \<open>States that agree\<close>

definition agree :: "chain \<Rightarrow> chain \<Rightarrow> bool" where
  "agree c c' \<longleftrightarrow> get_asset_record c = get_asset_record c' \<and> get_account_record c = get_account_record c'
     \<and> get_balance_record c = get_balance_record c' \<and> get_proposal_record c = get_proposal_record c'
     \<and> get_proposal_vote c = get_proposal_vote c' \<and> get_bid_at c = get_bid_at c'
     \<and> get_ask_at c = get_ask_at c' \<and> get_property_at c = get_property_at c'"

lemma agree_refl [simp]: "agree c c"
  by (simp add: agree_def)

lemma agree_sym: "agree c c' \<Longrightarrow> agree c' c"
  by (simp add: agree_def)

lemma agree_trans: "agree c c' \<Longrightarrow> agree c' c'' \<Longrightarrow> agree c c''"
  by (simp add: agree_def)

lemma agree_surplus: "agree c c' \<Longrightarrow> surplus c a = surplus c' a"
  by (intro surplus_cong) (simp_all add: agree_def)

lemma agree_header [simp]:
  "agree (Database (d\<lparr>head_block_header := h\<rparr>)) c = agree (Database d) c"
  "agree c (Database (d\<lparr>head_block_header := h\<rparr>)) = agree c (Database d)"
  by (simp_all add: agree_def at_defs fun_eq_iff)

lemma agree_apply:
  assumes "agree c c'" and "is_database c" and "is_database c'" and "pending_ok e u"
  shows "agree (apply_changes e u c) (apply_changes e u c')"
  unfolding agree_def
  by (intro conjI ext; simp only: get_apply_changes [OF assms(2,4)] get_apply_changes [OF assms(3,4)])
    (use assms(1) in \<open>simp_all add: agree_def cong: option.case_cong\<close>)

lemma property_int_at: "property_int c q = Inr n \<longleftrightarrow> get_property_at c q = Some (int_value n)"
  by (auto simp: property_int_def get_property_at_def res_bind_eq_Inr split: sum.splits property_value.splits)

lemma property_at_null: "get_property c q = Inr v \<longleftrightarrow> get_property_at c q = Some v"
  by (auto simp: get_property_at_def split: sum.splits)

lemma agree_chain_wf: "agree c c' \<Longrightarrow> chain_wf e c = chain_wf e c'"
  by (simp add: chain_wf_def agree_def property_int_at)

lemma agree_db_ok: "agree c c' \<Longrightarrow> is_database c = is_database c' \<Longrightarrow> db_ok e c = db_ok e c'"
  by (simp add: db_ok_def agree_def property_at_null get_bid_at get_ask_at)

lemma property_at_pending: "get_property_at (Pending p c) q
    = (case map_of (properties p) q of Some v \<Rightarrow> Some v | None \<Rightarrow> get_property_at c q)"
  by (simp add: get_property_at_def split: option.split)

lemma agree_new: "agree (Pending new_pending_state c) c"
  by (simp add: agree_def at_defs fun_eq_iff new_pending_state_def market_find_def)

section \<open>Applying a clean pending state\<close>

lemma db_ok_apply:
  assumes "db_ok e c" and "pending_ok e p"
  shows "db_ok e (apply_changes e p c)"
proof -
  have db: "is_database c" using assms(1) by (simp add: db_ok_def)
  note get = get_apply_changes [OF db assms(2)]
  note own = assms(2) [unfolded pending_ok_def table_ok_def]
  note old = assms(1) [unfolded db_ok_def]
  show ?thesis
    unfolding db_ok_def property_at_null get_bid_at get_ask_at get
    using own old is_database_apply_changes [OF db]
    by (auto split: option.splits if_splits dest!: map_of_SomeD simp: get_bid_at get_ask_at property_at_null)
qed

lemma chain_wf_apply:
  assumes "clean e d T (Pending p (Database d))" and "db_ok e (Database d)"
    and "chain_wf e (Pending p (Database d))"
  shows "chain_wf e (apply_changes e p (Database d))"
proof -
  have ok: "pending_ok e p" using assms(1) by (auto elim: cleanE)
  have counter: "property_int (Pending p (Database d)) q = Inr n"
    if "property_int (apply_changes e p (Database d)) q = Inr n" for q n
    using that get_apply_changes(8) [OF _ ok, of "Database d" q]
    by (auto simp: property_int_at property_at_pending is_database_def split: option.splits if_splits)
  show ?thesis
    using db_ok_apply [OF assms(2) ok] assms(3) counter
    by (auto simp: chain_wf_def db_ok_def apply_changes_records [OF assms(1)])
qed

section \<open>Histories\<close>

text \<open>
  The identifiers of the blocks of a history, newest first, down to the identifier of no block; \<open>H\<close>
  holds the headers the identifiers are those of, \<open>U\<close> the undo states, and \<open>s\<close> the surplus of every asset.
\<close>

inductive ledger :: "env \<Rightarrow> signed_block_header set \<Rightarrow> (block_id_type, pending_chain_state) table
    \<Rightarrow> (asset_id_type \<Rightarrow> share_type) \<Rightarrow> chain \<Rightarrow> block_id_type list \<Rightarrow> bool"
  for e :: env and H :: "signed_block_header set" and U :: "(block_id_type, pending_chain_state) table"
    and s :: "asset_id_type \<Rightarrow> share_type" where
  ledger_start: "is_database c \<Longrightarrow> db_ok e c \<Longrightarrow> chain_wf e c \<Longrightarrow> surplus c = s \<Longrightarrow> ledger e H U s c [null_block_id]"
| ledger_block: "ledger e H U s c (i # ids) \<Longrightarrow> h \<in> H \<Longrightarrow> header_id e h = j \<Longrightarrow> bh_previous h = i
    \<Longrightarrow> j \<notin> set (i # ids) \<Longrightarrow> map_of U j = Some u \<Longrightarrow> pending_ok e u
    \<Longrightarrow> (\<And>t r. map_of (transactions u) t = Some r \<Longrightarrow> plain (rec_trx r))
    \<Longrightarrow> is_database c' \<Longrightarrow> agree (apply_changes e u c') c \<Longrightarrow> db_ok e c' \<Longrightarrow> chain_wf e c' \<Longrightarrow> surplus c' = s
    \<Longrightarrow> ledger e H U s c' (j # i # ids)"

inductive_cases ledger_blockE: "ledger e H U s c (j # i # ids)"

lemma ledger_state:
  assumes "ledger e H U s c ids"
  shows "is_database c" and "db_ok e c" and "chain_wf e c" and "surplus c = s" and "ids \<noteq> []" and "distinct ids"
    and "last ids = null_block_id"
  using assms by (induction; simp)+

lemma ledger_agree:
  assumes "ledger e H U s c ids" and "agree c' c" and "is_database c'"
  shows "ledger e H U s c' ids"
  using assms
proof (cases rule: ledger.cases)
  case ledger_start
  then show ?thesis
    using assms agree_db_ok [OF assms(2)] agree_chain_wf [OF assms(2)] agree_surplus [OF assms(2)]
    by (auto intro!: ledger.ledger_start simp: fun_eq_iff)
next
  case (ledger_block c0 i ids0 h j u)
  have "agree (apply_changes e u c') c0"
    using agree_apply [OF assms(2,3) \<open>is_database c\<close> \<open>pending_ok e u\<close>] ledger_block(11) agree_trans by blast
  then show ?thesis
    unfolding ledger_block(1)
    using ledger_block assms(3) agree_db_ok [OF assms(2)] agree_chain_wf [OF assms(2)] agree_surplus [OF assms(2)]
    by (intro ledger.ledger_block [of e H U s c0]) (auto simp: fun_eq_iff)
qed

lemma ledger_update:
  assumes "ledger e H U s c ids" and "j \<notin> set ids"
  shows "ledger e H (AList.update j u U) s c ids"
  using assms
proof (induction rule: ledger.induct)
  case (ledger_block c i ids h k u' c')
  then have "map_of (AList.update j u U) k = Some u'" by (auto simp: update_conv')
  then show ?case using ledger_block by (intro ledger.ledger_block [of e H _ s c]) auto
qed (auto intro: ledger.ledger_start)

text \<open>The identifiers a block can come after are those of the history, each followed by one block.\<close>

lemma ledger_member:
  assumes "ledger e H U s c is" and "j \<in> set is" and "j \<noteq> null_block_id"
  shows "\<exists>h\<in>H. header_id e h = j \<and> bh_previous h \<in> set (tl is)"
  using assms by (induction) (auto split: if_splits)

lemma ledger_next_new:
  assumes "ledger e H U s c (i # ids)" and "inj_on (header_id e) H" and "h \<in> H" and "bh_previous h = i"
    and "header_id e h \<noteq> null_block_id"
  shows "header_id e h \<notin> set (i # ids)"
proof
  assume "header_id e h \<in> set (i # ids)"
  from ledger_member [OF assms(1) this assms(5)] obtain h' where
    "h' \<in> H" "header_id e h' = header_id e h" "bh_previous h' \<in> set ids" by auto
  then have "i \<in> set ids" using assms(2,3,4) by (auto dest: inj_onD)
  then show False using ledger_state(6) [OF assms(1)] by simp
qed

lemma plain_empty: "plain (rec_trx new_transaction_record)"
  by (simp add: plain_def tidy_def no_market_orders_def new_transaction_record_def null_trx_def)

text \<open>A block extends a history, its undo state takes the extended history back.\<close>

lemma ledger_extend:
  assumes "ledger e H U s (Database d) (i # ids)" and "inj_on (header_id e) H" and "h \<in> H"
    and "bh_previous h = i" and "header_id e h \<noteq> null_block_id"
    and "clean e d T (Pending p (Database d))" and "balanced e (Pending new_pending_state (Database d)) (Pending p (Database d))"
    and "get_undo_state e p (Database d) = Inr u"
    and "\<And>t r. map_of (transaction_db d) t = Some r \<Longrightarrow> plain (rec_trx r)"
  shows "ledger e H (AList.update (header_id e h) u U) s (apply_changes e p (Database d)) (header_id e h # i # ids)"
proof -
  obtain ok: "pending_ok e p" and empty: "shorts p = []" "collateral p = []"
    using assms(6) by (auto elim: cleanE)
  note old = ledger_state [OF assms(1)]
  have und: "is_undo_of e (Database d) p u"
    by (rule get_undo_state_is_undo [OF old(2) ok empty assms(8)])
  have new: "header_id e h \<notin> set (i # ids)" by (rule ledger_next_new [OF assms(1-5)])
  have start: "is_pending (Pending new_pending_state (Database d))" "chain_wf e (Pending new_pending_state (Database d))"
    "surplus (Pending new_pending_state (Database d)) a = s a" for a
    using old(3) fun_cong [OF old(4), of a] agree_chain_wf [OF agree_new, of e "Database d"]
      agree_surplus [OF agree_new, of "Database d" a]
    by (simp_all add: is_pending_def)
  show ?thesis
  proof (rule ledger_block [OF ledger_update [OF assms(1) new] assms(3) refl assms(4) new])
    show "map_of (AList.update (header_id e h) u U) (header_id e h) = Some u" by (simp add: update_conv')
    show "pending_ok e u" by (rule is_undo_of_ok [OF old(2) ok und])
    show "plain (rec_trx r)" if r: "map_of (transactions u) t = Some r" for t r
    proof -
      have "r = (case map_of (transaction_db d) t of Some old \<Rightarrow> old | None \<Rightarrow> new_transaction_record)"
        using r und by (auto simp: is_undo_of_def map_of_replace)
      then show ?thesis using assms(9) plain_empty by (auto split: option.splits)
    qed
    show "is_database (apply_changes e p (Database d))" by (rule is_database_apply_changes [OF old(1)])
    show "agree (apply_changes e u (apply_changes e p (Database d))) (Database d)"
      using undo_restores [OF old(2) ok und] by (simp add: agree_def)
    show "db_ok e (apply_changes e p (Database d))" by (rule db_ok_apply [OF old(2) ok])
    show "chain_wf e (apply_changes e p (Database d))"
      using assms(7) start(1,2) by (intro chain_wf_apply [OF assms(6) old(2)]) (simp add: balanced_def)
    show "surplus (apply_changes e p (Database d)) = s"
      using assms(7) start by (intro ext) (simp add: balanced_def apply_changes_surplus [OF assms(6) old(2)])
  qed
qed

end
