(* ===== verification/Bts_Sample_Node.thy ===== *)
theory Bts_Sample_Node
  imports Bts_Fork Bts_Production
begin

text \<open>
  A node at its genesis and four blocks for it, at which the theorems on the block tree and on the
  chain are instantiated.
\<close>

text \<open>
  A node at its genesis and four blocks for it: one on the genesis, two on that one, of which the first
  carries a payment, and a fourth on the second of them, which makes the node switch its fork.
\<close>

definition sample_node :: node where
  "sample_node = \<lparr>base = sample_env\<lparr>pack_signed_transaction := (\<lambda>t. replicate 100 (of_nat (length (operations t)))),
       pack_signed_header := (\<lambda>h. [ucast (bh_block_num h)] @ bh_next_secret_hash h @ bh_previous h)\<rparr>,
     pack_full_block = (\<lambda>b. []), pack_transaction_ids = concat\<rparr>"

definition sample_genesis :: chain_database_impl where
  "sample_genesis = \<lparr>tables = sample_round_db\<lparr>head_block_header := sample_header\<lparr>bh_block_num := 0, bh_timestamp := 0\<rparr>\<rparr>,
     db_chain_id = [], head_block_id = null_block_id, fork_number_db = [], fork_db = [], undo_state_db = [],
     block_num_to_id_db = [], block_id_to_block_record_db = [], pending_transaction_db = [], pending_fee_index = [],
     pending_trx_state = None\<rparr>"

definition sample_block :: "block_id_type \<Rightarrow> u32 \<Rightarrow> time_point_sec \<Rightarrow> u8 list \<Rightarrow> u8 list \<Rightarrow> signed_transaction list \<Rightarrow> full_block" where
  "sample_block previous num t secret next_hash ts =
    \<lparr>fb_header = \<lparr>bh_previous = previous, bh_block_num = num, fee_rate = 1000, delegate_pay_rate = 10,
       bh_timestamp = t, transaction_digest = concat (map (trx_id (base sample_node)) ts),
       bh_next_secret_hash = next_hash, previous_secret = secret, delegate_signature = [2]\<rparr>,
     user_transactions = ts\<rparr>"

definition sample_block_1 :: full_block where
  "sample_block_1 = sample_block null_block_id 1 15 [] [1] []"

definition sample_block_2 :: full_block where
  "sample_block_2 = sample_block (block_id sample_node sample_block_1) 2 30 [1] [2] [sample_payment]"

definition sample_fork_2 :: full_block where
  "sample_fork_2 = sample_block (block_id sample_node sample_block_1) 2 30 [1] [3] []"

definition sample_fork_3 :: full_block where
  "sample_fork_3 = sample_block (block_id sample_node sample_fork_2) 3 45 [3] [4] []"

text \<open>The equations of the loops, to evaluate runs of the node.\<close>

declare production_loop.simps [code] recursive_mark.simps [code] pop_until.simps [code]
  fork_history_loop.simps [code]

text \<open>The value and the state of a run that does not throw.\<close>

definition run_value :: "'a run \<Rightarrow> ('a \<times> chain_database_impl) option" where
  "run_value r = (case r of Some (Inr x, st) \<Rightarrow> Some (x, st) | _ \<Rightarrow> None)"

lemma run_value_Some [simp]: "run_value r = Some (x, st) \<longleftrightarrow> r = Some (Inr x, st)"
  by (auto simp: run_value_def split: option.splits sum.splits prod.splits)

end
