(* ===== verification/Bts_Tree.thy ===== *)
theory Bts_Tree
  imports Bts_Sample_Node
begin

text \<open>
  The block tree: the entries of \<open>fork_db\<close> with their links to the blocks that come next. Marking
  changes the descendants of a block and nothing else, and storing a block keeps the tree closed: every
  next block has an entry, and the next blocks of a linked block are linked.
\<close>

section \<open>Marking the descendants\<close>

definition child :: "fork_table \<Rightarrow> block_id_type \<Rightarrow> block_id_type \<Rightarrow> bool" where
  "child t i j \<longleftrightarrow> (\<exists>f. map_of t i = Some f \<and> j \<in> set (next_blocks f))"

abbreviation descendant :: "fork_table \<Rightarrow> block_id_type \<Rightarrow> block_id_type \<Rightarrow> bool" where
  "descendant t \<equiv> (child t)\<^sup>*\<^sup>*"

text \<open>The marks of the code: they leave the next blocks alone, and setting one twice is setting it once.\<close>

definition is_mark :: "(block_fork_data \<Rightarrow> block_fork_data) \<Rightarrow> bool" where
  "is_mark mark \<longleftrightarrow> (\<forall>r. next_blocks (mark r) = next_blocks r \<and> mark (mark r) = mark r)"

lemma marks [simp]:
  "is_mark (\<lambda>r. r\<lparr>is_linked := True\<rparr>)" "is_mark (\<lambda>r. r\<lparr>is_valid := Some False\<rparr>)"
  by (simp_all add: is_mark_def)

definition marked :: "(block_fork_data \<Rightarrow> block_fork_data) \<Rightarrow> (block_id_type \<Rightarrow> bool) \<Rightarrow> fork_table \<Rightarrow> fork_table \<Rightarrow> bool" where
  "marked mark P t t' \<longleftrightarrow> (\<forall>j. map_of t' j = (if P j then map_option mark (map_of t j) else map_of t j))"

lemma marked_child:
  assumes "marked mark P t t'" and "is_mark mark"
  shows "child t' = child t"
proof (intro ext)
  fix i j
  have "map_of t' i = (if P i then map_option mark (map_of t i) else map_of t i)"
    using assms(1) by (simp add: marked_def)
  then show "child t' i j = child t i j"
    using assms(2) by (cases "map_of t i") (auto simp: child_def is_mark_def)
qed

lemma marked_comp:
  assumes "marked mark P t t1" and "marked mark Q t1 t2" and "is_mark mark"
  shows "marked mark (\<lambda>j. P j \<or> Q j) t t2"
  using assms by (auto simp: marked_def is_mark_def option.map_comp comp_def)

lemma marked_update:
  "map_of t i = Some f \<Longrightarrow> marked mark (\<lambda>j. j = i) t (AList.update i (mark f) t)"
  by (auto simp: marked_def update_conv')

text \<open>Every next block of a block of the tree has an entry.\<close>

definition closed :: "fork_table \<Rightarrow> bool" where
  "closed t \<longleftrightarrow> (\<forall>i j. child t i j \<longrightarrow> map_of t j \<noteq> None)"

lemma marked_closed:
  assumes "marked mark P t t'" and "is_mark mark"
  shows "closed t' = closed t"
proof -
  have "(map_of t' j = None) = (map_of t j = None)" for j
    using assms(1) by (simp add: marked_def)
  then show ?thesis by (simp add: closed_def marked_child [OF assms])
qed

lemma set_fold_insert [simp]: "set (fold List.insert xs ys) = set xs \<union> set ys"
  by (induction xs arbitrary: ys) auto

lemma mark_level_spec:
  assumes "\<And>i. i \<in> set ids \<Longrightarrow> map_of t i \<noteq> None" and "is_mark mark"
  shows "\<exists>next t'. mark_level mark ids pending t = (Inr next, t') \<and> marked mark (\<lambda>j. j \<in> set ids) t t'
    \<and> set next = set pending \<union> {j. \<exists>i\<in>set ids. child t i j}"
  using assms(1)
proof (induction ids arbitrary: pending t)
  case (Cons i ids)
  then obtain f where f: "map_of t i = Some f" by fastforce
  let ?t = "AList.update i (mark f) t" and ?pending = "fold List.insert (next_blocks (mark f)) pending"
  note one = marked_update [OF f, of mark]
  have "map_of ?t k \<noteq> None" if "k \<in> set ids" for k using Cons.prems [of k] that by (auto simp: update_conv')
  from Cons.IH [OF this, of ?pending] obtain "next" t' where
    run: "mark_level mark ids ?pending ?t = (Inr next, t')" and m: "marked mark (\<lambda>j. j \<in> set ids) ?t t'"
    and nxt: "set next = set ?pending \<union> {j. \<exists>i\<in>set ids. child ?t i j}" by blast
  have "marked mark (\<lambda>j. j \<in> set (i # ids)) t t'"
    using marked_comp [OF one m assms(2)] by (simp add: marked_def)
  moreover have "set next = set pending \<union> {j. \<exists>i\<in>set (i # ids). child t i j}"
    using assms(2) f unfolding nxt marked_child [OF one assms(2)] by (auto simp: child_def is_mark_def)
  ultimately show ?case using run f by (simp add: Let_def)
qed (simp add: marked_def)

text \<open>
  Without cycles the loop ends, and with a closed tree it finds every entry it asks for.
\<close>

lemma recursive_mark_rank:
  assumes "is_mark mark" and "closed t" and "\<And>i. i \<in> set ids \<Longrightarrow> map_of t i \<noteq> None"
    and "\<And>i j. child t i j \<Longrightarrow> rank j < (rank i :: nat)" and "\<And>i. i \<in> set ids \<Longrightarrow> rank i < n"
  shows "\<exists>t'. recursive_mark mark ids t = Some (Inr (), t') \<and> marked mark (\<lambda>j. \<exists>i\<in>set ids. descendant t i j) t t'"
  using assms(2-)
proof (induction n arbitrary: ids t)
  case 0
  then have "ids = []" by (cases ids) auto
  then show ?case by (subst recursive_mark.simps) (simp add: marked_def)
next
  case (Suc n)
  show ?case
  proof (cases "ids = []")
    case True
    then show ?thesis by (subst recursive_mark.simps) (simp add: marked_def)
  next
    case False
    from mark_level_spec [of ids t mark "[]", OF Suc.prems(2) assms(1)] obtain "next" t1 where
      level: "mark_level mark ids [] t = (Inr next, t1)" and m1: "marked mark (\<lambda>j. j \<in> set ids) t t1"
      and nxt: "set next = {j. \<exists>i\<in>set ids. child t i j}" by auto
    note child = marked_child [OF m1 assms(1)]
    have "map_of t1 j \<noteq> None" if "j \<in> set next" for j
      using that Suc.prems(1) m1 by (auto simp: nxt closed_def marked_def)
    moreover have "rank j < n" if "j \<in> set next" for j
      using that Suc.prems(3,4) by (fastforce simp: nxt)
    ultimately obtain t' where run: "recursive_mark mark next t1 = Some (Inr (), t')"
      and m2: "marked mark (\<lambda>j. \<exists>i\<in>set next. descendant t i j) t1 t'"
      using Suc.IH [of t1 "next"] Suc.prems(1,3) by (auto simp: child marked_closed [OF m1 assms(1)])
    have "(j \<in> set ids \<or> (\<exists>i\<in>set next. descendant t i j)) = (\<exists>i\<in>set ids. descendant t i j)" for j
      by (auto simp: nxt intro: converse_rtranclp_into_rtranclp elim: converse_rtranclpE)
    then have "marked mark (\<lambda>j. \<exists>i\<in>set ids. descendant t i j) t t'"
      using marked_comp [OF m1 m2 assms(1)] by simp
    then show ?thesis using False run by (subst recursive_mark.simps) (simp add: level)
  qed
qed

lemma finite_child: "finite {(i, j). child t i j}"
proof -
  have "{(i, j). child t i j} \<subseteq> (\<Union>(i, f)\<in>set t. {i} \<times> set (next_blocks f))"
    by (auto simp: child_def dest!: map_of_SomeD)
  then show ?thesis by (rule finite_subset) auto
qed

lemma acyclic_rank:
  assumes "acyclicP (child t)"
  shows "\<exists>rank. \<forall>i j. child t i j \<longrightarrow> rank j < (rank i :: nat)"
proof -
  let ?R = "{(i, j). child t i j}"
  let ?rank = "\<lambda>i. card (?R\<^sup>+ `` {i})"
  have fin: "finite (?R\<^sup>+ `` {i})" for i using finite_child by (simp add: finite_Image)
  have "?rank j < ?rank i" if "child t i j" for i j
  proof (rule psubset_card_mono [OF fin])
    have "(i, j) \<in> ?R" using that by simp
    then have "?R\<^sup>+ `` {j} \<subseteq> ?R\<^sup>+ `` {i}" "j \<in> ?R\<^sup>+ `` {i}"
      by (auto intro: trancl_into_trancl2)
    moreover have "j \<notin> ?R\<^sup>+ `` {j}" using assms by (auto simp: acyclic_def)
    ultimately show "?R\<^sup>+ `` {j} \<subset> ?R\<^sup>+ `` {i}" by blast
  qed
  then show ?thesis by (intro exI [of _ ?rank]) simp
qed

lemma recursive_mark_spec:
  assumes "is_mark mark" and "closed t" and "\<And>i. i \<in> set ids \<Longrightarrow> map_of t i \<noteq> None" and "acyclicP (child t)"
  shows "\<exists>t'. recursive_mark mark ids t = Some (Inr (), t') \<and> marked mark (\<lambda>j. \<exists>i\<in>set ids. descendant t i j) t t'"
proof -
  obtain rank where rank: "\<And>i j. child t i j \<Longrightarrow> rank j < (rank i :: nat)" using acyclic_rank [OF assms(4)] by blast
  show ?thesis
    by (rule recursive_mark_rank [where rank = rank and n = "Suc (Max (rank ` set ids))", OF assms(1-3) rank])
      (auto simp: less_Suc_eq_le)
qed

text \<open>What a mark leaves alone, marking leaves alone.\<close>

lemma mark_level_field:
  assumes "mark_level mark ids pending t = (r, t')" and "\<And>f. g (mark f) = g f"
  shows "map_option g (map_of t' k) = map_option g (map_of t k)"
  using assms(1)
proof (induction ids arbitrary: pending t)
  case (Cons i ids)
  then show ?case
    by (cases "map_of t i") (auto simp: Let_def update_conv' assms(2) split: if_splits)
qed simp

lemma recursive_mark_field:
  assumes "recursive_mark mark ids t = Some (r, t')" and "\<And>f. g (mark f) = g f"
  shows "map_option g (map_of t' k) = map_option g (map_of t k)"
proof -
  let ?P = "\<lambda>m ids t x. m = mark \<longrightarrow> map_option g (map_of (snd x) k) = map_option g (map_of t k)"
  have "?P mark ids t (r, t')"
  proof (rule recursive_mark.raw_induct [where P = ?P, OF _ assms(1)])
    fix loop m ids t x
    assume IH: "\<And>m ids t x. loop m ids t = Some x \<Longrightarrow> ?P m ids t x"
      and body: "(if ids = [] then Some (Inr (), t)
        else case mark_level m ids [] t of (Inl err, t') \<Rightarrow> Some (Inl err, t')
             | (Inr pending, t') \<Rightarrow> loop m pending t') = Some x"
    obtain y t1 where level: "mark_level m ids [] t = (y, t1)" by (cases "mark_level m ids [] t")
    show "?P m ids t x"
      using body IH mark_level_field [OF level, of g k] assms(2)
      by (cases y; cases x) (auto simp: level split: if_splits)
  qed
  then show ?thesis by simp
qed

lemma mark_descendants:
  assumes "closed (fork_db st)" and "acyclicP (child (fork_db st))" and "map_of (fork_db st) i \<noteq> None"
  shows "\<exists>t. mark_invalid i st = Some (Inr (), st\<lparr>fork_db := t\<rparr>)
    \<and> marked (\<lambda>f. f\<lparr>is_valid := Some False\<rparr>) (descendant (fork_db st) i) (fork_db st) t"
proof -
  let ?mark = "\<lambda>f :: block_fork_data. f\<lparr>is_valid := Some False\<rparr>"
  obtain f where f: "map_of (fork_db st) i = Some f" using assms(3) by blast
  let ?t = "AList.update i (?mark f) (fork_db st)"
  note m1 = marked_update [OF f, of ?mark]
  note same = marked_child [OF m1 marks(2)]
  have kids: "k \<in> set (next_blocks f) \<longleftrightarrow> child (fork_db st) i k" for k using f by (simp add: child_def)
  have "map_of ?t k \<noteq> None" if "k \<in> set (next_blocks f)" for k
    using that assms(1) kids by (auto simp: closed_def update_conv')
  with recursive_mark_spec [OF marks(2), of ?t "next_blocks f"] assms(1,2) obtain t where
    run: "recursive_mark ?mark (next_blocks f) ?t = Some (Inr (), t)"
    and m2: "marked ?mark (\<lambda>j. \<exists>k\<in>set (next_blocks f). descendant (fork_db st) k j) ?t t"
    by (auto simp: same marked_closed [OF m1 marks(2)])
  have "(j = i \<or> (\<exists>k\<in>set (next_blocks f). descendant (fork_db st) k j)) = descendant (fork_db st) i j" for j
    unfolding kids Bex_def by (metis converse_rtranclpE converse_rtranclp_into_rtranclp rtranclp.rtrancl_refl)
  then have "marked ?mark (descendant (fork_db st) i) (fork_db st) t"
    using marked_comp [OF m1 m2 marks(2)] by simp
  then show ?thesis
    using run f by (intro exI [of _ t]) (simp add: mark_invalid_def recursive_mark_as_invalid_def on_fork_db_def)
qed

section \<open>Storing a block\<close>

definition linked :: "fork_table \<Rightarrow> block_id_type \<Rightarrow> bool" where
  "linked t i \<longleftrightarrow> (\<exists>f. map_of t i = Some f \<and> is_linked f)"

definition fork_ok :: "fork_table \<Rightarrow> bool" where
  "fork_ok t \<longleftrightarrow> closed t \<and> acyclicP (child t) \<and> (\<forall>i j. child t i j \<longrightarrow> linked t i \<longrightarrow> linked t j)"

lemma link_to_previous_effect:
  assumes "link_to_previous p i t = (f, t')"
  shows "map_of t' p = Some f" and "\<And>k. k \<noteq> p \<Longrightarrow> map_of t' k = map_of t k"
    and "child t' = (\<lambda>x y. child t x y \<or> x = p \<and> y = i)"
    and "\<And>x y. child t x y \<Longrightarrow> linked t' x = linked t x"
  using assms
  by (auto simp: link_to_previous_def Let_def update_conv' child_def linked_def new_fork_data_def fun_eq_iff
      split: option.splits if_splits)

lemma acyclic_link:
  assumes "acyclicP (child t)" and "\<not> descendant t i p"
  shows "acyclicP (\<lambda>x y. child t x y \<or> x = p \<and> y = i)"
proof -
  have "{(x, y). child t x y \<or> x = p \<and> y = i} = insert (p, i) {(x, y). child t x y}" by auto
  moreover have "(i, p) \<notin> {(x, y). child t x y}\<^sup>*" using assms(2) by (simp add: rtranclp_rtrancl_eq)
  ultimately show ?thesis using assms(1) by (simp add: acyclic_insert)
qed

lemma descendant_irrefl: "acyclicP (child t) \<Longrightarrow> child t i k \<Longrightarrow> \<not> descendant t k i"
  unfolding rtranclp_rtrancl_eq acyclic_def by (metis case_prodI mem_Collect_eq rtrancl_into_trancl2)

text \<open>The case of a block that completes a chain: it and its descendants become linked.\<close>

lemma mark_linked_spec:
  assumes "closed t" and "acyclicP (child t)" and "map_of t i = Some cur"
  shows "\<exists>t2. recursive_mark_as_linked (next_blocks cur) t = Some (Inr (), t2)
    \<and> marked (\<lambda>r. r\<lparr>is_linked := True\<rparr>) (descendant t i) t (AList.update i (cur\<lparr>is_linked := True\<rparr>) t2)"
proof -
  let ?mark = "\<lambda>r :: block_fork_data. r\<lparr>is_linked := True\<rparr>"
  have kids: "k \<in> set (next_blocks cur) \<longleftrightarrow> child t i k" for k using assms(3) by (simp add: child_def)
  have "map_of t k \<noteq> None" if "k \<in> set (next_blocks cur)" for k
    using that assms(1) kids by (auto simp: closed_def)
  from recursive_mark_spec [OF marks(1) assms(1) this assms(2)] obtain t2 where
    run: "recursive_mark ?mark (next_blocks cur) t = Some (Inr (), t2)"
    and m: "marked ?mark (\<lambda>j. \<exists>k\<in>set (next_blocks cur). descendant t k j) t t2" by blast
  have "(j = i \<or> (\<exists>k\<in>set (next_blocks cur). descendant t k j)) = descendant t i j" for j
    unfolding kids Bex_def by (metis converse_rtranclpE converse_rtranclp_into_rtranclp rtranclp.rtrancl_refl)
  moreover have "\<not> (\<exists>k\<in>set (next_blocks cur). descendant t k i)"
    using descendant_irrefl [OF assms(2)] kids by blast
  ultimately have "marked ?mark (descendant t i) t (AList.update i (cur\<lparr>is_linked := True\<rparr>) t2)"
    using m assms(3) by (auto simp: marked_def update_conv')
  then show ?thesis using run by (simp add: recursive_mark_as_linked_def)
qed

lemma index_block_ok:
  assumes "fork_ok t" and "\<not> descendant t i p" and "link_to_previous p i t = (f, t1)"
  shows "\<exists>g t'. index_block i f t1 = Some (Inr g, t') \<and> fork_ok t' \<and> child t' p i \<and> map_of t' i = Some g
    \<and> (\<forall>j. linked t j \<longrightarrow> linked t' j)"
proof -
  note link = link_to_previous_effect [OF assms(3)]
  note t_ok = assms(1) [unfolded fork_ok_def]
  have acyc: "acyclicP (child t1)" unfolding link(3) using acyclic_link t_ok assms(2) by blast
  have down: "linked t1 y" if "child t x y" "linked t1 x" for x y
  proof -
    have "linked t y" using that t_ok link(4) by blast
    then show ?thesis
      using link(1,2) assms(3)
      by (cases "y = p") (auto simp: linked_def link_to_previous_def Let_def split: option.splits)
  qed
  have keep: "linked t1 j" if "linked t j" for j
    using that link(1,2) assms(3)
    by (cases "j = p") (auto simp: linked_def link_to_previous_def Let_def split: option.splits)
  have kid: "map_of t1 j \<noteq> None" if "child t x j" for x j
  proof -
    have "map_of t j \<noteq> None" using that t_ok unfolding closed_def by blast
    then show ?thesis using link(1,2) by (cases "j = p") simp_all
  qed
  show ?thesis
  proof (cases "map_of t1 i")
    case None
    let ?g = "new_fork_data\<lparr>is_known_data := True, is_linked := is_linked f\<rparr>"
    let ?t = "AList.update i ?g t1"
    have child: "child ?t = child t1"
      using None by (auto simp: child_def update_conv' new_fork_data_def fun_eq_iff)
    have "map_of t i = None" using None link(1,2) by (cases "i = p") simp_all
    then have fresh: "\<not> child t x i" for x using t_ok unfolding closed_def by blast
    have "closed ?t" using kid by (auto simp: closed_def child link(3) update_conv')
    moreover have "linked ?t y" if "child t1 x y" "linked ?t x" for x y
    proof (cases "y = i")
      case True
      then have "x = p" using that(1) fresh by (auto simp: link(3))
      moreover have "i \<noteq> p" using None link(1) by auto
      ultimately show ?thesis using that(2) True link(1) by (auto simp: linked_def update_conv' split: if_splits)
    next
      case False
      then have "child t x y" using that(1) by (auto simp: link(3))
      moreover have "x \<noteq> i" using that(1) None by (auto simp: child_def)
      then have "linked t1 x" using that(2) by (simp add: linked_def update_conv')
      ultimately show ?thesis using down False by (simp add: linked_def update_conv')
    qed
    moreover have "linked ?t j" if "linked t j" for j
      using keep [OF that] None by (auto simp: linked_def update_conv')
    ultimately show ?thesis
      using None acyc by (auto simp: index_block_def Let_def fork_ok_def child link(3) update_conv')
  next
    case (Some cur)
    have closed: "closed t1" using kid Some by (auto simp: closed_def link(3))
    show ?thesis
    proof (cases "\<not> is_linked cur \<and> is_linked f")
      case True
      let ?mark = "\<lambda>r :: block_fork_data. r\<lparr>is_linked := True\<rparr>"
      let ?g = "cur\<lparr>is_linked := True\<rparr>"
      from mark_linked_spec [OF closed acyc Some] obtain t2 where
        run: "recursive_mark_as_linked (next_blocks cur) t1 = Some (Inr (), t2)"
        and m: "marked ?mark (descendant t1 i) t1 (AList.update i ?g t2)" by blast
      let ?t = "AList.update i ?g t2"
      note same = marked_child [OF m marks(1)] and still = marked_closed [OF m marks(1)]
      have lnk: "linked ?t j \<longleftrightarrow> map_of t1 j \<noteq> None \<and> (descendant t1 i j \<or> linked t1 j)" for j
        using m by (cases "map_of t1 j") (auto simp: linked_def marked_def)
      have "linked ?t y" if "child t1 x y" "linked ?t x" for x y
        using that closed down by (auto simp: lnk closed_def link(3) dest: rtranclp.rtrancl_into_rtrancl)
      then have "fork_ok ?t" using acyc closed by (simp add: fork_ok_def same still)
      moreover have "linked ?t j" if "linked t j" for j
        using keep [OF that] by (simp add: lnk) (auto simp: linked_def)
      moreover have "index_block i f t1 = Some (Inr ?g, ?t)"
        using True Some run by (simp add: index_block_def Let_def)
      moreover have "child ?t p i" by (simp add: same link(3))
      moreover have "map_of ?t i = Some ?g" by (simp add: update_conv')
      ultimately show ?thesis by blast
    next
      case False
      let ?t = "AList.update i cur t1"
      have get: "map_of ?t = map_of t1" using Some by (auto simp: update_conv' fun_eq_iff)
      then have same: "child ?t = child t1" "linked ?t = linked t1" by (simp_all add: child_def linked_def fun_eq_iff)
      have "linked t1 y" if "child t1 x y" "linked t1 x" for x y
        using that down False Some link(1) by (auto simp: link(3) linked_def)
      then show ?thesis
        using False Some acyc closed keep
        by (auto simp: index_block_def fork_ok_def same get closed_def link(3))
    qed
  qed
qed

section \<open>Properties\<close>

text \<open>
  C16. Marking a block invalid ends and marks exactly the block and its descendants. In a tree without
  cycles in which every next block has an entry, \<open>mark_invalid\<close> of a block of the tree returns without
  an error, every block that can be reached from it by next blocks is then invalid, and every other
  entry is what it was.
\<close>

theorem mark_invalid_exact:
  assumes "closed (fork_db st)" and "acyclicP (child (fork_db st))" and "map_of (fork_db st) i \<noteq> None"
  shows "\<exists>t. mark_invalid i st = Some (Inr (), st\<lparr>fork_db := t\<rparr>)
    \<and> (\<forall>j. map_of t j = (if (child (fork_db st))\<^sup>*\<^sup>* i j
        then map_option (\<lambda>f. f\<lparr>is_valid := Some False\<rparr>) (map_of (fork_db st) j)
        else map_of (fork_db st) j))"
  using mark_descendants [OF assms] by (simp add: marked_def)

lemma rank_acyclic:
  assumes "\<And>i j. child t i j \<Longrightarrow> rank j < (rank i :: nat)"
  shows "acyclicP (child t)"
proof -
  have "{(i, j). child t i j}\<inverse> \<subseteq> measure rank" using assms by auto
  then have "wf ({(i, j). child t i j}\<inverse>)" by (rule wf_subset [OF wf_measure])
  then show ?thesis using wf_acyclic acyclic_converse by blast
qed

text \<open>A block that two blocks wait for one after the other, and one apart.\<close>

definition sample_tree :: fork_table where
  "sample_tree = [([1], new_fork_data\<lparr>next_blocks := [[2]]\<rparr>), ([2], new_fork_data\<lparr>next_blocks := [[3]]\<rparr>),
     ([3], new_fork_data), ([4], new_fork_data)]"

lemma sample_tree_child: "child sample_tree i j \<longleftrightarrow> i = [1] \<and> j = [2] \<or> i = [2] \<and> j = [3]"
  by (auto simp: child_def sample_tree_def new_fork_data_def split: if_splits)

lemma sample_tree_ok: "closed sample_tree" "acyclicP (child sample_tree)" "fork_ok sample_tree"
proof -
  show *: "closed sample_tree"
    by (auto simp: closed_def sample_tree_child) (simp_all add: sample_tree_def)
  show "acyclicP (child sample_tree)"
    by (rule rank_acyclic [where rank = "\<lambda>i. if i = [1] then 2 else if i = [2] then 1 else 0"])
      (auto simp: sample_tree_child)
  then show "fork_ok sample_tree"
    using * by (auto simp: fork_ok_def sample_tree_child) (auto simp: linked_def sample_tree_def new_fork_data_def)
qed

definition sample_tree_node :: chain_database_impl where
  "sample_tree_node = sample_genesis\<lparr>fork_db := sample_tree\<rparr>"

theorem mark_invalid_exact_witness:
  "\<exists>t. mark_invalid [2] sample_tree_node = Some (Inr (), sample_tree_node\<lparr>fork_db := t\<rparr>)
    \<and> map_of t [3] = Some (new_fork_data\<lparr>is_valid := Some False\<rparr>) \<and> map_of t [1] = map_of sample_tree [1]"
proof -
  have reach: "descendant sample_tree [2] [3]" by (rule r_into_rtranclp) (simp add: sample_tree_child)
  have "j = [2] \<or> j = [3]" if "descendant sample_tree [2] j" for j
    using that by (induction) (auto simp: sample_tree_child)
  then have apart: "\<not> descendant sample_tree [2] [1]" by fastforce
  have db: "fork_db sample_tree_node = sample_tree" by (simp add: sample_tree_node_def)
  have here: "map_of sample_tree [2] \<noteq> None" and three: "map_of sample_tree [3] = Some new_fork_data"
    by (simp_all add: sample_tree_def)
  obtain t where t: "mark_invalid [2] sample_tree_node = Some (Inr (), sample_tree_node\<lparr>fork_db := t\<rparr>)"
    "\<forall>j. map_of t j = (if descendant sample_tree [2] j
        then map_option (\<lambda>f. f\<lparr>is_valid := Some False\<rparr>) (map_of sample_tree j) else map_of sample_tree j)"
    using mark_invalid_exact [of sample_tree_node "[2]"] sample_tree_ok(1,2) here unfolding db by blast
  then show ?thesis using reach apart three by auto
qed

text \<open>
  C15. Storing a block keeps the block tree. When every next block has an entry, there are no cycles and
  the next blocks of linked blocks are linked, then \<open>store_and_index\<close> of a block that does not close a
  cycle returns, and all of this still holds: a block that completes a chain links all that come after
  it, however late it arrives. The block is then a next block of its previous one, and no link is lost.
\<close>

theorem store_and_index_keeps_tree:
  assumes "fork_ok (fork_db st)" and "\<not> (child (fork_db st))\<^sup>*\<^sup>* i (bh_previous (fb_header b))"
    and "get_current_random_seed (Database (tables st)) = Inr seed"
  shows "\<exists>g st'. store_and_index n i b st = Some (Inr g, st') \<and> fork_ok (fork_db st')
    \<and> map_of (fork_db st') i = Some g \<and> child (fork_db st') (bh_previous (fb_header b)) i
    \<and> (\<forall>j. linked (fork_db st) j \<longrightarrow> linked (fork_db st') j)"
proof -
  let ?p = "bh_previous (fb_header b)"
  obtain f t1 where link: "link_to_previous ?p i (fork_db st) = (f, t1)" by fastforce
  from index_block_ok [OF assms(1,2) link] obtain g t' where
    g: "index_block i f t1 = Some (Inr g, t')" "fork_ok t'" "child t' ?p i" "map_of t' i = Some g"
      "\<forall>j. linked (fork_db st) j \<longrightarrow> linked t' j" by blast
  then show ?thesis
    using assms(3) link
    by (auto simp: store_and_index_def make_block_record_def res_bind_def Let_def simp del: get_current_random_seed.simps)
qed

lemma index_block_entry:
  assumes "index_block i f t = Some (Inr g, t')"
  shows "map_of t' i = Some g" and "map_of t i = Some h \<Longrightarrow> is_known_data g = is_known_data h"
  using assms by (auto simp: index_block_def Let_def update_conv' split: option.splits if_splits sum.splits)

lemma store_and_index_steps:
  assumes "store_and_index n i b st = Some (r, st')"
  obtains (failed) err where "r = Inl err" "st' = st" "make_block_record n b st = Inl err"
  | (stored) rec f t where "make_block_record n b st = Inr rec"
      "link_to_previous (bh_previous (fb_header b)) i (fork_db st) = (f, t)"
      "index_block i f t = Some (r, fork_db st')" "tables st' = tables st" "head_block_id st' = head_block_id st"
      "undo_state_db st' = undo_state_db st"
      "block_id_to_block_record_db st' = AList.update i rec (block_id_to_block_record_db st)"
proof (cases "make_block_record n b st")
  case (Inl err)
  then show thesis using assms by (intro failed [of err]) (auto simp: store_and_index_def)
next
  case (Inr rec)
  obtain f t where link: "link_to_previous (bh_previous (fb_header b)) i (fork_db st) = (f, t)" by fastforce
  let ?st = "st\<lparr>block_id_to_block_record_db := AList.update i rec (block_id_to_block_record_db st)\<rparr>"
  show thesis
    using assms Inr link
    by (cases "i \<in> set (fetch_blocks_at_number (bh_block_num (fb_header b)) ?st)"; intro stored)
      (auto simp: store_and_index_def Let_def)
qed

lemma placeholder_unknown:
  assumes "index_block i f t = Some (Inr g, t')" and "map_of t k = Some h" and "k \<noteq> i"
  shows "\<exists>h'. map_of t' k = Some h' \<and> is_known_data h' = is_known_data h"
proof -
  have "map_option is_known_data (map_of t1 k) = Some (is_known_data h)"
    if "recursive_mark_as_linked ids t = Some (r, t1)" for ids r t1
    using recursive_mark_field [OF that [unfolded recursive_mark_as_linked_def], of is_known_data k] assms(2) by simp
  then show ?thesis
    using assms by (auto simp: index_block_def Let_def update_conv' split: option.splits if_splits sum.splits)
qed

theorem store_and_index_keeps_tree_witness:
  "\<exists>g st'. store_and_index sample_node [1] sample_block_1 sample_tree_node = Some (Inr g, st')
    \<and> fork_ok (fork_db st') \<and> child (fork_db st') null_block_id [1]"
proof -
  have db: "fork_db sample_tree_node = sample_tree" by (simp add: sample_tree_node_def)
  have prev: "bh_previous (fb_header sample_block_1) = null_block_id"
    by (simp add: sample_block_1_def sample_block_def)
  have reach: "j \<in> {[1], [2], [3]}" if "descendant sample_tree [1] j" for j
    using that by (induction) (auto simp: sample_tree_child)
  have "length j = 1" if "descendant sample_tree [1] j" for j using reach [OF that] by auto
  then have "\<not> descendant sample_tree [1] null_block_id" by (force simp: null_block_id_def)
  moreover have "get_current_random_seed (Database (tables sample_tree_node)) = Inr [7]" by code_simp
  ultimately show ?thesis
    using store_and_index_keeps_tree [of sample_tree_node "[1]" sample_block_1 "[7]" sample_node] sample_tree_ok(3)
    unfolding db prev by blast
qed

text \<open>
  C19. A block that arrives after its successor is never known. The successor leaves a placeholder for
  its previous block; when that block comes, \<open>store_and_index\<close> sets \<open>is_known\<close> on a fresh entry and then
  overwrites the entry with the placeholder, so the block counts as unknown although its content is
  stored.
\<close>

theorem late_block_stays_unknown:
  assumes "map_of (fork_db st) i = None" and "bh_previous (fb_header b2) = i" and "i2 \<noteq> i"
    and "store_and_index n i2 b2 st = Some (Inr g2, st1)" and "bh_previous (fb_header b) \<noteq> i"
    and "store_and_index n i b st1 = Some (Inr g, st2)"
  shows "\<not> is_known_data g \<and> map_of (fork_db st2) i = Some g \<and> map_of (block_id_to_block_record_db st2) i \<noteq> None"
proof -
  obtain f1 t1 where one: "link_to_previous i i2 (fork_db st) = (f1, t1)" "index_block i2 f1 t1 = Some (Inr g2, fork_db st1)"
    using assms(2,4) by (cases rule: store_and_index_steps [OF assms(4)]) auto
  have "map_of t1 i = Some (new_fork_data\<lparr>next_blocks := [i2], is_linked := (i = null_block_id)\<rparr>)"
    using one(1) assms(1) by (auto simp: link_to_previous_def Let_def update_conv')
  from placeholder_unknown [OF one(2) this] assms(3) obtain h where
    h: "map_of (fork_db st1) i = Some h" "\<not> is_known_data h" by (auto simp: new_fork_data_def)
  obtain rec f2 t2 where two: "link_to_previous (bh_previous (fb_header b)) i (fork_db st1) = (f2, t2)"
      "index_block i f2 t2 = Some (Inr g, fork_db st2)"
    and rec: "block_id_to_block_record_db st2 = AList.update i rec (block_id_to_block_record_db st1)"
    using assms(6) by (cases rule: store_and_index_steps [OF assms(6)]) auto
  have "map_of t2 i = Some h" using link_to_previous_effect(2) [OF two(1)] assms(5) h(1) by simp
  then show ?thesis
    using index_block_entry [OF two(2)] h(2) by (simp add: rec update_conv')
qed

theorem late_block_stays_unknown_witness:
  "\<exists>g1 st1 g st2. store_and_index sample_node (block_id sample_node sample_block_2) sample_block_2 sample_genesis
      = Some (Inr g1, st1)
    \<and> store_and_index sample_node (block_id sample_node sample_block_1) sample_block_1 st1 = Some (Inr g, st2)
    \<and> \<not> is_known_data g"
proof -
  let ?i1 = "block_id sample_node sample_block_1" and ?i2 = "block_id sample_node sample_block_2"
  have "Option.bind (run_value (store_and_index sample_node ?i2 sample_block_2 sample_genesis))
      (\<lambda>(_, st). run_value (store_and_index sample_node ?i1 sample_block_1 st)) \<noteq> None"
    by code_simp
  then obtain g1 st1 g st2 where runs: "store_and_index sample_node ?i2 sample_block_2 sample_genesis = Some (Inr g1, st1)"
    "store_and_index sample_node ?i1 sample_block_1 st1 = Some (Inr g, st2)"
    by (auto simp: bind_eq_Some_conv)
  have "map_of (fork_db sample_genesis) ?i1 = None" "bh_previous (fb_header sample_block_2) = ?i1" "?i2 \<noteq> ?i1"
    "bh_previous (fb_header sample_block_1) \<noteq> ?i1"
    by code_simp+
  then show ?thesis using runs late_block_stays_unknown [OF _ _ _ runs(1) _ runs(2)] by blast
qed

end
