(* ===== verification/Bts_Node.thy ===== *)
theory Bts_Node
  imports Bts_Ledger Bts_Tree
begin

text \<open>
  The invariant of a node: its state is the end of a history of blocks, the undo states lead back
  along it, and every block it stores is stored under its own identifier and has a place in the block
  tree. Extending the chain, popping its head, switching to a fork and pushing a block keep it,
  whether they return or throw, and with it the surplus of every asset.
\<close>

section \<open>Operations that leave the ledger alone\<close>

definition same_ledger :: "chain_database_impl \<Rightarrow> chain_database_impl \<Rightarrow> bool" where
  "same_ledger st st' \<longleftrightarrow> tables st' = tables st \<and> head_block_id st' = head_block_id st
     \<and> undo_state_db st' = undo_state_db st \<and> block_num_to_id_db st' = block_num_to_id_db st
     \<and> block_id_to_block_record_db st' = block_id_to_block_record_db st
     \<and> (\<forall>k. map_of (fork_db st') k = None \<longrightarrow> map_of (fork_db st) k = None)"

lemma same_ledger_refl [simp]: "same_ledger st st"
  by (simp add: same_ledger_def)

lemma same_ledger_trans: "same_ledger st st1 \<Longrightarrow> same_ledger st1 st2 \<Longrightarrow> same_ledger st st2"
  by (auto simp: same_ledger_def)

definition same_keys :: "fork_table \<Rightarrow> fork_table \<Rightarrow> bool" where
  "same_keys t t' \<longleftrightarrow> (\<forall>k. (map_of t' k = None) = (map_of t k = None))"

lemma same_keys_refl [simp]: "same_keys t t"
  by (simp add: same_keys_def)

lemma same_keys_update: "map_of t i \<noteq> None \<Longrightarrow> same_keys t (AList.update i r t)"
  by (auto simp: same_keys_def update_conv')

lemma recursive_mark_keys:
  assumes "recursive_mark mark ids t = Some (r, t')"
  shows "same_keys t t'"
proof -
  have "map_option (\<lambda>_. ()) (map_of t' k) = map_option (\<lambda>_. ()) (map_of t k)" for k
    by (rule recursive_mark_field [OF assms]) simp
  then show ?thesis by (metis same_keys_def option.map_disc_iff)
qed

lemma mark_invalid_same:
  assumes "mark_invalid i st = Some (r, st')"
  shows "same_ledger st st'"
proof -
  obtain f where f: "map_of (fork_db st) i = Some f \<or> st' = st"
    using assms by (cases "map_of (fork_db st) i") (auto simp: mark_invalid_def)
  then show ?thesis
    using assms same_keys_update [of "fork_db st" i "f\<lparr>is_valid := Some False\<rparr>"]
    by (auto simp: mark_invalid_def on_fork_db_def recursive_mark_as_invalid_def same_ledger_def Let_def same_keys_def
        dest!: recursive_mark_keys split: option.splits)
qed

lemma mark_included_same:
  assumes "mark_included i v st = Some (r, st')"
  shows "same_ledger st st'" and "map_of (fork_db st) i \<noteq> None \<Longrightarrow> r = Inr ()"
  using assms by (auto simp: mark_included_def same_ledger_def update_conv' Let_def split: option.splits if_splits)

lemma evaluate_pending_same:
  assumes "evaluate_pending n t st = Some (r, st')"
  shows "same_ledger st st'"
proof -
  let ?p = "case pending_trx_state st of None \<Rightarrow> new_pending_state | Some p \<Rightarrow> p"
  show ?thesis
    using assms
    by (cases "evaluate_transaction (base n) (db_chain_id st) t (Pending ?p (Database (tables st)))")
      (auto simp: evaluate_pending_def same_ledger_def Let_def split: sum.splits)
qed

lemma reevaluate_same: "reevaluate n ts ids st = Some (ids', st') \<Longrightarrow> same_ledger st st'"
proof (induction n ts ids st rule: reevaluate.induct)
  case (2 n t ts ids st)
  obtain r st1 where step: "evaluate_pending n t st = Some (r, st1)"
    using 2(3) by (cases "evaluate_pending n t st") (auto split: prod.splits sum.splits)
  note same = evaluate_pending_same [OF step]
  show ?case
  proof (cases r)
    case (Inl err)
    then show ?thesis using 2(1) [OF step refl Inl] 2(3) step same same_ledger_trans by auto
  next
    case (Inr ev)
    have "same_ledger st1 (index_pending n t ev st1)" by (simp add: same_ledger_def index_pending_def Let_def)
    then show ?thesis using 2(2) [OF step refl Inr] 2(3) step same Inr same_ledger_trans
      by (metis (no_types, lifting) reevaluate.simps(2) case_prod_conv option.simps(5) sum.simps(6))
  qed
qed simp

lemma clear_pending_same: "clear_pending n b st = Some st' \<Longrightarrow> same_ledger st st'"
  by (auto simp: clear_pending_def Let_def remove_pending_def dest!: reevaluate_same)
    (auto simp: same_ledger_def)

lemma link_to_previous_keys:
  "link_to_previous p i t = (f, t') \<Longrightarrow> map_of t' k = None \<Longrightarrow> map_of t k = None"
  by (auto simp: link_to_previous_def Let_def update_conv' split: if_splits)

lemma index_block_keys:
  assumes "index_block i f t = Some (r, t')"
  shows "map_of t' i \<noteq> None" and "map_of t' k = None \<Longrightarrow> map_of t k = None"
proof -
  have marked: "same_keys t t1" if "recursive_mark_as_linked ids t = Some (x, t1)" for ids x t1
    using that by (simp add: recursive_mark_as_linked_def recursive_mark_keys)
  show "map_of t' i \<noteq> None"
  proof
    assume "map_of t' i = None"
    then show False
      using assms by (auto simp: index_block_def Let_def update_conv' same_keys_def dest!: marked
          split: option.splits if_splits sum.splits)
  qed
  show "map_of t k = None" if "map_of t' k = None"
    using assms that by (auto simp: index_block_def Let_def update_conv' same_keys_def dest!: marked
        split: option.splits if_splits sum.splits)
qed

section \<open>The invariant\<close>

definition hash_ok :: "env \<Rightarrow> signed_block_header set \<Rightarrow> bool" where
  "hash_ok e H \<longleftrightarrow> inj_on (header_id e) H \<and> null_block_id \<notin> header_id e ` H"

definition node_ok :: "node \<Rightarrow> signed_block_header set \<Rightarrow> (asset_id_type \<Rightarrow> share_type) \<Rightarrow> chain_database_impl \<Rightarrow> bool" where
  "node_ok n H s st \<longleftrightarrow>
    (\<exists>ids. ledger (base n) H (undo_state_db st) s (Database (tables st)) (head_block_id st # ids)
      \<and> (\<forall>i\<in>set (head_block_id st # ids). i = null_block_id \<or> map_of (block_id_to_block_record_db st) i \<noteq> None))
    \<and> (\<forall>i r. map_of (block_id_to_block_record_db st) i = Some r \<longrightarrow>
        db_header (br_digest_block r) \<in> H \<and> header_id (base n) (db_header (br_digest_block r)) = i
        \<and> map_of (fork_db st) i \<noteq> None)
    \<and> (head_block_id st \<noteq> null_block_id \<longrightarrow> head_block_header (tables st) \<in> H
        \<and> header_id (base n) (head_block_header (tables st)) = head_block_id st)
    \<and> map_of (undo_state_db st) null_block_id = None
    \<and> (\<forall>i r. map_of (transaction_db (tables st)) i = Some r \<longrightarrow> plain (rec_trx r))"

lemma node_okD:
  assumes "node_ok n H s st"
  obtains ids where "ledger (base n) H (undo_state_db st) s (Database (tables st)) (head_block_id st # ids)"
    and "\<And>i. i \<in> set (head_block_id st # ids) \<Longrightarrow> i = null_block_id \<or> map_of (block_id_to_block_record_db st) i \<noteq> None"
    and "\<And>i r. map_of (block_id_to_block_record_db st) i = Some r \<Longrightarrow>
        db_header (br_digest_block r) \<in> H \<and> header_id (base n) (db_header (br_digest_block r)) = i
        \<and> map_of (fork_db st) i \<noteq> None"
    and "head_block_id st \<noteq> null_block_id \<Longrightarrow> head_block_header (tables st) \<in> H
        \<and> header_id (base n) (head_block_header (tables st)) = head_block_id st"
    and "map_of (undo_state_db st) null_block_id = None"
    and "\<And>i r. map_of (transaction_db (tables st)) i = Some r \<Longrightarrow> plain (rec_trx r)"
  using assms unfolding node_ok_def by blast

lemma node_okI:
  assumes "ledger (base n) H (undo_state_db st) s (Database (tables st)) (head_block_id st # ids)"
    and "\<And>i. i \<in> set (head_block_id st # ids) \<Longrightarrow> i = null_block_id \<or> map_of (block_id_to_block_record_db st) i \<noteq> None"
    and "\<And>i r. map_of (block_id_to_block_record_db st) i = Some r \<Longrightarrow>
        db_header (br_digest_block r) \<in> H \<and> header_id (base n) (db_header (br_digest_block r)) = i
        \<and> map_of (fork_db st) i \<noteq> None"
    and "head_block_id st \<noteq> null_block_id \<Longrightarrow> head_block_header (tables st) \<in> H
        \<and> header_id (base n) (head_block_header (tables st)) = head_block_id st"
    and "map_of (undo_state_db st) null_block_id = None"
    and "\<And>i r. map_of (transaction_db (tables st)) i = Some r \<Longrightarrow> plain (rec_trx r)"
  shows "node_ok n H s st"
  unfolding node_ok_def using assms by blast

lemma node_ok_same:
  assumes "node_ok n H s st" and "same_ledger st st'"
  shows "node_ok n H s st'"
proof -
  from assms(2) have same: "tables st' = tables st" "head_block_id st' = head_block_id st"
    "undo_state_db st' = undo_state_db st" "block_id_to_block_record_db st' = block_id_to_block_record_db st"
    and keys: "\<And>k. map_of (fork_db st) k \<noteq> None \<Longrightarrow> map_of (fork_db st') k \<noteq> None"
    by (auto simp: same_ledger_def)
  show ?thesis
    using assms(1) unfolding node_ok_def same using keys by blast
qed

lemma node_ok_surplus: "node_ok n H s st \<Longrightarrow> surplus (Database (tables st)) = s"
  by (elim node_okD) (rule ledger_state(4))

section \<open>Committing a block\<close>

lemma head_update [simp]:
  "get_property (Database (d\<lparr>head_block_header := h\<rparr>)) = get_property (Database d)"
  by (simp add: fun_eq_iff)

lemma database_of_apply:
  assumes "is_database c"
  shows "Database (database_of d (apply_changes e p c)) = apply_changes e p c"
  using is_database_apply_changes [OF assms, of e p]
  by (auto simp: database_of_def is_database_def split: chain.splits)

lemma transactions_after:
  assumes "is_database c" and "pending_ok e p"
  shows "map_of (transaction_db (database_of d (apply_changes e p c))) i
    = (case map_of (transactions p) i of None \<Rightarrow> get_transaction_at c i | Some r \<Rightarrow> Some r)"
  using is_database_apply_changes [OF assms(1), of e p] get_apply_changes(9) [OF assms, of i]
  by (auto simp: database_of_def is_database_def get_transaction_at_def split: chain.splits)

lemma commit_block_effect:
  assumes "commit_block n b p u st = Some (r, st')" and "map_of (fork_db st) (block_id n b) \<noteq> None"
    and "get_property (apply_changes (base n) p (Database (tables st))) last_random_seed_id = Inr (hash_value x)"
  shows "r = Inr ()" and "head_block_id st' = block_id n b"
    and "undo_state_db st' = AList.update (block_id n b) u (undo_state_db st)"
    and "tables st' = (database_of (tables st) (apply_changes (base n) p (Database (tables st))))
      \<lparr>head_block_header := fb_header b\<rparr>"
    and "\<exists>rec. br_digest_block rec = to_digest_block n b
      \<and> block_id_to_block_record_db st' = AList.update (block_id n b) rec (block_id_to_block_record_db st)"
    and "map_of (fork_db st') k = None \<Longrightarrow> map_of (fork_db st) k = None"
    and "block_num_to_id_db st' = AList.update (bh_block_num (fb_header b)) (block_id n b) (block_num_to_id_db st)"
proof -
  let ?d = "database_of (tables st) (apply_changes (base n) p (Database (tables st)))"
  let ?s0 = "st\<lparr>undo_state_db := AList.update (block_id n b) u (undo_state_db st), tables := ?d\<rparr>"
  have seed: "get_current_random_seed (Database (?d\<lparr>head_block_header := fb_header b\<rparr>)) = Inr x"
    using assms(3) database_of_apply [of "Database (tables st)" "tables st" "base n" p]
    by (simp add: is_database_def)
  obtain f where f: "map_of (fork_db st) (block_id n b) = Some f" using assms(2) by auto
  obtain st1 where inc: "mark_included (block_id n b) True ?s0 = Some (Inr (), st1)"
    using f by (auto simp: mark_included_def Let_def)
  have same1: "same_ledger ?s0 st1" by (rule mark_included_same(1) [OF inc])
  let ?s1 = "st1\<lparr>tables := (tables st1)\<lparr>head_block_header := fb_header b\<rparr>, head_block_id := block_id n b\<rparr>"
  obtain rec where rec: "make_block_record n b ?s1 = Inr rec" "br_digest_block rec = to_digest_block n b"
    using seed same1 by (simp add: make_block_record_def same_ledger_def del: get_current_random_seed.simps)
  let ?s2 = "?s1\<lparr>block_id_to_block_record_db := AList.update (block_id n b) rec (block_id_to_block_record_db st1)\<rparr>"
  from assms(1) inc rec(1) obtain st3 where clear: "clear_pending n b ?s2 = Some st3" and r: "r = Inr ()"
    and st': "st' = st3\<lparr>block_num_to_id_db := AList.update (bh_block_num (fb_header b)) (block_id n b) (block_num_to_id_db st3)\<rparr>"
    by (auto simp: commit_block_def update_head_block_def run_bind_def Let_def split: option.splits)
  note same3 = clear_pending_same [OF clear]
  show "r = Inr ()" by (rule r)
  show "head_block_id st' = block_id n b"
    and "undo_state_db st' = AList.update (block_id n b) u (undo_state_db st)"
    and "tables st' = ?d\<lparr>head_block_header := fb_header b\<rparr>"
    and "\<exists>rec. br_digest_block rec = to_digest_block n b
      \<and> block_id_to_block_record_db st' = AList.update (block_id n b) rec (block_id_to_block_record_db st)"
    and "map_of (fork_db st') k = None \<Longrightarrow> map_of (fork_db st) k = None"
    and "block_num_to_id_db st' = AList.update (bh_block_num (fb_header b)) (block_id n b) (block_num_to_id_db st)"
    using same1 same3 rec(2) by (auto simp: same_ledger_def st')
qed

section \<open>Extending the chain\<close>

lemma block_state_seed:
  assumes "block_state e i d b = Some (Inr c)" and "db_ok e (Database d)" and "list_all tidy (user_transactions b)"
  shows "\<exists>p x. c = Pending p (Database d)
    \<and> clean e d (block_table e (bh_block_num (fb_header b)) 0 (user_transactions b) []) c \<and> map_of (properties p) last_random_seed_id = Some (hash_value x)"
proof -
  note c = block_state_clean(1) [OF assms]
  obtain c4 x where "c = set_property last_random_seed_id (hash_value x) c4"
    by (rule block_state_steps [OF assms(1)]) (auto simp: update_random_seed_def res_bind_eq_Inr)
  moreover obtain p where "c = Pending p (Database d)" using c by (auto simp: clean_def)
  ultimately show ?thesis using c by (cases c4) (auto simp: p_set_property_def update_conv')
qed

abbreviation trx_table_of :: "node \<Rightarrow> full_block \<Rightarrow> trx_table" where
  "trx_table_of n b \<equiv> block_table (base n) (bh_block_num (fb_header b)) 0 (user_transactions b) []"

lemma try_extend_steps:
  assumes "try_extend_chain n b st = Some (r, st')" and "db_ok (base n) (Database (tables st))"
    and "list_all tidy (user_transactions b)"
  obtains (rejected) err where "r = Inl err" "st' = st"
  | (committed) p u x where "bh_previous (fb_header b) = head_block_id st"
      "verify_header n (head_block_id st) (tables st) b = Inr ()"
      "block_state (base n) (db_chain_id st) (tables st) b = Some (Inr (Pending p (Database (tables st))))"
      "clean (base n) (tables st) (trx_table_of n b) (Pending p (Database (tables st)))"
      "get_property (apply_changes (base n) p (Database (tables st))) last_random_seed_id = Inr (hash_value x)"
      "get_undo_state (base n) p (Database (tables st)) = Inr u" "commit_block n b p u st = Some (r, st')"
proof (cases "verify_header n (head_block_id st) (tables st) b")
  case (Inl err)
  then show thesis using assms(1) by (intro rejected [of err]) (auto simp: try_extend_chain_def)
next
  case verified: (Inr v)
  then have prev: "bh_previous (fb_header b) = head_block_id st"
    by (auto simp: verify_header_def Let_def split: if_splits)
  show thesis
  proof (cases "\<exists>c. block_state (base n) (db_chain_id st) (tables st) b = Some (Inr c)")
    case False
    then show thesis using assms(1) verified
      by (cases r; intro rejected) (auto simp: try_extend_chain_def split: option.splits sum.splits)
  next
    case True
    then obtain p x where state: "block_state (base n) (db_chain_id st) (tables st) b = Some (Inr (Pending p (Database (tables st))))"
      and c: "clean (base n) (tables st) (trx_table_of n b) (Pending p (Database (tables st)))"
      and x: "map_of (properties p) last_random_seed_id = Some (hash_value x)"
      using block_state_seed [OF _ assms(2,3)] by blast
    have ok: "pending_ok (base n) p" using c by (auto elim: cleanE)
    have seed: "get_property (apply_changes (base n) p (Database (tables st))) last_random_seed_id = Inr (hash_value x)"
      by (simp add: property_at_null get_apply_changes(8) [OF _ ok] is_database_def x)
    show thesis
    proof (cases "get_undo_state (base n) p (Database (tables st))")
      case (Inl err)
      then show thesis using assms(1) verified state by (intro rejected [of err]) (auto simp: try_extend_chain_def)
    next
      case (Inr u)
      then show thesis using assms(1) verified state c seed prev by (intro committed) (auto simp: try_extend_chain_def)
    qed
  qed
qed

lemma node_ok_commit:
  assumes "node_ok n H s st" and "hash_ok (base n) H" and "fb_header b \<in> H"
    and "map_of (fork_db st) (block_id n b) \<noteq> None" and "list_all plain (user_transactions b)"
    and "bh_previous (fb_header b) = head_block_id st"
    and "block_state (base n) (db_chain_id st) (tables st) b = Some (Inr (Pending p (Database (tables st))))"
    and "clean (base n) (tables st) (trx_table_of n b) (Pending p (Database (tables st)))"
    and "get_property (apply_changes (base n) p (Database (tables st))) last_random_seed_id = Inr (hash_value x)"
    and "get_undo_state (base n) p (Database (tables st)) = Inr u" and "commit_block n b p u st = Some (r, st')"
  shows "node_ok n H s st'"
proof -
  let ?d = "tables st" and ?e = "base n"
  let ?c = "apply_changes ?e p (Database ?d)"
  from assms(1) obtain ids where led: "ledger ?e H (undo_state_db st) s (Database ?d) (head_block_id st # ids)"
    and known: "\<And>i. i \<in> set (head_block_id st # ids) \<Longrightarrow> i = null_block_id \<or> map_of (block_id_to_block_record_db st) i \<noteq> None"
    and recs: "\<And>i r. map_of (block_id_to_block_record_db st) i = Some r \<Longrightarrow>
        db_header (br_digest_block r) \<in> H \<and> header_id (base n) (db_header (br_digest_block r)) = i
        \<and> map_of (fork_db st) i \<noteq> None"
    and null: "map_of (undo_state_db st) null_block_id = None"
    and trx: "\<And>i r. map_of (transaction_db ?d) i = Some r \<Longrightarrow> plain (rec_trx r)"
    by (rule node_okD) blast
  note eff = commit_block_effect [OF assms(11,4,9)]
  have new: "block_id n b \<noteq> null_block_id" and inj: "inj_on (header_id ?e) H"
    using assms(2,3) by (auto simp: hash_ok_def block_id_def image_iff)
  have "no_market_orders t" if "plain t" for t using that by (simp add: plain_def)
  then have "list_all no_market_orders (user_transactions b)" using assms(5) by (auto simp: list_all_iff)
  from block_state_balanced [OF assms(7) this] have bal:
    "balanced ?e (Pending new_pending_state (Database ?d)) (Pending p (Database ?d))" .
  have db: "is_database (Database ?d)" by (simp add: is_database_def)
  have "ledger ?e H (AList.update (block_id n b) u (undo_state_db st)) s ?c (block_id n b # head_block_id st # ids)"
    unfolding block_id_def
    by (rule ledger_extend [OF led inj assms(3,6) _ assms(8) bal assms(10) trx]) (use new in \<open>simp add: block_id_def\<close>)
  then have led': "ledger ?e H (undo_state_db st') s (Database (tables st')) (head_block_id st' # head_block_id st # ids)"
    unfolding eff(2,3,4)
    by (rule ledger_agree) (simp_all add: database_of_apply [OF db] is_database_def)
  obtain rec where digest: "br_digest_block rec = to_digest_block n b"
    and stored: "block_id_to_block_record_db st' = AList.update (block_id n b) rec (block_id_to_block_record_db st)"
    using eff(5) by blast
  have rec: "db_header (br_digest_block rec) = fb_header b"
    "block_id_to_block_record_db st' = AList.update (block_id n b) rec (block_id_to_block_record_db st)"
    by (simp_all add: digest stored to_digest_block_def)
  obtain p0: "pending_ok ?e p" and ptrx: "\<And>i r. map_of (transactions p) i = Some r \<Longrightarrow> plain (rec_trx r)"
    using assms(8) block_table_plain [OF _ assms(5)] by (elim cleanE) fastforce
  have known': "i = null_block_id \<or> map_of (block_id_to_block_record_db st') i \<noteq> None"
    if "i \<in> set (head_block_id st' # head_block_id st # ids)" for i
    using that known [of i] by (auto simp: eff(2) rec(2) update_conv')
  have recs': "db_header (br_digest_block r) \<in> H \<and> header_id ?e (db_header (br_digest_block r)) = i
      \<and> map_of (fork_db st') i \<noteq> None"
    if at: "map_of (block_id_to_block_record_db st') i = Some r" for i r
  proof -
    have at': "((map_of (block_id_to_block_record_db st))(block_id n b \<mapsto> rec)) i = Some r"
      using at by (simp only: rec(2) update_conv')
    show ?thesis
    proof (cases "i = block_id n b")
      case True
      then have "r = rec" using at' by simp
      moreover have "map_of (fork_db st') i \<noteq> None" using eff(6) [of i] assms(4) unfolding True by metis
      ultimately show ?thesis using rec(1) assms(3) True by (simp add: block_id_def)
    next
      case False
      then have old: "map_of (block_id_to_block_record_db st) i = Some r" using at' by simp
      have "map_of (fork_db st') i \<noteq> None" using eff(6) [of i] recs [OF old] by blast
      then show ?thesis using recs [OF old] by blast
    qed
  qed
  show ?thesis
  proof (rule node_okI [OF led' known' recs'])
    show "map_of (undo_state_db st') null_block_id = None"
      using null new by (auto simp: eff(3) update_conv')
    show "head_block_header (tables st') \<in> H \<and> header_id ?e (head_block_header (tables st')) = head_block_id st'"
      using assms(3) by (simp add: eff(2,4) block_id_def)
    show "plain (rec_trx r)" if "map_of (transaction_db (tables st')) i = Some r" for i r
      using that trx ptrx by (auto simp: eff(4) transactions_after [OF db p0] get_transaction_at_def split: option.splits)
  qed
qed

lemma extend_chain_node:
  assumes "extend_chain n b st = Some (r, st')" and "node_ok n H s st" and "hash_ok (base n) H"
    and "fb_header b \<in> H" and "map_of (fork_db st) (block_id n b) \<noteq> None" and "list_all plain (user_transactions b)"
  shows "node_ok n H s st'" and "r = Inl err \<Longrightarrow> same_ledger st st'"
proof -
  obtain r1 st1 where step: "try_extend_chain n b st = Some (r1, st1)"
    using assms(1) by (cases "try_extend_chain n b st") (auto simp: extend_chain_def)
  have db: "db_ok (base n) (Database (tables st))"
    using assms(2) by (elim node_okD) (rule ledger_state(2))
  have "node_ok n H s st' \<and> (r = Inl err \<longrightarrow> same_ledger st st')"
  proof (cases rule: try_extend_steps [OF step db plain_tidy [OF assms(6)], case_names rejected committed])
    case (rejected err')
    then have "same_ledger st st'"
      using assms(1) step
      by (cases "mark_invalid (block_id n b) st")
        (auto simp: extend_chain_def run_bind_def split: sum.splits dest: mark_invalid_same)
    then show ?thesis using node_ok_same [OF assms(2)] by blast
  next
    case (committed p u x)
    have "r1 = Inr ()" by (rule commit_block_effect(1) [OF committed(7) assms(5) committed(5)])
    then have "r = Inr ()" "st' = st1" using assms(1) step by (auto simp: extend_chain_def)
    then show ?thesis
      using node_ok_commit [OF assms(2-6) committed(1,3-7)] by simp
  qed
  then show "node_ok n H s st'" and "r = Inl err \<Longrightarrow> same_ledger st st'" by simp_all
qed

section \<open>Popping the head\<close>

lemma node_ok_num [simp]: "node_ok n H s (st\<lparr>block_num_to_id_db := t\<rparr>) = node_ok n H s st"
  by (simp add: node_ok_def)

text \<open>The state after the undo state of the head has been applied.\<close>

lemma node_ok_undone:
  assumes "node_ok n H s st" and "hash_ok (base n) H" and "map_of (undo_state_db st) (head_block_id st) = Some u"
  obtains c ids where "head_block_id st \<noteq> null_block_id"
    and "ledger (base n) H (undo_state_db st) s c (bh_previous (head_block_header (tables st)) # ids)"
    and "agree (apply_changes (base n) u (Database (tables st))) c"
    and "\<And>i. i \<in> set (bh_previous (head_block_header (tables st)) # ids) \<Longrightarrow>
      i = null_block_id \<or> map_of (block_id_to_block_record_db st) i \<noteq> None"
    and "pending_ok (base n) u" and "\<And>t r. map_of (transactions u) t = Some r \<Longrightarrow> plain (rec_trx r)"
proof -
  from assms(1) obtain ids where led: "ledger (base n) H (undo_state_db st) s (Database (tables st)) (head_block_id st # ids)"
    and known: "\<And>i. i \<in> set (head_block_id st # ids) \<Longrightarrow> i = null_block_id \<or> map_of (block_id_to_block_record_db st) i \<noteq> None"
    and head: "head_block_id st \<noteq> null_block_id \<Longrightarrow> head_block_header (tables st) \<in> H
        \<and> header_id (base n) (head_block_header (tables st)) = head_block_id st"
    and null: "map_of (undo_state_db st) null_block_id = None"
    by (rule node_okD) blast
  have "head_block_id st \<noteq> null_block_id" using assms(3) null by auto
  moreover from led this obtain c i ids' h where ids: "ids = i # ids'"
    and c: "ledger (base n) H (undo_state_db st) s c (i # ids')" "h \<in> H" "header_id (base n) h = head_block_id st"
      "bh_previous h = i" "pending_ok (base n) u" "agree (apply_changes (base n) u (Database (tables st))) c"
      "\<And>t r. map_of (transactions u) t = Some r \<Longrightarrow> plain (rec_trx r)"
    by (cases rule: ledger.cases) (use assms(3) in auto)
  moreover have "h = head_block_header (tables st)"
    using head c(2,3) assms(2) calculation(1)
      inj_onD [of "header_id (base n)" H h "head_block_header (tables st)"] by (simp add: hash_ok_def)
  ultimately show thesis using that [of c ids'] known by simp
qed

lemma pop_block_node:
  assumes "pop_block n st = Some (r, st')" and "node_ok n H s st" and "hash_ok (base n) H"
  shows "node_ok n H s st'"
proof (cases "0 < bh_block_num (head_block_header (tables st))")
  case False
  then show ?thesis using assms(1,2) by (simp add: pop_block_def)
next
  case True
  then obtain r1 st1 where inc: "mark_included (head_block_id st) False st = Some (r1, st1)"
    using assms(1) by (cases "mark_included (head_block_id st) False st") (auto simp: pop_block_def run_bind_def)
  have ok1: "node_ok n H s st1" by (rule node_ok_same [OF assms(2) mark_included_same(1) [OF inc]])
  let ?h = "head_block_header (tables st1)"
  show ?thesis
  proof (cases "r1 = Inr () \<and> map_of (undo_state_db st1) (head_block_id st1) \<noteq> None")
    case False
    then have "st' = st1 \<or> st' = st1\<lparr>block_num_to_id_db := AList.delete (bh_block_num ?h) (block_num_to_id_db st1)\<rparr>"
      using assms(1) True inc by (cases r1) (auto simp: pop_block_def run_bind_def Let_def split: option.splits)
    then show ?thesis using ok1 by auto
  next
    case found: True
    then obtain u where u: "map_of (undo_state_db st1) (head_block_id st1) = Some u" by auto
    from node_ok_undone [OF ok1 assms(3) u] obtain c ids where
      led: "ledger (base n) H (undo_state_db st1) s c (bh_previous ?h # ids)"
      and c: "agree (apply_changes (base n) u (Database (tables st1))) c"
      and known: "\<And>i. i \<in> set (bh_previous ?h # ids) \<Longrightarrow>
        i = null_block_id \<or> map_of (block_id_to_block_record_db st1) i \<noteq> None"
      and u_ok: "pending_ok (base n) u" "\<And>t r. map_of (transactions u) t = Some r \<Longrightarrow> plain (rec_trx r)"
      by metis
    let ?d = "database_of (tables st1) (apply_changes (base n) u (Database (tables st1)))"
    have db: "is_database (Database (tables st1))" by (simp add: is_database_def)
    have led': "ledger (base n) H (undo_state_db st1) s (Database (?d\<lparr>head_block_header := h\<rparr>)) (bh_previous ?h # ids)" for h
      by (rule ledger_agree [OF led]) (simp_all add: database_of_apply [OF db] c is_database_def)
    have recs: "db_header (br_digest_block r) \<in> H \<and> header_id (base n) (db_header (br_digest_block r)) = i
        \<and> map_of (fork_db st1) i \<noteq> None" if "map_of (block_id_to_block_record_db st1) i = Some r" for i r
      using that ok1 by (elim node_okD) blast
    have trx: "plain (rec_trx r)" if "map_of (transaction_db ?d) t = Some r" for t r
      using that u_ok(2) ok1
      by (auto simp: transactions_after [OF db u_ok(1)] get_transaction_at_def elim!: node_okD split: option.splits)
    have null: "map_of (undo_state_db st1) null_block_id = None" using ok1 by (auto elim: node_okD)
    have run: "(st' = st1\<lparr>block_num_to_id_db := AList.delete (bh_block_num ?h) (block_num_to_id_db st1), tables := ?d,
          head_block_id := bh_previous ?h\<rparr> \<and> map_of (block_id_to_block_record_db st1) (bh_previous ?h) = None)
      \<or> (\<exists>r. map_of (block_id_to_block_record_db st1) (bh_previous ?h) = Some r \<and>
          st' = st1\<lparr>block_num_to_id_db := AList.delete (bh_block_num ?h) (block_num_to_id_db st1),
          tables := ?d\<lparr>head_block_header := db_header (br_digest_block r)\<rparr>, head_block_id := bh_previous ?h\<rparr>)"
      using assms(1) True inc found u
      by (auto simp: pop_block_def run_bind_def Let_def get_block_header_def split: option.splits)
    obtain h where st': "tables st' = ?d\<lparr>head_block_header := h\<rparr>"
        "head_block_id st' = bh_previous ?h" "undo_state_db st' = undo_state_db st1"
        "block_id_to_block_record_db st' = block_id_to_block_record_db st1" "fork_db st' = fork_db st1"
      and h: "bh_previous ?h \<noteq> null_block_id \<Longrightarrow> h \<in> H \<and> header_id (base n) h = bh_previous ?h"
    proof (cases "map_of (block_id_to_block_record_db st1) (bh_previous ?h)")
      case None
      then show thesis using that [of "head_block_header ?d"] run known [of "bh_previous ?h"] by auto
    next
      case (Some r)
      then show thesis using that [of "db_header (br_digest_block r)"] run recs by auto
    qed
    show ?thesis
      by (rule node_okI [of n H st' s ids]; unfold st') (use led' known recs trx null h in simp_all)
  qed
qed

section \<open>Pushing a block\<close>

text \<open>What holds of the state a run leaves, whether it returns a value or an error.\<close>

definition leaves :: "'a run \<Rightarrow> (chain_database_impl \<Rightarrow> bool) \<Rightarrow> bool" where
  "leaves r P \<longleftrightarrow> (\<forall>x st. r = Some (x, st) \<longrightarrow> P st)"

named_theorems leaves_intros \<open>the states that runs leave\<close>

lemma leaves_return [leaves_intros]: "P st \<Longrightarrow> leaves (Some (x, st)) P"
  by (simp add: leaves_def)

lemma leaves_bind:
  assumes "leaves r P" and "\<And>x st. P st \<Longrightarrow> leaves (f x st) P"
  shows "leaves (run_bind r f) P"
  using assms by (auto simp: leaves_def run_bind_def split: option.splits sum.splits)

lemma leavesD: "leaves r P \<Longrightarrow> r = Some (x, st) \<Longrightarrow> P st"
  by (simp add: leaves_def)

lemma store_and_index_node:
  assumes "store_and_index n (block_id n b) b st = Some (r, st')" and "node_ok n H s st" and "fb_header b \<in> H"
  shows "node_ok n H s st'" and "r = Inr f \<Longrightarrow> map_of (fork_db st') (block_id n b) \<noteq> None"
proof -
  let ?i = "block_id n b"
  have "node_ok n H s st' \<and> (r = Inr f \<longrightarrow> map_of (fork_db st') ?i \<noteq> None)"
  proof (cases rule: store_and_index_steps [OF assms(1), case_names failed stored])
    case (failed err)
    then show ?thesis using assms(2) by simp
  next
    case (stored rec prev t)
    note link = stored(2) and ix = stored(3) and same = stored(4-7)
    have rec: "db_header (br_digest_block rec) = fb_header b"
      using stored(1) by (auto simp: make_block_record_def res_bind_eq_Inr to_digest_block_def)
    have keys: "map_of (fork_db st') k \<noteq> None" if "map_of (fork_db st) k \<noteq> None" for k
      using that index_block_keys(2) [OF ix, of k] link_to_previous_keys [OF link, of k] by metis
    have here: "map_of (fork_db st') ?i \<noteq> None" by (rule index_block_keys(1) [OF ix])
    have "node_ok n H s st'"
      using assms(2)
    proof (rule node_okD)
      fix ids
      assume led: "ledger (base n) H (undo_state_db st) s (Database (tables st)) (head_block_id st # ids)"
        and known: "\<And>i. i \<in> set (head_block_id st # ids) \<Longrightarrow> i = null_block_id \<or> map_of (block_id_to_block_record_db st) i \<noteq> None"
        and recs: "\<And>i r. map_of (block_id_to_block_record_db st) i = Some r \<Longrightarrow>
          db_header (br_digest_block r) \<in> H \<and> header_id (base n) (db_header (br_digest_block r)) = i
          \<and> map_of (fork_db st) i \<noteq> None"
        and rest: "head_block_id st \<noteq> null_block_id \<Longrightarrow> head_block_header (tables st) \<in> H
          \<and> header_id (base n) (head_block_header (tables st)) = head_block_id st"
          "map_of (undo_state_db st) null_block_id = None"
          "\<And>i r. map_of (transaction_db (tables st)) i = Some r \<Longrightarrow> plain (rec_trx r)"
      show "node_ok n H s st'"
      proof (rule node_okI [of n H st' s ids])
        show "ledger (base n) H (undo_state_db st') s (Database (tables st')) (head_block_id st' # ids)"
          using led by (simp add: same)
        show "i = null_block_id \<or> map_of (block_id_to_block_record_db st') i \<noteq> None"
          if "i \<in> set (head_block_id st' # ids)" for i
          using that known [of i] by (auto simp: same update_conv')
        show "db_header (br_digest_block r) \<in> H \<and> header_id (base n) (db_header (br_digest_block r)) = i
            \<and> map_of (fork_db st') i \<noteq> None" if at: "map_of (block_id_to_block_record_db st') i = Some r" for i r
        proof (cases "i = ?i")
          case True
          then have "r = rec" using at by (simp add: same update_conv')
          then show ?thesis using rec assms(3) here True by (simp add: block_id_def)
        next
          case False
          then have "map_of (block_id_to_block_record_db st) i = Some r" using at by (simp add: same update_conv')
          then show ?thesis using recs keys by blast
        qed
      qed (use rest in \<open>simp_all add: same\<close>)
    qed
    then show ?thesis using here by simp
  qed
  then show "node_ok n H s st'" and "r = Inr f \<Longrightarrow> map_of (fork_db st') ?i \<noteq> None" by simp_all
qed

lemma fetch_transactions_plain:
  assumes "fetch_transactions d ids = Inr ts" and "\<And>i r. map_of (transaction_db d) i = Some r \<Longrightarrow> plain (rec_trx r)"
  shows "list_all plain ts"
  using assms by (induction ids arbitrary: ts) (auto simp: res_bind_eq_Inr split: option.splits)

lemma get_block_node:
  assumes "get_block i st = Inr b" and "node_ok n H s st"
  shows "fb_header b \<in> H" and "map_of (fork_db st) (block_id n b) \<noteq> None" and "list_all plain (user_transactions b)"
proof -
  from assms(1) obtain r where r: "map_of (block_id_to_block_record_db st) i = Some r"
    "fb_header b = db_header (br_digest_block r)"
    "fetch_transactions (tables st) (user_transaction_ids (br_digest_block r)) = Inr (user_transactions b)"
    by (auto simp: get_block_def res_bind_eq_Inr split: option.splits)
  show "fb_header b \<in> H" and "map_of (fork_db st) (block_id n b) \<noteq> None"
    using assms(2) r(1) unfolding block_id_def r(2) by (blast elim: node_okD)+
  show "list_all plain (user_transactions b)"
    using assms(2) by (elim node_okD) (rule fetch_transactions_plain [OF r(3)])
qed

lemma pop_until_leaves:
  assumes "node_ok n H s st" and "hash_ok (base n) H"
  shows "leaves (pop_until n i st) (node_ok n H s)"
proof -
  have "n = n' \<longrightarrow> node_ok n H s st \<longrightarrow> node_ok n H s (snd y)" if "pop_until n' i st = Some y" for n' i st y
  proof (rule pop_until.raw_induct [where P = "\<lambda>n' i st y. n = n' \<longrightarrow> node_ok n H s st \<longrightarrow> node_ok n H s (snd y)", OF _ that])
    fix loop n' i st y
    assume IH: "\<And>n' i st y. loop n' i st = Some y \<Longrightarrow> n = n' \<longrightarrow> node_ok n H s st \<longrightarrow> node_ok n H s (snd y)"
      and body: "(if head_block_id st = i then Some (Inr (), st) else case pop_block n' st of None \<Rightarrow> None
        | Some (Inl err, st) \<Rightarrow> Some (Inl err, st) | Some (Inr _, st) \<Rightarrow> loop n' i st) = Some y"
    show "n = n' \<longrightarrow> node_ok n H s st \<longrightarrow> node_ok n H s (snd y)"
      using body IH pop_block_node [OF _ _ assms(2)]
      by (cases y) (auto split: if_splits option.splits sum.splits)
  qed
  then show ?thesis using assms(1) by (fastforce simp: leaves_def)
qed

lemma extend_all_leaves:
  assumes "node_ok n H s st" and "hash_ok (base n) H"
  shows "leaves (extend_all n ids st) (node_ok n H s)"
  using assms(1)
proof (induction ids arbitrary: st)
  case (Cons i ids)
  show ?case
  proof (cases "get_block i st")
    case (Inr b)
    have "leaves (extend_chain n b st) (node_ok n H s)"
      using extend_chain_node(1) [OF _ Cons.prems assms(2) get_block_node [OF Inr Cons.prems]] by (auto simp: leaves_def)
    then show ?thesis using Cons.IH by (auto simp: Inr intro: leaves_bind)
  qed (use Cons.prems in \<open>simp add: leaves_return\<close>)
qed (simp add: leaves_return)

lemma switch_to_fork_leaves:
  assumes "node_ok n H s st" and "hash_ok (base n) H"
  shows "leaves (switch_to_fork n i st) (node_ok n H s)"
proof -
  have "leaves (run_bind (pop_until n (last h) st) (\<lambda>_ st. extend_all n (rev (butlast h)) st)) (node_ok n H s)" for h
    by (rule leaves_bind [OF pop_until_leaves [OF assms] extend_all_leaves [OF _ assms(2)]])
  then show ?thesis
    using assms(1) by (cases "get_fork_history i st")
      (auto simp: switch_to_fork_def leaves_def split: sum.splits if_splits)
qed

lemma push_block_leaves:
  assumes "node_ok n H s st" and "hash_ok (base n) H" and "fb_header b \<in> H" and "list_all plain (user_transactions b)"
  shows "leaves (push_block n b st) (node_ok n H s)"
proof -
  let ?i = "block_id n b" and ?P = "node_ok n H s"
  have new: "leaves (get_new_fork_data ?i st) ?P" if "?P st" for st
    using that by (simp add: get_new_fork_data_def leaves_def)
  have switch: "leaves (run_bind (switch_to_fork n ?i st) (\<lambda>_ st. get_new_fork_data ?i st)) ?P" if "?P st" for st
    by (rule leaves_bind [OF switch_to_fork_leaves [OF that assms(2)] new])
  have revert: "leaves (case run_bind (switch_to_fork n ?i st) (\<lambda>_ st. get_new_fork_data ?i st) of
      Some (Inl _, st) \<Rightarrow> run_bind (switch_to_fork n k st) (\<lambda>_ st. Some (Inr f, st)) | r \<Rightarrow> r) ?P"
    if "?P st" for st k and f :: block_fork_data
  proof -
    have undone: "leaves (run_bind (switch_to_fork n k st) (\<lambda>_ st. Some (Inr f, st))) ?P" if "?P st" for st
      by (rule leaves_bind [OF switch_to_fork_leaves [OF that assms(2)] leaves_return])
    show ?thesis
      using switch [OF that] undone
      by (cases "run_bind (switch_to_fork n ?i st) (\<lambda>_ st. get_new_fork_data ?i st)") (auto simp: leaves_def split: sum.splits)
  qed
  have "leaves (run_bind (store_and_index n ?i b st) f) ?P"
    if "\<And>fork st. ?P st \<Longrightarrow> map_of (fork_db st) ?i \<noteq> None \<Longrightarrow> leaves (f fork st) ?P" for f :: "block_fork_data \<Rightarrow> _ \<Rightarrow> block_fork_data run"
    using that store_and_index_node [OF _ assms(1,3)]
    by (auto simp: leaves_def run_bind_def split: option.splits sum.splits)
  moreover have "leaves (run_bind (extend_chain n b st) (\<lambda>_ st. get_new_fork_data ?i st)) ?P"
    if "?P st" "map_of (fork_db st) ?i \<noteq> None" for st
    by (rule leaves_bind [OF _ new]) (use extend_chain_node(1) [OF _ that(1) assms(2,3) that(2) assms(4)] in \<open>auto simp: leaves_def\<close>)
  ultimately show ?thesis
    unfolding push_block_def Let_def using revert by (auto simp: leaves_return)
qed

end
