(* ===== verification/Bts_Blockchain.thy ===== *)
theory Bts_Blockchain
  imports Bts_Node
begin

text \<open>
  The properties of a node: what pushing blocks keeps, what a rejected block changes, what popping a
  block restores and what it does not.
\<close>

section \<open>Pushes\<close>

text \<open>Blocks pushed one after the other, whatever comes of each.\<close>

fun push_all :: "node \<Rightarrow> full_block list \<Rightarrow> chain_database_impl \<Rightarrow> chain_database_impl option" where
  "push_all n [] st = Some st"
| "push_all n (b # bs) st = (case push_block n b st of None \<Rightarrow> None | Some (_, st) \<Rightarrow> push_all n bs st)"

lemma sample_pushes: "case push_all sample_node [sample_block_1, sample_block_2, sample_fork_2, sample_fork_3] sample_genesis of
    None \<Rightarrow> False
  | Some st \<Rightarrow> head_block_id st = block_id sample_node sample_fork_3
      \<and> map_of (balance_db (tables st)) [0, 1, 7] = Some sample_balance"
  by code_simp

section \<open>What pushed blocks keep\<close>

definition at_genesis :: "node \<Rightarrow> chain_database_impl \<Rightarrow> bool" where
  "at_genesis n st \<longleftrightarrow> db_ok (base n) (Database (tables st)) \<and> chain_wf (base n) (Database (tables st))
    \<and> transaction_db (tables st) = [] \<and> head_block_id st = null_block_id
    \<and> undo_state_db st = [] \<and> block_id_to_block_record_db st = []"

lemma genesis_ok: "at_genesis n st \<Longrightarrow> node_ok n H (surplus (Database (tables st))) st"
  by (rule node_okI [where ids = "[]"])
    (auto simp: at_genesis_def db_ok_def is_database_def null_block_id_def intro!: ledger_start [unfolded null_block_id_def])

lemma push_all_node:
  assumes "push_all n bs st = Some st'" and "node_ok n H s st" and "hash_ok (base n) H"
    and "fb_header ` set bs \<subseteq> H" and "\<And>b. b \<in> set bs \<Longrightarrow> list_all plain (user_transactions b)"
  shows "node_ok n H s st'"
  using assms
proof (induction n bs st rule: push_all.induct)
  case (2 n b bs st)
  then obtain r st1 where push: "push_block n b st = Some (r, st1)" and rest: "push_all n bs st1 = Some st'"
    by (auto split: option.splits)
  have "node_ok n H s st1"
    by (rule leavesD [OF push_block_leaves push]) (use 2 in auto)
  then show ?case using 2(1) [OF push refl rest] 2(4-6) by simp
qed simp

text \<open>
  C2. A node conserves shares as long as nobody trades. From a genesis state on, whatever plain blocks are
  pushed in whatever order - valid ones, invalid ones, blocks of other forks, blocks that make the node
  pop its chain and switch - and whether the pushes return or throw, what the balances and the delegates
  hold of an asset less its share supply stays what it was. A block is plain when its transactions carry
  no bids or asks (which move shares into orders) and store no null record: none registers an account with
  the null key as its owner or gives an asset to the account -1. No two of the blocks with different
  headers have the same identifier.
\<close>

theorem pushed_blocks_conserve_shares:
  assumes "at_genesis n st" and "hash_ok (base n) (fb_header ` set bs)"
    and "\<And>b. b \<in> set bs \<Longrightarrow> list_all plain (user_transactions b)"
    and "push_all n bs st = Some st'"
  shows "holdings (Database (tables st')) a - share_supply (Database (tables st')) a
    = holdings (Database (tables st)) a - share_supply (Database (tables st)) a"
proof -
  have "node_ok n (fb_header ` set bs) (surplus (Database (tables st))) st'"
    by (rule push_all_node [OF assms(4) genesis_ok [OF assms(1)] assms(2) subset_refl assms(3)])
  from fun_cong [OF node_ok_surplus [OF this], of a] show ?thesis by (simp add: surplus_def)
qed

definition sample_blocks :: "full_block list" where
  "sample_blocks = [sample_block_1, sample_block_2, sample_fork_2, sample_fork_3]"

lemma sample_node_env:
  "db_ok (base sample_node) c = db_ok sample_env c" "chain_wf (base sample_node) c = chain_wf sample_env c"
proof -
  have "balance_id (base sample_node) = balance_id sample_env"
    by (simp add: fun_eq_iff balance_id_def condition_address_def sample_node_def)
  then show "db_ok (base sample_node) c = db_ok sample_env c" "chain_wf (base sample_node) c = chain_wf sample_env c"
    by (simp_all add: db_ok_def chain_wf_def)
qed

lemma sample_at_genesis: "at_genesis sample_node sample_genesis"
proof -
  let ?c = "Database (tables sample_genesis)"
  have same: "get_asset_record ?c = get_asset_record (Database sample_db)"
    "get_account_record ?c = get_account_record (Database sample_db)"
    "get_balance_record ?c = get_balance_record (Database sample_db)"
    "get_proposal_record ?c = get_proposal_record (Database sample_db)"
    "get_proposal_vote ?c = get_proposal_vote (Database sample_db)"
    "get_bid_record ?c = get_bid_record (Database sample_db)" "get_ask_record ?c = get_ask_record (Database sample_db)"
    by (rule ext, simp add: sample_genesis_def sample_round_db_def)+
  have "get_property ?c i \<noteq> Inr null_value" for i
    by (auto simp: sample_genesis_def sample_round_db_def sample_db_def split: option.split)
  then have "db_ok sample_env ?c"
    using sample_db_ok by (simp add: db_ok_def same is_database_def)
  moreover have "agree ?c (Pending new_pending_state (Database sample_round_db))"
    using agree_sym [OF agree_new [of "Database sample_round_db"]] by (simp add: sample_genesis_def)
  then have "chain_wf sample_env ?c"
    using agree_chain_wf sample_round_good(2) by (simp add: sample_round_def)
  ultimately show ?thesis
    by (simp add: at_genesis_def sample_node_env) (simp add: sample_genesis_def sample_round_db_def sample_db_def)
qed

lemma sample_hash_ok: "hash_ok (base sample_node) (fb_header ` set sample_blocks)"
proof -
  have "distinct (null_block_id # map (header_id (base sample_node)) (map fb_header sample_blocks))"
    by code_simp
  then show ?thesis by (auto simp: hash_ok_def distinct_map intro: inj_on_imageI)
qed

lemma sample_blocks_plain: "b \<in> set sample_blocks \<Longrightarrow> list_all plain (user_transactions b)"
  by (auto simp: sample_blocks_def sample_block_1_def sample_block_2_def sample_fork_2_def sample_fork_3_def
      sample_block_def plain_def tidy_def no_market_orders_def sample_payment_def sample_trx_def)

theorem pushed_blocks_conserve_shares_witness:
  "\<exists>st. push_all sample_node sample_blocks sample_genesis = Some st
    \<and> head_block_id st = block_id sample_node sample_fork_3
    \<and> holdings (Database (tables st)) 0 - share_supply (Database (tables st)) 0
      = holdings (Database (tables sample_genesis)) 0 - share_supply (Database (tables sample_genesis)) 0"
  using sample_pushes pushed_blocks_conserve_shares [OF sample_at_genesis sample_hash_ok sample_blocks_plain]
  by (auto simp: sample_blocks_def split: option.splits)

section \<open>Rejected blocks\<close>

text \<open>The tree of a block that does not extend the genesis, with a block after it and one apart.\<close>

definition sample_rejected_tree :: fork_table where
  "sample_rejected_tree = [(block_id sample_node sample_block_2, new_fork_data\<lparr>next_blocks := [[8]]\<rparr>),
     ([8], new_fork_data), ([9], new_fork_data)]"

text \<open>
  C13. A rejected block changes nothing but its mark. When \<open>extend_chain\<close> throws, whatever step of it
  has thrown, the state of the chain, its head, the undo states, the stored blocks and the waiting
  transactions are those from before; in the block tree the block and its descendants have become
  invalid, and nothing else has changed. The transactions of the block store no null record, that is, none
  of them registers an account with the null key as its owner or gives an asset to the account -1; the
  block is in a tree that is closed and has no cycles, as \<open>store_and_index\<close> leaves it.
\<close>

theorem rejected_block_harmless:
  assumes "db_ok (base n) (Database (tables st))" and "list_all tidy (user_transactions b)"
    and "closed (fork_db st)" and "acyclicP (child (fork_db st))" and "map_of (fork_db st) (block_id n b) \<noteq> None"
    and "extend_chain n b st = Some (Inl err, st')"
  shows "\<exists>t. st' = st\<lparr>fork_db := t\<rparr> \<and> (\<forall>j. map_of t j =
      (if (child (fork_db st))\<^sup>*\<^sup>* (block_id n b) j
       then map_option (\<lambda>f. f\<lparr>is_valid := Some False\<rparr>) (map_of (fork_db st) j)
       else map_of (fork_db st) j))"
proof -
  obtain r1 st1 where step: "try_extend_chain n b st = Some (r1, st1)"
    using assms(6) by (cases "try_extend_chain n b st") (auto simp: extend_chain_def)
  show ?thesis
  proof (cases rule: try_extend_steps [OF step assms(1,2), case_names rejected committed])
    case (rejected err')
    have run: "extend_chain n b st = run_bind (mark_invalid (block_id n b) st) (\<lambda>_ st. Some (Inl err', st))"
      using step by (simp add: extend_chain_def rejected)
    show ?thesis
      using mark_descendants [OF assms(3-5)] assms(6) unfolding run by (auto simp: run_bind_def marked_def)
  next
    case (committed p u x)
    have "r1 = Inr ()" by (rule commit_block_effect(1) [OF committed(7) assms(5) committed(5)])
    then show ?thesis using assms(6) step by (simp add: extend_chain_def)
  qed
qed

theorem rejected_block_harmless_witness:
  "\<exists>err t. extend_chain sample_node sample_block_2 (sample_genesis\<lparr>fork_db := sample_rejected_tree\<rparr>)
      = Some (Inl err, sample_genesis\<lparr>fork_db := t\<rparr>)
    \<and> map_of t [9] = Some new_fork_data \<and> map_option is_valid (map_of t [8]) = Some (Some False)"
proof -
  let ?i = "block_id sample_node sample_block_2" and ?t = sample_rejected_tree
  let ?st = "sample_genesis\<lparr>fork_db := ?t\<rparr>"
  have ids: "?i \<noteq> [8]" "?i \<noteq> [9]" by code_simp+
  have kids: "child ?t i j \<longleftrightarrow> i = ?i \<and> j = [8]" for i j
    using ids by (auto simp: child_def sample_rejected_tree_def new_fork_data_def split: if_splits)
  have tree: "closed ?t" "acyclicP (child ?t)" "map_of ?t ?i \<noteq> None"
  proof -
    show "closed ?t" by (auto simp: closed_def kids) (auto simp: sample_rejected_tree_def)
    show "acyclicP (child ?t)"
      by (rule rank_acyclic [where rank = "\<lambda>i. if i = ?i then 1 else 0"]) (use ids in \<open>auto simp: kids\<close>)
  qed (simp add: sample_rejected_tree_def)
  have reach: "descendant ?t ?i [8]" by (rule r_into_rtranclp) (simp add: kids)
  have "j = ?i \<or> j = [8]" if "descendant ?t ?i j" for j
    using that by (induction) (auto simp: kids)
  then have apart: "\<not> descendant ?t ?i [9]" using ids by fastforce
  have "case extend_chain sample_node sample_block_2 ?st of Some (Inl _, _) \<Rightarrow> True | _ \<Rightarrow> False" by code_simp
  then obtain err st' where run: "extend_chain sample_node sample_block_2 ?st = Some (Inl err, st')"
    by (auto split: option.splits sum.splits prod.splits)
  have "db_ok (base sample_node) (Database (tables ?st))" using sample_at_genesis by (simp add: at_genesis_def)
  from rejected_block_harmless [OF this _ _ _ _ run] tree obtain t where "st' = ?st\<lparr>fork_db := t\<rparr>"
    "\<forall>j. map_of t j = (if descendant ?t ?i j then map_option (\<lambda>f. f\<lparr>is_valid := Some False\<rparr>) (map_of ?t j) else map_of ?t j)"
    using plain_tidy [OF sample_blocks_plain [of sample_block_2]] by (auto simp: sample_blocks_def)
  then show ?thesis using run reach apart ids by (auto simp: sample_rejected_tree_def)
qed

section \<open>Popped blocks\<close>

lemma pop_block_run:
  assumes "bh_block_num (head_block_header (tables st)) \<noteq> 0" and "map_of (fork_db st) (head_block_id st) \<noteq> None"
    and "map_of (undo_state_db st) (head_block_id st) = Some u"
    and "map_of (block_id_to_block_record_db st) (bh_previous (head_block_header (tables st))) = Some r"
  shows "\<exists>st2. pop_block n st = Some (Inr (), st2)
    \<and> tables st2 = (database_of (tables st) (apply_changes (base n) u (Database (tables st))))
        \<lparr>head_block_header := db_header (br_digest_block r)\<rparr>
    \<and> head_block_id st2 = bh_previous (head_block_header (tables st))
    \<and> block_num_to_id_db st2 = AList.delete (bh_block_num (head_block_header (tables st))) (block_num_to_id_db st)
    \<and> block_id_to_block_record_db st2 = block_id_to_block_record_db st"
proof -
  obtain f where "map_of (fork_db st) (head_block_id st) = Some f" using assms(2) by blast
  moreover have "0 < bh_block_num (head_block_header (tables st))" using assms(1) by (simp add: word_neq_0_conv)
  ultimately show ?thesis
    using assms(3,4) by (simp add: pop_block_def mark_included_def run_bind_def Let_def get_block_header_def)
qed

lemma fetch_empty:
  assumes "\<And>t. t \<in> set ts \<Longrightarrow> map_of (transaction_db d) (trx_id e t) = Some new_transaction_record"
  shows "fetch_transactions d (map (trx_id e) ts) = Inr (replicate (length ts) null_trx)"
  using assms by (induction ts) (auto simp: res_bind_def new_transaction_record_def)

text \<open>The head block is stored, with the header the node keeps for it.\<close>

definition head_stored :: "chain_database_impl \<Rightarrow> bool" where
  "head_stored st \<longleftrightarrow> map_option (\<lambda>r. db_header (br_digest_block r))
     (map_of (block_id_to_block_record_db st) (head_block_id st)) = Some (head_block_header (tables st))"

lemma pop_after_extend:
  assumes "db_ok (base n) (Database (tables st))" and "head_stored st" and "block_id n b \<noteq> head_block_id st"
    and "map_of (fork_db st) (block_id n b) \<noteq> None" and "list_all tidy (user_transactions b)"
    and "bh_block_num (fb_header b) \<noteq> 0" and "extend_chain n b st = Some (Inr (), st1)"
  shows "\<exists>st2. pop_block n st1 = Some (Inr (), st2) \<and> head_block_id st2 = head_block_id st
    \<and> head_block_header (tables st2) = head_block_header (tables st)
    \<and> agree (Database (tables st2)) (Database (tables st))
    \<and> block_num_to_id_db st2 = AList.delete (bh_block_num (fb_header b))
        (AList.update (bh_block_num (fb_header b)) (block_id n b) (block_num_to_id_db st))
    \<and> (\<forall>i. map_of (transaction_db (tables st2)) i =
        (if i \<in> trx_id (base n) ` set (user_transactions b) then Some new_transaction_record
         else map_of (transaction_db (tables st)) i))
    \<and> get_block (block_id n b) st2 = Inr \<lparr>fb_header = fb_header b,
        user_transactions = replicate (length (user_transactions b)) null_trx\<rparr>"
proof -
  let ?e = "base n" and ?i = "block_id n b" and ?d = "tables st"
  have db: "is_database (Database ?d)" "db_ok ?e (Database ?d)" using assms(1) by (simp_all add: is_database_def)
  obtain r1 where step: "try_extend_chain n b st = Some (r1, st1)"
    using assms(7) by (cases "try_extend_chain n b st")
      (auto simp: extend_chain_def run_bind_def split: sum.splits option.splits prod.splits)
  obtain p u x where prev: "bh_previous (fb_header b) = head_block_id st"
    and state: "block_state ?e (db_chain_id st) ?d b = Some (Inr (Pending p (Database ?d)))"
    and c: "clean ?e ?d (trx_table_of n b) (Pending p (Database ?d))"
    and seed: "get_property (apply_changes ?e p (Database ?d)) last_random_seed_id = Inr (hash_value x)"
    and u: "get_undo_state ?e p (Database ?d) = Inr u" and commit: "commit_block n b p u st = Some (r1, st1)"
    by (cases rule: try_extend_steps [OF step db(2) assms(5)])
      (use assms(7) step in \<open>auto simp: extend_chain_def run_bind_def split: option.splits sum.splits\<close>)
  note eff = commit_block_effect [OF commit assms(4) seed]
  obtain ok: "pending_ok ?e p" and trx: "transactions p = trx_table_of n b"
    and empty: "shorts p = []" "collateral p = []" using c by (auto elim: cleanE)
  have und: "is_undo_of ?e (Database ?d) p u" by (rule get_undo_state_is_undo [OF db(2) ok empty u])
  have u_ok: "pending_ok ?e u" by (rule is_undo_of_ok [OF db(2) ok und])
  let ?d1 = "tables st1" and ?c = "apply_changes ?e p (Database ?d)"
  let ?u = "apply_changes ?e u (Database ?d1)"
  obtain r where r: "map_of (block_id_to_block_record_db st) (head_block_id st) = Some r"
    "db_header (br_digest_block r) = head_block_header ?d"
    using assms(2) by (auto simp: head_stored_def)
  obtain rec where rec: "br_digest_block rec = to_digest_block n b"
    "block_id_to_block_record_db st1 = AList.update ?i rec (block_id_to_block_record_db st)" using eff(5) by blast
  then have prev1: "map_of (block_id_to_block_record_db st1) (bh_previous (fb_header b)) = Some r"
    using r(1) assms(3) by (auto simp: prev update_conv')
  have head1: "head_block_header ?d1 = fb_header b" by (simp add: eff(4))
  have here: "map_of (fork_db st1) ?i \<noteq> None" using eff(6) [of ?i] assms(4) by metis
  obtain st2 where pop: "pop_block n st1 = Some (Inr (), st2)"
    and tab: "tables st2 = (database_of ?d1 ?u)\<lparr>head_block_header := db_header (br_digest_block r)\<rparr>"
    and st2: "head_block_id st2 = head_block_id st" "block_id_to_block_record_db st2 = block_id_to_block_record_db st1"
      "block_num_to_id_db st2 = AList.delete (bh_block_num (fb_header b)) (block_num_to_id_db st1)"
    using pop_block_run [of st1 u r n] assms(6) here eff(2,3) prev1 prev unfolding head1 by (auto simp: update_conv')
  have db1: "is_database (Database ?d1)" "is_database ?c"
    using is_database_apply_changes [OF db(1), of ?e p] by (simp_all add: is_database_def)
  have a1: "agree (Database ?d1) ?c" by (simp add: eff(4) database_of_apply [OF db(1)])
  have "agree (apply_changes ?e u ?c) (Database ?d)"
    using undo_restores [OF db(2) ok und] by (simp add: agree_def)
  with agree_apply [OF a1 db1 u_ok] have "agree ?u (Database ?d)" by (rule agree_trans)
  then have "agree (Database (tables st2)) (Database ?d)"
    by (simp add: tab database_of_apply [OF db1(1)])
  moreover have after: "map_of (transaction_db (tables st2)) i =
      (if i \<in> trx_id ?e ` set (user_transactions b) then Some new_transaction_record else map_of (transaction_db ?d) i)" for i
  proof -
    have in_p: "map_of (transactions p) i = None \<longleftrightarrow> i \<notin> trx_id ?e ` set (user_transactions b)"
      using block_table_new [of ?e _ _ "user_transactions b" "[]" i] by (simp add: trx)
    have fresh: "map_of (transaction_db ?d) i = None" if "i \<in> trx_id ?e ` set (user_transactions b)"
      using that by (auto dest: block_state_clean(2) [OF state db(2) assms(5)])
    have "map_of (transactions u) i = (if i \<in> trx_id ?e ` set (user_transactions b) then Some new_transaction_record else None)"
      using und in_p fresh by (auto simp: is_undo_of_def map_of_replace)
    moreover have "map_of (transaction_db ?d1) i = map_of (transaction_db ?d) i" if "i \<notin> trx_id ?e ` set (user_transactions b)"
      using that in_p by (simp add: eff(4) transactions_after [OF db(1) ok] get_transaction_at_def)
    ultimately show ?thesis
      by (simp add: tab transactions_after [OF db1(1) u_ok] get_transaction_at_def)
  qed
  moreover have "get_block ?i st2 = Inr \<lparr>fb_header = fb_header b,
      user_transactions = replicate (length (user_transactions b)) null_trx\<rparr>"
  proof -
    have "map_of (transaction_db (tables st2)) (trx_id ?e t) = Some new_transaction_record"
      if "t \<in> set (user_transactions b)" for t using that by (simp add: after)
    from fetch_empty [OF this] show ?thesis by (simp add: get_block_def st2(2) rec update_conv' to_digest_block_def)
  qed
  ultimately show ?thesis using pop st2(1,3) eff(7) r(2) by (simp add: tab)
qed

text \<open>
  C14. Popping the block that was just pushed. After \<open>extend_chain\<close> has accepted a block that is not the
  first one, \<open>pop_block\<close> returns and puts back the head block and its header; every asset, account,
  balance, proposal, vote and order and every property is found under its identifier as before; the
  number of the block leads nowhere; and of the transactions those of the block are found as empty
  records, all others as before. (Nothing is claimed of the lookups by name, key, symbol and votes.)
  The transactions of the block store no null record: none registers an account with the null key as
  its owner or gives an asset to the account -1.
\<close>

theorem extend_then_pop:
  assumes "db_ok (base n) (Database (tables st))" and "head_stored st" and "block_id n b \<noteq> head_block_id st"
    and "map_of (fork_db st) (block_id n b) \<noteq> None" and "list_all tidy (user_transactions b)"
    and "bh_block_num (fb_header b) \<noteq> 0" and "extend_chain n b st = Some (Inr (), st1)"
  shows "\<exists>st2. pop_block n st1 = Some (Inr (), st2) \<and> head_block_id st2 = head_block_id st
    \<and> head_block_header (tables st2) = head_block_header (tables st)
    \<and> agree (Database (tables st2)) (Database (tables st))
    \<and> map_of (block_num_to_id_db st2) = (map_of (block_num_to_id_db st))(bh_block_num (fb_header b) := None)
    \<and> (\<forall>i. map_of (transaction_db (tables st2)) i =
        (if i \<in> trx_id (base n) ` set (user_transactions b) then Some new_transaction_record
         else map_of (transaction_db (tables st)) i))"
  using pop_after_extend [OF assms]
  by (auto simp: update_conv' delete_conv' fun_eq_iff)

text \<open>
  C18. A popped block is lost. After a block that is not the first one has been accepted and popped,
  \<open>get_block\<close> still finds it under its identifier, but as a block of as many empty transactions: the undo
  state has replaced every transaction of the block by the empty one. This is the block \<open>switch_to_fork\<close>
  extends the chain with when it goes back to a fork it has left. The transactions of the block store no
  null record, as in the property before.
\<close>

theorem popped_block_lost:
  assumes "db_ok (base n) (Database (tables st))" and "head_stored st" and "block_id n b \<noteq> head_block_id st"
    and "map_of (fork_db st) (block_id n b) \<noteq> None" and "list_all tidy (user_transactions b)"
    and "bh_block_num (fb_header b) \<noteq> 0"
    and "extend_chain n b st = Some (Inr (), st1)" and "pop_block n st1 = Some (Inr (), st2)"
  shows "get_block (block_id n b) st2 = Inr \<lparr>fb_header = fb_header b,
    user_transactions = replicate (length (user_transactions b)) null_trx\<rparr>"
  using pop_after_extend [OF assms(1-7)] assms(8) by auto

text \<open>The node after the first block, when the second has been stored and not yet extended.\<close>

definition sample_stored :: chain_database_impl where
  "sample_stored = (case push_all sample_node [sample_block_1] sample_genesis of
       Some st \<Rightarrow> (case store_and_index sample_node (block_id sample_node sample_block_2) sample_block_2 st of
           Some (_, st) \<Rightarrow> st | None \<Rightarrow> st)
     | None \<Rightarrow> sample_genesis)"

lemma sample_stored_db: "db_ok (base sample_node) (Database (tables sample_stored))"
proof -
  let ?P = "node_ok sample_node (fb_header ` set sample_blocks) (surplus (Database (tables sample_genesis)))"
  have start: "?P sample_genesis" by (rule genesis_ok [OF sample_at_genesis])
  have one: "?P st" if "push_all sample_node [sample_block_1] sample_genesis = Some st" for st
    by (rule push_all_node [OF that start sample_hash_ok]) (use sample_blocks_plain in \<open>auto simp: sample_blocks_def\<close>)
  have two: "?P st'" if "?P st"
    "store_and_index sample_node (block_id sample_node sample_block_2) sample_block_2 st = Some (r, st')" for st r st'
    by (rule store_and_index_node(1) [OF that(2,1)]) (simp add: sample_blocks_def)
  have "?P sample_stored"
    using start one two by (auto simp: sample_stored_def split: option.split prod.split)
  then show ?thesis by (elim node_okD) (rule ledger_state(2))
qed

definition ready_to_extend :: "node \<Rightarrow> full_block \<Rightarrow> chain_database_impl \<Rightarrow> bool" where
  "ready_to_extend n b st \<longleftrightarrow> map_of (fork_db st) (block_id n b) \<noteq> None \<and> head_stored st
     \<and> block_id n b \<noteq> head_block_id st \<and> bh_block_num (fb_header b) \<noteq> 0
     \<and> run_value (extend_chain n b st) \<noteq> None"

lemma sample_ready: "ready_to_extend sample_node sample_block_2 sample_stored"
  by code_simp

lemma sample_extend:
  "\<exists>st1. extend_chain sample_node sample_block_2 sample_stored = Some (Inr (), st1)"
  using sample_ready by (auto simp: ready_to_extend_def)

lemma sample_stored_facts:
  "db_ok (base sample_node) (Database (tables sample_stored))" "head_stored sample_stored"
  "block_id sample_node sample_block_2 \<noteq> head_block_id sample_stored"
  "map_of (fork_db sample_stored) (block_id sample_node sample_block_2) \<noteq> None"
  "list_all tidy (user_transactions sample_block_2)" "bh_block_num (fb_header sample_block_2) \<noteq> 0"
  using sample_ready plain_tidy [OF sample_blocks_plain [of sample_block_2]] sample_stored_db
  by (simp_all add: ready_to_extend_def sample_blocks_def)

theorem extend_then_pop_witness:
  "\<exists>st1 st2. extend_chain sample_node sample_block_2 sample_stored = Some (Inr (), st1)
    \<and> pop_block sample_node st1 = Some (Inr (), st2) \<and> head_block_id st2 = head_block_id sample_stored
    \<and> agree (Database (tables st2)) (Database (tables sample_stored))
    \<and> map_of (transaction_db (tables st2)) (trx_id (base sample_node) sample_payment) = Some new_transaction_record"
proof -
  obtain st1 where run: "extend_chain sample_node sample_block_2 sample_stored = Some (Inr (), st1)"
    using sample_extend by blast
  have "trx_id (base sample_node) sample_payment \<in> trx_id (base sample_node) ` set (user_transactions sample_block_2)"
    by (simp add: sample_block_2_def sample_block_def)
  then show ?thesis using run extend_then_pop [OF sample_stored_facts run] by metis
qed

theorem popped_block_lost_witness:
  "\<exists>st1 st2. extend_chain sample_node sample_block_2 sample_stored = Some (Inr (), st1)
    \<and> pop_block sample_node st1 = Some (Inr (), st2)
    \<and> get_block (block_id sample_node sample_block_2) st2 \<noteq> Inr sample_block_2"
proof -
  obtain st1 st2 where run: "extend_chain sample_node sample_block_2 sample_stored = Some (Inr (), st1)"
    "pop_block sample_node st1 = Some (Inr (), st2)"
    using sample_extend pop_after_extend [OF sample_stored_facts] by blast
  have "replicate (length (user_transactions sample_block_2)) null_trx \<noteq> user_transactions sample_block_2"
    by (simp add: sample_block_2_def sample_block_def sample_payment_def sample_trx_def null_trx_def)
  then show ?thesis
    using run popped_block_lost [OF sample_stored_facts run]
    by (metis full_block.select_convs(2) sum.inject(2))
qed

section \<open>The pay of the delegate\<close>

text \<open>
  C17. Nothing checks the pay of a delegate. Whatever pay rate a header claims, \<open>verify_header\<close> gives
  the same answer - the signature, which is the delegate's own, and the size of the block aside - and
  \<open>pay_delegate\<close> creates exactly this amount: it is added to what the delegate holds and to the share
  supply of the base asset.
\<close>

theorem delegate_sets_own_pay:
  assumes "b' = b\<lparr>fb_header := (fb_header b)\<lparr>delegate_pay_rate := x\<rparr>\<rparr>"
    and "block_size n b' = block_size n b"
    and "header_signee (base n) (fb_header b') = header_signee (base n) (fb_header b)"
    and "is_pending c" and "chain_wf (base n) c"
    and "pay_delegate (base n) d (bh_timestamp (fb_header b')) (delegate_pay_rate (fb_header b')) c = Inr c'"
  shows "verify_header n i d b' = verify_header n i d b \<and> holdings c' 0 = holdings c 0 + x
    \<and> share_supply c' 0 = share_supply c 0 + x"
proof -
  have "bh_block_num (fb_header b') = bh_block_num (fb_header b)" "bh_previous (fb_header b') = bh_previous (fb_header b)"
    "bh_timestamp (fb_header b') = bh_timestamp (fb_header b)" "fee_rate (fb_header b') = fee_rate (fb_header b)"
    "validate_digest n (to_digest_block n b') = validate_digest n (to_digest_block n b)"
    "validate_unique (to_digest_block n b') = validate_unique (to_digest_block n b)"
    by (simp_all add: assms(1) to_digest_block_def validate_digest_def validate_unique_def calculate_transaction_digest_def)
  moreover have "validate_signee (base n) (fb_header b') = validate_signee (base n) (fb_header b)"
    by (rule ext) (simp only: validate_signee_def assms(3))
  ultimately have "verify_header n i d b' = verify_header n i d b"
    by (simp only: verify_header_def Let_def assms(2))
  then show ?thesis
    using pay_delegate_effect(3,4) [OF assms(6,4,5), of 0] by (simp add: assms(1))
qed

definition sample_rich_block :: full_block where
  "sample_rich_block = sample_block_1\<lparr>fb_header := (fb_header sample_block_1)\<lparr>delegate_pay_rate := 1000000000000\<rparr>\<rparr>"

theorem delegate_sets_own_pay_witness:
  "verify_header sample_node null_block_id (tables sample_genesis) sample_rich_block = Inr ()
    \<and> (\<exists>c'. pay_delegate (base sample_node) (tables sample_genesis) 15 1000000000000 sample_round = Inr c'
      \<and> holdings c' 0 = holdings sample_round 0 + 1000000000000)"
proof -
  let ?t = "bh_timestamp (fb_header sample_rich_block)" and ?x = "delegate_pay_rate (fb_header sample_rich_block)"
  have tx: "?t = 15" "?x = 1000000000000"
    by (simp_all add: sample_rich_block_def sample_block_1_def sample_block_def)
  have ok: "verify_header sample_node null_block_id (tables sample_genesis) sample_block_1 = Inr ()" by code_simp
  have "case pay_delegate (base sample_node) (tables sample_genesis) 15 1000000000000 sample_round of Inl _ \<Rightarrow> False | Inr _ \<Rightarrow> True"
    by code_simp
  then obtain c' where c': "pay_delegate (base sample_node) (tables sample_genesis) ?t ?x sample_round = Inr c'"
    unfolding tx by (auto split: sum.splits)
  have "block_size sample_node sample_rich_block = block_size sample_node sample_block_1"
    "header_signee (base sample_node) (fb_header sample_rich_block) = header_signee (base sample_node) (fb_header sample_block_1)"
    by code_simp+
  from delegate_sets_own_pay [OF sample_rich_block_def this sample_round_good(1) _ c'] sample_round_good(2) ok c'
  show ?thesis unfolding tx by (auto simp: sample_node_env)
qed

end
