(* ===== verification/Bts_Genesis.thy ===== *)
theory Bts_Genesis
  imports Bts_Blockchain
begin

text \<open>
  The genesis of a chain (\<open>initialize_genesis\<close> of \<open>chain_database.cpp\<close>, \<open>genesis_config.hpp\<close>) and the
  check of the books (\<open>sanity_check\<close>). The shares of the configuration are divided among balances that
  vote for the first delegates. A genesis that goes through starts a chain whose books balance.
\<close>

section \<open>The configuration\<close>

record name_config =
  nc_name :: string
  nc_is_delegate :: bool
  nc_owner :: public_key_type

record ('p, 'f) genesis_block_config =
  gc_supply :: share_type
  gc_precision :: share_type
  gc_timestamp :: time_point_sec
  gc_base_symbol :: string
  gc_base_name :: string
  gc_base_description :: string
  gc_balances :: "('p \<times> 'f) list"
  gc_names :: "name_config list"

text \<open>
  What the code does with a \<open>pts_address\<close>, with a \<open>double\<close> and with the whole configuration: its
  conversion to an address, \<open>int64_t( x / 1000 )\<close>, and the hash of its packed form.
\<close>

record ('p, 'f) genesis_lib =
  address_of_pts :: "'p \<Rightarrow> address"
  unscaled :: "'f \<Rightarrow> share_type"
  config_digest :: "('p, 'f) genesis_block_config \<Rightarrow> digest_type"

definition BTS_BLOCKCHAIN_INITIAL_SHARES :: u64 where
  "BTS_BLOCKCHAIN_INITIAL_SHARES = BTS_BLOCKCHAIN_MAX_SHARES div 100"

definition null_digest :: digest_type where
  "null_digest = replicate 32 0"

section \<open>The check of the books\<close>

definition get_balance :: "balance_record \<Rightarrow> asset" where
  "get_balance r = mk_asset (bal_balance r) (wc_asset_id (bal_condition r))"

definition sanity_balance :: "balance_record \<Rightarrow> asset \<Rightarrow> chain_error + asset" where
  "sanity_balance r tot =
    (let ind = get_balance r
     in if asset_id ind = 0
        then (if amount ind <s 0 then Inl fc_assert else asset_add tot ind)
        else Inr tot)"

definition sanity_account :: "account_record \<Rightarrow> asset \<times> share_type \<Rightarrow> chain_error + asset \<times> share_type" where
  "sanity_account r t =
    (case delegate_info r of
       None \<Rightarrow> Inr t
     | Some s \<Rightarrow> res_bind (asset_add (fst t) (mk_asset (pay_balance s) 0)) (\<lambda>tot.
         Inr (tot, snd t + (ds_votes_for s + ds_votes_against s))))"

definition sanity_check :: "chain_database \<Rightarrow> chain_error + unit" where
  "sanity_check d =
    res_bind (fold_res sanity_balance (map snd (balance_db d)) (mk_asset 0 0)) (\<lambda>tot.
    res_bind (fold_res sanity_account (map snd (account_db d)) (tot, 0)) (\<lambda>(tot, total_votes).
      if total_votes \<noteq> amount tot then Inl fc_assert
      else (case map_of (asset_db d) 0 of
          None \<Rightarrow> Inl fc_assert
        | Some ar \<Rightarrow>
            if current_share_supply ar \<noteq> amount tot then Inl fc_assert
            else if \<not> current_share_supply ar <=s maximum_share_supply ar then Inl fc_assert
            else Inr ())))"

section \<open>The genesis\<close>

definition new_account_record :: account_record where
  "new_account_record = \<lparr>ac_id = 0, ac_name = [], ac_public_data = [], owner_key = null_key,
     active_key_history = [], ac_registration_date = 0, ac_last_update = 0, delegate_info = None,
     ac_meta_data = None\<rparr>"

text \<open>The loop over the names, with the identifiers of the delegates.\<close>

fun genesis_accounts :: "env \<Rightarrow> time_point_sec \<Rightarrow> time_point_sec \<Rightarrow> name_config list \<Rightarrow> account_id_type
    \<Rightarrow> account_id_type list \<Rightarrow> chain_database \<Rightarrow> chain_error + account_id_type list \<times> chain_database" where
  "genesis_accounts e now timestamp [] account_id delegate_ids d = Inr (delegate_ids, d)"
| "genesis_accounts e now timestamp (name # names) account_id delegate_ids d =
    res_bind (set_active_key now (nc_owner name) (new_account_record\<lparr>ac_id := account_id, ac_name := nc_name name,
        owner_key := nc_owner name\<rparr>)) (\<lambda>r.
      let r = r\<lparr>ac_registration_date := timestamp, ac_last_update := timestamp,
                delegate_info := (if nc_is_delegate name then Some new_delegate_stats else None)\<rparr>
      in genesis_accounts e now timestamp names (account_id + 1)
           (if nc_is_delegate name then delegate_ids @ [account_id] else delegate_ids)
           (db_store_account_record e r d))"

text \<open>
  The body of both branches of the loop over the balances: a balance that votes for the delegate, added
  to the one that is already there, and the votes of the delegate.
\<close>

definition genesis_balance :: "env \<Rightarrow> time_point_sec \<Rightarrow> address \<Rightarrow> share_type \<Rightarrow> account_id_type
    \<Rightarrow> chain_database \<Rightarrow> balance_record" where
  "genesis_balance e timestamp owner low_bits delegate_id d =
    (let initial_balance = \<lparr>bal_balance = low_bits,
           bal_condition = mk_condition (withdraw_with_signature owner None) 0 delegate_id, bal_last_update = 0\<rparr>;
         initial_balance = (case map_of (balance_db d) (balance_id e initial_balance) of
             Some cur \<Rightarrow> initial_balance\<lparr>bal_balance := bal_balance initial_balance + bal_balance cur\<rparr>
           | None \<Rightarrow> initial_balance)
     in initial_balance\<lparr>bal_last_update := timestamp\<rparr>)"

definition genesis_credit :: "env \<Rightarrow> time_point_sec \<Rightarrow> address \<Rightarrow> share_type \<Rightarrow> account_id_type
    \<Rightarrow> chain_database \<Rightarrow> chain_error + chain_database" where
  "genesis_credit e timestamp owner low_bits delegate_id d =
    (let d = db_store_balance_record e (genesis_balance e timestamp owner low_bits delegate_id d) d
     in case map_of (account_db d) delegate_id of
          None \<Rightarrow> Inl no_result
        | Some da \<Rightarrow> (case delegate_info da of
            None \<Rightarrow> Inl undefined_behaviour
          | Some s \<Rightarrow> Inr (db_store_account_record e (da\<lparr>delegate_info := Some (s\<lparr>ds_votes_for := ds_votes_for s + low_bits\<rparr>),
              ac_registration_date := timestamp, ac_last_update := timestamp\<rparr>) d)))"

text \<open>The shares of an entry, before they are divided; nothing is said of a division by zero.\<close>

definition genesis_initial :: "fc_lib \<Rightarrow> uint128 \<Rightarrow> share_type \<Rightarrow> uint128" where
  "genesis_initial lib total_unscaled x =
    fc_uint128_of_int64 lib x * fc_uint128_of_int64 lib BTS_BLOCKCHAIN_INITIAL_SHARES div total_unscaled"

fun genesis_balances :: "env \<Rightarrow> ('p, 'f) genesis_lib \<Rightarrow> time_point_sec \<Rightarrow> account_id_type list \<Rightarrow> uint128
    \<Rightarrow> ('p \<times> 'f) list \<Rightarrow> nat \<Rightarrow> chain_database \<Rightarrow> chain_error + chain_database" where
  "genesis_balances e g timestamp delegate_ids total_unscaled [] n d = Inr d"
| "genesis_balances e g timestamp delegate_ids total_unscaled (item # items) n d =
    (let n = n + 1;
         owner = address_of_pts g (fst item);
         initial = genesis_initial (fc e) total_unscaled (unscaled g (snd item))
     in if total_unscaled = 0 then Inl undefined_behaviour
        else res_bind
          (if fc_uint128_of_int64 (fc e) (BTS_BLOCKCHAIN_INITIAL_SHARES div 1000) < initial
           then
             let initial = initial div of_nat (length delegate_ids)
             in fold_res (\<lambda>delegate_id. genesis_credit e timestamp owner (ucast initial) delegate_id) delegate_ids d
           else genesis_credit e timestamp owner (ucast initial) (int (n mod length delegate_ids) + 1) d)
          (genesis_balances e g timestamp delegate_ids total_unscaled items n))"

definition genesis_supply :: "balance_record \<Rightarrow> asset \<Rightarrow> chain_error + asset" where
  "genesis_supply r tot =
    (let ind = get_balance r in if amount ind <s 0 then Inl fc_assert else asset_add tot ind)"

definition genesis_base_asset :: "time_point_sec \<Rightarrow> share_type \<Rightarrow> asset_record" where
  "genesis_base_asset timestamp supply =
    \<lparr>as_id = 0, as_symbol = ''XTS'', as_name = ''BitShares XTS'',
     as_description = ''Stake in future BitShares X chains'', as_public_data = [], issuer_account_id = 0,
     as_precision = 1000000, as_registration_date = timestamp, as_last_update = 0,
     current_share_supply = supply, maximum_share_supply = BTS_BLOCKCHAIN_MAX_SHARES, collected_fees = 0\<rparr>"

definition genesis_fork :: block_fork_data where
  "genesis_fork = \<lparr>next_blocks = [], is_linked = True, is_valid = Some True, is_included = True, is_known_data = True\<rparr>"

definition genesis_properties :: "nat \<Rightarrow> chain_database \<Rightarrow> chain_database" where
  "genesis_properties number_of_names d =
    (let d = db_set_property active_delegate_list_id (ids_value (next_round_active_delegates d)) d;
         d = db_set_property last_asset_id (int_value 0) d;
         d = db_set_property last_proposal_id (int_value 0) d;
         d = db_set_property last_account_id (int_value (int number_of_names)) d;
         d = db_set_property last_random_seed_id (hash_value (replicate 20 0)) d
     in db_set_property confirmation_requirement (int_value (int BTS_BLOCKCHAIN_NUM_DELEGATES * 2)) d)"

definition initialize_genesis :: "env \<Rightarrow> ('p, 'f) genesis_lib \<Rightarrow> ('p, 'f) genesis_block_config
    \<Rightarrow> chain_database_impl \<Rightarrow> chain_error + chain_database_impl" where
  "initialize_genesis e g config st =
    (if db_chain_id st \<noteq> null_digest then res_bind (sanity_check (tables st)) (\<lambda>_. Inr st)
     else
       let chain_id = config_digest g config;
           d = db_set_property chain_id_property (hash_value chain_id) (tables st);
           total_unscaled = fold (\<lambda>item t. t + fc_uint128_of_int64 (fc e) (unscaled g (snd item))) (gc_balances config) 0
       in if length (filter nc_is_delegate (gc_names config)) < BTS_BLOCKCHAIN_NUM_DELEGATES then Inl fc_assert
          else
            let d = db_store_account_record e (new_account_record\<lparr>ac_name := ''god''\<rparr>) d;
                timestamp = gc_timestamp config
            in res_bind (genesis_accounts e (wall_clock d) timestamp (gc_names config) 1 [] d) (\<lambda>(delegate_ids, d).
               res_bind (genesis_balances e g timestamp delegate_ids total_unscaled (gc_balances config) 0 d) (\<lambda>d.
               res_bind (fold_res genesis_supply (map snd (balance_db d)) (mk_asset 0 0)) (\<lambda>tot.
                 let d = db_store_asset_record (genesis_base_asset timestamp (amount tot)) d;
                     d = genesis_properties (length (gc_names config)) d
                 in res_bind (sanity_check d) (\<lambda>_.
                      Inr (st\<lparr>db_chain_id := chain_id, tables := d,
                              fork_db := AList.update null_block_id genesis_fork (fork_db st)\<rparr>))))))"

section \<open>Tables without duplicates\<close>

lemma total_map_of: "distinct (map fst t) \<Longrightarrow> total (map_of t) f = sum_list (map f (map snd t))"
proof -
  assume d: "distinct (map fst t)"
  have "total (map_of t) f = (\<Sum>k\<in>fst ` set t. f (the (map_of t k)))"
    by (simp add: total_def dom_map_of_conv_image_fst)
  also have "\<dots> = (\<Sum>x\<in>set t. f (the (map_of t (fst x))))"
    using d by (simp add: sum.reindex distinct_map)
  also have "\<dots> = (\<Sum>x\<in>set t. f (snd x))"
    using d by (intro sum.cong) auto
  also have "\<dots> = sum_list (map (\<lambda>x. f (snd x)) t)"
    using d by (subst sum_list_distinct_conv_sum_set) (simp_all add: distinct_map)
  finally show ?thesis by (simp add: comp_def)
qed

section \<open>What the check shows\<close>

lemma asset_add_eq_Inr:
  "asset_add x y = Inr z \<Longrightarrow> asset_id y = asset_id x \<and> asset_id z = asset_id x \<and> amount z = amount x + amount y"
  by (auto simp: asset_add_def Let_def split: if_splits)

lemma sanity_balances:
  "fold_res sanity_balance rs t = Inr t' \<Longrightarrow> asset_id t = 0
   \<Longrightarrow> asset_id t' = 0 \<and> amount t' = amount t + sum_list (map (bal_of 0) rs)"
proof (induction rs arbitrary: t)
  case (Cons r rs)
  then obtain u where u: "sanity_balance r t = Inr u" "fold_res sanity_balance rs u = Inr t'"
    by (auto simp: res_bind_eq_Inr)
  have "asset_id u = 0 \<and> amount u = amount t + bal_of 0 r"
    using u(1) Cons.prems(2) asset_add_eq_Inr [of t "get_balance r" u]
    by (auto simp: sanity_balance_def get_balance_def mk_asset_def bal_of_def Let_def split: if_splits)
  then show ?case using Cons.IH [OF u(2)] by (simp add: add.assoc)
qed simp

lemma sanity_accounts:
  "fold_res sanity_account rs (t, v) = Inr (t', v') \<Longrightarrow> asset_id t = 0
   \<Longrightarrow> amount t' = amount t + sum_list (map pay_of rs)"
proof (induction rs arbitrary: t v)
  case (Cons r rs)
  then obtain u w where u: "sanity_account r (t, v) = Inr (u, w)" "fold_res sanity_account rs (u, w) = Inr (t', v')"
    by (auto simp: res_bind_eq_Inr)
  have "asset_id u = 0 \<and> amount u = amount t + pay_of r"
    using u(1) Cons.prems(2) asset_add_eq_Inr
    by (auto simp: sanity_account_def mk_asset_def pay_of_def res_bind_eq_Inr split: option.splits)
  then show ?case using Cons.IH [OF u(2)] by (simp add: add.assoc)
qed simp

lemma sanity_check_books:
  assumes "sanity_check d = Inr ()" and "distinct (map fst (balance_db d))" and "distinct (map fst (account_db d))"
  shows "holdings (Database d) 0 = share_supply (Database d) 0"
proof -
  obtain t t' v r where t: "fold_res sanity_balance (map snd (balance_db d)) (mk_asset 0 0) = Inr t"
    and t': "fold_res sanity_account (map snd (account_db d)) (t, 0) = Inr (t', v)"
    and r: "map_of (asset_db d) 0 = Some r" "current_share_supply r = amount t'"
    using assms(1) by (auto simp: sanity_check_def res_bind_eq_Inr split: option.splits if_splits)
  have "get_balance_record (Database d) = map_of (balance_db d)" "get_account_record (Database d) = map_of (account_db d)"
    by (simp_all add: fun_eq_iff)
  then show ?thesis
    using sanity_balances [OF t] sanity_accounts [OF t'] r assms(2,3)
    by (simp add: holdings_def share_supply_def at_key_def total_map_of mk_asset_def)
qed

section \<open>The tables while the genesis is built\<close>

definition genesis_inv :: "env \<Rightarrow> int \<Rightarrow> chain_database \<Rightarrow> bool" where
  "genesis_inv e m d \<longleftrightarrow>
    asset_db d = [] \<and> proposal_db d = [] \<and> proposal_vote_db d = [] \<and> transaction_db d = []
    \<and> bid_db d = [] \<and> ask_db d = [] \<and> null_value \<notin> ran (map_of (property_db d))
    \<and> distinct (map fst (account_db d)) \<and> distinct (map fst (balance_db d))
    \<and> (\<forall>i r. map_of (account_db d) i = Some r \<longrightarrow> ac_id r = i \<and> \<not> account_is_null r \<and> i \<le> m)
    \<and> (\<forall>i r. map_of (balance_db d) i = Some r \<longrightarrow>
         balance_id e r = i \<and> \<not> balance_is_null r \<and> wc_asset_id (bal_condition r) = 0)"

lemma distinct_delete [simp]: "distinct (map fst t) \<Longrightarrow> distinct (map fst (AList.delete k t))"
  by (rule AList.distinct_delete)

lemma genesis_inv_account: "genesis_inv e m d \<Longrightarrow> ac_id r \<le> m \<Longrightarrow> genesis_inv e m (db_store_account_record e r d)"
  by (auto simp: genesis_inv_def db_store_account_record_def db_remove_account_def db_write_account_def Let_def
      update_conv' AList.delete_conv' restrict_map_def distinct_update simp del: map_of_eq_Some_iff split: option.splits if_splits)

lemma genesis_inv_balance:
  "genesis_inv e m d \<Longrightarrow> wc_asset_id (bal_condition r) = 0 \<Longrightarrow> genesis_inv e m (db_store_balance_record e r d)"
  by (auto simp: genesis_inv_def db_store_balance_record_def
      update_conv' AList.delete_conv' restrict_map_def distinct_update simp del: map_of_eq_Some_iff split: if_splits)

lemma genesis_inv_property: "genesis_inv e m d \<Longrightarrow> v \<noteq> null_value \<Longrightarrow> genesis_inv e m (db_set_property p v d)"
  by (auto simp: genesis_inv_def db_set_property_def update_conv' ran_def split: if_splits)

lemma set_active_key_id: "set_active_key now k r = Inr r' \<Longrightarrow> ac_id r' = ac_id r"
  by (auto simp: set_active_key_def split: if_splits)

lemma genesis_inv_accounts:
  "genesis_accounts e now ts names i ids d = Inr (ids', d') \<Longrightarrow> genesis_inv e m d
   \<Longrightarrow> i + int (length names) \<le> m + 1 \<Longrightarrow> genesis_inv e m d'"
proof (induction e now ts names i ids d rule: genesis_accounts.induct)
  case (2 e now ts name names i ids d)
  obtain r where r: "set_active_key now (nc_owner name) (new_account_record\<lparr>ac_id := i, ac_name := nc_name name,
      owner_key := nc_owner name\<rparr>) = Inr r"
    using 2(2) by (auto simp: res_bind_eq_Inr)
  have "ac_id r = i" using set_active_key_id [OF r] by simp
  then show ?case
    using 2(1) [OF refl _ genesis_inv_account [OF 2(3)]] 2(2,4) r by (simp add: res_bind_eq_Inr Let_def)
qed simp

lemma genesis_inv_credit:
  assumes "genesis_credit e ts owner x i d = Inr d'" and "genesis_inv e m d"
  shows "genesis_inv e m d'"
proof -
  define d1 where "d1 = db_store_balance_record e (genesis_balance e ts owner x i d) d"
  have "wc_asset_id (bal_condition (genesis_balance e ts owner x i d)) = 0"
    by (simp add: genesis_balance_def mk_condition_def Let_def split: option.split)
  then have d1: "genesis_inv e m d1" using assms(2) by (simp add: d1_def genesis_inv_balance)
  from assms(1) obtain da s where da: "map_of (account_db d1) i = Some da"
    and d': "d' = db_store_account_record e (da\<lparr>delegate_info := Some s, ac_registration_date := ts, ac_last_update := ts\<rparr>) d1"
    by (auto simp: genesis_credit_def Let_def simp flip: d1_def split: option.splits)
  from d1 da have "ac_id da \<le> m" by (simp add: genesis_inv_def)
  with d1 show ?thesis by (simp add: d' genesis_inv_account)
qed

lemma genesis_inv_balances:
  "genesis_balances e g ts ids total_unscaled items n d = Inr d' \<Longrightarrow> genesis_inv e m d \<Longrightarrow> genesis_inv e m d'"
proof (induction items arbitrary: n d)
  case (Cons item items)
  let ?f = "\<lambda>x i. genesis_credit e ts (address_of_pts g (fst item)) x i"
  obtain d1 where step: "(\<exists>x. fold_res (?f x) ids d = Inr d1) \<or> (\<exists>x i. ?f x i d = Inr d1)"
    and rest: "genesis_balances e g ts ids total_unscaled items (n + 1) d1 = Inr d'"
    using Cons.prems(1) by (auto simp: res_bind_eq_Inr Let_def split: if_splits)
  from step have "genesis_inv e m d1"
  proof (elim disjE exE)
    fix x assume "fold_res (?f x) ids d = Inr d1"
    then show ?thesis using Cons.prems(2) genesis_inv_credit by (rule fold_res_invariant)
  next
    fix x i assume "?f x i d = Inr d1"
    then show ?thesis using Cons.prems(2) by (rule genesis_inv_credit)
  qed
  then show ?case by (rule Cons.IH [OF rest])
qed simp

section \<open>The chain after its genesis\<close>

text \<open>A node with no data: empty tables and no blocks.\<close>

definition empty_node :: "chain_database_impl \<Rightarrow> bool" where
  "empty_node st \<longleftrightarrow> db_chain_id st = null_digest \<and> head_block_id st = null_block_id
    \<and> undo_state_db st = [] \<and> block_id_to_block_record_db st = []
    \<and> property_db (tables st) = [] \<and> account_db (tables st) = [] \<and> balance_db (tables st) = []
    \<and> asset_db (tables st) = [] \<and> proposal_db (tables st) = [] \<and> proposal_vote_db (tables st) = []
    \<and> transaction_db (tables st) = [] \<and> bid_db (tables st) = [] \<and> ask_db (tables st) = []"

lemma genesis_inv_empty: "empty_node st \<Longrightarrow> genesis_inv e m (tables st)"
  by (simp add: empty_node_def genesis_inv_def)

lemma initialize_genesis_steps:
  assumes "initialize_genesis e g config st = Inr st'" and "empty_node st"
  obtains d x where "genesis_inv e (int (length (gc_names config))) d"
    and "st' = st\<lparr>db_chain_id := config_digest g config,
      tables := genesis_properties (length (gc_names config)) (db_store_asset_record (genesis_base_asset (gc_timestamp config) x) d),
      fork_db := AList.update null_block_id genesis_fork (fork_db st)\<rparr>"
    and "sanity_check (tables st') = Inr ()"
proof -
  let ?m = "int (length (gc_names config))" and ?ts = "gc_timestamp config"
  define fin where "fin d = st\<lparr>db_chain_id := config_digest g config, tables := d,
    fork_db := AList.update null_block_id genesis_fork (fork_db st)\<rparr>" for d
  define d3 where "d3 tot d = genesis_properties (length (gc_names config))
    (db_store_asset_record (genesis_base_asset ?ts (amount tot)) d)" for tot :: asset and d
  define d0 where "d0 = db_store_account_record e (new_account_record\<lparr>ac_name := ''god''\<rparr>)
    (db_set_property chain_id_property (hash_value (config_digest g config)) (tables st))"
  have "db_chain_id st = null_digest" using assms(2) by (simp add: empty_node_def)
  with assms(1) obtain ids d1 d2 tot total_unscaled where
    d1: "genesis_accounts e (wall_clock d0) ?ts (gc_names config) 1 [] d0 = Inr (ids, d1)"
    and d2: "genesis_balances e g ?ts ids total_unscaled (gc_balances config) 0 d1 = Inr d2"
    and ok: "sanity_check (d3 tot d2) = Inr ()" and st': "st' = fin (d3 tot d2)"
    by (auto simp: initialize_genesis_def Let_def res_bind_eq_Inr simp flip: d0_def d3_def fin_def split: if_splits)
  have "genesis_inv e ?m d0"
    using genesis_inv_property [OF genesis_inv_empty [OF assms(2)]]
    by (simp add: d0_def genesis_inv_account new_account_record_def)
  from genesis_inv_accounts [OF d1 this] have "genesis_inv e ?m d1" by simp
  then have "genesis_inv e ?m d2" by (rule genesis_inv_balances [OF d2])
  then show thesis
    by (rule that [OF _ st' [unfolded fin_def d3_def]]) (simp add: st' fin_def ok)
qed

lemma genesis_tables:
  "asset_db (genesis_properties n d) = asset_db d" "account_db (genesis_properties n d) = account_db d"
  "balance_db (genesis_properties n d) = balance_db d" "proposal_db (genesis_properties n d) = proposal_db d"
  "proposal_vote_db (genesis_properties n d) = proposal_vote_db d" "transaction_db (genesis_properties n d) = transaction_db d"
  "bid_db (genesis_properties n d) = bid_db d" "ask_db (genesis_properties n d) = ask_db d"
  by (simp_all add: genesis_properties_def db_set_property_def)

lemma genesis_property: "get_property (Database (genesis_properties n d)) i =
  (if i = last_account_id then Inr (int_value (int n))
   else if i = last_asset_id \<or> i = last_proposal_id then Inr (int_value 0)
   else if i = confirmation_requirement then Inr (int_value (int BTS_BLOCKCHAIN_NUM_DELEGATES * 2))
   else if i = last_random_seed_id then Inr (hash_value (replicate 20 0))
   else if i = active_delegate_list_id then Inr (ids_value (next_round_active_delegates d))
   else get_property (Database d) i)"
  by (simp add: genesis_properties_def db_set_property_def update_conv' Let_def)

lemma genesis_invD:
  assumes "genesis_inv e m d"
  shows "distinct (map fst (balance_db d))" and "distinct (map fst (account_db d))"
    and "map_of (balance_db d) i = Some b \<Longrightarrow> balance_id e b = i \<and> \<not> balance_is_null b \<and> wc_asset_id (bal_condition b) = 0"
    and "map_of (account_db d) j = Some r \<Longrightarrow> ac_id r = j \<and> \<not> account_is_null r \<and> j \<le> m"
    and "asset_db d = []" "proposal_db d = []" "proposal_vote_db d = []" "transaction_db d = []" "bid_db d = []" "ask_db d = []"
    and "map_of (property_db d) p \<noteq> Some null_value"
  using assms by (auto simp: genesis_inv_def ran_def simp del: map_of_eq_Some_iff)

lemma genesis_chain:
  assumes inv: "genesis_inv e (int n) d"
    and d': "d' = genesis_properties n (db_store_asset_record (genesis_base_asset ts x) d)"
  shows "db_ok e (Database d')" and "chain_wf e (Database d')" and "transaction_db d' = []"
    and "distinct (map fst (balance_db d'))" and "distinct (map fst (account_db d'))"
    and "get_asset_record (Database d') i = (if i = 0 then Some (genesis_base_asset ts x) else None)"
    and "get_balance_record (Database d') j = Some b \<Longrightarrow> wc_asset_id (bal_condition b) = 0"
proof -
  note inv = genesis_invD [OF inv]
  let ?a = "genesis_base_asset ts x"
  have a: "\<not> asset_is_null ?a" "as_id ?a = 0" by (simp_all add: asset_is_null_def genesis_base_asset_def)
  have tables: "asset_db d' = [(0, ?a)]" "account_db d' = account_db d" "balance_db d' = balance_db d"
    "proposal_db d' = []" "proposal_vote_db d' = []" "transaction_db d' = []" "bid_db d' = []" "ask_db d' = []"
    by (simp_all add: d' genesis_tables db_store_asset_record_def a inv)
  have prop_ok: "get_property (Database d') p \<noteq> Inr null_value" for p
  proof -
    have "get_property (Database (db_store_asset_record ?a d)) p \<noteq> Inr null_value"
      using inv(11) by (auto simp: db_store_asset_record_def a split: option.split)
    then show ?thesis by (simp add: d' genesis_property del: get_property.simps)
  qed
  have "property_int (Database d') last_account_id = Inr (int n)" "property_int (Database d') last_asset_id = Inr 0"
    by (simp_all add: property_int_def d' genesis_property del: get_property.simps)
  then show "chain_wf e (Database d')"
    using inv by (auto simp: chain_wf_def tables a simp del: map_of_eq_Some_iff)
  show "db_ok e (Database d')"
    using inv prop_ok by (simp add: db_ok_def is_database_def tables a market_find_def del: map_of_eq_Some_iff get_property.simps)
  show "transaction_db d' = []" "distinct (map fst (balance_db d'))" "distinct (map fst (account_db d'))"
    "get_asset_record (Database d') i = (if i = 0 then Some ?a else None)"
    "get_balance_record (Database d') j = Some b \<Longrightarrow> wc_asset_id (bal_condition b) = 0"
    using inv by (simp_all add: tables del: map_of_eq_Some_iff)
qed

lemma total_zero: "(\<And>k v. m k = Some v \<Longrightarrow> f v = 0) \<Longrightarrow> total m f = 0"
  by (auto simp: total_def intro!: sum.neutral)

lemma genesis_starts:
  assumes "initialize_genesis (base n) g config st = Inr st'" and "empty_node st"
  shows "at_genesis n st'" and "surplus (Database (tables st')) a = 0"
proof -
  obtain d x where inv: "genesis_inv (base n) (int (length (gc_names config))) d"
    and st': "st' = st\<lparr>db_chain_id := config_digest g config,
      tables := genesis_properties (length (gc_names config)) (db_store_asset_record (genesis_base_asset (gc_timestamp config) x) d),
      fork_db := AList.update null_block_id genesis_fork (fork_db st)\<rparr>"
    and ok: "sanity_check (tables st') = Inr ()"
    by (rule initialize_genesis_steps [OF assms])
  have tables: "tables st' = genesis_properties (length (gc_names config))
      (db_store_asset_record (genesis_base_asset (gc_timestamp config) x) d)"
    by (simp add: st')
  note chain = genesis_chain [OF inv tables]
  show "at_genesis n st'"
    using chain(1-3) assms(2) by (simp add: at_genesis_def st' empty_node_def)
  show "surplus (Database (tables st')) a = 0"
  proof (cases "a = 0")
    case True
    then show ?thesis using sanity_check_books [OF ok chain(4,5)] by (simp add: surplus_def)
  next
    case False
    then have "total (get_balance_record (Database (tables st'))) (bal_of a) = 0"
      using chain(7) by (intro total_zero) (simp add: bal_of_def del: get_balance_record.simps)
    with False show ?thesis
      by (simp add: surplus_def holdings_def share_supply_def at_key_def chain(6)
          del: get_balance_record.simps get_asset_record.simps)
  qed
qed

text \<open>
  C1. A node that starts from a genesis has balanced books for ever, as long as nobody trades. When the
  genesis of an empty node returns, and whatever plain blocks are pushed after it, what the balances and
  the delegates hold of an asset is the share supply of the asset - which the code tests only when it
  opens the database. A block is plain when its transactions carry no bids or asks (which move shares
  into orders) and store no null record: none registers an account with the null key as its owner or
  gives an asset to the account -1. No two of the blocks with different headers have the same identifier.
\<close>

theorem books_balance_from_genesis:
  assumes "initialize_genesis (base n) g config st = Inr st\<^sub>0" and "empty_node st"
    and "hash_ok (base n) (fb_header ` set bs)"
    and "\<And>b. b \<in> set bs \<Longrightarrow> list_all plain (user_transactions b)"
    and "push_all n bs st\<^sub>0 = Some st'"
  shows "holdings (Database (tables st')) a = share_supply (Database (tables st')) a"
proof -
  note start = genesis_starts [OF assms(1,2)]
  have "node_ok n (fb_header ` set bs) (surplus (Database (tables st\<^sub>0))) st'"
    by (rule push_all_node [OF assms(5) genesis_ok [OF start(1)] assms(3) subset_refl assms(4)])
  from fun_cong [OF node_ok_surplus [OF this], of a] show ?thesis
    using start(2) [of a] by (simp add: surplus_def)
qed

text \<open>
  A configuration with two delegates who have keys, no balances, and the number of delegates the code
  asks for. The second delegate produces the first block, which pays it 10 shares.
\<close>

definition sample_config :: "(address, share_type) genesis_block_config" where
  "sample_config = \<lparr>gc_supply = 0, gc_precision = 1000000, gc_timestamp = 15, gc_base_symbol = [], gc_base_name = [],
     gc_base_description = [], gc_balances = [], gc_names = \<lparr>nc_name = ''alpha'', nc_is_delegate = True, nc_owner = [3]\<rparr> #
       \<lparr>nc_name = ''beta'', nc_is_delegate = True, nc_owner = [2]\<rparr> #
       replicate 95 \<lparr>nc_name = [], nc_is_delegate = True, nc_owner = null_key\<rparr>\<rparr>"

definition sample_genesis_lib :: "(address, share_type) genesis_lib" where
  "sample_genesis_lib = \<lparr>address_of_pts = (\<lambda>a. a), unscaled = (\<lambda>x. x div 1000), config_digest = (\<lambda>_. [1])\<rparr>"

definition sample_empty_node :: chain_database_impl where
  "sample_empty_node = \<lparr>tables = \<lparr>property_db = [], proposal_db = [], proposal_vote_db = [], transaction_db = [],
       asset_db = [], balance_db = [], account_db = [], address_to_account_db = [], account_index_db = [],
       symbol_index_db = [], delegate_vote_index_db = [], ask_db = [], bid_db = [], short_db = [], collateral_db = [],
       head_block_header = sample_header\<lparr>bh_block_num := 0, bh_timestamp := 0\<rparr>, wall_clock = 40\<rparr>,
     db_chain_id = null_digest, head_block_id = null_block_id, fork_number_db = [], fork_db = [], undo_state_db = [],
     block_num_to_id_db = [], block_id_to_block_record_db = [], pending_transaction_db = [], pending_fee_index = [],
     pending_trx_state = None\<rparr>"

declare res_bind_def [code_unfold]

lemma sample_genesis_run:
  "case initialize_genesis (base sample_node) sample_genesis_lib sample_config sample_empty_node of Inl e \<Rightarrow> False
   | Inr st \<Rightarrow> (case push_all sample_node [sample_block_1] st of None \<Rightarrow> False
      | Some st \<Rightarrow> head_block_id st = block_id sample_node sample_block_1
          \<and> map_option current_share_supply (get_asset_record (Database (tables st)) 0) = Some 10)"
  by code_simp

theorem books_balance_from_genesis_witness:
  "\<exists>st st'. initialize_genesis (base sample_node) sample_genesis_lib sample_config sample_empty_node = Inr st
    \<and> push_all sample_node [sample_block_1] st = Some st' \<and> head_block_id st' = block_id sample_node sample_block_1
    \<and> holdings (Database (tables st')) 0 = share_supply (Database (tables st')) 0
    \<and> share_supply (Database (tables st')) 0 = 10"
proof -
  obtain st st' where run: "initialize_genesis (base sample_node) sample_genesis_lib sample_config sample_empty_node = Inr st"
    "push_all sample_node [sample_block_1] st = Some st'" "head_block_id st' = block_id sample_node sample_block_1"
    "map_option current_share_supply (get_asset_record (Database (tables st')) 0) = Some 10"
    using sample_genesis_run by (auto simp del: get_asset_record.simps split: sum.splits option.splits)
  have fresh: "empty_node sample_empty_node" by (simp add: empty_node_def sample_empty_node_def)
  have blocks: "hash_ok (base sample_node) (fb_header ` set [sample_block_1])"
    "b \<in> set [sample_block_1] \<Longrightarrow> list_all plain (user_transactions b)" for b
    using sample_hash_ok sample_blocks_plain by (auto simp: hash_ok_def sample_blocks_def)
  have "share_supply (Database (tables st')) 0 = 10"
    using run(4) by (auto simp: share_supply_def at_key_def simp del: get_asset_record.simps split: option.splits)
  then show ?thesis
    using run(1-3) books_balance_from_genesis [OF run(1) fresh blocks run(2)] by blast
qed

end
