(* ===== verification/Bts_Main_Chain.thy ===== *)
theory Bts_Main_Chain
  imports Bts_Blockchain
begin

text \<open>
  The main chain of a node: the lookups of blocks by number and by identifier (\<open>chain_database.cpp\<close>), the
  predicate that says that they show one chain of headers, and what \<open>extend_chain\<close>, \<open>pop_block\<close> and the
  storing of a block do to that chain.
\<close>

section \<open>Lookups of blocks\<close>

definition get_block_num :: "block_id_type \<Rightarrow> chain_database_impl \<Rightarrow> chain_error + u32" where
  "get_block_num i st =
    (if i = null_block_id then Inr 0
     else case map_of (block_id_to_block_record_db st) i of
       None \<Rightarrow> Inl no_result
     | Some r \<Rightarrow> Inr (bh_block_num (db_header (br_digest_block r))))"

definition get_block_at :: "u32 \<Rightarrow> chain_database_impl \<Rightarrow> chain_error + full_block" where
  "get_block_at num st =
    (case map_of (block_num_to_id_db st) num of None \<Rightarrow> Inl no_result | Some i \<Rightarrow> get_block i st)"

definition is_known_block :: "block_id_type \<Rightarrow> chain_database_impl \<Rightarrow> bool" where
  "is_known_block i st = (case map_of (fork_db st) i of None \<Rightarrow> False | Some f \<Rightarrow> is_known_data f)"

definition is_included_block :: "block_id_type \<Rightarrow> chain_database_impl \<Rightarrow> bool" where
  "is_included_block i st = (case map_of (fork_db st) i of None \<Rightarrow> False | Some f \<Rightarrow> is_included f)"

definition get_head_block_num :: "chain_database_impl \<Rightarrow> u32" where
  "get_head_block_num st = bh_block_num (head_block_header (tables st))"

definition is_known_transaction :: "transaction_id_type \<Rightarrow> chain_database_impl \<Rightarrow> bool" where
  "is_known_transaction i st = (map_of (transaction_db (tables st)) i \<noteq> None)"

lemma of_nat_le_u32: "x < 2 ^ 32 \<Longrightarrow> y < 2 ^ 32 \<Longrightarrow> ((of_nat x :: u32) \<le> of_nat y) = (x \<le> y)"
  by (simp add: word_le_nat_alt unat_of_nat take_bit_nat_eq_self)

lemma of_nat_eq_u32: "x < 2 ^ 32 \<Longrightarrow> y < 2 ^ 32 \<Longrightarrow> ((of_nat x :: u32) = of_nat y) = (x = y)"
  by (simp add: word_unat_eq_iff unat_of_nat take_bit_nat_eq_self)

section \<open>The main chain\<close>

text \<open>
  The headers \<open>hs\<close> are the main chain of a state: the block of every number is in the tables, under the
  identifier of its header, and the blocks of the main chain are those that are included.
\<close>

definition main_chain :: "node \<Rightarrow> signed_block_header list \<Rightarrow> chain_database_impl \<Rightarrow> bool" where
  "main_chain n hs st \<longleftrightarrow>
    get_head_block_num st = of_nat (length hs) \<and> length hs < 2 ^ 32
    \<and> (hs \<noteq> [] \<longrightarrow> head_block_header (tables st) = last hs)
    \<and> head_block_id st = (if hs = [] then null_block_id else header_id (base n) (last hs))
    \<and> (\<forall>k<length hs. map_of (block_num_to_id_db st) (of_nat (Suc k)) = Some (header_id (base n) (hs ! k))
        \<and> bh_block_num (hs ! k) = of_nat (Suc k)
        \<and> bh_previous (hs ! k) = (if k = 0 then null_block_id else header_id (base n) (hs ! (k - 1)))
        \<and> header_id (base n) (hs ! k) \<noteq> null_block_id
        \<and> map_sum id fb_header (get_block (header_id (base n) (hs ! k)) st) = Inr (hs ! k))
    \<and> (\<forall>i. i \<noteq> null_block_id \<longrightarrow> is_included_block i st = (i \<in> header_id (base n) ` set hs))"

lemma main_chainD:
  assumes "main_chain n hs st"
  shows "get_head_block_num st = of_nat (length hs)" and "length hs < 2 ^ 32"
    and "i \<noteq> null_block_id \<Longrightarrow> is_included_block i st = (i \<in> header_id (base n) ` set hs)"
    and "k < length hs \<Longrightarrow> map_of (block_num_to_id_db st) (of_nat (Suc k)) = Some (header_id (base n) (hs ! k))"
    and "k < length hs \<Longrightarrow> bh_block_num (hs ! k) = of_nat (Suc k)"
    and "k < length hs \<Longrightarrow> bh_previous (hs ! k) = (if k = 0 then null_block_id else header_id (base n) (hs ! (k - 1)))"
    and "k < length hs \<Longrightarrow> header_id (base n) (hs ! k) \<noteq> null_block_id"
    and "k < length hs \<Longrightarrow> map_sum id fb_header (get_block (header_id (base n) (hs ! k)) st) = Inr (hs ! k)"
    and "hs \<noteq> [] \<Longrightarrow> head_block_header (tables st) = last hs"
    and "head_block_id st = (if hs = [] then null_block_id else header_id (base n) (last hs))"
  using assms by (auto simp: main_chain_def)

lemma map_sum_eq_Inr: "map_sum id f r = Inr y \<longleftrightarrow> (\<exists>x. r = Inr x \<and> f x = y)"
  by (cases r) auto

lemma main_chain_block:
  assumes "main_chain n hs st" and "1 \<le> p" and "p \<le> length hs"
  obtains b where "get_block_at (of_nat p) st = Inr b" and "fb_header b = hs ! (p - 1)"
proof -
  have "p - 1 < length hs" "Suc (p - 1) = p" using assms(2,3) by auto
  then show thesis
    using main_chainD(4,8) [OF assms(1), of "p - 1"] that by (auto simp: get_block_at_def map_sum_eq_Inr)
qed

lemma main_chain_num:
  assumes "main_chain n hs st" and "k < length hs"
  shows "get_block_num (header_id (base n) (hs ! k)) st = Inr (of_nat (Suc k))"
proof -
  obtain b where "get_block (header_id (base n) (hs ! k)) st = Inr b" "fb_header b = hs ! k"
    using main_chainD(8) [OF assms] by (auto simp: map_sum_eq_Inr)
  then show ?thesis
    using main_chainD(5,7) [OF assms] by (auto simp: get_block_num_def get_block_def res_bind_eq_Inr split: option.splits)
qed

text \<open>Two main chains that share a block share all blocks below it.\<close>

lemma chains_agree:
  assumes "main_chain n xs a" and "main_chain n ys b" and "hash_ok (base n) (set xs \<union> set ys)"
    and "p < length xs" and "header_id (base n) (xs ! p) \<in> header_id (base n) ` set ys"
  shows "p < length ys \<and> take (Suc p) xs = take (Suc p) ys"
proof -
  have inj: "x = y" if "header_id (base n) x = header_id (base n) y" "x \<in> set xs" "y \<in> set ys" for x y
    using that assms(3) by (auto simp: hash_ok_def dest: inj_onD)
  have same: "p < length ys \<and> xs ! p = ys ! p" if p: "p < length xs" "header_id (base n) (xs ! p) \<in> header_id (base n) ` set ys" for p
  proof -
    obtain q where q: "q < length ys" "xs ! p = ys ! q" using inj p by (fastforce simp: in_set_conv_nth)
    then have "(of_nat (Suc p) :: u32) = of_nat (Suc q)"
      using main_chainD(5) [OF assms(1) p(1)] main_chainD(5) [OF assms(2) q(1)] by simp
    then have "Suc p = Suc q"
      using p(1) q(1) main_chainD(2) [OF assms(1)] main_chainD(2) [OF assms(2)]
by (subst (asm) of_nat_eq_u32) auto
    with q show ?thesis by simp
  qed
  have "q \<le> p \<Longrightarrow> q < length xs \<and> xs ! q = ys ! q" for q
  proof (induction q rule: inc_induct)
    case base
    then show ?case using same assms(4,5) by simp
  next
    case (step q)
    then have "bh_previous (xs ! Suc q) = header_id (base n) (xs ! q)" "bh_previous (ys ! Suc q) = header_id (base n) (ys ! q)"
      using main_chainD(6) [OF assms(1), of "Suc q"] main_chainD(6) [OF assms(2), of "Suc q"] assms(4) same [OF assms(4,5)] by auto
    moreover have "q < length ys" using step same [OF assms(4,5)] by simp
    ultimately have "header_id (base n) (xs ! q) \<in> header_id (base n) ` set ys"
      using step by (metis image_eqI nth_mem)
    with step same [of q] show ?case by simp
  qed
  then show ?thesis using same [OF assms(4,5)] assms(4) by (auto intro!: nth_equalityI)
qed

section \<open>What is included\<close>

definition included_in :: "fork_table \<Rightarrow> block_id_type \<Rightarrow> bool" where
  "included_in t i = (case map_of t i of None \<Rightarrow> False | Some f \<Rightarrow> is_included f)"

lemma included_in_update [simp]: "included_in (AList.update k f t) j = (if j = k then is_included f else included_in t j)"
  by (simp add: included_in_def update_conv')

lemma included_in_lookup: "map_of t i = None \<Longrightarrow> \<not> included_in t i" "map_of t i = Some f \<Longrightarrow> included_in t i = is_included f"
  by (simp_all add: included_in_def)

lemma is_included_block_table: "is_included_block i st = included_in (fork_db st) i"
  by (simp add: is_included_block_def included_in_def)

lemma included_field: "map_option is_included (map_of t' i) = map_option is_included (map_of t i) \<Longrightarrow> included_in t' i = included_in t i"
  by (auto simp: included_in_def split: option.splits)

lemma included_marked:
  assumes "recursive_mark mark ids t = Some (r, t')" and "\<And>f. is_included (mark f) = is_included f"
  shows "included_in t' i = included_in t i"
  by (rule included_field) (rule recursive_mark_field [where g = is_included, OF assms])

lemma included_linked: "link_to_previous p i t = (f, t') \<Longrightarrow> included_in t' j = included_in t j"
  by (auto simp: link_to_previous_def new_fork_data_def Let_def included_in_lookup split: option.splits if_splits)

lemma included_indexed:
  assumes "index_block i f t = Some (r, t')"
  shows "included_in t' j = included_in t j"
proof (cases "map_of t i")
  case None
  with assms show ?thesis
    by (auto simp: index_block_def new_fork_data_def Let_def included_in_lookup split: if_splits)
next
  case (Some g)
  show ?thesis
  proof (cases "\<not> is_linked g \<and> is_linked f")
    case True
    then obtain x t1 where mark: "recursive_mark_as_linked (next_blocks g) t = Some (x, t1)"
      using assms Some by (auto simp: index_block_def Let_def split: option.splits)
    have "included_in t1 k = included_in t k" for k
      by (rule included_marked [OF mark [unfolded recursive_mark_as_linked_def]]) simp
    moreover have "t' = t1 \<or> t' = AList.update i (g\<lparr>is_linked := True\<rparr>) t1"
      using assms Some True mark by (auto simp: index_block_def Let_def split: sum.splits)
    moreover have "included_in t i = is_included g" by (rule included_in_lookup(2) [OF Some])
    ultimately show ?thesis by (elim disjE) simp_all
  next
    case False
    with assms Some show ?thesis by (auto simp: index_block_def included_in_lookup split: if_splits)
  qed
qed

lemma included_stored: "store_and_index n i b st = Some (r, st') \<Longrightarrow> is_included_block j st' = is_included_block j st"
  by (erule store_and_index_steps) (auto simp: is_included_block_table dest: included_linked included_indexed)

lemma included_invalid: "mark_invalid i st = Some (r, st') \<Longrightarrow> is_included_block j st' = is_included_block j st"
proof -
  assume run: "mark_invalid i st = Some (r, st')"
  show ?thesis
  proof (cases "map_of (fork_db st) i")
    case (Some f)
    let ?t = "AList.update i (f\<lparr>is_valid := Some False\<rparr>) (fork_db st)"
    from run Some obtain x t1 where mark: "recursive_mark_as_invalid (next_blocks f) ?t = Some (x, t1)" and st': "st' = st\<lparr>fork_db := t1\<rparr>"
      by (auto simp: mark_invalid_def on_fork_db_def Let_def)
    have "included_in t1 j = included_in ?t j"
      by (rule included_marked [OF mark [unfolded recursive_mark_as_invalid_def]]) simp
    then show ?thesis using Some by (auto simp: is_included_block_table st' included_in_lookup)
  qed (use run in \<open>simp add: mark_invalid_def\<close>)
qed

lemma included_mark: "mark_included i v st = Some (Inr u, st') \<Longrightarrow> is_included_block j st' = (if j = i then v else is_included_block j st)"
  by (auto simp: mark_included_def is_included_block_table Let_def split: option.splits if_splits)

lemma evaluate_pending_fork: "evaluate_pending n t st = Some (r, st') \<Longrightarrow> fork_db st' = fork_db st"
  by (cases "evaluate_transaction (base n) (db_chain_id st) t
      (Pending (case pending_trx_state st of None \<Rightarrow> new_pending_state | Some p \<Rightarrow> p) (Database (tables st)))")
    (auto simp: evaluate_pending_def Let_def split: sum.splits)

lemma reevaluate_fork: "reevaluate n ts ids st = Some (ids', st') \<Longrightarrow> fork_db st' = fork_db st"
  by (induction n ts ids st rule: reevaluate.induct)
    (auto simp: index_pending_def Let_def dest!: evaluate_pending_fork split: option.splits sum.splits)

lemma clear_pending_fork: "clear_pending n b st = Some st' \<Longrightarrow> fork_db st' = fork_db st"
  by (auto simp: clear_pending_def Let_def remove_pending_def dest: reevaluate_fork)

section \<open>Stored blocks\<close>

lemma map_of_update_other: "j \<noteq> i \<Longrightarrow> map_of (AList.update i r t) j = map_of t j"
  by (simp add: update_conv')

lemma fetch_transactions_present:
  "(\<exists>ts. fetch_transactions d ids = Inr ts) = (\<forall>i\<in>set ids. map_of (transaction_db d) i \<noteq> None)"
  by (induction ids) (auto simp: res_bind_eq_Inr split: option.split)

lemma get_block_present:
  "map_sum id fb_header (get_block i st) = Inr h \<longleftrightarrow>
    (\<exists>r. map_of (block_id_to_block_record_db st) i = Some r \<and> db_header (br_digest_block r) = h
      \<and> (\<forall>t\<in>set (user_transaction_ids (br_digest_block r)). map_of (transaction_db (tables st)) t \<noteq> None))"
proof (cases "map_of (block_id_to_block_record_db st) i")
  case (Some r)
  then show ?thesis
    using fetch_transactions_present [of "tables st" "user_transaction_ids (br_digest_block r)"]
    by (auto simp: get_block_def map_sum_eq_Inr res_bind_eq_Inr simp del: not_None_eq)
qed (simp add: get_block_def)

lemma main_chain_keep:
  assumes "main_chain n hs st" and "head_block_id st' = head_block_id st"
    and "block_num_to_id_db st' = block_num_to_id_db st"
    and "\<And>i. is_included_block i st' = is_included_block i st"
    and "\<And>i. i \<in> header_id (base n) ` set hs \<Longrightarrow>
      map_of (block_id_to_block_record_db st') i = map_of (block_id_to_block_record_db st) i"
    and "tables st' = tables st"
  shows "main_chain n hs st'"
proof -
  have "map_sum id fb_header (get_block i st') = Inr h"
    if "map_sum id fb_header (get_block i st) = Inr h" "i \<in> header_id (base n) ` set hs" for i h
    using that assms(5,6) by (simp only: get_block_present)
  then show ?thesis using assms(1-4,6) by (auto simp: main_chain_def get_head_block_num_def)
qed

text \<open>A block that is not on the main chain is stored beside it, and one that is rejected leaves it.\<close>

lemma main_chain_store:
  assumes "store_and_index n i b st = Some (r, st')" and "main_chain n hs st" and "i \<notin> header_id (base n) ` set hs"
  shows "main_chain n hs st'"
proof (rule main_chain_keep [OF assms(2)])
  show "head_block_id st' = head_block_id st" "block_num_to_id_db st' = block_num_to_id_db st" "tables st' = tables st"
    using assms(1) by (auto simp: store_and_index_def Let_def split: sum.splits prod.splits)
  show "is_included_block j st' = is_included_block j st" for j by (rule included_stored [OF assms(1)])
  show "map_of (block_id_to_block_record_db st') j = map_of (block_id_to_block_record_db st) j"
    if "j \<in> header_id (base n) ` set hs" for j
    using store_and_index_steps [OF assms(1)] assms(3) that by (metis map_of_update_other)
qed

lemma main_chain_invalid:
  assumes "mark_invalid i st = Some (r, st')" and "main_chain n hs st"
  shows "main_chain n hs st'"
  using mark_invalid_same [OF assms(1)] included_invalid [OF assms(1)]
  by (intro main_chain_keep [OF assms(2)]) (auto simp: same_ledger_def)

section \<open>A longer chain\<close>

lemma commit_included:
  assumes "commit_block n b p u st = Some (Inr (), st')"
  shows "is_included_block j st' = (j = block_id n b \<or> is_included_block j st)"
proof -
  let ?s0 = "st\<lparr>undo_state_db := AList.update (block_id n b) u (undo_state_db st),
    tables := database_of (tables st) (apply_changes (base n) p (Database (tables st)))\<rparr>"
  obtain st1 st3 where inc: "mark_included (block_id n b) True ?s0 = Some (Inr (), st1)" and "fork_db st' = fork_db st1"
    using assms by (auto simp: commit_block_def update_head_block_def run_bind_def Let_def
        dest!: clear_pending_fork split: option.splits sum.splits)
  then show ?thesis
    using included_mark [OF inc, of j] by (simp add: is_included_block_table)
qed

lemma main_chain_extend:
  assumes "extend_chain n b st = Some (Inr (), st')" and "main_chain n hs st" and "db_ok (base n) (Database (tables st))"
    and "list_all tidy (user_transactions b)" and "map_of (fork_db st) (block_id n b) \<noteq> None"
    and "block_id n b \<notin> insert null_block_id (header_id (base n) ` set hs)" and "length hs < 2 ^ 32 - 1"
  shows "main_chain n (hs @ [fb_header b]) st'"
proof -
  let ?i = "block_id n b" and ?h = "fb_header b" and ?n = "length hs"
  obtain r1 st1 where step: "try_extend_chain n b st = Some (r1, st1)"
    using assms(1) by (cases "try_extend_chain n b st") (auto simp: extend_chain_def)
  have "r1 = Inr () \<and> st1 = st'"
    using assms(1) step by (cases r1) (auto simp: extend_chain_def run_bind_def split: option.splits sum.splits)
  with step have step: "try_extend_chain n b st = Some (Inr (), st')" by simp
  show ?thesis
  proof (cases rule: try_extend_steps [OF step assms(3,4), case_names rejected committed])
    case (committed p u x)
    note effect = commit_block_effect [OF committed(7) assms(5) committed(5)]
    note chain = main_chainD [OF assms(2)]
    have d: "is_database (Database (tables st))" "pending_ok (base n) p" "transactions p = trx_table_of n b"
      using committed(4) by (auto simp: is_database_def clean_def)
    have trx: "map_of (transaction_db (tables st')) t \<noteq> None"
      if "map_of (transaction_db (tables st)) t \<noteq> None \<or> t \<in> trx_id (base n) ` set (user_transactions b)" for t
      using that transactions_after [OF d(1,2)] d(3) block_table_new [of "base n" "bh_block_num ?h" 0 "user_transactions b" "[]" t]
      by (auto simp: effect(4) get_transaction_at_def split: option.splits)
    obtain rec where rec: "br_digest_block rec = to_digest_block n b"
      "block_id_to_block_record_db st' = AList.update ?i rec (block_id_to_block_record_db st)"
      using effect(5) by blast
    have here: "map_sum id fb_header (get_block ?i st') = Inr ?h"
      using trx rec by (auto simp: get_block_present to_digest_block_def update_conv')
    have old: "map_sum id fb_header (get_block i st') = Inr h"
      if "map_sum id fb_header (get_block i st) = Inr h" "i \<noteq> ?i" for i h
      using that trx rec by (auto simp: get_block_present update_conv')
    have num: "bh_block_num ?h = of_nat (Suc ?n)"
      using committed(2) chain(1) by (auto simp: verify_header_def get_head_block_num_def Let_def split: if_splits)
    have index: "map_of (block_num_to_id_db st') (of_nat (Suc k)) =
        (if k = ?n then Some ?i else map_of (block_num_to_id_db st) (of_nat (Suc k)))" if "k \<le> ?n" for k
      using of_nat_eq_u32 [of "Suc k" "Suc ?n"] that assms(7) by (simp add: effect(7) num update_conv' del: of_nat_Suc)
    have other: "header_id (base n) (hs ! k) \<noteq> ?i" if "k < ?n" for k
      using that assms(6) by (metis image_eqI insertCI nth_mem)
    show ?thesis
      unfolding main_chain_def
    proof (intro conjI allI impI)
      show "get_head_block_num st' = of_nat (length (hs @ [?h]))" by (simp add: get_head_block_num_def effect(4) num)
      fix k assume "k < length (hs @ [?h])"
      then have k: "k < ?n \<or> k = ?n" by auto
      show "map_of (block_num_to_id_db st') (of_nat (Suc k)) = Some (header_id (base n) ((hs @ [?h]) ! k))"
        using k index chain(4) by (auto simp: nth_append block_id_def)
      show "bh_block_num ((hs @ [?h]) ! k) = of_nat (Suc k)" using k chain(5) num by (auto simp: nth_append)
      show "bh_previous ((hs @ [?h]) ! k) = (if k = 0 then null_block_id else header_id (base n) ((hs @ [?h]) ! (k - 1)))"
        using k chain(6,10) committed(1) by (auto simp: nth_append last_conv_nth)
      show "header_id (base n) ((hs @ [?h]) ! k) \<noteq> null_block_id"
        using k chain(7) assms(6) by (auto simp: nth_append block_id_def)
      show "map_sum id fb_header (get_block (header_id (base n) ((hs @ [?h]) ! k)) st') = Inr ((hs @ [?h]) ! k)"
        using k chain(8) here old [OF _ other] by (auto simp: nth_append block_id_def)
    next
      fix i assume "i \<noteq> null_block_id"
      then show "is_included_block i st' = (i \<in> header_id (base n) ` set (hs @ [?h]))"
        using chain(3) commit_included [OF committed(7), of i] by (auto simp: block_id_def)
    qed (use effect(2,4) assms(7) in \<open>auto simp: block_id_def\<close>)
  qed simp
qed

section \<open>A shorter chain\<close>

lemma main_chain_distinct:
  assumes "main_chain n (hs @ [h]) st"
  shows "header_id (base n) h \<notin> header_id (base n) ` set hs"
proof
  assume "header_id (base n) h \<in> header_id (base n) ` set hs"
  then obtain k where k: "k < length hs" "header_id (base n) h = header_id (base n) (hs ! k)" by (auto simp: in_set_conv_nth)
  then have "h = hs ! k"
    using main_chainD(8) [OF assms, of k] main_chainD(8) [OF assms, of "length hs"] by (simp add: nth_append)
  then have "(of_nat (Suc k) :: u32) = of_nat (Suc (length hs))"
    using main_chainD(5) [OF assms, of k] main_chainD(5) [OF assms, of "length hs"] k(1) by (simp add: nth_append)
  then show False using k(1) main_chainD(2) [OF assms] by (subst (asm) of_nat_eq_u32) auto
qed

lemma pop_block_steps:
  assumes "pop_block n st = Some (Inr (), st')"
  obtains st1 u h where "mark_included (head_block_id st) False st = Some (Inr (), st1)"
    and "map_of (undo_state_db st) (head_block_id st) = Some u"
    and "get_block_header (bh_previous (head_block_header (tables st))) st = Inr h"
    and "st' = st1\<lparr>block_num_to_id_db := AList.delete (bh_block_num (head_block_header (tables st))) (block_num_to_id_db st),
      tables := (database_of (tables st) (apply_changes (base n) u (Database (tables st))))\<lparr>head_block_header := h\<rparr>,
      head_block_id := bh_previous (head_block_header (tables st))\<rparr>"
proof -
  obtain r1 st1 where inc: "mark_included (head_block_id st) False st = Some (r1, st1)"
    using assms by (cases "mark_included (head_block_id st) False st") (auto simp: pop_block_def run_bind_def split: if_splits)
  note same = mark_included_same(1) [OF inc, unfolded same_ledger_def]
  have "r1 = Inr ()" using assms inc by (cases r1) (auto simp: pop_block_def run_bind_def split: if_splits)
  with assms inc same show thesis
    by (auto simp: pop_block_def run_bind_def Let_def get_block_header_def intro!: that split: if_splits option.splits)
qed

lemma main_chain_pop:
  assumes "pop_block n st = Some (Inr (), st')" and "main_chain n (hs @ [h]) st" and "hs \<noteq> []"
    and "node_ok n H s st" and "hash_ok (base n) H"
  shows "main_chain n hs st'"
proof -
  obtain st1 u h' where inc: "mark_included (head_block_id st) False st = Some (Inr (), st1)"
    and u: "map_of (undo_state_db st) (head_block_id st) = Some u"
    and h': "get_block_header (bh_previous (head_block_header (tables st))) st = Inr h'"
    and st': "st' = st1\<lparr>block_num_to_id_db := AList.delete (bh_block_num (head_block_header (tables st))) (block_num_to_id_db st),
      tables := (database_of (tables st) (apply_changes (base n) u (Database (tables st))))\<lparr>head_block_header := h'\<rparr>,
      head_block_id := bh_previous (head_block_header (tables st))\<rparr>"
    by (rule pop_block_steps [OF assms(1)])
  have "pending_ok (base n) u" by (rule node_ok_undone [OF assms(4,5) u])
  note after = transactions_after [OF _ this]
  note chain = main_chainD [OF assms(2)]
  note distinct = main_chain_distinct [OF assms(2)]
  let ?n = "length hs"
  have n: "?n - 1 < ?n" "Suc (?n - 1) = ?n" using assms(3) by auto
  have head: "head_block_header (tables st) = h" "head_block_id st = header_id (base n) h"
    using chain(9,10) by simp_all
  have prev: "bh_previous h = header_id (base n) (last hs)"
    using chain(6) [of ?n] n assms(3) by (simp add: nth_append last_conv_nth)
  have old: "map_sum id fb_header (get_block i st') = Inr x" if "map_sum id fb_header (get_block i st) = Inr x" for i x
    using that mark_included_same(1) [OF inc] after [of "Database (tables st)" "tables st"]
    by (auto simp: get_block_present st' same_ledger_def is_database_def get_transaction_at_def split: option.splits)
  have "h' = last hs"
    using h' chain(8) [of "?n - 1"] n assms(3)
    by (auto simp: head(1) prev get_block_header_def get_block_present nth_append last_conv_nth split: option.splits)
  have index: "map_of (block_num_to_id_db st') (of_nat (Suc k)) = map_of (block_num_to_id_db st) (of_nat (Suc k))" if "k < ?n" for k
    using that chain(5) [of ?n] of_nat_eq_u32 [of "Suc k" "Suc ?n"] chain(2)
    by (simp add: st' head(1) AList.delete_conv' del: of_nat_Suc)
  have get: "(hs @ [h]) ! k = hs ! k" if "k < ?n" for k using that by (simp add: nth_append)
  have lower: "k < ?n \<Longrightarrow> k < length (hs @ [h])" for k by simp
  show ?thesis
    unfolding main_chain_def
  proof (intro conjI allI impI)
    have "bh_block_num (last hs) = of_nat ?n" using chain(5) [of "?n - 1"] n assms(3) by (simp add: nth_append last_conv_nth del: of_nat_Suc)
    then show "get_head_block_num st' = of_nat ?n" by (simp add: get_head_block_num_def st' \<open>h' = last hs\<close>)
    show "length hs < 2 ^ 32" using chain(2) by simp
    show "head_block_header (tables st') = last hs" by (simp add: st' \<open>h' = last hs\<close>)
    show "head_block_id st' = (if hs = [] then null_block_id else header_id (base n) (last hs))"
      using assms(3) by (simp add: st' head(1) prev)
    fix k assume k: "k < ?n"
    show "map_of (block_num_to_id_db st') (of_nat (Suc k)) = Some (header_id (base n) (hs ! k))"
      using index [OF k] chain(4) [OF lower [OF k]] by (simp only: get [OF k])
    show "bh_block_num (hs ! k) = of_nat (Suc k)" using chain(5) [OF lower [OF k]] by (simp only: get [OF k])
    show "bh_previous (hs ! k) = (if k = 0 then null_block_id else header_id (base n) (hs ! (k - 1)))"
      using chain(6) [OF lower [OF k]] k get by simp
    show "header_id (base n) (hs ! k) \<noteq> null_block_id" using chain(7) [OF lower [OF k]] by (simp add: get [OF k])
    show "map_sum id fb_header (get_block (header_id (base n) (hs ! k)) st') = Inr (hs ! k)"
      using old [OF chain(8) [OF lower [OF k]]] by (simp only: get [OF k])
  next
    fix i assume "i \<noteq> null_block_id"
    then show "is_included_block i st' = (i \<in> header_id (base n) ` set hs)"
      using chain(3) [of i] included_mark [OF inc, of i] distinct
      by (auto simp: is_included_block_table st' head(2))
  qed
qed

section \<open>What an extension does to the main chain\<close>

text \<open>
  C3. \<open>extend_chain\<close> keeps the tables of the main chain consistent. When it returns, the block has become
  the last one of the main chain - every number leads to its block, every block of the chain can be read
  back with its transactions, and exactly the blocks of the chain are marked as included - and when it
  throws, the main chain is the one from before. The transactions of the block store no null record, that
  is, none of them registers an account with the null key as its owner or gives an asset to the account -1;
  the block is in the block tree, and not yet one of the chain.
\<close>

theorem extend_chain_main_chain:
  assumes "extend_chain n b st = Some (r, st')" and "main_chain n hs st" and "db_ok (base n) (Database (tables st))"
    and "list_all tidy (user_transactions b)" and "map_of (fork_db st) (block_id n b) \<noteq> None"
    and "block_id n b \<notin> insert null_block_id (header_id (base n) ` set hs)" and "length hs < 2 ^ 32 - 1"
  shows "main_chain n (if r = Inr () then hs @ [fb_header b] else hs) st'"
proof (cases r)
  case (Inr u)
  then show ?thesis using main_chain_extend [OF _ assms(2-)] assms(1) by simp
next
  case (Inl err)
  obtain r1 st1 where step: "try_extend_chain n b st = Some (r1, st1)"
    using assms(1) by (cases "try_extend_chain n b st") (auto simp: extend_chain_def)
  show ?thesis
  proof (cases rule: try_extend_steps [OF step assms(3,4), case_names rejected committed])
    case (rejected err')
    with assms(1) step obtain r2 where "mark_invalid (block_id n b) st = Some (r2, st')"
      by (cases "mark_invalid (block_id n b) st") (auto simp: extend_chain_def run_bind_def split: sum.splits)
    from main_chain_invalid [OF this assms(2)] show ?thesis using Inl by simp
  next
    case (committed p u x)
    have "r1 = Inr ()" by (rule commit_block_effect(1) [OF committed(7) assms(5) committed(5)])
    then show ?thesis using assms(1) step Inl by (simp add: extend_chain_def)
  qed
qed

section \<open>Blocks pushed in line\<close>

fun push_line :: "node \<Rightarrow> full_block list \<Rightarrow> chain_database_impl \<Rightarrow> chain_database_impl option" where
  "push_line n [] st = Some st"
| "push_line n (b # bs) st =
    (if bh_previous (fb_header b) = head_block_id st
     then case push_block n b st of Some (Inr _, st) \<Rightarrow> push_line n bs st | _ \<Rightarrow> None
     else None)"

lemma main_chain_push:
  assumes "push_block n b st = Some (Inr f, st')" and "main_chain n hs st" and "node_ok n H s st" and "fb_header b \<in> H"
    and "list_all plain (user_transactions b)" and "bh_previous (fb_header b) = head_block_id st"
    and "block_id n b \<notin> insert null_block_id (header_id (base n) ` set hs)" and "length hs < 2 ^ 32 - 1"
  shows "main_chain n (hs @ [fb_header b]) st'"
proof -
  obtain g st1 st2 where store: "store_and_index n (block_id n b) b st = Some (Inr g, st1)"
    and extend: "extend_chain n b st1 = Some (Inr (), st2)" and "st' = st2"
    using assms(1,6) by (auto simp: push_block_def run_bind_def Let_def get_new_fork_data_def split: option.splits sum.splits)
  note stored = store_and_index_node [OF store assms(3,4)]
  have "db_ok (base n) (Database (tables st1))" using stored(1) by (elim node_okD) (rule ledger_state(2))
  then have "main_chain n (hs @ [fb_header b]) st2"
    using main_chain_store [OF store assms(2)] stored(2) plain_tidy [OF assms(5)] assms(7,8) by (intro main_chain_extend [OF extend]) auto
  then show ?thesis by (simp add: \<open>st' = st2\<close>)
qed

lemma main_chain_line:
  assumes "push_line n bs st = Some st'" and "main_chain n hs st" and "node_ok n H s st" and "hash_ok (base n) H"
    and "fb_header ` set bs \<subseteq> H" and "\<And>b. b \<in> set bs \<Longrightarrow> list_all plain (user_transactions b)"
    and "distinct (null_block_id # map (header_id (base n)) (hs @ map fb_header bs))" and "length hs + length bs < 2 ^ 32"
  shows "main_chain n (hs @ map fb_header bs) st'"
  using assms
proof (induction bs arbitrary: st hs)
  case (Cons b bs)
  then obtain f st1 where push: "push_block n b st = Some (Inr f, st1)" and rest: "push_line n bs st1 = Some st'"
    and prev: "bh_previous (fb_header b) = head_block_id st"
    by (auto split: if_splits option.splits sum.splits)
  have "main_chain n (hs @ [fb_header b]) st1"
    by (rule main_chain_push [OF push Cons.prems(2,3) _ _ prev]) (use Cons.prems in \<open>auto simp: block_id_def\<close>)
  moreover have "node_ok n H s st1"
    by (rule leavesD [OF push_block_leaves push]) (use Cons.prems in auto)
  ultimately show ?case
    using Cons.IH [OF rest, of "hs @ [fb_header b]"] Cons.prems(4-) by simp
qed simp

section \<open>Instances\<close>

lemma main_chain_start:
  assumes "at_genesis n st" and "fork_db st = []" and "get_head_block_num st = 0"
  shows "main_chain n [] st"
  using assms by (simp add: main_chain_def at_genesis_def is_included_block_def)

definition sample_line :: "full_block list \<Rightarrow> chain_database_impl" where
  "sample_line bs = the (push_line sample_node bs sample_genesis)"

lemma sample_lines:
  "push_line sample_node [sample_block_1, sample_block_2] sample_genesis \<noteq> None"
  "push_line sample_node [sample_block_1, sample_fork_2, sample_fork_3] sample_genesis \<noteq> None"
  by code_simp+

lemma push_line_node:
  assumes "push_line n bs st = Some st'" and "node_ok n H s st" and "hash_ok (base n) H"
    and "fb_header ` set bs \<subseteq> H" and "\<And>b. b \<in> set bs \<Longrightarrow> list_all plain (user_transactions b)"
  shows "node_ok n H s st'"
  using assms
proof (induction bs arbitrary: st)
  case (Cons b bs)
  then obtain f st1 where push: "push_block n b st = Some (Inr f, st1)" and rest: "push_line n bs st1 = Some st'"
    by (auto split: if_splits option.splits sum.splits)
  have "node_ok n H s st1"
    by (rule leavesD [OF push_block_leaves push]) (use Cons.prems in auto)
  then show ?case using Cons.IH [OF rest] Cons.prems(3-) by simp
qed simp

lemma sample_line_chain:
  assumes "push_line sample_node bs sample_genesis \<noteq> None" and "set bs \<subseteq> set sample_blocks" and "distinct (map fb_header bs)"
    and "length bs < 2 ^ 32"
  shows "main_chain sample_node (map fb_header bs) (sample_line bs)"
proof -
  let ?H = "fb_header ` set sample_blocks"
  have line: "push_line sample_node bs sample_genesis = Some (sample_line bs)"
    using assms(1) by (auto simp: sample_line_def)
  have start: "main_chain sample_node [] sample_genesis"
    by (rule main_chain_start [OF sample_at_genesis]) (simp_all add: sample_genesis_def get_head_block_num_def)
  have sub: "fb_header ` set bs \<subseteq> ?H" using assms(2) by auto
  have "inj_on (header_id (base sample_node)) ?H" "null_block_id \<notin> header_id (base sample_node) ` ?H"
    using sample_hash_ok by (simp_all add: hash_ok_def)
  with sub assms(3) have "distinct (null_block_id # map (header_id (base sample_node)) ([] @ map fb_header bs))"
    by (auto simp: distinct_map intro: comp_inj_on inj_on_subset)
  from main_chain_line [OF line start genesis_ok [OF sample_at_genesis] sample_hash_ok sub _ this]
  show ?thesis using assms(2,4) sample_blocks_plain by auto
qed

definition sample_stored :: chain_database_impl where
  "sample_stored = sample_genesis\<lparr>fork_db := [(block_id sample_node sample_block_1, new_fork_data)]\<rparr>"

lemma sample_extension: "run_value (extend_chain sample_node sample_block_1 sample_stored) \<noteq> None"
  by code_simp

theorem extend_chain_main_chain_witness:
  "\<exists>st. extend_chain sample_node sample_block_1 sample_stored = Some (Inr (), st)
    \<and> main_chain sample_node [fb_header sample_block_1] st"
proof -
  obtain st where run: "extend_chain sample_node sample_block_1 sample_stored = Some (Inr (), st)"
    using sample_extension by (cases "run_value (extend_chain sample_node sample_block_1 sample_stored)") auto
  have "main_chain sample_node [] sample_genesis"
    by (rule main_chain_start [OF sample_at_genesis]) (simp_all add: sample_genesis_def get_head_block_num_def)
  then have "main_chain sample_node [] sample_stored"
    by (auto simp: main_chain_def sample_stored_def get_head_block_num_def is_included_block_def new_fork_data_def sample_genesis_def)
  moreover have "db_ok (base sample_node) (Database (tables sample_stored))"
    using sample_at_genesis by (simp add: at_genesis_def sample_stored_def)
  moreover have "block_id sample_node sample_block_1 \<noteq> null_block_id"
    using sample_hash_ok by (auto simp: hash_ok_def sample_blocks_def block_id_def)
  ultimately have "main_chain sample_node (if Inr () = (Inr () :: chain_error + unit) then [] @ [fb_header sample_block_1] else []) st"
    by (intro extend_chain_main_chain [OF run]) (simp_all add: plain_tidy sample_blocks_plain sample_blocks_def sample_stored_def)
  with run show ?thesis by simp
qed

end
