(* ===== verification/Bts_Sync.thy ===== *)
theory Bts_Sync
  imports Bts_Main_Chain
begin

text \<open>
  What the client does for the peer-to-peer network (\<open>client.cpp\<close>): the synopsis of a chain a node
  sends to its peers, the answer of a peer with the block ids that follow, and what a client does with
  the items that arrive. The synopsis halves the distance to the end of the chain with every entry.
\<close>

section \<open>Assertions and items\<close>

text \<open>
  A C assertion stops a debug build and does nothing in a release build. A header that is only
  declared holds what its constructor leaves in it.
\<close>

datatype sync_error = exception chain_error | unlinkable_block | assertion_failed

record build =
  asserts :: bool
  blank_header :: signed_block_header

definition assert_that :: "build \<Rightarrow> bool \<Rightarrow> sync_error + 'a \<Rightarrow> sync_error + 'a" where
  "assert_that bd c r = (if asserts bd \<and> \<not> c then Inl assertion_failed else r)"

definition trx_message_type :: u32 where
  "trx_message_type = 1000"

definition block_message_type :: u32 where
  "block_message_type = 1001"

section \<open>The ids a peer asks for\<close>

text \<open>The loop over the synopsis, from its end.\<close>

fun last_seen :: "block_id_type list \<Rightarrow> chain_database_impl \<Rightarrow> u32" where
  "last_seen [] st = 1"
| "last_seen (item_hash # hashes) st =
    (case get_block_num item_hash st of
       Inl _ \<Rightarrow> last_seen hashes st
     | Inr block_num \<Rightarrow> if is_included_block item_hash st then block_num else last_seen hashes st)"

definition item_header :: "build \<Rightarrow> u32 \<Rightarrow> chain_database_impl \<Rightarrow> sync_error + signed_block_header" where
  "item_header bd num st =
    (case get_block_at num st of
       Inr b \<Rightarrow> Inr (fb_header b)
     | Inl err \<Rightarrow> if err = no_result then assert_that bd False (Inr (blank_header bd)) else Inl (exception err))"

fun collect_ids :: "node \<Rightarrow> build \<Rightarrow> nat \<Rightarrow> u32 \<Rightarrow> chain_database_impl \<Rightarrow> sync_error + block_id_type list" where
  "collect_ids n bd 0 num st = Inr []"
| "collect_ids n bd (Suc k) num st =
    res_bind (item_header bd num st) (\<lambda>header.
    res_bind (collect_ids n bd k (num + 1) st) (\<lambda>ids. Inr (header_id (base n) header # ids)))"

definition get_item_ids :: "node \<Rightarrow> build \<Rightarrow> u32 \<Rightarrow> block_id_type list \<Rightarrow> u32 \<Rightarrow> chain_database_impl
    \<Rightarrow> sync_error + block_id_type list \<times> u32" where
  "get_item_ids n bd item_type blockchain_synopsis limit st =
    (if item_type \<noteq> block_message_type then Inl (exception fc_assert)
     else
       let last_seen_block_num = last_seen (rev blockchain_synopsis) st;
           head_block_num = get_head_block_num st
       in if head_block_num = 0 then Inr ([], 0)
          else assert_that bd (last_seen_block_num \<le> head_block_num)
            (let last_seen_block_num = min last_seen_block_num head_block_num;
                 remaining_item_count = head_block_num - last_seen_block_num + 1;
                 items_to_get_this_iteration = min limit remaining_item_count
             in res_bind (collect_ids n bd (unat items_to_get_this_iteration) last_seen_block_num st) (\<lambda>hashes.
                  Inr (hashes, remaining_item_count - items_to_get_this_iteration))))"

section \<open>The synopsis\<close>

text \<open>
  The highest block, the highest one of the main chain, and the blocks of the fork above it; nothing
  when the synopsis is empty.
\<close>

definition fork_reference :: "build \<Rightarrow> block_id_type \<Rightarrow> block_id_type list \<Rightarrow> chain_database_impl
    \<Rightarrow> sync_error + (u32 \<times> u32 \<times> block_id_type list) option" where
  "fork_reference bd reference_point history st =
    assert_that bd (2 \<le> length history \<and> hd history = reference_point)
      (let fork_history = rev (butlast history);
           high = (\<lambda>non_fork_high_block_num. non_fork_high_block_num + of_nat (length fork_history));
           result = (\<lambda>k. if \<not> asserts bd then Inr (Some (high k, k, fork_history))
             else (case get_block_header (last fork_history) st of
               Inl err \<Rightarrow> if err = undefined_behaviour then Inl (exception err) else Inr None
             | Inr h \<Rightarrow> assert_that bd (high k = bh_block_num h) (Inr (Some (high k, k, fork_history)))))
       in case get_block_num (last history) st of
            Inl _ \<Rightarrow> assert_that bd False (result 0)
          | Inr k \<Rightarrow> assert_that bd (0 < k) (result k))"

definition synopsis_reference :: "build \<Rightarrow> block_id_type \<Rightarrow> chain_database_impl
    \<Rightarrow> (sync_error + (u32 \<times> u32 \<times> block_id_type list) option) option" where
  "synopsis_reference bd reference_point st =
    (if reference_point \<noteq> null_block_id then
       if is_included_block reference_point st
       then Some (case get_block_num reference_point st of
           Inl _ \<Rightarrow> assert_that bd False (Inr None)
         | Inr k \<Rightarrow> assert_that bd (0 < k) (Inr (Some (k, k, []))))
       else (case get_fork_history reference_point st of
           None \<Rightarrow> None
         | Some (Inl err) \<Rightarrow> Some (if err = undefined_behaviour then Inl (exception err) else Inr None)
         | Some (Inr history) \<Rightarrow> Some (fork_reference bd reference_point history st))
     else
       let high_block_num = get_head_block_num st
       in Some (Inr (if high_block_num = 0 then None else Some (high_block_num, high_block_num, []))))"

definition synopsis_item :: "node \<Rightarrow> u32 \<Rightarrow> block_id_type list \<Rightarrow> chain_database_impl \<Rightarrow> u32 \<Rightarrow> sync_error + block_id_type" where
  "synopsis_item n non_fork_high_block_num fork_history st low_block_num =
    (if low_block_num \<le> non_fork_high_block_num
     then (case get_block_at low_block_num st of Inl err \<Rightarrow> Inl (exception err) | Inr b \<Rightarrow> Inr (block_id n b))
     else
       let k = unat (low_block_num - non_fork_high_block_num - 1)
       in if k < length fork_history then Inr (fork_history ! k) else Inl (exception undefined_behaviour))"

text \<open>The loop of \<open>get_blockchain_synopsis\<close>; it never ends when the highest number is the largest one.\<close>

definition next_low :: "u32 \<Rightarrow> u32 \<Rightarrow> u32" where
  "next_low true_high_block_num low_block_num = low_block_num + (true_high_block_num - low_block_num + 2) div 2"

partial_function (option) synopsis_loop :: "(u32 \<Rightarrow> sync_error + 'i) \<Rightarrow> u32 \<Rightarrow> u32 \<Rightarrow> u32 \<Rightarrow> 'i list \<Rightarrow> (sync_error + 'i list) option" where
  "synopsis_loop item high true_high low synopsis =
    (case item low of
       Inl err \<Rightarrow> Some (Inl err)
     | Inr i \<Rightarrow>
         let synopsis = synopsis @ [i]; low = next_low true_high low
         in if low \<le> high then synopsis_loop item high true_high low synopsis else Some (Inr synopsis))"

definition get_blockchain_synopsis :: "node \<Rightarrow> build \<Rightarrow> u32 \<Rightarrow> block_id_type \<Rightarrow> u32 \<Rightarrow> chain_database_impl
    \<Rightarrow> (sync_error + block_id_type list) option" where
  "get_blockchain_synopsis n bd item_type reference_point number_after st =
    (if item_type \<noteq> block_message_type then Some (Inl (exception fc_assert))
     else case synopsis_reference bd reference_point st of
       None \<Rightarrow> None
     | Some (Inl err) \<Rightarrow> Some (Inl err)
     | Some (Inr None) \<Rightarrow> Some (Inr [])
     | Some (Inr (Some (high, non_fork_high, fork_history))) \<Rightarrow>
         synopsis_loop (synopsis_item n non_fork_high fork_history st) high (high + number_after) 1 [])"

section \<open>Items that arrive and items that are asked for\<close>

type_synonym 'a client_run = "((sync_error + 'a) \<times> chain_database_impl) option"

definition check_linked :: "bool \<Rightarrow> block_fork_data \<Rightarrow> sync_error + block_fork_data" where
  "check_linked sync_mode f = (if sync_mode \<and> \<not> is_linked f then Inl unlinkable_block else Inr f)"

definition new_block :: "node \<Rightarrow> full_block \<Rightarrow> bool \<Rightarrow> chain_database_impl \<Rightarrow> block_fork_data client_run" where
  "new_block n b sync_mode st =
    map_option (\<lambda>(r, st). (case r of Inl err \<Rightarrow> Inl (exception err) | Inr f \<Rightarrow> check_linked sync_mode f, st)) (push_block n b st)"

definition on_new_block :: "node \<Rightarrow> full_block \<Rightarrow> block_id_type \<Rightarrow> bool \<Rightarrow> chain_database_impl \<Rightarrow> block_fork_data client_run" where
  "on_new_block n b i sync_mode st =
    (case map_of (fork_db st) i of
       Some f \<Rightarrow> if is_known_data f then Some (check_linked sync_mode f, st) else new_block n b sync_mode st
     | None \<Rightarrow> new_block n b sync_mode st)"


datatype client_message = block_message full_block block_id_type | trx_message signed_transaction | other_message u32

definition has_item :: "u32 \<Rightarrow> bytes \<Rightarrow> chain_database_impl \<Rightarrow> bool" where
  "has_item item_type item_hash st =
    (if item_type = block_message_type then is_known_block item_hash st
     else if item_type = trx_message_type then is_known_transaction item_hash st else False)"

text \<open>The result of a new block is whether it was included, or else whether it was to extend the head.\<close>

definition handle_message :: "node \<Rightarrow> client_message \<Rightarrow> bool \<Rightarrow> chain_database_impl \<Rightarrow> bool client_run" where
  "handle_message n m sync_mode st =
    (case m of
       block_message b i \<Rightarrow>
         let old_head_block = head_block_id st
         in map_option (\<lambda>(r, st). (map_sum id (\<lambda>f. is_included f \<noteq> (bh_previous (fb_header b) = old_head_block)) r, st))
              (on_new_block n b i sync_mode st)
     | trx_message t \<Rightarrow>
         map_option (\<lambda>(r, st). (map_sum exception (\<lambda>_. False) r, st)) (store_pending_transaction n t st)
     | other_message _ \<Rightarrow> Some (Inr False, st))"

text \<open>A transaction that is found is put into a message, but the message is not returned.\<close>

definition get_item :: "node \<Rightarrow> u32 \<Rightarrow> bytes \<Rightarrow> chain_database_impl \<Rightarrow> sync_error + client_message" where
  "get_item n item_type item_hash st =
    (if item_type = block_message_type
     then (case get_block item_hash st of
         Inl err \<Rightarrow> Inl (exception err)
       | Inr b \<Rightarrow> if item_hash \<noteq> block_id n b then Inl (exception fc_assert) else Inr (block_message b (block_id n b)))
     else Inl (exception no_result))"

section \<open>The numbers of a synopsis\<close>

function halving :: "nat \<Rightarrow> nat \<Rightarrow> nat list" where
  "halving h l = (if l \<le> h then l # halving h (l + (h - l + 2) div 2) else [])"
  by pat_completeness auto
termination by (relation "measure (\<lambda>(h, l). Suc h - l)") auto

declare halving.simps [simp del]

lemma halving_Nil [simp]: "h < l \<Longrightarrow> halving h l = []"
  by (subst halving.simps) simp

lemma halving_Cons: "l \<le> h \<Longrightarrow> halving h l = l # halving h (l + (h - l + 2) div 2)"
  by (subst halving.simps) simp

lemma halving_bounds: "p \<in> set (halving h l) \<Longrightarrow> l \<le> p \<and> p \<le> h"
proof (induction h l rule: halving.induct)
  case (1 h l)
  then show ?case by (cases "l \<le> h") (auto simp: halving_Cons)
qed

lemma halving_sorted: "sorted_wrt (<) (halving h l)"
proof (induction h l rule: halving.induct)
  case (1 h l)
  then show ?case by (cases "l \<le> h") (auto simp: halving_Cons dest: halving_bounds)
qed

lemma halving_last: "l \<le> h \<Longrightarrow> last (halving h l) = h"
proof (induction h l rule: halving.induct)
  case (1 h l)
  then show ?case
    by (cases "l = h") (auto simp: halving_Cons)
qed

lemma halving_length: "l \<le> h \<Longrightarrow> 2 ^ (length (halving h l) - 1) \<le> h - l + 1 \<and> h - l + 1 < 2 ^ length (halving h l)"
proof (induction h l rule: halving.induct)
  case (1 h l)
  show ?case
  proof (cases "l = h")
    case True
    then show ?thesis by (simp add: halving_Cons)
  next
    case False
    let ?l = "l + (h - l + 2) div 2"
    from False 1(2) have step: "?l \<le> h" "l \<le> h" by auto
    with 1(1) have ih: "2 ^ (length (halving h ?l) - 1) \<le> h - ?l + 1" "h - ?l + 1 < 2 ^ length (halving h ?l)" by auto
    obtain k where k: "length (halving h ?l) = Suc k" using halving_Cons [OF step(1)] by (metis length_Cons)
    have "h - l + 1 < 2 * (h - ?l + 1) + 2" "2 * (h - ?l + 1) \<le> h - l + 1" using step by auto
    then show ?thesis using ih step k by (simp add: halving_Cons [of l])
  qed
qed

text \<open>An entry that is passed over is less than half as far from the end as the one before it.\<close>

lemma halving_next:
  assumes "l \<le> c" and "c \<le> h"
  shows "\<exists>p\<in>set (halving h l). p \<le> c \<and> h - p \<le> 2 * (h - c) \<and> (\<forall>q\<in>set (halving h l). q \<le> c \<longrightarrow> q \<le> p)"
  using assms
proof (induction h l rule: halving.induct)
  case (1 h l)
  let ?l = "l + (h - l + 2) div 2"
  have l: "halving h l = l # halving h ?l" using 1(2,3) by (simp add: halving_Cons)
  show ?case
  proof (cases "?l \<le> c")
    case True
    with 1 obtain p where "p \<in> set (halving h ?l)" "p \<le> c" "h - p \<le> 2 * (h - c)"
      "\<forall>q\<in>set (halving h ?l). q \<le> c \<longrightarrow> q \<le> p" by auto
    then show ?thesis unfolding l using halving_bounds [of p h ?l] by (intro bexI [of _ p]) auto
  next
    case False
    then have "h - l \<le> 2 * (h - c)" "\<forall>q\<in>set (halving h ?l). \<not> q \<le> c"
      using 1(2,3) halving_bounds [of _ h ?l] by fastforce+
    then show ?thesis unfolding l using 1(2) by auto
  qed
qed

section \<open>The loop of the synopsis\<close>

lemma half_u32: "m < 2 ^ 32 \<Longrightarrow> (of_nat m :: u32) div 2 = of_nat (m div 2)"
  by (simp add: word_unat_eq_iff unat_div unat_of_nat take_bit_nat_eq_self)

lemma next_low_nat:
  assumes "1 \<le> l" and "l \<le> th" and "th < 2 ^ 32 - 1"
  shows "next_low (of_nat th) (of_nat l) = of_nat (l + (th - l + 2) div 2)"
proof -
  have diff: "(of_nat th :: u32) - of_nat l + 2 = of_nat (th - l + 2)"
    using assms(2) by (simp add: of_nat_diff)
  have "(of_nat (th - l + 2) :: u32) div 2 = of_nat ((th - l + 2) div 2)"
    by (rule half_u32) (use assms in simp)
  with diff show ?thesis by (simp only: next_low_def of_nat_add)
qed

lemma synopsis_loop_halving:
  assumes "1 \<le> l" and "l \<le> high" and "high \<le> th" and "th < 2 ^ 32 - 1"
    and "\<And>p. l \<le> p \<Longrightarrow> p \<le> high \<Longrightarrow> item (of_nat p) = Inr (chain p)"
  shows "synopsis_loop item (of_nat high) (of_nat th) (of_nat l) acc
    = Some (Inr (acc @ map chain (filter (\<lambda>p. p \<le> high) (halving th l))))"
  using assms
proof (induction th l arbitrary: acc rule: halving.induct)
  case (1 th l)
  let ?l = "l + (th - l + 2) div 2"
  have low: "next_low (of_nat th) (of_nat l) = of_nat ?l" using next_low_nat 1(2-5) by simp
  have less: "((of_nat ?l :: u32) \<le> of_nat high) = (?l \<le> high)" using 1(3-5) by (intro of_nat_le_u32) auto
  have l: "halving th l = l # halving th ?l" using 1(3,4) by (simp add: halving_Cons)
  show ?case
  proof (cases "?l \<le> high")
    case True
    then show ?thesis
      using 1(1) [of "acc @ [chain l]"] 1(2-6) l low less by (subst synopsis_loop.simps) (simp add: Let_def)
  next
    case False
    then have "filter (\<lambda>p. p \<le> high) (halving th ?l) = []" using halving_bounds [of _ th ?l] by (fastforce simp: filter_empty_conv)
    then show ?thesis
      using False 1(2-6) l low less by (subst synopsis_loop.simps) (simp add: Let_def)
  qed
qed

section \<open>The answer to a synopsis\<close>

lemma collect_ids_chain:
  "main_chain n hs st \<Longrightarrow> 1 \<le> p \<Longrightarrow> p + k \<le> length hs + 1
   \<Longrightarrow> collect_ids n bd k (of_nat p) st = Inr (map (header_id (base n)) (take k (drop (p - 1) hs)))"
proof (induction k arbitrary: p)
  case (Suc k)
  obtain b where b: "get_block_at (of_nat p) st = Inr b" "fb_header b = hs ! (p - 1)"
    by (rule main_chain_block [OF Suc.prems(1,2)]) (use Suc.prems in auto)
  have "drop (p - 1) hs = hs ! (p - 1) # drop p hs"
    using Suc.prems Cons_nth_drop_Suc [of "p - 1" hs] by simp
  then show ?case
    using Suc.IH [OF Suc.prems(1), of "Suc p"] Suc.prems(2,3) b by (simp add: item_header_def add.commute)
qed simp

lemma last_seen_chain:
  assumes "main_chain n hs st" and "null_block_id \<notin> set hashes"
  shows "last_seen hashes st = (case find (\<lambda>i. i \<in> header_id (base n) ` set hs) hashes of
      None \<Rightarrow> 1 | Some i \<Rightarrow> projr (get_block_num i st))"
  using assms(2)
proof (induction hashes)
  case (Cons i hashes)
  then have inc: "is_included_block i st = (i \<in> header_id (base n) ` set hs)" and ih: "null_block_id \<notin> set hashes"
    using main_chainD(3) [OF assms(1), of i] by auto
  show ?case
  proof (cases "i \<in> header_id (base n) ` set hs")
    case True
    then obtain k where "k < length hs" "i = header_id (base n) (hs ! k)" by (auto simp: in_set_conv_nth)
    then show ?thesis using main_chain_num [OF assms(1)] inc True by simp
  next
    case False
    then show ?thesis using Cons.IH [OF ih] inc by (simp split: sum.split)
  qed
qed simp

lemma get_item_ids_chain:
  assumes "main_chain n hs st" and "hs \<noteq> []" and "1 \<le> p" and "p \<le> length hs" and "last_seen (rev synopsis) st = of_nat p"
  shows "get_item_ids n bd block_message_type synopsis limit st =
    (let ids = take (unat limit) (drop (p - 1) (map (header_id (base n)) hs))
     in Inr (ids, of_nat (length hs - (p - 1) - length ids)))"
proof -
  define r where "r = length hs - (p - 1)"
  define k where "k = min (unat limit) r"
  note head = main_chainD(1,2) [OF assms(1)]
  have r: "r < 2 ^ 32" "p + r = length hs + 1" using head(2) assms(3,4) by (auto simp: r_def)
  have num: "get_head_block_num st \<noteq> 0"
    using head assms(2) of_nat_eq_u32 [of "length hs" 0] by (simp del: of_nat_eq_0_iff)
  have le: "(of_nat p :: u32) \<le> of_nat (length hs)" using head assms(4) by (subst of_nat_le_u32) auto
  have "(of_nat (length hs) :: u32) = of_nat (p - 1 + r)" using assms(4) by (simp add: r_def)
  then have diff: "(of_nat (length hs) :: u32) - of_nat p + 1 = of_nat r"
    using assms(3) by (simp add: of_nat_diff)
  have unat_r: "unat (of_nat r :: u32) = r" using r by (simp add: unat_of_nat take_bit_nat_eq_self)
  then have min: "min limit (of_nat r) = of_nat k"
    by (simp add: min_def word_le_nat_alt k_def)
  have unat_k: "unat (of_nat k :: u32) = k" using r by (simp add: unat_of_nat take_bit_nat_eq_self k_def)
  have "collect_ids n bd k (of_nat p) st = Inr (map (header_id (base n)) (take k (drop (p - 1) hs)))"
    by (rule collect_ids_chain [OF assms(1,3)]) (use r in \<open>auto simp: k_def\<close>)
  moreover have "take k (drop (p - 1) hs) = take (unat limit) (drop (p - 1) hs)" by (simp add: k_def r_def min_def)
  moreover have "length (take (unat limit) (drop (p - 1) hs)) = k" by (simp add: k_def r_def min.commute)
  moreover have "(of_nat r :: u32) - of_nat k = of_nat (r - k)" by (rule of_nat_diff [symmetric]) (simp add: k_def)
  moreover have "r - k = length hs - (p - 1 + k)" by (simp add: r_def)
  ultimately show ?thesis
    using num le by (simp add: get_item_ids_def assms(5) head(1) Let_def assert_that_def min_absorb1 diff min unat_k
        drop_map take_map r_def [symmetric])
qed

text \<open>The first element of a sorted list, from its end, below a bound.\<close>

lemma find_rev_sorted:
  assumes "sorted_wrt (<) ps" and "p \<in> set ps" and "P p" and "\<And>q. q \<in> set ps \<Longrightarrow> P q \<Longrightarrow> q \<le> (p :: nat)"
  shows "find P (rev ps) = Some p"
  using assms
proof (induction ps rule: rev_induct)
  case (snoc q ps)
  show ?case
  proof (cases "p = q")
    case False
    with snoc.prems(1,2) have "p < q" "p \<in> set ps" by (auto simp: sorted_wrt_append)
    then have "\<not> P q" using snoc.prems(4) [of q] by force
    then show ?thesis using snoc \<open>p \<in> set ps\<close> by (simp add: sorted_wrt_append)
  qed (use snoc.prems(3) in simp)
qed simp

lemma find_map: "find P (map f xs) = map_option f (find (\<lambda>x. P (f x)) xs)"
  by (induction xs) auto

section \<open>A round of synchronisation\<close>

lemma synopsis_chain_loop:
  assumes "main_chain n hs st" and "1 \<le> k" and "k \<le> length hs" and "k + unat number_after < 2 ^ 32 - 1"
  shows "synopsis_loop (synopsis_item n (of_nat k) [] st) (of_nat k) (of_nat k + number_after) 1 []
    = Some (Inr (map (\<lambda>p. header_id (base n) (hs ! (p - 1))) (filter (\<lambda>p. p \<le> k) (halving (k + unat number_after) 1))))"
proof -
  have "synopsis_item n (of_nat k) [] st (of_nat p) = Inr (header_id (base n) (hs ! (p - 1)))" if p: "1 \<le> p" "p \<le> k" for p
  proof -
    have "(of_nat p :: u32) \<le> of_nat k" using p assms(4) by (subst of_nat_le_u32) auto
    moreover obtain b where "get_block_at (of_nat p) st = Inr b" "fb_header b = hs ! (p - 1)"
      by (rule main_chain_block [OF assms(1) p(1)]) (use p assms(3) in auto)
    ultimately show ?thesis by (simp add: synopsis_item_def block_id_def)
  qed
  then have "synopsis_loop (synopsis_item n (of_nat k) [] st) (of_nat k) (of_nat (k + unat number_after)) (of_nat 1) []
    = Some (Inr ([] @ map (\<lambda>p. header_id (base n) (hs ! (p - 1))) (filter (\<lambda>p. p \<le> k) (halving (k + unat number_after) 1))))"
    using assms(2,4) by (intro synopsis_loop_halving) auto
  then show ?thesis by simp
qed

lemma synopsis_of_chain:
  assumes "main_chain n hs st" and "hs \<noteq> []" and "length hs + unat number_after < 2 ^ 32 - 1"
  shows "get_blockchain_synopsis n bd block_message_type null_block_id number_after st
    = Some (Inr (map (\<lambda>p. header_id (base n) (hs ! (p - 1)))
        (filter (\<lambda>p. p \<le> length hs) (halving (length hs + unat number_after) 1))))"
proof -
  let ?h = "length hs"
  have "get_head_block_num st \<noteq> 0"
    using main_chainD(1,2) [OF assms(1)] assms(2) of_nat_eq_u32 [of ?h 0] by (simp del: of_nat_eq_0_iff)
  then have "synopsis_reference bd null_block_id st = Some (Inr (Some (of_nat ?h, of_nat ?h, [])))"
    by (simp add: synopsis_reference_def Let_def main_chainD(1) [OF assms(1)])
  then show ?thesis
    using synopsis_chain_loop [OF assms(1) _ _ assms(3)] assms(2) by (simp add: get_blockchain_synopsis_def Suc_le_eq)
qed

text \<open>The synopsis up to a block of the chain.\<close>

lemma synopsis_up_to:
  assumes "main_chain n hs st" and "1 \<le> k" and "k \<le> length hs" and "k + unat number_after < 2 ^ 32 - 1"
  shows "get_blockchain_synopsis n bd block_message_type (header_id (base n) (hs ! (k - 1))) number_after st
    = Some (Inr (map (\<lambda>p. header_id (base n) (hs ! (p - 1))) (filter (\<lambda>p. p \<le> k) (halving (k + unat number_after) 1))))"
proof -
  let ?i = "header_id (base n) (hs ! (k - 1))"
  have k: "k - 1 < length hs" using assms(2,3) by linarith
  have "?i \<noteq> null_block_id" "is_included_block ?i st" "get_block_num ?i st = Inr (of_nat k)"
    using main_chainD(3,7) [OF assms(1)] main_chain_num [OF assms(1) k] k assms(2) by auto
  moreover have "(0 :: u32) < of_nat k" using assms(2,4) of_nat_eq_u32 [of k 0] by (simp add: word_gt_0 del: of_nat_eq_0_iff)
  ultimately have "synopsis_reference bd ?i st = Some (Inr (Some (of_nat k, of_nat k, [])))"
    by (simp add: synopsis_reference_def assert_that_def)
  then show ?thesis using synopsis_chain_loop [OF assms] by (simp add: get_blockchain_synopsis_def)
qed

text \<open>The number of blocks two chains share.\<close>

fun common_length :: "'a list \<Rightarrow> 'a list \<Rightarrow> nat" where
  "common_length (x # xs) (y # ys) = (if x = y then Suc (common_length xs ys) else 0)"
| "common_length _ _ = 0"

lemma common_length_take:
  "k \<le> common_length xs ys \<longleftrightarrow> k \<le> length xs \<and> k \<le> length ys \<and> take k xs = take k ys"
proof (induction xs ys arbitrary: k rule: common_length.induct)
  case (1 x xs y ys)
  then show ?case by (cases k) auto
qed auto

lemma in_chain_iff:
  assumes "main_chain n xs a" and "main_chain n ys b" and "hash_ok (base n) (set xs \<union> set ys)"
    and "1 \<le> p \<and> p \<le> length xs"
  shows "(header_id (base n) (xs ! (p - 1)) \<in> header_id (base n) ` set ys) = (p \<le> common_length xs ys)"
proof -
  obtain k where k: "p = Suc k" using assms(4) by (cases p) auto
  have "header_id (base n) (xs ! k) \<in> header_id (base n) ` set ys" if "take (Suc k) xs = take (Suc k) ys" "k < length ys"
    using that by (metis image_eqI lessI nth_mem nth_take)
  then show ?thesis
    using chains_agree [OF assms(1-3), of k] assms(4) k by (auto simp: common_length_take Suc_le_eq)
qed

lemma find_SomeD: "find P xs = Some x \<Longrightarrow> P x \<and> x \<in> set xs"
  by (induction xs) (auto split: if_splits)

text \<open>
  C4. A round of synchronisation finds the fork. The synopsis of a node has one entry for each halving
  of its chain. A peer answers it with consecutive ids of its own chain, as many as the limit allows,
  that start at a block both chains have - or at the first block, when they share none - and no more than
  twice as far below the end of the node's chain as the fork point; the count with the answer is that of
  the ids left out.
\<close>

theorem sync_round:
  assumes "main_chain n xs a" and "main_chain n ys b" and "hash_ok (base n) (set xs \<union> set ys)"
    and "xs \<noteq> []" and "ys \<noteq> []" and "length xs < 2 ^ 32 - 1"
  shows "\<exists>s p. get_blockchain_synopsis n bd block_message_type null_block_id 0 a = Some (Inr s)
    \<and> 2 ^ (length s - 1) \<le> length xs
    \<and> get_item_ids n bd block_message_type s limit b =
      (let ids = take (unat limit) (drop (p - 1) (map (header_id (base n)) ys))
       in Inr (ids, of_nat (length ys - (p - 1) - length ids)))
    \<and> 1 \<le> p \<and> p \<le> max 1 (common_length xs ys) \<and> length xs - p \<le> 2 * (length xs - common_length xs ys)"
proof -
  let ?id = "header_id (base n)" and ?h = "length xs" and ?c = "common_length xs ys"
  let ?ps = "halving ?h 1" and ?x = "\<lambda>p. header_id (base n) (xs ! (p - 1))"
  let ?s = "map ?x ?ps"
  have h: "1 \<le> ?h" using assms(4) by (simp add: Suc_le_eq)
  have "filter (\<lambda>p. p \<le> ?h) ?ps = ?ps" using halving_bounds by (fastforce simp: filter_id_conv)
  with assms(6) have syn: "get_blockchain_synopsis n bd block_message_type null_block_id 0 a = Some (Inr ?s)"
    using synopsis_of_chain [OF assms(1,4), of 0] by simp
  have len: "2 ^ (length ?s - 1) \<le> ?h" using halving_length [OF h] h by (metis le_add_diff_inverse2 length_map)
  have ids: "?x p \<noteq> null_block_id" if "p \<in> set ?ps" for p
  proof -
    have "p - 1 < length xs" using halving_bounds [OF that] h by linarith
    then show ?thesis by (rule main_chainD(7) [OF assms(1)])
  qed
  have common: "(?x p \<in> ?id ` set ys) = (p \<le> ?c)" if "p \<in> set ?ps" for p
    using in_chain_iff [OF assms(1-3)] halving_bounds [OF that] by simp
  have seen: "last_seen (rev ?s) b = (case find (\<lambda>p. p \<le> ?c) (rev ?ps) of None \<Rightarrow> 1 | Some p \<Rightarrow> of_nat p)"
  proof -
    have "find (\<lambda>i. i \<in> ?id ` set ys) (rev ?s) = map_option ?x (find (\<lambda>p. p \<le> ?c) (rev ?ps))"
      by (simp add: rev_map find_map) (rule arg_cong [OF find_cong [OF refl]], use common in simp)
    moreover have "null_block_id \<notin> set (rev ?s)" using ids by force
    moreover have "projr (get_block_num (?x p) b) = of_nat p" if "p \<in> set ?ps" "p \<le> ?c" for p
    proof -
      have p: "take p xs = take p ys" "p \<le> length ys" "1 \<le> p"
        using that halving_bounds [OF that(1)] by (auto simp: common_length_take)
      then have "xs ! (p - 1) = ys ! (p - 1)" by (metis Suc_diff_le diff_Suc_1 diff_less lessI less_one nth_take not_le)
      then show ?thesis using main_chain_num [OF assms(2), of "p - 1"] p by simp
    qed
    ultimately show ?thesis
      using last_seen_chain [OF assms(2)] by (auto split: option.split dest!: find_SomeD)
  qed
  have "\<exists>p. last_seen (rev ?s) b = of_nat p \<and> 1 \<le> p \<and> p \<le> max 1 ?c \<and> ?h - p \<le> 2 * (?h - ?c)"
  proof (cases "1 \<le> ?c")
    case True
    have "?c \<le> ?h" using common_length_take by blast
    then obtain p where p: "p \<in> set ?ps" "p \<le> ?c" "?h - p \<le> 2 * (?h - ?c)" "\<And>q. q \<in> set ?ps \<Longrightarrow> q \<le> ?c \<Longrightarrow> q \<le> p"
      using halving_next [OF True] by blast
    then have "find (\<lambda>p. p \<le> ?c) (rev ?ps) = Some p" by (intro find_rev_sorted halving_sorted)
    with seen p show ?thesis using halving_bounds [OF p(1)] by auto
  next
    case False
    then have "find (\<lambda>p. p \<le> ?c) (rev ?ps) = None" using halving_bounds by (fastforce simp: find_None_iff)
    with seen False show ?thesis by (intro exI [of _ 1]) auto
  qed
  then obtain p where p: "last_seen (rev ?s) b = of_nat p" "1 \<le> p" "p \<le> max 1 ?c" "?h - p \<le> 2 * (?h - ?c)" by blast
  have "?c \<le> length ys" using common_length_take by blast
  moreover have "1 \<le> length ys" using assms(5) by (simp add: Suc_le_eq)
  ultimately have "p \<le> length ys" using p(3) by auto
  then show ?thesis
    by (intro exI [of _ ?s] exI [of _ p] conjI syn len get_item_ids_chain [OF assms(2,5) p(2) _ p(1)] p(2-4))
qed

definition sample_build :: build where
  "sample_build = \<lparr>asserts = True, blank_header = sample_header\<rparr>"

lemma sample_two_chain:
  "main_chain sample_node (map fb_header [sample_block_1, sample_block_2]) (sample_line [sample_block_1, sample_block_2])"
proof (rule sample_line_chain [OF sample_lines(1)])
  show "distinct (map fb_header [sample_block_1, sample_block_2])"
    by (simp add: sample_block_1_def sample_block_2_def sample_block_def)
qed (auto simp: sample_blocks_def)

theorem sync_round_witness:
  "\<exists>s p. get_blockchain_synopsis sample_node sample_build block_message_type null_block_id 0
      (sample_line [sample_block_1, sample_block_2]) = Some (Inr s)
    \<and> get_item_ids sample_node sample_build block_message_type s 2000
        (sample_line [sample_block_1, sample_fork_2, sample_fork_3]) =
      (let ids = take 2000 (drop (p - 1) (map (block_id sample_node) [sample_block_1, sample_fork_2, sample_fork_3]))
       in Inr (ids, of_nat (3 - (p - 1) - length ids)))
    \<and> p = 1"
proof -
  have diff: "fb_header sample_block_1 \<noteq> fb_header sample_block_2" "fb_header sample_block_1 \<noteq> fb_header sample_fork_2"
    "fb_header sample_block_1 \<noteq> fb_header sample_fork_3" "fb_header sample_fork_2 \<noteq> fb_header sample_fork_3"
    "fb_header sample_block_2 \<noteq> fb_header sample_fork_2"
    by (simp_all add: sample_block_1_def sample_block_2_def sample_fork_2_def sample_fork_3_def sample_block_def)
  have b: "main_chain sample_node (map fb_header [sample_block_1, sample_fork_2, sample_fork_3])
      (sample_line [sample_block_1, sample_fork_2, sample_fork_3])"
    by (rule sample_line_chain [OF sample_lines(2)]) (auto simp: sample_blocks_def diff)
  have h: "hash_ok (base sample_node) (set (map fb_header [sample_block_1, sample_block_2])
      \<union> set (map fb_header [sample_block_1, sample_fork_2, sample_fork_3]))"
    using sample_hash_ok by (simp add: hash_ok_def sample_blocks_def insert_commute)
  show ?thesis
    using sync_round [OF sample_two_chain b h, where bd = sample_build and limit = 2000] diff
    by (auto simp: block_id_def o_def)
qed

section \<open>A block with a claimed identifier\<close>

lemma fetch_transactions_missing:
  "i \<in> set ids \<Longrightarrow> map_of (transaction_db d) i = None \<Longrightarrow> fetch_transactions d ids = Inl unknown_transaction"
  by (induction ids) (auto simp: res_bind_def split: option.split)

lemma repush_steps:
  assumes "push_block n b st = Some (Inr f, st')" and "bh_previous (fb_header b) \<noteq> head_block_id st"
    and "\<not> bh_block_num (head_block_header (tables st)) < bh_block_num (fb_header b)"
  shows "store_and_index n (block_id n b) b st = Some (Inr f, st')"
proof -
  obtain r st1 where store: "store_and_index n (block_id n b) b st = Some (r, st1)"
    using assms(1) by (cases "store_and_index n (block_id n b) b st") (auto simp: push_block_def run_bind_def Let_def)
  have "head_block_id st1 = head_block_id st \<and> tables st1 = tables st"
    by (rule store_and_index_steps [OF store]) simp_all
  then show ?thesis
    using assms store by (cases r) (auto simp: push_block_def run_bind_def Let_def)
qed

lemma handle_unknown_block:
  assumes "\<not> is_known_block i st" and "handle_message n (block_message b i) sync_mode st = Some (Inr r, st')"
  obtains f where "push_block n b st = Some (Inr f, st')"
proof -
  have "on_new_block n b i sync_mode st = new_block n b sync_mode st"
    using assms(1) by (auto simp: on_new_block_def is_known_block_def split: option.split)
  with assms(2) that show ?thesis
    by (cases "push_block n b st") (auto simp: handle_message_def new_block_def check_linked_def split: sum.splits if_splits)
qed

lemma main_chain_previous:
  assumes "main_chain n hs st" and "k < length hs"
  shows "bh_previous (hs ! k) \<noteq> head_block_id st"
proof -
  have ne: "hs \<noteq> []" using assms(2) by auto
  then have split: "hs = butlast hs @ [last hs]" by simp
  have head: "head_block_id st = header_id (base n) (last hs)" using main_chainD(10) [OF assms(1)] ne by simp
  show ?thesis
  proof (cases k)
    case 0
    have "header_id (base n) (hs ! (length hs - 1)) \<noteq> null_block_id"
      by (rule main_chainD(7) [OF assms(1)]) (use ne in simp)
    then show ?thesis using 0 main_chainD(6) [OF assms] head by (simp add: last_conv_nth [OF ne])
  next
    case (Suc j)
    have "header_id (base n) (last hs) \<notin> header_id (base n) ` set (butlast hs)"
      by (rule main_chain_distinct [of n _ _ st]) (use assms(1) split in simp)
    moreover have "hs ! j \<in> set (butlast hs)"
      using Suc assms(2) nth_butlast [of j hs] nth_mem [of j "butlast hs"] by simp
    ultimately have "header_id (base n) (hs ! j) \<noteq> header_id (base n) (last hs)" by (metis imageI)
    then show ?thesis using Suc main_chainD(6) [OF assms] head by simp
  qed
qed

text \<open>
  C5. A peer can spoil a stored block. The client skips a block it knows, but looks it up under the
  identifier the message claims, not under that of the block. With an unknown one, a block of the main
  chain that comes again is stored again, with the transactions the peer has put under its header:
  from then on the block cannot be read, when one of them is unknown to the chain.
\<close>

theorem claimed_id_spoils_block:
  assumes "main_chain n hs st" and "k < length hs" and "fb_header b = hs ! k"
    and "\<not> is_known_block i st"
    and "t \<in> set (user_transactions b)" and "map_of (transaction_db (tables st)) (trx_id (base n) t) = None"
    and "handle_message n (block_message b i) sync_mode st = Some (Inr r, st')"
  shows "get_block (header_id (base n) (hs ! k)) st' = Inl unknown_transaction \<and> \<not> main_chain n hs st'"
proof -
  let ?id = "header_id (base n) (hs ! k)"
  have id: "block_id n b = ?id" by (simp add: block_id_def assms(3))
  obtain f where push: "push_block n b st = Some (Inr f, st')"
    by (rule handle_unknown_block [OF assms(4,7)])
  have "bh_previous (hs ! k) \<noteq> head_block_id st" by (rule main_chain_previous [OF assms(1,2)])
  moreover have "\<not> bh_block_num (head_block_header (tables st)) < bh_block_num (hs ! k)"
    using main_chainD(1,2,5) [OF assms(1)] assms(2) of_nat_le_u32 [of "Suc k" "length hs"]
    by (simp add: get_head_block_num_def not_less del: of_nat_Suc)
  ultimately have store: "store_and_index n ?id b st = Some (Inr f, st')"
    using repush_steps [OF push] by (simp add: assms(3) id)
  obtain rec where rec: "make_block_record n b st = Inr rec" and tables: "tables st' = tables st"
    and records: "block_id_to_block_record_db st' = AList.update ?id rec (block_id_to_block_record_db st)"
    by (rule store_and_index_steps [OF store]) simp_all
  have "br_digest_block rec = to_digest_block n b" using rec by (auto simp: make_block_record_def res_bind_eq_Inr)
  have "get_block ?id st' = Inl unknown_transaction"
    using fetch_transactions_missing [OF _ assms(6), of "map (trx_id (base n)) (user_transactions b)"] assms(5)
    by (simp add: get_block_def records update_conv' tables \<open>br_digest_block rec = _\<close> to_digest_block_def)
  then show ?thesis using main_chainD(8) [of n hs st' k] assms(2) by auto
qed

definition sample_spoiled :: full_block where
  "sample_spoiled = sample_block_1\<lparr>user_transactions := [sample_trx []]\<rparr>"

lemma not_isl: "\<not> isl r \<longleftrightarrow> (\<exists>x. r = Inr x)"
  by (cases r) auto

lemma sample_claim:
  "map_option (\<lambda>(r, st). isl r) (handle_message sample_node (block_message sample_spoiled [9]) False
      (sample_line [sample_block_1, sample_block_2])) = Some False"
  "is_known_block [9] (sample_line [sample_block_1, sample_block_2]) = False"
  "map_of (transaction_db (tables (sample_line [sample_block_1, sample_block_2]))) (trx_id (base sample_node) (sample_trx [])) = None"
  by code_simp+

theorem claimed_id_spoils_block_witness:
  "\<exists>r st'. handle_message sample_node (block_message sample_spoiled [9]) False
      (sample_line [sample_block_1, sample_block_2]) = Some (Inr r, st')
    \<and> get_block (block_id sample_node sample_block_1) st' = Inl unknown_transaction"
proof -
  obtain r st' where run: "handle_message sample_node (block_message sample_spoiled [9]) False
      (sample_line [sample_block_1, sample_block_2]) = Some (Inr r, st')"
    using sample_claim(1) by (auto simp: not_isl)
  have "get_block (header_id (base sample_node) (map fb_header [sample_block_1, sample_block_2] ! 0)) st' = Inl unknown_transaction"
    by (rule conjunct1 [OF claimed_id_spoils_block [OF sample_two_chain _ _ _ _ sample_claim(3) run]])
      (simp_all add: sample_spoiled_def sample_claim(2))
  with run show ?thesis by (auto simp: block_id_def)
qed

end
