(* ===== verification/Bts_Net.thy ===== *)
theory Bts_Net
  imports Bts_Sync
begin

text \<open>
  The peer-to-peer node (\<open>net/node.cpp\<close>): what it keeps about its peers, the messages of the
  synchronisation and of the inventories, and the loops that request and advertise items. The delegate
  of the node is the client of \<open>Bts_Sync\<close>. A handler is one step: the tasks of the program change at
  the points where a message is sent, which the model does not split.
\<close>

section \<open>Messages\<close>

record item_id =
  item_type :: u32
  item_hash :: bytes

datatype net_message =
    fetch_blockchain_item_ids_message u32 "bytes list"
  | blockchain_item_ids_inventory_message u32 u32 "bytes list"
  | fetch_items_message u32 "bytes list"
  | item_not_available_message item_id
  | item_ids_inventory_message u32 "bytes list"
  | closing_connection_message bool
  | address_message
  | item_message client_message

definition client_message_type :: "client_message \<Rightarrow> u32" where
  "client_message_type m = (case m of block_message _ _ \<Rightarrow> block_message_type | trx_message _ \<Rightarrow> trx_message_type | other_message t \<Rightarrow> t)"

section \<open>The cache of messages\<close>

record message_info =
  message_hash :: bytes
  message_body :: client_message
  block_clock_when_received :: u32

record message_cache =
  cached_messages :: "message_info list"
  block_clock :: u32

definition cache_duration_in_blocks :: u32 where
  "cache_duration_in_blocks = 2"

definition empty_cache :: message_cache where
  "empty_cache = \<lparr>cached_messages = [], block_clock = 0\<rparr>"

definition block_accepted :: "message_cache \<Rightarrow> message_cache" where
  "block_accepted c =
    (let c = c\<lparr>block_clock := block_clock c + 1\<rparr>
     in if cache_duration_in_blocks < block_clock c
        then c\<lparr>cached_messages := filter (\<lambda>i. \<not> block_clock_when_received i < block_clock c - cache_duration_in_blocks) (cached_messages c)\<rparr>
        else c)"

text \<open>The index of the hashes is unique: a message that is there is not inserted again.\<close>

definition cache_message :: "client_message \<Rightarrow> bytes \<Rightarrow> message_cache \<Rightarrow> message_cache" where
  "cache_message m h c =
    (if h \<in> message_hash ` set (cached_messages c) then c
     else c\<lparr>cached_messages := \<lparr>message_hash = h, message_body = m, block_clock_when_received = block_clock c\<rparr> # cached_messages c\<rparr>)"

definition get_message :: "bytes \<Rightarrow> message_cache \<Rightarrow> sync_error + client_message" where
  "get_message h c =
    (case find (\<lambda>i. message_hash i = h) (cached_messages c) of
       Some i \<Rightarrow> Inr (message_body i) | None \<Rightarrow> Inl (exception no_result))"

section \<open>Peers and the node\<close>

datatype peer_connection_direction = unknown | inbound | outbound

datatype connection_state = disconnected | just_connected | secure_connection_established | hello_sent
  | hello_reply_sent | connection_rejected_sent | connected | connection_rejected

record peer_connection =
  direction :: peer_connection_direction
  state :: connection_state
  ids_of_items_to_get :: "bytes list"
  number_of_unfetched_item_ids :: u32
  peer_needs_sync_items_from_us :: bool
  we_need_sync_items_from_peer :: bool
  item_ids_requested_from_peer :: "item_id option"
  sync_items_requested_from_peer :: "item_id list"
  last_block_number_delegate_has_seen :: u32
  last_block_delegate_has_seen :: bytes
  inventory_peer_advertised_to_us :: "item_id list"
  inventory_advertised_to_peer :: "item_id list"
  items_requested_from_peer :: "item_id list"

definition new_peer_connection :: peer_connection where
  "new_peer_connection = \<lparr>direction = unknown, state = disconnected, ids_of_items_to_get = [],
     number_of_unfetched_item_ids = 0, peer_needs_sync_items_from_us = True, we_need_sync_items_from_peer = True,
     item_ids_requested_from_peer = None, sync_items_requested_from_peer = [],
     last_block_number_delegate_has_seen = 0, last_block_delegate_has_seen = null_block_id,
     inventory_peer_advertised_to_us = [], inventory_advertised_to_peer = [], items_requested_from_peer = []\<rparr>"

definition busy :: "peer_connection \<Rightarrow> bool" where
  "busy p \<longleftrightarrow> items_requested_from_peer p \<noteq> [] \<or> sync_items_requested_from_peer p \<noteq> [] \<or> item_ids_requested_from_peer p \<noteq> None"

definition idle :: "peer_connection \<Rightarrow> bool" where
  "idle p \<longleftrightarrow> \<not> busy p"

type_synonym peer_id = nat

text \<open>
  \<open>peers\<close> is what the pointers to connections point to, \<open>client\<close> the state of the delegate and \<open>sent\<close>
  the messages sent so far. The sets of pointers and items are lists, in the order they are walked.
\<close>

record node_impl =
  client :: chain_database_impl
  peers :: "peer_id \<Rightarrow> peer_connection"
  active_connections :: "peer_id list"
  handshaking_connections :: "peer_id list"
  closing_connections :: "peer_id list"
  active_sync_requests :: "bytes list"
  received_sync_items :: "(full_block \<times> block_id_type) list"
  sync_items_to_fetch_updated :: bool
  items_to_fetch :: "item_id list"
  items_to_fetch_updated :: bool
  new_inventory :: "item_id list"
  most_recent_blocks_accepted :: "bytes list"
  sync_item_type :: u32
  total_number_of_unfetched_items :: u32
  message_cache :: message_cache
  sent :: "(peer_id \<times> net_message) list"

record net =
  chain_node :: node
  net_build :: build
  message_id :: "client_message \<Rightarrow> bytes"

section \<open>Runs\<close>

type_synonym 'a net_run = "((sync_error + 'a) \<times> node_impl) option"

definition net_bind :: "'a net_run \<Rightarrow> ('a \<Rightarrow> node_impl \<Rightarrow> 'b net_run) \<Rightarrow> 'b net_run" where
  "net_bind r f = (case r of
       None \<Rightarrow> None
     | Some (Inl err, st) \<Rightarrow> Some (Inl err, st)
     | Some (Inr x, st) \<Rightarrow> f x st)"

fun for_each :: "('i \<Rightarrow> node_impl \<Rightarrow> unit net_run) \<Rightarrow> 'i list \<Rightarrow> node_impl \<Rightarrow> unit net_run" where
  "for_each f [] st = Some (Inr (), st)"
| "for_each f (i # is) st = net_bind (f i st) (\<lambda>_. for_each f is)"

definition net_assert :: "net \<Rightarrow> bool \<Rightarrow> node_impl \<Rightarrow> unit net_run" where
  "net_assert net c st = Some (assert_that (net_build net) c (Inr ()), st)"

definition update_peer :: "peer_id \<Rightarrow> (peer_connection \<Rightarrow> peer_connection) \<Rightarrow> node_impl \<Rightarrow> node_impl" where
  "update_peer p f st = st\<lparr>peers := (peers st)(p := f (peers st p))\<rparr>"

definition send_message :: "peer_id \<Rightarrow> net_message \<Rightarrow> node_impl \<Rightarrow> node_impl" where
  "send_message p m st = st\<lparr>sent := sent st @ [(p, m)]\<rparr>"

definition set_insert :: "'a \<Rightarrow> 'a list \<Rightarrow> 'a list" where
  "set_insert x xs = (if x \<in> set xs then xs else xs @ [x])"

text \<open>A circular buffer with room for as many blocks as there may be connections.\<close>

definition maximum_number_of_connections :: nat where
  "maximum_number_of_connections = 12"

definition push_recent :: "bytes \<Rightarrow> node_impl \<Rightarrow> node_impl" where
  "push_recent i st = st\<lparr>most_recent_blocks_accepted :=
     (let ids = most_recent_blocks_accepted st @ [i] in drop (length ids - maximum_number_of_connections) ids)\<rparr>"

section \<open>Connections\<close>

definition on_connection_closed :: "peer_id \<Rightarrow> node_impl \<Rightarrow> node_impl" where
  "on_connection_closed p st =
    (if p \<in> set (closing_connections st) then st\<lparr>closing_connections := removeAll p (closing_connections st)\<rparr>
     else if p \<in> set (active_connections st) then st\<lparr>active_connections := removeAll p (active_connections st)\<rparr>
     else if p \<in> set (handshaking_connections st) then st\<lparr>handshaking_connections := removeAll p (handshaking_connections st)\<rparr>
     else st)"

definition disconnect_from_peer :: "peer_id \<Rightarrow> bool \<Rightarrow> node_impl \<Rightarrow> node_impl" where
  "disconnect_from_peer p caused_by_error st =
    (let st = st\<lparr>closing_connections := set_insert p (closing_connections st),
          handshaking_connections := removeAll p (handshaking_connections st),
          active_connections := removeAll p (active_connections st)\<rparr>
     in if state (peers st p) = connected then send_message p (closing_connection_message caused_by_error) st else st)"

section \<open>Synchronising with a peer\<close>

definition calculate_unsynced_block_count_from_all_peers :: "node_impl \<Rightarrow> u32" where
  "calculate_unsynced_block_count_from_all_peers st =
    fold (\<lambda>p count. max count (of_nat (length (ids_of_items_to_get (peers st p))) + number_of_unfetched_item_ids (peers st p)))
      (active_connections st) 0"

text \<open>What the loop adds for a number above those of the blocks the client has seen; nothing below.\<close>

definition peer_item :: "u32 \<Rightarrow> bytes list \<Rightarrow> u32 \<Rightarrow> sync_error + bytes list" where
  "peer_item seen ids low_block_num =
    (if seen < low_block_num
     then let k = unat (low_block_num - seen - 1) in if k < length ids then Inr [ids ! k] else Inl (exception undefined_behaviour)
     else Inr [])"

definition missing_items :: "u32 \<Rightarrow> bytes list \<Rightarrow> u32 \<Rightarrow> (sync_error + bytes list) option" where
  "missing_items seen ids number_after =
    (let true_high_block_num = seen + number_after
     in map_option (map_sum id concat) (synopsis_loop (peer_item seen ids) true_high_block_num true_high_block_num 1 []))"

definition create_blockchain_synopsis_for_peer :: "net \<Rightarrow> peer_id \<Rightarrow> node_impl \<Rightarrow> (sync_error + bytes list) option" where
  "create_blockchain_synopsis_for_peer net p st =
    (let peer = peers st p;
         reference_point = last_block_delegate_has_seen peer;
         number_after = of_nat (length (ids_of_items_to_get peer));
         ask = get_blockchain_synopsis (chain_node net) (net_build net) (sync_item_type st) reference_point number_after (client st);
         ask = (if reference_point \<noteq> null_block_id \<and> ask = Some (Inr []) then ask else ask)
     in case ask of
          None \<Rightarrow> None
        | Some (Inl err) \<Rightarrow> Some (Inl err)
        | Some (Inr synopsis) \<Rightarrow>
            if asserts (net_build net) \<and> \<not> (reference_point = null_block_id \<or> synopsis \<noteq> []) then Some (Inl assertion_failed)
            else if number_after = 0 then Some (Inr synopsis)
            else (case missing_items (last_block_number_delegate_has_seen peer) (ids_of_items_to_get peer) number_after of
                None \<Rightarrow> None
              | Some (Inl err) \<Rightarrow> Some (Inl err)
              | Some (Inr missing) \<Rightarrow>
                  Some (assert_that (net_build net) (last (synopsis @ missing) = last (ids_of_items_to_get peer)) (Inr (synopsis @ missing)))))"

definition fetch_next_batch_of_item_ids_from_peer :: "net \<Rightarrow> peer_id \<Rightarrow> bool \<Rightarrow> node_impl \<Rightarrow> unit net_run" where
  "fetch_next_batch_of_item_ids_from_peer net p reset_fork st =
    (let st = (if reset_fork
          then update_peer p (\<lambda>c. c\<lparr>last_block_delegate_has_seen := null_block_id, last_block_number_delegate_has_seen := 0\<rparr>) st
          else st)
     in case create_blockchain_synopsis_for_peer net p st of
          None \<Rightarrow> None
        | Some (Inl err) \<Rightarrow> Some (Inl err, st)
        | Some (Inr synopsis) \<Rightarrow>
            let last_item_seen = (if synopsis = [] then null_block_id else last synopsis);
                requested = \<lparr>item_type = sync_item_type st, item_hash = last_item_seen\<rparr>;
                st = update_peer p (\<lambda>c. c\<lparr>item_ids_requested_from_peer := Some requested\<rparr>) st
            in Some (Inr (), send_message p (fetch_blockchain_item_ids_message (sync_item_type st) synopsis) st))"

definition start_synchronizing_with_peer :: "net \<Rightarrow> peer_id \<Rightarrow> node_impl \<Rightarrow> unit net_run" where
  "start_synchronizing_with_peer net p st =
    fetch_next_batch_of_item_ids_from_peer net p False
      (update_peer p (\<lambda>c. c\<lparr>we_need_sync_items_from_peer := True, last_block_delegate_has_seen := null_block_id,
          last_block_number_delegate_has_seen := 0\<rparr>) st)"

text \<open>A peer that asks for the ids of blocks.\<close>

definition handshake_done :: "net \<Rightarrow> peer_id \<Rightarrow> node_impl \<Rightarrow> unit net_run" where
  "handshake_done net p st =
    (if direction (peers st p) = inbound \<and> p \<in> set (handshaking_connections st)
     then start_synchronizing_with_peer net p (st\<lparr>active_connections := set_insert p (active_connections st),
       handshaking_connections := removeAll p (handshaking_connections st)\<rparr>)
     else Some (Inr (), st))"

definition on_address_message :: "net \<Rightarrow> peer_id \<Rightarrow> node_impl \<Rightarrow> unit net_run" where
  "on_address_message net p st =
    (if state (peers st p) = connection_rejected then Some (Inr (), disconnect_from_peer p False st)
     else start_synchronizing_with_peer net p (st\<lparr>active_connections := set_insert p (active_connections st),
       handshaking_connections := removeAll p (handshaking_connections st)\<rparr>))"

definition on_fetch_blockchain_item_ids_message :: "net \<Rightarrow> peer_id \<Rightarrow> u32 \<Rightarrow> bytes list \<Rightarrow> node_impl \<Rightarrow> unit net_run" where
  "on_fetch_blockchain_item_ids_message net p ty synopsis st =
    (case get_item_ids (chain_node net) (net_build net) ty synopsis 2000 (client st) of
       Inl err \<Rightarrow> Some (Inl err, st)
     | Inr (hashes, remaining) \<Rightarrow>
         let in_sync = (hashes = [] \<or> synopsis \<noteq> [] \<and> length hashes = 1 \<and> last hashes = last synopsis);
             st = update_peer p (\<lambda>c. c\<lparr>peer_needs_sync_items_from_us := \<not> in_sync\<rparr>) st;
             restart = (\<not> we_need_sync_items_from_peer (peers st p) \<and> synopsis \<noteq> [] \<and> \<not> has_item ty (last synopsis) (client st))
         in net_bind (if restart then start_synchronizing_with_peer net p st else Some (Inr (), st)) (\<lambda>_ st.
            handshake_done net p (send_message p (blockchain_item_ids_inventory_message remaining ty hashes) st)))"

text \<open>The ids a peer answers with.\<close>

definition is_first_item_for_other_peer :: "peer_id \<Rightarrow> bytes \<Rightarrow> node_impl \<Rightarrow> bool" where
  "is_first_item_for_other_peer p h st \<longleftrightarrow> list_ex (\<lambda>q. q \<noteq> p \<and> ids_of_items_to_get (peers st q) \<noteq> []
     \<and> hd (ids_of_items_to_get (peers st q)) = h) (active_connections st)"

fun flush_seen :: "net \<Rightarrow> peer_id \<Rightarrow> u32 \<Rightarrow> bytes list \<Rightarrow> node_impl \<Rightarrow> bytes list net_run" where
  "flush_seen net p ty [] st = Some (Inr [], st)"
| "flush_seen net p ty (h # hashes) st =
    (if has_item ty h (client st)
     then net_bind (net_assert net (h \<noteq> null_block_id) st) (\<lambda>_ st.
          flush_seen net p ty hashes (update_peer p (\<lambda>c. c\<lparr>last_block_delegate_has_seen := h,
            last_block_number_delegate_has_seen := last_block_number_delegate_has_seen c + 1\<rparr>) st))
     else Some (Inr (h # hashes), st))"

definition switch_lists :: "net \<Rightarrow> peer_id \<Rightarrow> bytes list \<Rightarrow> node_impl \<Rightarrow> bytes list net_run" where
  "switch_lists net p hashes st =
    (let kept = rev (dropWhile (\<lambda>h. h \<noteq> hd hashes) (rev (ids_of_items_to_get (peers st p))));
         st = update_peer p (\<lambda>c. c\<lparr>ids_of_items_to_get := kept\<rparr>) st
     in if kept = []
        then net_bind (net_assert net (has_item (sync_item_type st) (hd hashes) (client st)) st) (\<lambda>_ st.
          let st = update_peer p (\<lambda>c. c\<lparr>last_block_delegate_has_seen := hd hashes\<rparr>) st
          in case get_block_num (hd hashes) (client st) of
               Inl err \<Rightarrow> Some (Inl (exception err), st)
             | Inr num \<Rightarrow> Some (Inr (tl hashes), update_peer p (\<lambda>c. c\<lparr>last_block_number_delegate_has_seen := num\<rparr>) st))
        else Some (Inr hashes, update_peer p (\<lambda>c. c\<lparr>ids_of_items_to_get := butlast kept\<rparr>) st))"

definition new_hashes :: "net \<Rightarrow> peer_id \<Rightarrow> u32 \<Rightarrow> bytes list \<Rightarrow> node_impl \<Rightarrow> bytes list net_run" where
  "new_hashes net p ty hashes st =
    (if hashes = [] then Some (Inr [], st)
     else if ids_of_items_to_get (peers st p) = []
     then if is_first_item_for_other_peer p (hd hashes) st then Some (Inr hashes, st) else flush_seen net p ty hashes st
     else switch_lists net p hashes st)"

definition count_unfetched :: "node_impl \<Rightarrow> node_impl" where
  "count_unfetched st = st\<lparr>total_number_of_unfetched_items := calculate_unsynced_block_count_from_all_peers st\<rparr>"

definition trigger_fetch_sync_items_loop :: "node_impl \<Rightarrow> node_impl" where
  "trigger_fetch_sync_items_loop st = st\<lparr>sync_items_to_fetch_updated := True\<rparr>"

definition trigger_fetch_items_loop :: "node_impl \<Rightarrow> node_impl" where
  "trigger_fetch_items_loop st = st\<lparr>items_to_fetch_updated := True\<rparr>"

definition peer_up_to_date :: "peer_id \<Rightarrow> u32 \<Rightarrow> u32 \<Rightarrow> bytes list \<Rightarrow> node_impl \<Rightarrow> bool" where
  "peer_up_to_date p remaining ty hashes st \<longleftrightarrow>
     remaining = 0 \<and> (hashes = [] \<or> length hashes = 1 \<and> has_item ty (hd hashes) (client st))
     \<and> ids_of_items_to_get (peers st p) = [] \<and> number_of_unfetched_item_ids (peers st p) = 0"

definition on_blockchain_item_ids_inventory_message :: "net \<Rightarrow> peer_id \<Rightarrow> u32 \<Rightarrow> u32 \<Rightarrow> bytes list \<Rightarrow> node_impl \<Rightarrow> unit net_run" where
  "on_blockchain_item_ids_inventory_message net p remaining ty hashes st =
    (if item_ids_requested_from_peer (peers st p) = None then Some (Inr (), st)
     else
       let st = update_peer p (\<lambda>c. c\<lparr>item_ids_requested_from_peer := None\<rparr>) st
       in if peer_up_to_date p remaining ty hashes st
          then Some (Inr (), count_unfetched (update_peer p (\<lambda>c. c\<lparr>we_need_sync_items_from_peer := False\<rparr>) st))
          else net_bind (new_hashes net p ty hashes (update_peer p (\<lambda>c. c\<lparr>number_of_unfetched_item_ids := remaining\<rparr>) st)) (\<lambda>received st.
            let ids = ids_of_items_to_get (peers st p)
            in net_bind (net_assert net (received \<noteq> [] \<and> ids \<noteq> [] \<longrightarrow> hd received \<noteq> last ids) st) (\<lambda>_ st.
            let st = count_unfetched (update_peer p (\<lambda>c. c\<lparr>ids_of_items_to_get := ids @ received, number_of_unfetched_item_ids := remaining\<rparr>) st)
            in if remaining \<noteq> 0 \<or> ids @ received = [] then fetch_next_batch_of_item_ids_from_peer net p False st
               else Some (Inr (), trigger_fetch_sync_items_loop st))))"

section \<open>Requesting the items of the synchronisation\<close>

definition have_already_received_sync_item :: "bytes \<Rightarrow> node_impl \<Rightarrow> bool" where
  "have_already_received_sync_item h st \<longleftrightarrow> list_ex (\<lambda>(b, i). i = h) (received_sync_items st)"

definition request_sync_item_from_peer :: "peer_id \<Rightarrow> bytes \<Rightarrow> node_impl \<Rightarrow> node_impl" where
  "request_sync_item_from_peer p h st =
    (let item = \<lparr>item_type = block_message_type, item_hash = h\<rparr>;
         st = st\<lparr>active_sync_requests := set_insert h (active_sync_requests st)\<rparr>;
         st = update_peer p (\<lambda>c. c\<lparr>sync_items_requested_from_peer := set_insert item (sync_items_requested_from_peer c)\<rparr>) st
     in send_message p (fetch_items_message block_message_type [h]) st)"

fun schedule_requests :: "peer_id list \<Rightarrow> (peer_id \<times> bytes) list \<Rightarrow> node_impl \<Rightarrow> (peer_id \<times> bytes) list" where
  "schedule_requests [] requests st = requests"
| "schedule_requests (p # ps) requests st =
    (if we_need_sync_items_from_peer (peers st p) \<and> p \<notin> fst ` set requests \<and> idle (peers st p)
     then (case find (\<lambda>h. \<not> have_already_received_sync_item h st \<and> h \<notin> snd ` set requests \<and> h \<notin> set (active_sync_requests st))
         (ids_of_items_to_get (peers st p)) of
       None \<Rightarrow> schedule_requests ps requests st
     | Some h \<Rightarrow> schedule_requests ps (requests @ [(p, h)]) st)
     else schedule_requests ps requests st)"

text \<open>One round of the loop.\<close>

definition fetch_sync_items_loop :: "node_impl \<Rightarrow> node_impl" where
  "fetch_sync_items_loop st =
    (let st = st\<lparr>sync_items_to_fetch_updated := False\<rparr>
     in fold (\<lambda>(p, h). request_sync_item_from_peer p h) (schedule_requests (active_connections st) [] st) st)"

section \<open>Inventories\<close>

definition advertised_item :: "u32 \<Rightarrow> peer_id \<Rightarrow> bytes \<Rightarrow> node_impl \<Rightarrow> node_impl" where
  "advertised_item ty p h st =
    (let item = \<lparr>item_type = ty, item_hash = h\<rparr>
     in if list_ex (\<lambda>q. item \<in> set (inventory_advertised_to_peer (peers st q))) (active_connections st) then st
        else
          let requested = list_ex (\<lambda>q. item \<in> set (items_requested_from_peer (peers st q))) (active_connections st);
              st = update_peer p (\<lambda>c. c\<lparr>inventory_peer_advertised_to_us := set_insert item (inventory_peer_advertised_to_us c)\<rparr>) st
          in if requested \<or> item \<in> set (items_to_fetch st) then st
             else trigger_fetch_items_loop (st\<lparr>items_to_fetch := items_to_fetch st @ [item]\<rparr>))"

definition on_item_ids_inventory_message :: "peer_id \<Rightarrow> u32 \<Rightarrow> bytes list \<Rightarrow> node_impl \<Rightarrow> node_impl" where
  "on_item_ids_inventory_message p ty hashes = fold (advertised_item ty p) hashes"

text \<open>One round of the loop that requests items in normal operation.\<close>

definition fetch_item :: "item_id \<Rightarrow> node_impl \<Rightarrow> node_impl" where
  "fetch_item item st =
    (case find (\<lambda>p. idle (peers st p) \<and> item \<in> set (inventory_peer_advertised_to_us (peers st p))) (active_connections st) of
       None \<Rightarrow> st
     | Some p \<Rightarrow>
         let st = update_peer p (\<lambda>c. c\<lparr>items_requested_from_peer := set_insert item (items_requested_from_peer c)\<rparr>) st;
             st = st\<lparr>items_to_fetch := removeAll item (items_to_fetch st)\<rparr>
         in send_message p (fetch_items_message (item_type item) [item_hash item]) st)"

definition fetch_items_loop :: "node_impl \<Rightarrow> node_impl" where
  "fetch_items_loop st = (let st = st\<lparr>items_to_fetch_updated := False\<rparr> in fold fetch_item (items_to_fetch st) st)"

text \<open>
  One round of the loop that advertises. The items for a peer are grouped by type, in the order of the
  types, and all messages are sent after all peers have been visited.
\<close>

definition items_for_peer :: "item_id list \<Rightarrow> peer_connection \<Rightarrow> item_id list" where
  "items_for_peer inventory c =
    (if peer_needs_sync_items_from_us c then []
     else filter (\<lambda>i. i \<notin> set (inventory_advertised_to_peer c) \<and> i \<notin> set (inventory_peer_advertised_to_us c)) inventory)"

definition inventory_messages :: "peer_id \<Rightarrow> item_id list \<Rightarrow> (peer_id \<times> net_message) list" where
  "inventory_messages p items = map (\<lambda>t. (p, item_ids_inventory_message t (map item_hash (filter (\<lambda>i. item_type i = t) items))))
     (sort (remdups (map item_type items)))"

fun advertise_to_peers :: "item_id list \<Rightarrow> peer_id list \<Rightarrow> node_impl \<Rightarrow> (peer_id \<times> net_message) list \<times> node_impl" where
  "advertise_to_peers inventory [] st = ([], st)"
| "advertise_to_peers inventory (p # ps) st =
    (let items = items_for_peer inventory (peers st p);
         st = update_peer p (\<lambda>c. c\<lparr>inventory_advertised_to_peer := inventory_advertised_to_peer c @ items\<rparr>) st;
         (messages, st) = advertise_to_peers inventory ps st
     in (inventory_messages p items @ messages, st))"

definition advertise_inventory_loop :: "node_impl \<Rightarrow> node_impl" where
  "advertise_inventory_loop st =
    (let inventory = new_inventory st;
         (messages, st) = advertise_to_peers inventory (active_connections st) (st\<lparr>new_inventory := []\<rparr>)
     in fold (\<lambda>(p, m). send_message p m) messages st)"

text \<open>Items that are asked for, and the answer that a peer does not have one.\<close>

definition requested_item :: "net \<Rightarrow> u32 \<Rightarrow> node_impl \<Rightarrow> bytes \<Rightarrow> sync_error + net_message" where
  "requested_item net ty st h =
    (case get_message h (message_cache st) of
       Inr m \<Rightarrow> Inr (item_message m)
     | Inl _ \<Rightarrow> (case get_item (chain_node net) ty h (client st) of
           Inr m \<Rightarrow> Inr (item_message m)
         | Inl err \<Rightarrow> if err = exception no_result then Inr (item_not_available_message \<lparr>item_type = ty, item_hash = h\<rparr>) else Inl err))"

fun requested_items :: "net \<Rightarrow> u32 \<Rightarrow> node_impl \<Rightarrow> bytes list \<Rightarrow> sync_error + net_message list" where
  "requested_items net ty st [] = Inr []"
| "requested_items net ty st (h # hashes) =
    res_bind (requested_item net ty st h) (\<lambda>m. res_bind (requested_items net ty st hashes) (\<lambda>ms. Inr (m # ms)))"

definition on_fetch_items_message :: "net \<Rightarrow> peer_id \<Rightarrow> u32 \<Rightarrow> bytes list \<Rightarrow> node_impl \<Rightarrow> unit net_run" where
  "on_fetch_items_message net p ty hashes st =
    (case requested_items net ty st hashes of
       Inl err \<Rightarrow> Some (Inl err, st)
     | Inr ms \<Rightarrow> Some (Inr (), fold (send_message p) ms st))"

definition on_item_not_available_message :: "peer_id \<Rightarrow> item_id \<Rightarrow> node_impl \<Rightarrow> node_impl" where
  "on_item_not_available_message p item st =
    (if item \<in> set (items_requested_from_peer (peers st p))
     then trigger_fetch_items_loop
       (update_peer p (\<lambda>c. c\<lparr>items_requested_from_peer := removeAll item (items_requested_from_peer c)\<rparr>) st)
     else if item \<in> set (sync_items_requested_from_peer (peers st p))
     then trigger_fetch_sync_items_loop
       (update_peer p (\<lambda>c. c\<lparr>sync_items_requested_from_peer := removeAll item (sync_items_requested_from_peer c)\<rparr>) st)
     else st)"

section \<open>Blocks and transactions that arrive\<close>

text \<open>
  What the client makes of an item. Its exceptions are caught by the handlers, a failed assertion is
  not.
\<close>

definition pass_to_client :: "net \<Rightarrow> client_message \<Rightarrow> bool \<Rightarrow> node_impl \<Rightarrow> bool net_run" where
  "pass_to_client net m sync_mode st =
    map_option (\<lambda>(r, c). (r, st\<lparr>client := c\<rparr>)) (handle_message (chain_node net) m sync_mode (client st))"

definition accept_block :: "net \<Rightarrow> full_block \<Rightarrow> block_id_type \<Rightarrow> bool \<Rightarrow> node_impl \<Rightarrow> unit net_run" where
  "accept_block net b i sync_mode st =
    (if i \<in> set (most_recent_blocks_accepted st) then Some (Inr (), st)
     else net_bind (pass_to_client net (block_message b i) sync_mode st) (\<lambda>_ st. Some (Inr (), push_recent i st)))"

definition offers_first :: "block_id_type \<Rightarrow> peer_connection \<Rightarrow> bool" where
  "offers_first i c \<longleftrightarrow> ids_of_items_to_get c \<noteq> [] \<and> hd (ids_of_items_to_get c) = i"

definition disconnect_offering :: "block_id_type \<Rightarrow> node_impl \<Rightarrow> node_impl" where
  "disconnect_offering i st = fold (\<lambda>p. disconnect_from_peer p True)
     (filter (\<lambda>p. offers_first i (peers st p)) (active_connections st)) st"

definition pop_item :: "block_id_type \<Rightarrow> peer_connection \<Rightarrow> peer_connection" where
  "pop_item i c = c\<lparr>last_block_delegate_has_seen := i,
     last_block_number_delegate_has_seen := last_block_number_delegate_has_seen c + 1,
     ids_of_items_to_get := tl (ids_of_items_to_get c)\<rparr>"

text \<open>After a block has been accepted: the lists of the peers, then the requests for more ids.\<close>

definition advance_peers :: "net \<Rightarrow> block_id_type \<Rightarrow> node_impl \<Rightarrow> unit net_run" where
  "advance_peers net i st =
    (let st = st\<lparr>total_number_of_unfetched_items := total_number_of_unfetched_items st - 1\<rparr>;
         restart = filter (\<lambda>p. ids_of_items_to_get (peers st p) = [] \<and> \<not> peer_needs_sync_items_from_us (peers st p)
           \<and> \<not> we_need_sync_items_from_peer (peers st p)) (active_connections st);
         popped = filter (\<lambda>p. offers_first i (peers st p)) (active_connections st);
         st = fold (\<lambda>p. update_peer p (pop_item i)) popped st;
         emptied = filter (\<lambda>p. ids_of_items_to_get (peers st p) = [] \<and> number_of_unfetched_item_ids (peers st p) = 0) popped
     in net_bind (for_each (\<lambda>p. fetch_next_batch_of_item_ids_from_peer net p False) emptied st) (\<lambda>_.
        for_each (start_synchronizing_with_peer net) restart))"

definition backlog_step :: "net \<Rightarrow> node_impl \<Rightarrow> bool net_run" where
  "backlog_step net st =
    (case find (\<lambda>(b, i). list_ex (\<lambda>p. offers_first i (peers st p)) (active_connections st)) (received_sync_items st) of
       None \<Rightarrow> Some (Inr False, st)
     | Some (b, i) \<Rightarrow>
         (case accept_block net b i True (st\<lparr>received_sync_items := remove1 (b, i) (received_sync_items st)\<rparr>) of
            None \<Rightarrow> None
          | Some (Inr _, st) \<Rightarrow> net_bind (advance_peers net i st) (\<lambda>_ st. Some (Inr True, st))
          | Some (Inl err, st) \<Rightarrow> if err = assertion_failed then Some (Inl err, st) else Some (Inr False, disconnect_offering i st)))"

partial_function (option) process_backlog_of_sync_blocks :: "net \<Rightarrow> node_impl \<Rightarrow> unit net_run" where
  "process_backlog_of_sync_blocks net st =
    (case backlog_step net st of
       None \<Rightarrow> None
     | Some (Inl err, st) \<Rightarrow> Some (Inl err, st)
     | Some (Inr block_processed_this_iteration, st) \<Rightarrow>
         if block_processed_this_iteration then process_backlog_of_sync_blocks net st else Some (Inr (), st))"

definition process_block_during_sync :: "net \<Rightarrow> full_block \<Rightarrow> block_id_type \<Rightarrow> node_impl \<Rightarrow> unit net_run" where
  "process_block_during_sync net b i st =
    net_bind (process_backlog_of_sync_blocks net (st\<lparr>received_sync_items := (b, i) # received_sync_items st\<rparr>))
      (\<lambda>_ st. Some (Inr (), trigger_fetch_sync_items_loop st))"

definition broadcast :: "net \<Rightarrow> client_message \<Rightarrow> node_impl \<Rightarrow> node_impl" where
  "broadcast net m st =
    (let st = (case m of block_message b i \<Rightarrow> push_recent i st | _ \<Rightarrow> st);
         h = message_id net m
     in st\<lparr>message_cache := cache_message m h (message_cache st),
          new_inventory := set_insert \<lparr>item_type = client_message_type m, item_hash = h\<rparr> (new_inventory st)\<rparr>)"

text \<open>A peer that has offered the block is noted as one it has been offered to.\<close>

definition move_advertised :: "item_id \<Rightarrow> peer_connection \<Rightarrow> peer_connection" where
  "move_advertised item c =
    (if item \<in> set (inventory_peer_advertised_to_us c)
     then c\<lparr>inventory_peer_advertised_to_us := removeAll item (inventory_peer_advertised_to_us c),
            inventory_advertised_to_peer := set_insert item (inventory_advertised_to_peer c)\<rparr>
     else c)"

definition process_block_during_normal_operation :: "net \<Rightarrow> full_block \<Rightarrow> block_id_type \<Rightarrow> bytes \<Rightarrow> node_impl \<Rightarrow> unit net_run" where
  "process_block_during_normal_operation net b i h st =
    (case accept_block net b i False (trigger_fetch_items_loop st) of
       None \<Rightarrow> None
     | Some (Inl err, st) \<Rightarrow> Some (if err = assertion_failed then (Inl err, st) else (Inr (), disconnect_offering i st))
     | Some (Inr _, st) \<Rightarrow>
         let item = \<lparr>item_type = block_message_type, item_hash = h\<rparr>;
             st = fold (\<lambda>p. update_peer p (move_advertised item)) (active_connections st) st;
             st = broadcast net (block_message b i) st
         in Some (Inr (), st\<lparr>message_cache := block_accepted (message_cache st)\<rparr>))"

definition process_block_message :: "net \<Rightarrow> peer_id \<Rightarrow> full_block \<Rightarrow> block_id_type \<Rightarrow> bytes \<Rightarrow> node_impl \<Rightarrow> unit net_run" where
  "process_block_message net p b i h st =
    (let item = \<lparr>item_type = block_message_type, item_hash = h\<rparr>;
         sync_item = \<lparr>item_type = block_message_type, item_hash = i\<rparr>
     in if item \<in> set (items_requested_from_peer (peers st p))
        then process_block_during_normal_operation net b i h
          (update_peer p (\<lambda>c. c\<lparr>items_requested_from_peer := removeAll item (items_requested_from_peer c)\<rparr>) st)
        else if sync_item \<in> set (sync_items_requested_from_peer (peers st p))
        then process_block_during_sync net b i
          (update_peer p (\<lambda>c. c\<lparr>sync_items_requested_from_peer := removeAll sync_item (sync_items_requested_from_peer c)\<rparr>) st)
        else Some (Inr (), disconnect_from_peer p True st))"

definition process_ordinary_message :: "net \<Rightarrow> peer_id \<Rightarrow> client_message \<Rightarrow> bytes \<Rightarrow> node_impl \<Rightarrow> unit net_run" where
  "process_ordinary_message net p m h st =
    (let item = \<lparr>item_type = client_message_type m, item_hash = h\<rparr>
     in if item \<notin> set (items_requested_from_peer (peers st p)) then Some (Inr (), disconnect_from_peer p True st)
        else
          let st = trigger_fetch_items_loop
                (update_peer p (\<lambda>c. c\<lparr>items_requested_from_peer := removeAll item (items_requested_from_peer c)\<rparr>) st)
          in (case pass_to_client net m False st of
                None \<Rightarrow> None
              | Some (Inl err, st) \<Rightarrow> Some (if err = assertion_failed then (Inl err, st) else (Inr (), st))
              | Some (Inr message_caused_fork_switch, st) \<Rightarrow>
                  net_bind (net_assert net (\<not> message_caused_fork_switch) st) (\<lambda>_ st. Some (Inr (), broadcast net m st))))"

section \<open>Events\<close>

text \<open>
  The messages of a peer, by type. Those of the handshake are not modelled; what they do to the state of
  the connection is the event \<open>handshake\<close>. A connection that is opened is a new peer.
\<close>

definition on_message :: "net \<Rightarrow> peer_id \<Rightarrow> net_message \<Rightarrow> node_impl \<Rightarrow> unit net_run" where
  "on_message net p m st =
    (case m of
       fetch_blockchain_item_ids_message ty synopsis \<Rightarrow> on_fetch_blockchain_item_ids_message net p ty synopsis st
     | blockchain_item_ids_inventory_message remaining ty hashes \<Rightarrow>
         on_blockchain_item_ids_inventory_message net p remaining ty hashes st
     | fetch_items_message ty hashes \<Rightarrow> on_fetch_items_message net p ty hashes st
     | item_not_available_message item \<Rightarrow> Some (Inr (), on_item_not_available_message p item st)
     | item_ids_inventory_message ty hashes \<Rightarrow> Some (Inr (), on_item_ids_inventory_message p ty hashes st)
     | closing_connection_message _ \<Rightarrow> Some (Inr (), st)
     | address_message \<Rightarrow> on_address_message net p st
     | item_message (block_message b i) \<Rightarrow> process_block_message net p b i (message_id net (block_message b i)) st
     | item_message m \<Rightarrow> process_ordinary_message net p m (message_id net m) st)"

datatype event = received peer_id net_message | sync_round_of_requests | round_of_requests | round_of_inventories
  | connection_opened peer_connection_direction | handshake peer_id connection_state | connection_closed peer_id | inactive peer_id | broadcast_by_client client_message

definition fresh_peer :: "node_impl \<Rightarrow> peer_id" where
  "fresh_peer st = Suc (fold max (map fst (sent st) @ active_connections st @ handshaking_connections st @ closing_connections st) 0)"

definition open_connection :: "peer_connection_direction \<Rightarrow> node_impl \<Rightarrow> node_impl" where
  "open_connection d st = (let p = fresh_peer st
     in st\<lparr>peers := (peers st)(p := new_peer_connection\<lparr>direction := d\<rparr>), handshaking_connections := handshaking_connections st @ [p]\<rparr>)"

text \<open>What happens to a node; an exception leaves the state the handler has reached.\<close>

definition on_event :: "net \<Rightarrow> event \<Rightarrow> node_impl \<Rightarrow> unit net_run" where
  "on_event net ev st =
    (case ev of
       received p m \<Rightarrow> on_message net p m st
     | sync_round_of_requests \<Rightarrow> Some (Inr (), fetch_sync_items_loop st)
     | round_of_requests \<Rightarrow> Some (Inr (), fetch_items_loop st)
     | round_of_inventories \<Rightarrow> Some (Inr (), advertise_inventory_loop st)
     | connection_opened d \<Rightarrow> Some (Inr (), open_connection d st)
     | handshake p s \<Rightarrow> Some (Inr (), update_peer p (\<lambda>c. c\<lparr>state := s\<rparr>) st)
     | connection_closed p \<Rightarrow> Some (Inr (), on_connection_closed p st)
     | inactive p \<Rightarrow> Some (Inr (), disconnect_from_peer p False st)
     | broadcast_by_client m \<Rightarrow> Some (Inr (), broadcast net m st))"

fun run_events :: "net \<Rightarrow> event list \<Rightarrow> node_impl \<Rightarrow> node_impl option" where
  "run_events net [] st = Some st"
| "run_events net (ev # evs) st = (case on_event net ev st of None \<Rightarrow> None | Some (_, st) \<Rightarrow> run_events net evs st)"

inductive node_run :: "net \<Rightarrow> node_impl \<Rightarrow> node_impl \<Rightarrow> bool" for net where
  idle_node: "node_run net st st"
| next_event: "node_run net st st1 \<Longrightarrow> on_event net ev st1 = Some (r, st2) \<Longrightarrow> node_run net st st2"

end
