(* ===== verification/Bts_Gossip.thy ===== *)
theory Bts_Gossip
  imports Bts_Net
begin

text \<open>
  What holds of every run of a peer-to-peer node. The locale \<open>node_property\<close> asks of a property that the
  few primitive changes of a node keep it, and gives that every event keeps it; it is interpreted for
  the requests of the synchronisation and for the inventories.
\<close>

section \<open>The states that handlers leave\<close>

definition net_leaves :: "'a net_run \<Rightarrow> (node_impl \<Rightarrow> bool) \<Rightarrow> bool" where
  "net_leaves r P \<longleftrightarrow> (\<forall>x st. r = Some (x, st) \<longrightarrow> P st)"

named_theorems net_leaves_intros \<open>the states that handlers leave\<close>

lemma net_leaves_return [net_leaves_intros]: "P st \<Longrightarrow> net_leaves (Some (x, st)) P"
  by (simp add: net_leaves_def)

lemma net_leaves_bind:
  assumes "net_leaves r P" and "\<And>x st. P st \<Longrightarrow> net_leaves (f x st) P"
  shows "net_leaves (net_bind r f) P"
  using assms by (auto simp: net_leaves_def net_bind_def split: option.splits sum.splits)

lemma net_leaves_assert [net_leaves_intros]: "P st \<Longrightarrow> net_leaves (net_assert net c st) P"
  by (simp add: net_leaves_def net_assert_def)

lemma net_leaves_for_each:
  assumes "\<And>i st. P st \<Longrightarrow> net_leaves (f i st) P"
  shows "P st \<Longrightarrow> net_leaves (for_each f is st) P"
proof (induction "is" arbitrary: st)
  case (Cons i "is")
  then show ?case by (simp add: net_leaves_bind [OF assms [OF Cons.prems]])
qed (simp add: net_leaves_def)

lemma fold_keeps: "(\<And>x st. P st \<Longrightarrow> P (f x st)) \<Longrightarrow> P st \<Longrightarrow> P (fold f xs st)"
  by (induction xs arbitrary: st) auto

section \<open>Properties of nodes\<close>

locale node_property =
  fixes Q :: "node_impl \<Rightarrow> bool"
  assumes peer: "\<And>f p st. Q st \<Longrightarrow> (\<And>c. set (inventory_advertised_to_peer c) \<subseteq> set (inventory_advertised_to_peer (f c)))
      \<Longrightarrow> Q (update_peer p f st)"
    and same: "\<And>st st'. Q st \<Longrightarrow> sent st' = sent st \<Longrightarrow> peers st' = peers st
      \<Longrightarrow> set (active_sync_requests st) \<subseteq> set (active_sync_requests st')
      \<Longrightarrow> (distinct (new_inventory st) \<Longrightarrow> distinct (new_inventory st')) \<Longrightarrow> Q st'"
    and send: "\<And>p m st. Q st \<Longrightarrow> (\<And>t hs. m \<noteq> item_ids_inventory_message t hs) \<Longrightarrow> Q (send_message p m st)"
    and advertise: "\<And>st. Q st \<Longrightarrow> Q (advertise_inventory_loop st)"
    and opened: "\<And>d st. Q st \<Longrightarrow> Q (open_connection d st)"
begin

lemma peer_same: "Q st \<Longrightarrow> (\<And>c. inventory_advertised_to_peer (f c) = inventory_advertised_to_peer c) \<Longrightarrow> Q (update_peer p f st)"
  by (rule peer) auto

lemma disconnect: "Q st \<Longrightarrow> Q (disconnect_from_peer p e st)"
  by (auto simp: disconnect_from_peer_def Let_def intro!: send elim: same)

lemma closed: "Q st \<Longrightarrow> Q (on_connection_closed p st)"
  by (auto simp: on_connection_closed_def elim: same)

lemma offering: "Q st \<Longrightarrow> Q (disconnect_offering i st)"
  unfolding disconnect_offering_def by (rule fold_keeps [where P = Q]) (rule disconnect)

lemma items: "Q st \<Longrightarrow> Q (st\<lparr>items_to_fetch := is\<rparr>)"
  by (auto elim: same)

lemma trigger: "Q st \<Longrightarrow> Q (trigger_fetch_items_loop st)" "Q st \<Longrightarrow> Q (trigger_fetch_sync_items_loop st)"
  by (auto simp: trigger_fetch_items_loop_def trigger_fetch_sync_items_loop_def elim: same)

lemma recent: "Q st \<Longrightarrow> Q (push_recent i st)"
  by (auto simp: push_recent_def Let_def elim: same)

lemma broadcasts: "Q st \<Longrightarrow> Q (broadcast net m st)"
  unfolding broadcast_def Let_def
  by (rule same [of "case m of block_message b i \<Rightarrow> push_recent i st | _ \<Rightarrow> st"])
    (auto simp: set_insert_def recent split: client_message.split)

lemma next_batch:
  assumes "Q st"
  shows "net_leaves (fetch_next_batch_of_item_ids_from_peer net p r st) Q"
proof -
  let ?st = "if r then update_peer p (\<lambda>c. c\<lparr>last_block_delegate_has_seen := null_block_id, last_block_number_delegate_has_seen := 0\<rparr>) st else st"
  have "Q ?st" using assms by (auto intro: peer)
  then show ?thesis
    unfolding fetch_next_batch_of_item_ids_from_peer_def Let_def
    by (auto simp: net_leaves_def split: option.splits sum.splits if_splits intro!: send peer)
qed

lemma start: "Q st \<Longrightarrow> net_leaves (start_synchronizing_with_peer net p st) Q"
  unfolding start_synchronizing_with_peer_def by (rule next_batch) (auto intro: peer)

lemma accept: "Q st \<Longrightarrow> net_leaves (accept_block net b i m st) Q"
  by (auto simp: net_leaves_def accept_block_def pass_to_client_def net_bind_def split: option.splits sum.splits
      intro!: recent elim: same)

lemma advance: "Q st \<Longrightarrow> net_leaves (advance_peers net i st) Q"
proof -
  assume Q: "Q st"
  have pop: "Q (fold (\<lambda>p. update_peer p (pop_item i)) ps st')" if "Q st'" for ps st'
    using that by (intro fold_keeps [where P = Q]) (auto intro: peer simp: pop_item_def)
  have "Q (st\<lparr>total_number_of_unfetched_items := total_number_of_unfetched_items st - 1\<rparr>)" using Q by (auto elim: same)
  then show ?thesis
    unfolding advance_peers_def Let_def
    by (intro net_leaves_bind net_leaves_for_each next_batch start pop) auto
qed

lemma step:
  assumes "Q st"
  shows "net_leaves (backlog_step net st) Q"
proof (cases "find (\<lambda>(b, i). list_ex (\<lambda>p. offers_first i (peers st p)) (active_connections st)) (received_sync_items st)")
  case None
  then show ?thesis using assms by (simp add: backlog_step_def net_leaves_return)
next
  case (Some bi)
  obtain b i where bi: "bi = (b, i)" by fastforce
  let ?st = "st\<lparr>received_sync_items := remove1 (b, i) (received_sync_items st)\<rparr>"
  have "Q ?st" using assms by (auto elim: same)
  then have acc: "net_leaves (accept_block net b i True ?st) Q" by (rule accept)
  show ?thesis
  proof (cases "accept_block net b i True ?st")
    case (Some r)
    obtain x st1 where r: "r = (x, st1)" by fastforce
    then have "Q st1" using acc Some by (simp add: net_leaves_def)
    then have "net_leaves (net_bind (advance_peers net i st1) (\<lambda>_ st. Some (Inr True, st))) Q" "Q (disconnect_offering i st1)"
      by (auto intro: net_leaves_bind advance net_leaves_return offering)
    then show ?thesis
      using \<open>find _ _ = Some bi\<close> bi Some r \<open>Q st1\<close> by (cases x) (auto simp: backlog_step_def net_leaves_return)
  qed (use \<open>find _ _ = Some bi\<close> bi in \<open>simp add: backlog_step_def net_leaves_def\<close>)
qed

lemma backlog:
  assumes "Q st"
  shows "net_leaves (process_backlog_of_sync_blocks net st) Q"
proof -
  have "Q st' \<longrightarrow> Q (snd y)" if "process_backlog_of_sync_blocks net' st' = Some y" for net' st' y
  proof (rule process_backlog_of_sync_blocks.raw_induct [where P = "\<lambda>_ st y. Q st \<longrightarrow> Q (snd y)", OF _ that])
    fix loop net' st' y
    assume IH: "\<And>net' st' y. loop net' st' = Some y \<Longrightarrow> Q st' \<longrightarrow> Q (snd y)"
      and body: "(case backlog_step net' st' of None \<Rightarrow> None | Some (Inl err, st) \<Rightarrow> Some (Inl err, st)
        | Some (Inr again, st) \<Rightarrow> if again then loop net' st else Some (Inr (), st)) = Some y"
    show "Q st' \<longrightarrow> Q (snd y)"
      using body IH step [of st' net'] by (cases y) (fastforce simp: net_leaves_def split: if_splits option.splits sum.splits)
  qed
  then show ?thesis using assms by (fastforce simp: net_leaves_def)
qed

lemma during_sync: "Q st \<Longrightarrow> net_leaves (process_block_during_sync net b i st) Q"
  unfolding process_block_during_sync_def
  by (rule net_leaves_bind [OF backlog]) (auto intro: net_leaves_return trigger elim: same)

lemma normal_operation: "Q st \<Longrightarrow> net_leaves (process_block_during_normal_operation net b i h st) Q"
proof -
  assume "Q st"
  then have "Q (trigger_fetch_items_loop st)" by (rule trigger)
  then have acc: "net_leaves (accept_block net b i False (trigger_fetch_items_loop st)) Q" by (rule accept)
  have move: "Q (fold (\<lambda>p. update_peer p (move_advertised item)) ps st')" if "Q st'" for item ps st'
    using that by (intro fold_keeps [where P = Q]) (auto intro: peer simp: move_advertised_def set_insert_def)
  have cache: "Q (st'\<lparr>message_cache := c\<rparr>)" if "Q st'" for st' c using that by (auto elim: same)
  show ?thesis
    using acc unfolding process_block_during_normal_operation_def Let_def
    by (auto simp: net_leaves_def split: option.splits sum.splits intro!: cache broadcasts move offering)
qed

lemma block_message: "Q st \<Longrightarrow> net_leaves (process_block_message net p b i h st) Q"
  unfolding process_block_message_def Let_def
  by (auto intro!: during_sync normal_operation disconnect net_leaves_return intro: peer)

lemma ordinary_message:
  assumes "Q st"
  shows "net_leaves (process_ordinary_message net p m h st) Q"
proof -
  have client: "Q (st'\<lparr>client := c\<rparr>)" if "Q st'" for st' c using that by (auto elim: same)
  show ?thesis
    using assms unfolding process_ordinary_message_def Let_def
    by (auto simp: pass_to_client_def net_bind_def net_assert_def net_leaves_def assert_that_def
        split: option.splits sum.splits if_splits intro!: broadcasts disconnect client trigger peer_same)
qed

lemma ids_asked:
  assumes "Q st"
  shows "net_leaves (on_fetch_blockchain_item_ids_message net p ty synopsis st) Q"
proof (cases "get_item_ids (chain_node net) (net_build net) ty synopsis 2000 (client st)")
  case (Inr answer)
  have "net_leaves (handshake_done net p st) Q" if "Q st" for st
  proof -
    have "Q (st\<lparr>active_connections := as, handshaking_connections := hs\<rparr>)" for as hs using that by (auto elim: same)
    then show ?thesis using that by (auto simp: handshake_done_def intro!: start net_leaves_return)
  qed
  then have rest: "net_leaves (handshake_done net p (send_message p (blockchain_item_ids_inventory_message k ty hs) st)) Q"
    if "Q st" for k hs st using that by (simp add: send)
  have first: "net_leaves (if c then start_synchronizing_with_peer net p st else Some (Inr (), st)) Q" if "Q st" for c st
    using that by (simp add: start net_leaves_return)
  obtain hs k where "answer = (hs, k)" by fastforce
  then show ?thesis
    using Inr unfolding on_fetch_blockchain_item_ids_message_def Let_def
    by (simp only: sum.case prod.case) (rule net_leaves_bind [OF first rest]; simp add: assms peer_same)
qed (use assms in \<open>simp add: on_fetch_blockchain_item_ids_message_def net_leaves_def\<close>)

lemma flush: "Q st \<Longrightarrow> net_leaves (flush_seen net p ty hs st) Q"
proof (induction hs arbitrary: st)
  case (Cons h hs)
  show ?case
    using Cons.prems by (auto intro!: net_leaves_bind [OF net_leaves_assert] Cons.IH peer_same net_leaves_return)
qed (simp add: net_leaves_return)

lemma hashes:
  assumes "Q st"
  shows "net_leaves (new_hashes net p ty hs st) Q"
proof -
  have "net_leaves (switch_lists net p hs st) Q"
    using assms unfolding switch_lists_def Let_def
    by (auto intro!: net_leaves_bind [OF net_leaves_assert] net_leaves_return peer_same split: sum.split)
  then show ?thesis using assms by (auto simp: new_hashes_def intro: flush net_leaves_return)
qed

lemma count: "Q st \<Longrightarrow> Q (count_unfetched st)"
  by (auto simp: count_unfetched_def elim: same)

lemma ids_received:
  assumes "Q st"
  shows "net_leaves (on_blockchain_item_ids_inventory_message net p remaining ty hs st) Q"
proof -
  show ?thesis
    using assms unfolding on_blockchain_item_ids_inventory_message_def Let_def
    by (auto intro!: trigger net_leaves_bind [OF hashes] net_leaves_bind [OF net_leaves_assert] next_batch count peer_same net_leaves_return)
qed

lemma sync_requests: "Q st \<Longrightarrow> Q (fetch_sync_items_loop st)"
proof -
  have request: "Q (request_sync_item_from_peer p h st)" if "Q st" for p h st
  proof -
    have "Q (st\<lparr>active_sync_requests := set_insert h (active_sync_requests st)\<rparr>)" using that by (auto simp: set_insert_def elim: same)
    then show ?thesis by (auto simp: request_sync_item_from_peer_def Let_def intro!: send peer_same)
  qed
  assume "Q st"
  then have "Q (st\<lparr>sync_items_to_fetch_updated := False\<rparr>)" by (auto elim: same)
  then show ?thesis
    unfolding fetch_sync_items_loop_def Let_def by (intro fold_keeps [where P = Q]) (auto intro: request)
qed

lemma item_requests: "Q st \<Longrightarrow> Q (fetch_items_loop st)"
proof -
  have fetch: "Q (fetch_item i st)" if "Q st" for i st
    using that by (auto simp: fetch_item_def Let_def split: option.split intro!: send items peer_same)
  assume "Q st"
  then have "Q (st\<lparr>items_to_fetch_updated := False\<rparr>)" by (auto elim: same)
  then show ?thesis unfolding fetch_items_loop_def Let_def by (intro fold_keeps [where P = Q]) (rule fetch)
qed

lemma advertised: "Q st \<Longrightarrow> Q (on_item_ids_inventory_message p ty hs st)"
  unfolding on_item_ids_inventory_message_def
proof (rule fold_keeps [where P = Q])
  show "Q (advertised_item ty p h st)" if "Q st" for h st
    using that by (auto simp: advertised_item_def Let_def intro!: trigger items peer_same)
qed

lemma not_available: "Q st \<Longrightarrow> Q (on_item_not_available_message p item st)"
  by (auto simp: on_item_not_available_message_def intro!: trigger peer_same)

lemma requested_not_ids: "requested_items net ty st hs = Inr ms \<Longrightarrow> item_ids_inventory_message t is \<notin> set ms"
  by (induction hs arbitrary: ms) (auto simp: res_bind_eq_Inr requested_item_def split: sum.splits if_splits)

lemma items_asked:
  assumes "Q st"
  shows "net_leaves (on_fetch_items_message net p ty hs st) Q"
proof -
  have "Q (fold (send_message p) ms st)" if "\<And>t is. item_ids_inventory_message t is \<notin> set ms" for ms
    using assms that
  proof (induction ms arbitrary: st)
    case (Cons m ms)
    have "Q (send_message p m st)" by (rule send [OF Cons.prems(1)]) (use Cons.prems(2) in auto)
    then show ?case using Cons by simp
  qed simp
  then show ?thesis
    using assms requested_not_ids by (auto simp: on_fetch_items_message_def net_leaves_def split: sum.splits)
qed

lemma address: "Q st \<Longrightarrow> net_leaves (on_address_message net p st) Q"
proof -
  assume "Q st"
  moreover from this have "Q (st\<lparr>active_connections := as, handshaking_connections := hs\<rparr>)" for as hs by (auto elim: same)
  ultimately show ?thesis by (auto simp: on_address_message_def intro!: disconnect start net_leaves_return)
qed

lemma event: "Q st \<Longrightarrow> net_leaves (on_event net ev st) Q"
  by (auto simp: on_event_def on_message_def split: event.split net_message.split client_message.split
      intro!: net_leaves_return ids_asked ids_received items_asked not_available advertised address block_message ordinary_message
        sync_requests item_requests advertise opened closed disconnect broadcasts peer_same)

lemma run: "node_run net st st' \<Longrightarrow> Q st \<Longrightarrow> Q st'"
proof (induction rule: node_run.induct)
  case (next_event st st1 ev r st2)
  then show ?case using event [of st1 net ev] by (simp add: net_leaves_def)
qed

end

lemma run_events_run:
  assumes "run_events net evs st = Some st'"
  shows "node_run net st st'"
proof -
  have "node_run net st0 st \<Longrightarrow> node_run net st0 st'" for st0
    using assms by (induction evs arbitrary: st) (auto split: option.splits intro: next_event)
  then show ?thesis by (simp add: idle_node)
qed

section \<open>The requests of the synchronisation\<close>

lemma advertise_to_peers_same:
  "advertise_to_peers items ps st = (ms, st') \<Longrightarrow> active_sync_requests st' = active_sync_requests st \<and> sent st' = sent st
    \<and> new_inventory st' = new_inventory st"
  by (induction ps arbitrary: st ms) (auto simp: Let_def update_peer_def split: prod.splits)

lemma send_all: "fold (\<lambda>(p, m). send_message p m) ms st = st\<lparr>sent := sent st @ ms\<rparr>"
  by (induction ms arbitrary: st) (auto simp: send_message_def)

lemma advertise_loop:
  obtains ms st1 where "advertise_to_peers (new_inventory st) (active_connections st) (st\<lparr>new_inventory := []\<rparr>) = (ms, st1)"
    and "advertise_inventory_loop st = st1\<lparr>sent := sent st @ ms\<rparr>" and "active_sync_requests st1 = active_sync_requests st"
    and "new_inventory st1 = []"
proof -
  obtain ms st1 where run: "advertise_to_peers (new_inventory st) (active_connections st) (st\<lparr>new_inventory := []\<rparr>) = (ms, st1)"
    by fastforce
  with advertise_to_peers_same [OF this] show thesis
    by (intro that [of ms st1]) (auto simp: advertise_inventory_loop_def Let_def send_all)
qed

interpretation requests: node_property "\<lambda>st. S \<subseteq> set (active_sync_requests st)" for S
proof
  show "S \<subseteq> set (active_sync_requests (advertise_inventory_loop st))" if "S \<subseteq> set (active_sync_requests st)" for st
    using that by (rule_tac st = st in advertise_loop) simp
qed (auto simp: update_peer_def send_message_def open_connection_def Let_def)

lemma schedule_requests_new:
  "(p, h) \<in> set (schedule_requests ps requests st) \<Longrightarrow> (p, h) \<in> set requests \<or> h \<notin> set (active_sync_requests st)"
proof (induction ps arbitrary: requests)
  case (Cons q ps)
  have new: "x \<notin> set (active_sync_requests st)"
    if "find (\<lambda>h. \<not> have_already_received_sync_item h st \<and> h \<notin> snd ` set requests \<and> h \<notin> set (active_sync_requests st)) hs = Some x"
    for x hs using find_SomeD(1) [OF that] by simp
  show ?case using Cons.prems Cons.IH by (simp split: if_splits option.splits) (use new in force)
qed simp

text \<open>
  C6. A block of the synchronisation is requested at most once, from one peer. A request for it is never
  forgotten, whatever happens: also when that peer answers that it does not have the block, or when its
  connection is closed, no round of requests ever asks another one.
\<close>

theorem sync_item_requested_once:
  assumes "node_run net (request_sync_item_from_peer q h st) st'"
  shows "h \<in> set (active_sync_requests st') \<and> (p, h) \<notin> set (schedule_requests (active_connections st') [] st')"
proof -
  have "{h} \<subseteq> set (active_sync_requests (request_sync_item_from_peer q h st))"
    by (simp add: request_sync_item_from_peer_def Let_def send_message_def update_peer_def set_insert_def)
  from requests.run [OF assms this] show ?thesis using schedule_requests_new by fastforce
qed

section \<open>Inventories\<close>

definition advertised_to :: "peer_id \<Rightarrow> (peer_id \<times> net_message) list \<Rightarrow> item_id list" where
  "advertised_to p ms = concat (map (\<lambda>(q, m). case m of
      item_ids_inventory_message t hs \<Rightarrow> if q = p then map (\<lambda>h. \<lparr>item_type = t, item_hash = h\<rparr>) hs else []
    | _ \<Rightarrow> []) ms)"

lemma advertised_to_simps [simp]:
  "advertised_to p [] = []" "advertised_to p (ms @ ms') = advertised_to p ms @ advertised_to p ms'"
  by (simp_all add: advertised_to_def)

lemma item_id_eta: "map (\<lambda>h. \<lparr>item_type = t, item_hash = h\<rparr>) (map item_hash (filter (\<lambda>i. item_type i = t) items))
    = filter (\<lambda>i. item_type i = t) items"
  by (induction items) auto

lemma advertised_inventory: "advertised_to q (inventory_messages p items) = (if q = p
    then concat (map (\<lambda>t. filter (\<lambda>i. item_type i = t) items) (sort (remdups (map item_type items)))) else [])"
proof -
  have "advertised_to q (map (\<lambda>t. (p, item_ids_inventory_message t (map item_hash (filter (\<lambda>i. item_type i = t) items)))) ts)
      = (if q = p then concat (map (\<lambda>t. filter (\<lambda>i. item_type i = t) items) ts) else [])" for ts
    by (induction ts) (auto simp: advertised_to_def item_id_eta simp del: map_map)
  then show ?thesis by (simp only: inventory_messages_def)
qed

lemma distinct_groups: "distinct items \<Longrightarrow> distinct ts \<Longrightarrow> distinct (concat (map (\<lambda>t. filter (\<lambda>i. f i = t) items) ts))"
  by (induction ts) auto

lemma advertised_group:
  assumes "distinct items"
  shows "distinct (advertised_to q (inventory_messages p items))"
    and "set (advertised_to q (inventory_messages p items)) = (if q = p then set items else {})"
  using distinct_groups [OF assms, of "sort (remdups (map item_type items))" item_type]
  by (auto simp: advertised_inventory)

lemma advertise_to_peers_once:
  assumes "advertise_to_peers items ps st = (ms, st')" and "distinct items"
  shows "distinct (advertised_to p ms)
    \<and> set (advertised_to p ms) \<inter> set (inventory_advertised_to_peer (peers st p)) = {}
    \<and> set (inventory_advertised_to_peer (peers st' p))
      = set (inventory_advertised_to_peer (peers st p)) \<union> set (advertised_to p ms)"
  using assms
proof (induction ps arbitrary: st ms)
  case (Cons q ps)
  let ?new = "items_for_peer items (peers st q)"
  let ?st = "update_peer q (\<lambda>c. c\<lparr>inventory_advertised_to_peer := inventory_advertised_to_peer c @ ?new\<rparr>) st"
  obtain ms' where ms: "ms = inventory_messages q ?new @ ms'" and rest: "advertise_to_peers items ps ?st = (ms', st')"
    using Cons.prems(1) by (auto simp: Let_def split: prod.splits)
  have new: "distinct ?new" "set ?new \<inter> set (inventory_advertised_to_peer (peers st q)) = {}"
    using Cons.prems(2) by (auto simp: items_for_peer_def)
  have "inventory_advertised_to_peer (peers ?st p)
      = inventory_advertised_to_peer (peers st p) @ (if q = p then ?new else [])"
    by (simp add: update_peer_def)
  then show ?case
    using Cons.IH [OF rest Cons.prems(2)] advertised_group [OF new(1), of p q] new(2) ms by (auto split: if_splits)
qed simp

definition advertised_once :: "node_impl \<Rightarrow> bool" where
  "advertised_once st \<longleftrightarrow> distinct (new_inventory st) \<and> (\<forall>p. distinct (advertised_to p (sent st))
     \<and> set (advertised_to p (sent st)) \<subseteq> set (inventory_advertised_to_peer (peers st p)))"

lemma advertised_once_loop:
  assumes "advertised_once st"
  shows "advertised_once (advertise_inventory_loop st)"
proof (rule advertise_loop [of st])
  fix ms st1
  assume run: "advertise_to_peers (new_inventory st) (active_connections st) (st\<lparr>new_inventory := []\<rparr>) = (ms, st1)"
    and loop: "advertise_inventory_loop st = st1\<lparr>sent := sent st @ ms\<rparr>" and "new_inventory st1 = []"
  have "distinct (new_inventory st)" using assms by (simp add: advertised_once_def)
  note once = advertise_to_peers_once [OF run this]
  have "distinct (advertised_to p (sent st @ ms)) \<and> set (advertised_to p (sent st @ ms)) \<subseteq> set (inventory_advertised_to_peer (peers st1 p))" for p
  proof -
    have "distinct (advertised_to p (sent st))" "set (advertised_to p (sent st)) \<subseteq> set (inventory_advertised_to_peer (peers st p))"
      using assms by (simp_all add: advertised_once_def)
    then show ?thesis using once [of p] by auto
  qed
  then show ?thesis unfolding loop by (simp add: advertised_once_def \<open>new_inventory st1 = []\<close>)
qed

lemma fold_max_ge: "(x :: nat) \<in> set xs \<or> x \<le> m \<Longrightarrow> x \<le> fold max xs m"
proof (induction xs arbitrary: m)
  case (Cons y xs)
  have "x \<in> set xs \<or> x \<le> max y m" using Cons.prems by auto
  from Cons.IH [OF this] show ?case by simp
qed simp

lemma advertised_fresh: "advertised_to (fresh_peer st) (sent st) = []"
proof -
  have "q < fresh_peer st" if "(q, m) \<in> set (sent st)" for q m
  proof -
    have "q \<in> fst ` set (sent st)" by (rule image_eqI [OF _ that]) simp
    then have "q \<in> set (map fst (sent st) @ active_connections st @ handshaking_connections st @ closing_connections st)" by simp
    then show ?thesis unfolding fresh_peer_def by (meson fold_max_ge le_imp_less_Suc)
  qed
  then have "advertised_to (fresh_peer st) ms = []" if "set ms \<subseteq> set (sent st)" for ms
    using that
  proof (induction ms)
    case (Cons m ms)
    then have "fst m \<noteq> fresh_peer st" by (cases m) auto
    then show ?case using Cons by (cases m) (auto simp: advertised_to_def split: net_message.split)
  qed simp
  then show ?thesis by simp
qed

interpretation inventories: node_property advertised_once
proof
  show "advertised_once (open_connection d st)" if "advertised_once st" for d st
    using that advertised_fresh [of st] by (auto simp: advertised_once_def open_connection_def Let_def)
  show "advertised_once (send_message p m st)"
    if "advertised_once st" "\<And>t hs. m \<noteq> item_ids_inventory_message t hs" for p m st
  proof -
    have "advertised_to q [(p, m)] = []" for q using that(2) by (auto simp: advertised_to_def split: net_message.split)
    then show ?thesis using that(1) by (simp add: advertised_once_def send_message_def)
  qed
  show "advertised_once (update_peer p f st)"
    if "advertised_once st" "\<And>c. set (inventory_advertised_to_peer c) \<subseteq> set (inventory_advertised_to_peer (f c))" for f p st
    using that by (fastforce simp: advertised_once_def update_peer_def)
qed (simp add: advertised_once_def, rule advertised_once_loop)

text \<open>
  C7. Whatever messages arrive and in whatever order the rounds of the loops run, no item is advertised to
  a connection twice.
\<close>

theorem items_advertised_once:
  assumes "node_run net st st'" and "sent st = []" and "distinct (new_inventory st)"
  shows "distinct (advertised_to p (sent st'))"
proof -
  have "advertised_once st" using assms(2,3) by (simp add: advertised_once_def)
  from inventories.run [OF assms(1) this] show ?thesis by (simp add: advertised_once_def)
qed

section \<open>The cache of messages\<close>

datatype cache_operation = block_was_accepted | message_cached client_message bytes

fun cache_step :: "cache_operation \<Rightarrow> message_cache \<Rightarrow> message_cache" where
  "cache_step block_was_accepted c = block_accepted c"
| "cache_step (message_cached m h) c = cache_message m h c"

definition blocks :: "cache_operation list \<Rightarrow> nat" where
  "blocks ops = length (filter (\<lambda>op. op = block_was_accepted) ops)"

text \<open>The first entry for a hash, and when it was received.\<close>

definition cached :: "bytes \<Rightarrow> message_cache \<Rightarrow> message_info option" where
  "cached h c = find (\<lambda>i. message_hash i = h) (cached_messages c)"

lemma get_message_cached: "get_message h c = (case cached h c of Some i \<Rightarrow> Inr (message_body i) | None \<Rightarrow> Inl (exception no_result))"
  by (simp add: get_message_def cached_def)

lemma cached_none: "cached h c = None \<longleftrightarrow> h \<notin> message_hash ` set (cached_messages c)"
  by (auto simp: cached_def find_None_iff)

lemma cached_cache_message:
  "cached h (cache_message m k c) = (case cached h c of Some i \<Rightarrow> Some i
     | None \<Rightarrow> if h = k then Some \<lparr>message_hash = k, message_body = m, block_clock_when_received = block_clock c\<rparr> else None)"
proof (cases "k \<in> message_hash ` set (cached_messages c)")
  case True
  then show ?thesis using cached_none [of h c] by (auto simp: cache_message_def split: option.split)
next
  case False
  then show ?thesis using cached_none [of k c]
    by (auto simp: cache_message_def cached_def split: option.split)
qed

lemma distinct_filter_find:
  "distinct (map f xs) \<Longrightarrow> find (\<lambda>i. f i = h) (filter P xs) = (case find (\<lambda>i. f i = h) xs of
     Some i \<Rightarrow> if P i then Some i else None | None \<Rightarrow> None)"
proof (induction xs)
  case (Cons x xs)
  then have "find (\<lambda>i. f i = f x) xs = None" by (auto simp: find_None_iff image_iff)
  with Cons show ?case by (cases "f x = h") auto
qed simp

definition cache_ok :: "message_cache \<Rightarrow> bool" where
  "cache_ok c \<longleftrightarrow> distinct (map message_hash (cached_messages c))"

lemma cached_block_accepted:
  assumes "cache_ok c" and "unat (block_clock c) + 1 < 2 ^ 32"
  shows "cached h (block_accepted c) = (case cached h c of
      Some i \<Rightarrow> if unat (block_clock c) \<le> unat (block_clock_when_received i) + 1 then Some i else None | None \<Rightarrow> None)"
proof -
  have clock: "unat (block_clock c + 1) = unat (block_clock c) + 1" using assms(2) by (simp add: unat_word_ariths)
  show ?thesis
  proof (cases "unat (block_clock c) < 2")
    case True
    then have "\<not> cache_duration_in_blocks < block_clock c + 1" by (simp add: word_less_nat_alt clock cache_duration_in_blocks_def)
    with True show ?thesis by (auto simp: block_accepted_def cached_def split: option.split)
  next
    case False
    then have *: "cache_duration_in_blocks < block_clock c + 1" by (simp add: word_less_nat_alt clock cache_duration_in_blocks_def)
    then have "unat (block_clock c + 1 - cache_duration_in_blocks) = unat (block_clock c + 1) - unat cache_duration_in_blocks"
      by (intro unat_sub) simp
    then have "unat (block_clock c + 1 - cache_duration_in_blocks) = unat (block_clock c) - 1"
      by (simp only: clock) (simp add: cache_duration_in_blocks_def)
    then have "filter (\<lambda>i. \<not> block_clock_when_received i < block_clock c + 1 - cache_duration_in_blocks) (cached_messages c)
      = filter (\<lambda>i. unat (block_clock c) \<le> unat (block_clock_when_received i) + 1) (cached_messages c)"
      using False by (intro filter_cong) (auto simp: word_less_nat_alt not_less)
    then have "block_accepted c = c\<lparr>block_clock := block_clock c + 1, cached_messages :=
        filter (\<lambda>i. unat (block_clock c) \<le> unat (block_clock_when_received i) + 1) (cached_messages c)\<rparr>"
      using * by (simp add: block_accepted_def)
    then show ?thesis
      using assms(1) by (simp add: cached_def distinct_filter_find cache_ok_def split: option.split)
  qed
qed

lemma cache_ok_steps: "cache_ok c \<Longrightarrow> cache_ok (cache_step op c)"
  by (cases op) (auto simp: cache_ok_def block_accepted_def cache_message_def Let_def distinct_map_filter)

lemma cache_clock: "block_clock (cache_step op c) = (if op = block_was_accepted then block_clock c + 1 else block_clock c)"
  by (cases op) (auto simp: block_accepted_def cache_message_def Let_def)

text \<open>How long an entry is kept.\<close>

lemma cached_ops:
  assumes "cache_ok c" and "unat (block_clock c) + blocks ops < 2 ^ 32" and "cached h c = Some i"
    and "unat (block_clock_when_received i) \<le> unat (block_clock c)"
    and "unat (block_clock c) + blocks ops \<le> unat (block_clock_when_received i) + 2"
  shows "cached h (fold cache_step ops c) = Some i"
  using assms
proof (induction ops arbitrary: c)
  case (Cons op ops)
  show ?case
  proof (cases op)
    case block_was_accepted
    have clock: "unat (block_clock c + 1) = unat (block_clock c) + 1"
      using Cons.prems(2) block_was_accepted by (simp add: unat_word_ariths blocks_def)
    have "cached h (block_accepted c) = Some i"
      using Cons.prems block_was_accepted by (subst cached_block_accepted) (auto simp: blocks_def)
    then show ?thesis
      using Cons.IH [of "block_accepted c"] Cons.prems cache_ok_steps [of c op] cache_clock [of op c] block_was_accepted clock
      by (simp add: blocks_def)
  next
    case (message_cached m k)
    then show ?thesis
      using Cons.IH [of "cache_message m k c"] Cons.prems cache_ok_steps [of c op] cache_clock [of op c]
      by (simp add: blocks_def cached_cache_message)
  qed
qed simp

text \<open>And when it goes.\<close>

lemma cached_gone:
  assumes "cache_ok c" and "unat (block_clock c) + blocks ops < 2 ^ 32" and "\<And>m. message_cached m h \<notin> set ops"
    and "cached h c = None \<or> (\<exists>i. cached h c = Some i \<and> unat (block_clock_when_received i) + 2 < unat (block_clock c) + blocks ops
      \<and> unat (block_clock c) \<le> unat (block_clock_when_received i) + 2)"
  shows "cached h (fold cache_step ops c) = None"
  using assms
proof (induction ops arbitrary: c)
  case Nil
  then show ?case by (auto simp: blocks_def)
next
  case (Cons op ops)
  have others: "message_cached m h \<notin> set ops" for m using Cons.prems(3) [of m] by simp
  have step: "cache_ok (cache_step op c)" by (rule cache_ok_steps [OF Cons.prems(1)])
  show ?case
  proof (cases op)
    case block_was_accepted
    have clock: "unat (block_clock (block_accepted c)) = unat (block_clock c) + 1"
      using Cons.prems(2) cache_clock [of op c] block_was_accepted by (simp add: unat_word_ariths blocks_def)
    have "cached h (block_accepted c) = (case cached h c of
      Some i \<Rightarrow> if unat (block_clock c) \<le> unat (block_clock_when_received i) + 1 then Some i else None | None \<Rightarrow> None)"
      using Cons.prems(1,2) block_was_accepted by (intro cached_block_accepted) (auto simp: blocks_def)
    then show ?thesis
      using Cons.IH [of "block_accepted c"] others step clock Cons.prems(2,4) block_was_accepted
      by (auto simp: blocks_def)
  next
    case (message_cached m k)
    then have "h \<noteq> k" using Cons.prems(3) [of m] by auto
    then show ?thesis
      using Cons.IH [of "cache_message m k c"] others step cache_clock [of op c] Cons.prems(2,4) message_cached
      by (auto simp: blocks_def cached_cache_message)
  qed
qed

text \<open>
  C10. A message that is cached can be had while at most two more blocks are accepted, whatever else is
  cached; after the third it is gone, unless it comes again.
\<close>

theorem cache_keeps_two_blocks:
  assumes "cache_ok c" and "h \<notin> message_hash ` set (cached_messages c)" and "unat (block_clock c) + blocks ops < 2 ^ 32"
  shows "(blocks ops \<le> 2 \<longrightarrow> get_message h (fold cache_step ops (cache_message m h c)) = Inr m)
    \<and> (2 < blocks ops \<and> (\<forall>m'. message_cached m' h \<notin> set ops)
      \<longrightarrow> get_message h (fold cache_step ops (cache_message m h c)) = Inl (exception no_result))"
proof -
  let ?c = "cache_message m h c"
  have c: "cached h ?c = Some \<lparr>message_hash = h, message_body = m, block_clock_when_received = block_clock c\<rparr>"
    using assms(2) cached_none [of h c] by (simp add: cached_cache_message)
  moreover have "cache_ok ?c" "block_clock ?c = block_clock c"
    using cache_ok_steps [OF assms(1), of "message_cached m h"] cache_clock [of "message_cached m h" c] by simp_all
  ultimately show ?thesis
    using assms(3) cached_ops [of ?c ops h] cached_gone [of ?c ops h] by (simp add: get_message_cached)
qed

theorem cache_keeps_two_blocks_witness:
  "get_message [1] (fold cache_step [block_was_accepted, message_cached (other_message 7) [2], block_was_accepted]
     (cache_message (other_message 5) [1] empty_cache)) = Inr (other_message 5)
   \<and> get_message [1] (fold cache_step [block_was_accepted, block_was_accepted, block_was_accepted]
     (cache_message (other_message 5) [1] empty_cache)) = Inl (exception no_result)"
  using cache_keeps_two_blocks [of empty_cache "[1]" "[block_was_accepted, message_cached (other_message 7) [2], block_was_accepted]"
      "other_message 5"]
    cache_keeps_two_blocks [of empty_cache "[1]" "[block_was_accepted, block_was_accepted, block_was_accepted]" "other_message 5"]
  by (simp add: empty_cache_def cache_ok_def blocks_def)

section \<open>Instances\<close>

definition sample_net :: net where
  "sample_net = \<lparr>chain_node = sample_node, net_build = sample_build,
     message_id = (\<lambda>m. case m of block_message b i \<Rightarrow> 1 # i | trx_message t \<Rightarrow> 2 # trx_id (base sample_node) t | other_message t \<Rightarrow> [3])\<rparr>"

definition sample_peer :: peer_connection where
  "sample_peer = new_peer_connection\<lparr>state := connected, ids_of_items_to_get := [[9]]\<rparr>"

text \<open>A node with two peers and a chain of two blocks.\<close>

definition sample_p2p :: node_impl where
  "sample_p2p = \<lparr>client = sample_line [sample_block_1, sample_block_2], peers = (\<lambda>_. sample_peer), active_connections = [1, 2],
     handshaking_connections = [], closing_connections = [], active_sync_requests = [], received_sync_items = [],
     sync_items_to_fetch_updated = False, items_to_fetch = [], items_to_fetch_updated = False, new_inventory = [],
     most_recent_blocks_accepted = [], sync_item_type = block_message_type, total_number_of_unfetched_items = 0,
     message_cache = empty_cache, sent = []\<rparr>"

definition sample_missing :: "event list" where
  "sample_missing = [received 1 (item_not_available_message \<lparr>item_type = block_message_type, item_hash = [9]\<rparr>),
     sync_round_of_requests, connection_closed 1, sync_round_of_requests]"

lemma sample_missing_run:
  "map_option (\<lambda>st. map snd (sent st)) (run_events sample_net sample_missing (request_sync_item_from_peer 1 [9] sample_p2p))
    = Some [fetch_items_message block_message_type [[9]]]"
  by code_simp

theorem sync_item_requested_once_witness:
  "\<exists>st. run_events sample_net sample_missing (request_sync_item_from_peer 1 [9] sample_p2p) = Some st
    \<and> map snd (sent st) = [fetch_items_message block_message_type [[9]]]
    \<and> (2, [9]) \<notin> set (schedule_requests (active_connections st) [] st)"
proof -
  obtain st where st: "run_events sample_net sample_missing (request_sync_item_from_peer 1 [9] sample_p2p) = Some st"
    and sent: "map snd (sent st) = [fetch_items_message block_message_type [[9]]]"
    using sample_missing_run by auto
  have "(2, [9]) \<notin> set (schedule_requests (active_connections st) [] st)"
    by (rule conjunct2 [OF sync_item_requested_once [OF run_events_run [OF st]]])
  with st sent show ?thesis by (intro exI [of _ st] conjI)
qed

definition sample_gossip :: "event list" where
  "sample_gossip = [broadcast_by_client (other_message 5), round_of_inventories, broadcast_by_client (other_message 5),
     connection_opened inbound, round_of_inventories]"

definition sample_quiet :: node_impl where
  "sample_quiet = sample_p2p\<lparr>peers := (\<lambda>_. sample_peer\<lparr>peer_needs_sync_items_from_us := False\<rparr>)\<rparr>"

lemma sample_gossip_run:
  "map_option (\<lambda>st. advertised_to 2 (sent st)) (run_events sample_net sample_gossip sample_quiet)
    = Some [\<lparr>item_type = 5, item_hash = [3]\<rparr>]"
  by code_simp

theorem items_advertised_once_witness:
  "\<exists>st. run_events sample_net sample_gossip sample_quiet = Some st
    \<and> advertised_to 2 (sent st) = [\<lparr>item_type = 5, item_hash = [3]\<rparr>] \<and> distinct (advertised_to 2 (sent st))"
proof -
  obtain st where st: "run_events sample_net sample_gossip sample_quiet = Some st"
    and "advertised_to 2 (sent st) = [\<lparr>item_type = 5, item_hash = [3]\<rparr>]"
    using sample_gossip_run by auto
  moreover have "distinct (advertised_to 2 (sent st))"
    by (rule items_advertised_once [OF run_events_run [OF st]]) (simp_all add: sample_quiet_def sample_p2p_def)
  ultimately show ?thesis by blast
qed

end
