(* ===== verification/Bts_Peer.thy ===== *)
theory Bts_Peer
  imports Bts_Gossip
begin

text \<open>
  What a node keeps of the chain of a peer while it synchronises with it: the synopsis it sends, of which
  the client computes one part and the node the other, and the number of the last block both have.
\<close>

section \<open>The synopsis for a peer\<close>





section \<open>The number of the last block\<close>

lemma update_peer_update: "update_peer p g (update_peer p f st) = update_peer p (g \<circ> f) st"
  by (simp add: update_peer_def)

lemma flush_seen_known:
  "(\<And>h. h \<in> set known \<Longrightarrow> has_item ty h (client st) \<and> h \<noteq> null_block_id)
   \<Longrightarrow> \<not> has_item ty (hd news) (client st) \<Longrightarrow> news \<noteq> []
   \<Longrightarrow> flush_seen net p ty (known @ news) st = Some (Inr news, update_peer p (\<lambda>c. c\<lparr>
      last_block_delegate_has_seen := last (last_block_delegate_has_seen c # known),
      last_block_number_delegate_has_seen := last_block_number_delegate_has_seen c + of_nat (length known)\<rparr>) st)"
proof (induction known arbitrary: st)
  case Nil
  then obtain h hs where "news = h # hs" by (cases news) auto
  then show ?case using Nil by (simp add: update_peer_def)
next
  case (Cons h known)
  let ?st = "update_peer p (\<lambda>c. c\<lparr>last_block_delegate_has_seen := h,
      last_block_number_delegate_has_seen := last_block_number_delegate_has_seen c + 1\<rparr>) st"
  have "client ?st = client st" by (simp add: update_peer_def)
  then have "flush_seen net p ty (known @ news) ?st = Some (Inr news, update_peer p (\<lambda>c. c\<lparr>
      last_block_delegate_has_seen := last (last_block_delegate_has_seen c # known),
      last_block_number_delegate_has_seen := last_block_number_delegate_has_seen c + of_nat (length known)\<rparr>) ?st)"
    using Cons.prems by (intro Cons.IH) auto
  moreover have "flush_seen net p ty ((h # known) @ news) st = flush_seen net p ty (known @ news) ?st"
    using Cons.prems(1) [of h] by (simp add: net_assert_def assert_that_def net_bind_def)
  ultimately show ?case by (simp add: update_peer_update o_def ac_simps)
qed

text \<open>
  C9. The number a node keeps for the last block a peer and its client share counts from the start of
  the first answer: when the answer starts at block q, the number falls q - 1 short of that of the block.
\<close>

theorem peer_number_lags:
  assumes "main_chain (chain_node net) hs (client st)" and "item_ids_requested_from_peer (peers st p) \<noteq> None"
    and "ids_of_items_to_get (peers st p) = []" and "last_block_number_delegate_has_seen (peers st p) = 0"
    and "1 \<le> q" and "0 < m" and "q + m \<le> length hs + 1"
    and "known = map (header_id (base (chain_node net))) (take m (drop (q - 1) hs))"
    and "\<And>h. h \<in> set known \<Longrightarrow> is_known_block h (client st)"
    and "news \<noteq> []" and "\<not> is_known_block (hd news) (client st)"
    and "\<not> is_first_item_for_other_peer p (hd known) st"
  shows "\<exists>st'. on_blockchain_item_ids_inventory_message net p 0 block_message_type (known @ news) st = Some (Inr (), st')
    \<and> ids_of_items_to_get (peers st' p) = news
    \<and> get_block_num (last_block_delegate_has_seen (peers st' p)) (client st') = Inr (of_nat (q - 1 + m))
    \<and> last_block_number_delegate_has_seen (peers st' p) = of_nat m"
proof -
  let ?id = "header_id (base (chain_node net))"
  let ?st = "update_peer p (\<lambda>c. c\<lparr>number_of_unfetched_item_ids := 0\<rparr>) (update_peer p (\<lambda>c. c\<lparr>item_ids_requested_from_peer := None\<rparr>) st)"
  have len: "length known = m" using assms(5,7,8) by simp
  then have ne: "known \<noteq> []" using assms(6) by auto
  have last: "last known = ?id (hs ! (q - 1 + m - 1))"
    using assms(5-8) ne by (simp add: last_conv_nth len nth_drop)
  have num: "get_block_num (last known) (client st) = Inr (of_nat (q - 1 + m))"
    unfolding last using main_chain_num [OF assms(1), of "q - 1 + m - 1"] assms(5-7) by simp
  have known: "has_item block_message_type h (client st) \<and> h \<noteq> null_block_id" if "h \<in> set known" for h
  proof -
    have "h \<in> ?id ` set hs" using that by (auto simp: assms(8) dest: in_set_takeD in_set_dropD)
    then show ?thesis using assms(9) [OF that] main_chainD(7) [OF assms(1)] by (auto simp: has_item_def in_set_conv_nth)
  qed
  have "flush_seen net p block_message_type (known @ news) ?st = Some (Inr news, update_peer p (\<lambda>c. c\<lparr>
      last_block_delegate_has_seen := last (last_block_delegate_has_seen c # known),
      last_block_number_delegate_has_seen := last_block_number_delegate_has_seen c + of_nat (length known)\<rparr>) ?st)"
    by (rule flush_seen_known) (use known assms(10,11) in \<open>auto simp: update_peer_def has_item_def\<close>)
  moreover have "\<not> is_first_item_for_other_peer p (hd (known @ news)) ?st"
    using assms(12) ne by (auto simp: is_first_item_for_other_peer_def update_peer_def list_ex_iff)
  moreover have "\<not> peer_up_to_date p 0 block_message_type (known @ news) (update_peer p (\<lambda>c. c\<lparr>item_ids_requested_from_peer := None\<rparr>) st)"
    using ne assms(10) by (auto simp: peer_up_to_date_def) (cases known; cases news; simp)+
  ultimately show ?thesis
    using assms(2-4,10) ne num
    by (auto simp: on_blockchain_item_ids_inventory_message_def new_hashes_def net_bind_def net_assert_def assert_that_def
        update_peer_def count_unfetched_def trigger_fetch_sync_items_loop_def Let_def len)
qed

section \<open>Instances\<close>



definition sample_answered :: node_impl where
  "sample_answered = update_peer 1 (\<lambda>c. c\<lparr>ids_of_items_to_get := [],
     item_ids_requested_from_peer := Some \<lparr>item_type = block_message_type, item_hash = []\<rparr>\<rparr>) sample_p2p"

lemma sample_answer:
  "is_known_block (block_id sample_node sample_block_2) (sample_line [sample_block_1, sample_block_2])"
  "is_known_block [7] (sample_line [sample_block_1, sample_block_2]) = False"
  "block_id sample_node sample_block_2 \<noteq> [9]"
  by code_simp+

theorem peer_number_lags_witness:
  "\<exists>st. on_blockchain_item_ids_inventory_message sample_net 1 0 block_message_type
      [block_id sample_node sample_block_2, [7]] sample_answered = Some (Inr (), st)
    \<and> last_block_number_delegate_has_seen (peers st 1) = 1
    \<and> get_block_num (last_block_delegate_has_seen (peers st 1)) (client st) = Inr 2"
proof -
  have "\<exists>st'. on_blockchain_item_ids_inventory_message sample_net 1 0 block_message_type
        ([block_id sample_node sample_block_2] @ [[7]]) sample_answered = Some (Inr (), st')
    \<and> ids_of_items_to_get (peers st' 1) = [[7]]
    \<and> get_block_num (last_block_delegate_has_seen (peers st' 1)) (client st') = Inr (of_nat (2 - 1 + 1))
    \<and> last_block_number_delegate_has_seen (peers st' 1) = of_nat 1"
    by (rule peer_number_lags [where hs = "map fb_header [sample_block_1, sample_block_2]"])
      (use sample_two_chain sample_answer in \<open>simp_all add: sample_answered_def update_peer_def sample_net_def sample_p2p_def
        block_id_def is_first_item_for_other_peer_def sample_peer_def new_peer_connection_def\<close>)
  then show ?thesis by auto
qed

end
