(* ===== verification/Spec2Isabelle.thy ===== *)
theory Spec2Isabelle
  imports Sha2_Small Sha2_Big Sha1 Sha0 Md5 Md4 Md2 Ripemd Ripemd128 Ripemd160
    Bts_Safety Bts_Account Bts_Undo Momentum Bts_Fork Bts_Production Bts_Genesis Bts_Peer
begin

text \<open>
  A verification of the core of Keyhotee: the transaction engine of the BitShares chain it is built
  on, and the hash functions of its proof-of-work miner. All paths are relative to \<open>src/\<close>; BL stands
  for \<open>bitshares_toolkit/libraries/blockchain\<close>, SPH for \<open>miner/sphlib-3.0/c\<close>.

  The transaction engine (BL). A transaction is a list of operations that is evaluated in a pending
  state on top of the state of the chain; when it succeeds its changes are applied to the state below,
  and the changes of a block are saved as an undo state before they are applied to the database.
  \<^item> \<open>Bts_Asset\<close>: \<open>asset.cpp\<close>, \<open>asset.hpp\<close>. Amounts are 64-bit words read as signed, ratios 128-bit
    words. The error type of the whole engine is here: an exception is the left value of a sum. What
    the code takes from the \<open>fc\<close> library about 128-bit numbers is the record \<open>fc_lib\<close>, with its
    documented behaviour as the predicate \<open>fc_documented\<close>.
  \<^item> \<open>Bts_Records\<close>: the records of the chain (\<open>account_record\<close>, \<open>asset_record\<close>, \<open>balance_record\<close>,
    \<open>proposal_record\<close>, the market records, block headers, operations, transactions), with their null
    values, and the addresses and digests computed from them. Hashes, signatures and the serialiser
    are functions of the record \<open>env\<close>.
  \<^item> \<open>Bts_State\<close>: the tables of \<open>chain_database.cpp\<close> and of \<open>pending_chain_state.cpp\<close> as association
    lists, every \<open>store_X\<close> of both, and the datatype \<open>chain\<close>, what a \<open>chain_interface_ptr\<close> points to: a
    stack of pending states over the database.
  \<^item> \<open>Bts_Chain\<close>: the virtual operations of \<open>chain_interface\<close> on such a stack, the operations of
    \<open>chain_interface.cpp\<close>, \<open>apply_changes\<close> and \<open>get_undo_state\<close>.
  \<^item> \<open>Bts_Eval\<close>, \<open>Bts_Transaction\<close>: \<open>transaction_evaluation_state.cpp\<close>, every operation that has an
    evaluation (\<open>X_operation::evaluate\<close> is \<open>X_evaluate\<close>), and \<open>chain_database::evaluate_transaction\<close>. A
    run is an option, because the loops of \<open>update_account_operation::evaluate\<close> need not end: \<open>None\<close> is
    a run that does not return; no fuel is used.
  \<^item> \<open>Bts_Sample\<close>: a small chain for the instances of the theorems.
  \<^item> \<open>Bts_Conserve\<close>: conservation of shares and well-formedness, by one lemma per operation
    (\<open>X_keeps_books\<close>) and the lookups after stores (\<open>chain_simps\<close>).
  \<^item> \<open>Bts_Safety\<close>: signatures and what they protect, admission and fees.
  \<^item> \<open>Bts_Account\<close>: when an account update returns, and who can authorise it.
  \<^item> \<open>Bts_Undo\<close>: the contract of a table of the database as the locale \<open>chain_table\<close>, interpreted for
    nine tables, and from it the effect of \<open>apply_changes\<close> and of its undo.

  The chain of blocks (BL). A block is checked, evaluated in one pending state and applied with its undo
  state; blocks of other forks wait in the block tree until their fork is the longer one.
  \<^item> \<open>Bts_Block\<close>: \<open>block.cpp\<close> and the steps of \<open>extend_chain\<close> that work on the pending state of a block,
    composed in \<open>block_state\<close>: header, delegate, production statistics, transactions, pay, shuffle, seed.
  \<^item> \<open>Bts_Fork\<close>: the state of \<open>chain_database_impl\<close> and \<open>store_and_index\<close>, the marks, \<open>extend_chain\<close>,
    \<open>pop_block\<close>, \<open>switch_to_fork\<close>, \<open>push_block\<close>, the waiting transactions and \<open>generate_block\<close>. A run
    gives the state also with an error, as the code does when it throws.
  \<^item> \<open>Bts_Production\<close>: the count of produced and missed blocks, the delegates of a round, the fee rate.
  \<^item> \<open>Bts_Books\<close>, \<open>Bts_Clean\<close>: what a block keeps: the surplus of every asset, and the shape of its
    pending state. \<open>Bts_Ledger\<close>: the histories of chain states as an inductive predicate, with the undo
    states that lead back; extending and popping move along a history.
  \<^item> \<open>Bts_Tree\<close>: marking and storing in the block tree. \<open>Bts_Node\<close>: the invariant of a node and that
    every run of the node keeps it. \<open>Bts_Sample_Node\<close>: blocks for the instances, with a fork switch that
    is evaluated. \<open>Bts_Blockchain\<close>: the properties of the node. \<open>Bts_Genesis\<close>: the genesis state of a
    chain and \<open>sanity_check\<close>, and that the books of a node balance from there on. The invariant of a node
    is about \<open>plain\<close> blocks: no bids and asks, and no transaction that stores a null record (\<open>tidy\<close>).
  \<^item> \<open>Bts_Main_Chain\<close>: the lookups by number and identifier, and the relation \<open>main_chain n hs st\<close>: the
    tables of \<open>st\<close> describe the chain of the headers \<open>hs\<close>; extending, storing beside it and popping.
  \<^item> \<open>Bts_Sync\<close>: the part of \<open>client.cpp\<close> (BL's sibling \<open>client\<close>) that serves the network: the
    synopsis of a chain, the answer with the ids that follow, items that arrive or are asked for. Over
    \<open>main_chain\<close> a round of this protocol between two nodes is shown to find their common blocks, up to
    the halving of the synopsis. A C assertion stops a debug build only: the record \<open>build\<close> says which.
  \<^item> \<open>Bts_Net\<close>: the peer-to-peer node (\<open>net/node.cpp\<close>), whose delegate is this client: what it keeps
    about each peer, the handlers of the messages of the synchronisation and of the inventories, one
    round of each of its loops, and its runs as an inductive relation over events. A handler is one step;
    the tasks of the program can also change where a message is sent, which the model does not split.
    The handshake, the database of peers and the timing of requests are not modelled.
  \<^item> \<open>Bts_Gossip\<close>: the locale \<open>node_property\<close> gives that a property kept by the primitive changes of a
    node is kept by all of its runs; it is interpreted for the requests that are never forgotten and for
    the items that are advertised once. \<open>Bts_Peer\<close>: the synopsis that a node sends to a peer.

  The hash functions (SPH), each with init, update and close as functions on the context record, for
  every platform \<open>sph_types.h\<close> distinguishes.
  \<^item> \<open>Prelude\<close>, \<open>Sph_Types\<close>: words and bytes; \<open>sph_types.h\<close>, its platform detection and accessors.
  \<^item> \<open>Hash_Interface\<close>: the contract of an incremental hash as the locale \<open>incremental_hash\<close>.
  \<^item> \<open>Md_Helper\<close>: \<open>md_helper.c\<close> over the macros of the file that includes it, and the locales that
    derive the contract from the laws of a compression function; each hash interprets them.
  \<^item> \<open>Momentum\<close>: the search and the verification of the proof of work (\<open>miner/fast_momentum.cpp\<close>,
    \<open>miner/hashtable.hpp\<close>), a client of SHA-512. The threads of the search share the hash table without a
    lock: each access to one of its fields is a step of its own, and a schedule orders the steps. Windows
    has another table, modelled as calls that run to their end.
  \<^item> \<open>Sha2_Spec\<close>, \<open>Sha1_Spec\<close>, \<open>Md45_Spec\<close>, \<open>Ripemd_Spec\<close>, \<open>Prime_Roots\<close>: the published definitions.
  \<^item> \<open>Sha2_Small\<close>, \<open>Sha2_Big\<close>, \<open>Sha1\<close>, \<open>Sha0\<close>, \<open>Md5\<close>, \<open>Md4\<close>, \<open>Md2\<close>, \<open>Ripemd\<close>, \<open>Ripemd128\<close>,
    \<open>Ripemd160\<close>: the files of these names (\<open>sha2.c\<close> and \<open>sha2big.c\<close> for the first two, \<open>ripemd.c\<close> for
    the last three). The compression functions are the unrolled code; the lemmas show that they are
    the published loops, and the properties that the interface computes the published hash of the
    concatenated pieces. \<open>sph_md2\<close> does not, and \<open>Md2\<close> says which data it loses.

  Bounds. Lengths of messages are below the limit of the length field, which is what the code counts;
  the theorems say so. FIPS 180-4 defines SHA-256 below \<open>2\<^sup>6\<^sup>4\<close> bits; its
  specification here takes the length of any message modulo \<open>2\<^sup>6\<^sup>4\<close> bits, which covers what the comment of
  \<open>md_helper.c\<close> says of messages of more than two exabytes. Signed overflow is undefined in C++; where the code
  adds amounts and tests the sum, the sums wrap around here. Accesses of several threads to one field
  are taken as atomic and in the order of the schedule. Identifiers of accounts, assets and proposals are \<open>fc::signed_int\<close>, integers of
  the \<open>fc\<close> library, and integers here. Iteration over a hash map takes the order of its association
  list; no result depends on that order, except for which of several errors is reported.

  Records are stored whole, while \<open>FC_REFLECT\<close> leaves \<open>last_update\<close> out of \<open>asset_record\<close>: no modelled
  operation reads it.

  Not modelled, and why. The \<open>fc\<close> library, LevelDB and Qt are not part of the repository. Of the
  stored \<open>transaction_record\<close> only the location and the transaction are kept, which is all that is
  read. Short and cover orders have no evaluation in the source. The memos of deposits and the text of
  addresses are base58 and key derivation of \<open>fc\<close>. Of \<open>chain_database.cpp\<close> the opening and closing of
  files, the observers, the iteration over tables and the export of the block tree as a
  graph are not modelled; the wallet, the sockets of the network and the other hashes of SPH are not
  modelled yet; the user interface, the command line and the tests are I/O and glue.
\<close>

end
